(* ===== verification/Py_Prelude.thy ===== *)
theory Py_Prelude
  imports Main "HOL-Library.Sublist"
begin

text \<open>
  The Python fragment both tools are written in: exceptions as values of a sum type, the
  built-in string operations, and the conversions between integers and decimal or
  hexadecimal text.  Characters are code points below 256 and the case operations act on
  the ASCII letters.

  The collections \<open>py_eval\<close> (equations that evaluate Python built-ins) and
  \<open>res_elims\<close> (inversion of a successful run) carry the automation of the component
  theories.
\<close>

named_theorems py_eval \<open>evaluation of Python built-ins\<close>
named_theorems res_elims \<open>inversion of results\<close>

section \<open>Exceptions\<close>

datatype py_error =
    RuntimeError string
  | ValueError
  | KeyError string
  | IndexError
  | AttributeError
  | TypeError
  | NameError

type_synonym 'a res = "py_error + 'a"

text \<open>Sequencing of two statements: an exception of the first skips the second.\<close>

fun rbind :: "'a res \<Rightarrow> ('a \<Rightarrow> 'b res) \<Rightarrow> 'b res" where
  "rbind (Inl e) k = Inl e"
| "rbind (Inr x) k = k x"

lemma rbind_cong [fundef_cong]:
  "m = m' \<Longrightarrow> (\<And>x. m' = Inr x \<Longrightarrow> k x = k' x) \<Longrightarrow> rbind m k = rbind m' k'"
  by (cases m') auto

lemma rbind_Inr_iff: "rbind m k = Inr y \<longleftrightarrow> (\<exists>x. m = Inr x \<and> k x = Inr y)"
  by (cases m) auto

lemma rbind_InrE [res_elims]:
  assumes "rbind m k = Inr y"
  obtains x where "m = Inr x" and "k x = Inr y"
  using assms by (auto simp: rbind_Inr_iff)

lemma rbind_InlE [res_elims]:
  assumes "rbind m k = Inl e"
  obtains "m = Inl e" | x where "m = Inr x" and "k x = Inl e"
  using assms by (cases m) auto

lemma rbind_Inr_right [simp]: "rbind m Inr = m"
  by (cases m) auto

lemma rbind_assoc: "rbind (rbind m k) h = rbind m (\<lambda>x. rbind (k x) h)"
  by (cases m) auto

text \<open>A \<open>for\<close> loop that collects the result of its body.\<close>

fun mapM :: "('a \<Rightarrow> 'b res) \<Rightarrow> 'a list \<Rightarrow> 'b list res" where
  "mapM f [] = Inr []"
| "mapM f (x # xs) = rbind (f x) (\<lambda>y. rbind (mapM f xs) (\<lambda>ys. Inr (y # ys)))"

lemma mapM_cong [fundef_cong]:
  "xs = ys \<Longrightarrow> (\<And>x. x \<in> set ys \<Longrightarrow> f x = g x) \<Longrightarrow> mapM f xs = mapM g ys"
  by (induction xs arbitrary: ys) auto

lemma mapM_Inr_list_all2:
  "mapM f xs = Inr ys \<longleftrightarrow> list_all2 (\<lambda>x y. f x = Inr y) xs ys"
  by (induction xs arbitrary: ys) (auto simp: rbind_Inr_iff list_all2_Cons1)

lemma mapM_length: "mapM f xs = Inr ys \<Longrightarrow> length ys = length xs"
  by (simp add: mapM_Inr_list_all2 list_all2_lengthD)

lemma mapM_map_Inr [simp]: "mapM (\<lambda>x. Inr (f x)) xs = Inr (map f xs)"
  by (induction xs) auto

lemma mapM_in_set:
  "mapM f xs = Inr ys \<Longrightarrow> y \<in> set ys \<Longrightarrow> \<exists>x \<in> set xs. f x = Inr y"
  by (induction xs arbitrary: ys) (auto simp: rbind_Inr_iff)

text \<open>A \<open>for\<close> loop that threads a state through its body.\<close>

lemma mapM_total: "(\<And>x. x \<in> set xs \<Longrightarrow> \<exists>y. f x = Inr y) \<Longrightarrow> \<exists>ys. mapM f xs = Inr ys"
proof (induction xs)
  case (Cons x xs)
  then obtain y ys where "f x = Inr y" and "mapM f xs = Inr ys" by fastforce
  then show ?case by simp
qed simp

lemma mapM_nth: "mapM f xs = Inr ys \<Longrightarrow> k < length xs \<Longrightarrow> f (xs ! k) = Inr (ys ! k)"
  by (induction xs arbitrary: ys k) (auto simp: rbind_Inr_iff nth_Cons split: nat.split)

lemma mapM_eq_map: "(\<And>x. x \<in> set xs \<Longrightarrow> f x = Inr (g x)) \<Longrightarrow> mapM f xs = Inr (map g xs)"
  by (induction xs) simp_all

fun foldM :: "('a \<Rightarrow> 's \<Rightarrow> 's res) \<Rightarrow> 'a list \<Rightarrow> 's \<Rightarrow> 's res" where
  "foldM f [] s = Inr s"
| "foldM f (x # xs) s = rbind (f x s) (foldM f xs)"

lemma foldM_Nil [simp]: "foldM f [] = Inr"
  by (rule ext) simp

lemma foldM_append: "foldM f (xs @ ys) s = rbind (foldM f xs s) (foldM f ys)"
proof (induction xs arbitrary: s)
  case (Cons x xs)
  then have "foldM f (xs @ ys) = (\<lambda>s. rbind (foldM f xs s) (foldM f ys))" by auto
  then show ?case by (simp add: rbind_assoc)
qed simp

lemma foldM_invariant:
  assumes "foldM f xs s = Inr t" and "P s"
    and "\<And>x s s'. x \<in> set xs \<Longrightarrow> P s \<Longrightarrow> f x s = Inr s' \<Longrightarrow> P s'"
  shows "P t"
  using assms
proof (induction xs arbitrary: s)
  case Nil
  then show ?case by simp
next
  case (Cons x xs)
  from Cons.prems(1) obtain u where "f x s = Inr u" and "foldM f xs u = Inr t"
    by (auto simp: rbind_Inr_iff)
  with Cons show ?case by (metis list.set_intros)
qed

section \<open>Strings\<close>

fun split_on :: "char \<Rightarrow> string \<Rightarrow> string list" where
  "split_on d [] = [[]]"
| "split_on d (c # cs) =
     (if c = d then [] # split_on d cs
      else case split_on d cs of [] \<Rightarrow> [[c]] | w # ws \<Rightarrow> (c # w) # ws)"

lemma split_on_nonempty [simp]: "split_on d s \<noteq> []"
  by (induction s) (auto split: list.splits)

lemma split_on_none: "d \<notin> set s \<Longrightarrow> split_on d s = [s]"
  by (induction s) auto

lemma split_on_append: "d \<notin> set s \<Longrightarrow> split_on d (s @ d # t) = s # split_on d t"
  by (induction s) auto

text \<open>
  \<open>str.replace(old, new)\<close>: every occurrence from left to right, without overlap.  No
  caller passes an empty \<open>old\<close>.
\<close>

function (sequential) replace_all :: "string \<Rightarrow> string \<Rightarrow> string \<Rightarrow> string" where
  "replace_all old new [] = []"
| "replace_all old new (c # cs) =
     (if old \<noteq> [] \<and> prefix old (c # cs)
      then new @ replace_all old new (drop (length old) (c # cs))
      else c # replace_all old new cs)"
  by pat_completeness auto
termination
  by (relation "measure (\<lambda>(old, new, s). length s)")
     (auto simp: Suc_le_eq length_greater_0_conv[symmetric] simp del: length_greater_0_conv)

lemma replace_all_absent:
  "\<not> sublist old s \<Longrightarrow> replace_all old new s = s"
proof (induction s)
  case (Cons c cs)
  then have "\<not> prefix old (c # cs)" and "\<not> sublist old cs"
    by (auto simp: sublist_Cons_right)
  with Cons.IH show ?case by simp
qed simp

lemma replace_all_skip:
  "c \<notin> set pre \<Longrightarrow> replace_all (c # old) new (pre @ s) = pre @ replace_all (c # old) new s"
  by (induction pre) auto

lemma replace_all_at:
  "old \<noteq> [] \<Longrightarrow> \<not> sublist old s \<Longrightarrow> replace_all old new (old @ s) = new @ s"
  by (cases old) (simp_all add: replace_all_absent)

lemma not_sublist_char: "c \<in> set p \<Longrightarrow> c \<notin> set s \<Longrightarrow> \<not> sublist p s"
  by (auto simp: sublist_def)

text \<open>\<open>sep.join(list)\<close>.\<close>

fun join :: "string \<Rightarrow> string list \<Rightarrow> string" where
  "join sep [] = []"
| "join sep [s] = s"
| "join sep (s # t # ts) = s @ sep @ join sep (t # ts)"

definition removeprefix :: "string \<Rightarrow> string \<Rightarrow> string" where
  "removeprefix p s = (if prefix p s then drop (length p) s else s)"

definition removesuffix :: "string \<Rightarrow> string \<Rightarrow> string" where
  "removesuffix p s = (if suffix p s then take (length s - length p) s else s)"

lemma removeprefix_append [simp]: "removeprefix p (p @ s) = s"
  by (simp add: removeprefix_def)

lemma removesuffix_append [simp]: "removesuffix p (s @ p) = s"
  by (simp add: removesuffix_def suffix_def)

lemma removeprefix_no: "\<not> prefix p s \<Longrightarrow> removeprefix p s = s"
  by (simp add: removeprefix_def)

lemma removesuffix_no: "\<not> suffix p s \<Longrightarrow> removesuffix p s = s"
  by (simp add: removesuffix_def)

text \<open>\<open>str.strip(chars)\<close>, with the set of characters as a predicate.\<close>

definition strip_chars :: "(char \<Rightarrow> bool) \<Rightarrow> string \<Rightarrow> string" where
  "strip_chars P s = rev (dropWhile P (rev (dropWhile P s)))"

lemma strip_chars_ends:
  assumes "s \<noteq> [] \<Longrightarrow> \<not> P (hd s) \<and> \<not> P (last s)"
  shows "strip_chars P s = s"
proof (cases s rule: rev_cases)
  case Nil
  then show ?thesis by (simp add: strip_chars_def)
next
  case (snoc t c)
  have "dropWhile P s = s"
  proof (cases s)
    case (Cons x xs)
    with assms show ?thesis by simp
  qed simp
  then show ?thesis using snoc assms by (simp add: strip_chars_def)
qed

lemma strip_chars_none:
  assumes "\<And>c. c \<in> set s \<Longrightarrow> \<not> P c"
  shows "strip_chars P s = s"
  by (rule strip_chars_ends) (use assms in auto)

definition is_space :: "char \<Rightarrow> bool" where
  "is_space c \<longleftrightarrow> (let n = of_char c :: nat in n = 32 \<or> (9 \<le> n \<and> n \<le> 13))"

definition upper_char :: "char \<Rightarrow> char" where
  "upper_char c = (let n = of_char c :: nat in if 97 \<le> n \<and> n \<le> 122 then char_of (n - 32) else c)"

definition lower_char :: "char \<Rightarrow> char" where
  "lower_char c = (let n = of_char c :: nat in if 65 \<le> n \<and> n \<le> 90 then char_of (n + 32) else c)"

definition str_upper :: "string \<Rightarrow> string" where
  "str_upper = map upper_char"

definition str_lower :: "string \<Rightarrow> string" where
  "str_lower = map lower_char"

text \<open>Python's \<open>sub in s\<close> on strings.\<close>

fun contains :: "string \<Rightarrow> string \<Rightarrow> bool" where
  "contains p [] \<longleftrightarrow> p = []"
| "contains p (c # cs) \<longleftrightarrow> prefix p (c # cs) \<or> contains p cs"

lemma contains_iff_sublist: "contains p s \<longleftrightarrow> sublist p s"
  by (induction s) (auto simp: sublist_Cons_right)

section \<open>Integers and their text\<close>

definition digit_char :: "nat \<Rightarrow> char" where
  "digit_char d = (if d < 10 then char_of (48 + d) else char_of (87 + d))"

definition digit_val :: "char \<Rightarrow> nat option" where
  "digit_val c = (let n = of_char c :: nat in
     if 48 \<le> n \<and> n \<le> 57 then Some (n - 48)
     else if 97 \<le> n \<and> n \<le> 122 then Some (n - 87)
     else if 65 \<le> n \<and> n \<le> 90 then Some (n - 55)
     else None)"

lemma digit_val_digit_char [py_eval]: "d < 16 \<Longrightarrow> digit_val (digit_char d) = Some d"
  by (auto simp: digit_val_def digit_char_def Let_def of_char_of)

function nat_str :: "nat \<Rightarrow> nat \<Rightarrow> string" where
  "nat_str b n =
     (if b < 2 \<or> n < b then [digit_char n] else nat_str b (n div b) @ [digit_char (n mod b)])"
  by pat_completeness auto
termination
  by (relation "measure snd") auto

declare nat_str.simps [simp del]

fun read_digits :: "nat \<Rightarrow> nat \<Rightarrow> string \<Rightarrow> nat option" where
  "read_digits b acc [] = Some acc"
| "read_digits b acc (c # cs) =
     (case digit_val c of
        None \<Rightarrow> None
      | Some d \<Rightarrow> if d < b then read_digits b (acc * b + d) cs else None)"

lemma read_digits_append:
  "read_digits b acc (s @ t) =
     (case read_digits b acc s of None \<Rightarrow> None | Some a \<Rightarrow> read_digits b a t)"
  by (induction s arbitrary: acc) (auto split: option.splits)

lemma read_digits_nat_str:
  assumes "2 \<le> b" and "b \<le> 16"
  shows "read_digits b 0 (nat_str b n) = Some n"
proof (induction n rule: less_induct)
  case (less n)
  show ?case
  proof (cases "n < b")
    case True
    with assms show ?thesis by (simp add: nat_str.simps [of b n] digit_val_digit_char)
  next
    case False
    with assms have "n div b < n" by simp
    then have IH: "read_digits b 0 (nat_str b (n div b)) = Some (n div b)" by (rule less)
    have small: "n mod b < b" using assms by simp
    moreover from small assms(2) have "n mod b < 16" by linarith
    then have "digit_val (digit_char (n mod b)) = Some (n mod b)"
      by (rule digit_val_digit_char)
    ultimately show ?thesis
      using False assms by (simp add: nat_str.simps [of b n] read_digits_append IH)
  qed
qed

text \<open>The characters of a printed number are digits, so never white space, a sign or a separator.\<close>

lemma nat_str_chars:
  assumes "2 \<le> b" and "b \<le> 16" and "c \<in> set (nat_str b n)"
  shows "\<exists>d < b. c = digit_char d"
  using assms(3)
proof (induction n rule: less_induct)
  case (less n)
  show ?case
  proof (cases "n < b")
    case True
    with less.prems show ?thesis by (auto simp: nat_str.simps [of b n])
  next
    case False
    with assms have "n div b < n" by simp
    from False assms less.prems
    have "c \<in> set (nat_str b (n div b)) \<or> c = digit_char (n mod b)"
      by (auto simp: nat_str.simps [of b n])
    moreover have "n mod b < b" using assms by simp
    ultimately show ?thesis using less.IH [OF \<open>n div b < n\<close>] by blast
  qed
qed

lemma nat_str_nonempty [simp]: "nat_str b n \<noteq> []"
  by (subst nat_str.simps) simp

text \<open>
  The text \<open>int()\<close> accepts: white space around it, an optional sign directly before the
  digits, and at least one digit.  \<open>us\<close> says whether single underscores between digits are
  allowed (Python 3.6 and later).
\<close>

fun drop_underscores :: "string \<Rightarrow> string option" where
  "drop_underscores [] = Some []"
| "drop_underscores [c] = (if c = CHR ''_'' then None else Some [c])"
| "drop_underscores (c # d # cs) =
     (if c = CHR ''_'' then None
      else if d = CHR ''_''
        then (if cs = [] then None else map_option ((#) c) (drop_underscores cs))
      else map_option ((#) c) (drop_underscores (d # cs)))"

lemma drop_underscores_none:
  "CHR ''_'' \<notin> set s \<Longrightarrow> drop_underscores s = Some s"
  by (induction s rule: drop_underscores.induct) auto

definition read_unsigned :: "bool \<Rightarrow> nat \<Rightarrow> string \<Rightarrow> nat option" where
  "read_unsigned us b s =
     (if s = [] then None
      else if us then Option.bind (drop_underscores s) (read_digits b 0)
      else read_digits b 0 s)"

definition read_signed :: "bool \<Rightarrow> nat \<Rightarrow> string \<Rightarrow> int option" where
  "read_signed us b s =
     (case s of
        [] \<Rightarrow> None
      | c # cs \<Rightarrow>
          if c = CHR ''-'' then map_option (\<lambda>n. - int n) (read_unsigned us b cs)
          else if c = CHR ''+'' then map_option int (read_unsigned us b cs)
          else map_option int (read_unsigned us b s))"

definition int_of_text :: "bool \<Rightarrow> string \<Rightarrow> int res" where
  "int_of_text us s =
     (case read_signed us 10 (strip_chars is_space s) of None \<Rightarrow> Inl ValueError | Some n \<Rightarrow> Inr n)"

text \<open>\<open>int(s)\<close> of Python 2 and of Python 3, and \<open>str(n)\<close>.\<close>

definition py2_int :: "string \<Rightarrow> int res" where
  "py2_int = int_of_text False"

definition py3_int :: "string \<Rightarrow> int res" where
  "py3_int = int_of_text True"

definition int_str :: "int \<Rightarrow> string" where
  "int_str n = (if n < 0 then CHR ''-'' # nat_str 10 (nat (- n)) else nat_str 10 (nat n))"

text \<open>\<open>int("0x" + s, 16)\<close>: the prefix fixes the position of the digits, white space may follow.\<close>

definition hex_of_text :: "string \<Rightarrow> int res" where
  "hex_of_text s =
     (case read_unsigned False 16 (rev (dropWhile is_space (rev s))) of
        None \<Rightarrow> Inl ValueError
      | Some n \<Rightarrow> Inr (int n))"

lemma digit_char_props:
  assumes "d < 16"
  shows "\<not> is_space (digit_char d)" and "digit_char d \<noteq> CHR ''_''" and "digit_char d \<noteq> CHR ''-''"
    and "digit_char d \<noteq> CHR ''+''" and "digit_char d \<noteq> CHR '';''" and "digit_char d \<noteq> CHR ''=''"
    and "digit_char d \<noteq> CHR ''x''" and "digit_char d \<noteq> CHR ''g''" and "digit_char d \<noteq> CHR ''/''"
proof -
  have ten: "is_space (char_of n) = (n = 32 \<or> (9 \<le> n \<and> n \<le> 13))" if "n < 256" for n :: nat
    using that by (simp add: is_space_def of_char_of)
  have eq: "char_of n = c \<longleftrightarrow> n = of_char c" if "n < 256" for n :: nat and c :: char
    using that by (metis char_of_char of_char_of mod_less)
  show "\<not> is_space (digit_char d)" and "digit_char d \<noteq> CHR ''_''"
    and "digit_char d \<noteq> CHR ''-''" and "digit_char d \<noteq> CHR ''+''" and "digit_char d \<noteq> CHR '';''"
    and "digit_char d \<noteq> CHR ''=''" and "digit_char d \<noteq> CHR ''x''" and "digit_char d \<noteq> CHR ''g''"
    and "digit_char d \<noteq> CHR ''/''"
    using assms by (simp_all add: digit_char_def ten eq)
qed

lemma nat_str_no_char:
  assumes "2 \<le> b" and "b \<le> 16" and "\<And>d. d < 16 \<Longrightarrow> digit_char d \<noteq> c"
  shows "c \<notin> set (nat_str b n)"
proof
  assume "c \<in> set (nat_str b n)"
  with assms(1,2) obtain d where "d < b" and c: "c = digit_char d" using nat_str_chars by blast
  with assms(2) have "d < 16" by linarith
  then have "digit_char d \<noteq> c" by (rule assms(3))
  with c show False by simp
qed

lemma nat_str_no_space:
  "2 \<le> b \<Longrightarrow> b \<le> 16 \<Longrightarrow> c \<in> set (nat_str b n) \<Longrightarrow> \<not> is_space c"
  by (metis nat_str_chars digit_char_props(1) order_less_le_trans)

lemma int_str_no_char:
  assumes "\<And>d. d < 16 \<Longrightarrow> digit_char d \<noteq> c" and "c \<noteq> CHR ''-''"
  shows "c \<notin> set (int_str n)"
  using assms nat_str_no_char [of 10 c] by (auto simp: int_str_def)

lemma int_str_no_space: "c \<in> set (int_str n) \<Longrightarrow> \<not> is_space c"
  using nat_str_no_space [of 10 c] by (auto simp: int_str_def is_space_def split: if_splits)

lemma int_str_nonempty [simp]: "int_str n \<noteq> []"
  by (simp add: int_str_def)

lemma read_unsigned_nat_str:
  "2 \<le> b \<Longrightarrow> b \<le> 16 \<Longrightarrow> read_unsigned us b (nat_str b n) = Some n"
  by (simp add: read_unsigned_def read_digits_nat_str drop_underscores_none
      nat_str_no_char digit_char_props)

lemma nat_str_hd:
  assumes "2 \<le> b" and "b \<le> 16"
  obtains c cs where "nat_str b n = c # cs" and "c \<noteq> CHR ''-''" and "c \<noteq> CHR ''+''"
proof (cases "nat_str b n")
  case (Cons c cs)
  then have "c \<in> set (nat_str b n)" by simp
  then obtain d where "d < b" and c: "c = digit_char d"
    using nat_str_chars [OF assms] by blast
  with assms have "d < 16" by simp
  then have "c \<noteq> CHR ''-''" "c \<noteq> CHR ''+''" unfolding c by (rule digit_char_props)+
  with Cons show ?thesis using that by blast
qed simp

lemma int_of_text_int_str [py_eval, simp]: "int_of_text us (int_str n) = Inr n"
proof -
  have strip: "strip_chars is_space (int_str n) = int_str n"
    by (intro strip_chars_none int_str_no_space)
  obtain c cs where cs: "nat_str 10 (nat n) = c # cs" "c \<noteq> CHR ''-''" "c \<noteq> CHR ''+''"
    by (rule nat_str_hd [of 10]) auto
  have pos: "read_unsigned us 10 (c # cs) = Some (nat n)"
    using read_unsigned_nat_str [of 10 us "nat n"] cs(1) by simp
  have "read_signed us 10 (int_str n) = Some n"
  proof (cases "n < 0")
    case True
    then show ?thesis
      by (simp add: int_str_def read_signed_def read_unsigned_nat_str)
  next
    case False
    then show ?thesis using cs pos by (simp add: int_str_def read_signed_def)
  qed
  then show ?thesis by (simp add: int_of_text_def strip)
qed

lemma py2_int_int_str [py_eval, simp]: "py2_int (int_str n) = Inr n"
  by (simp add: py2_int_def)

lemma py3_int_int_str [py_eval, simp]: "py3_int (int_str n) = Inr n"
  by (simp add: py3_int_def)

lemma hex_of_text_nat_str [py_eval, simp]: "hex_of_text (nat_str 16 n) = Inr (int n)"
proof -
  have "\<not> is_space (last (nat_str 16 n))"
    by (rule nat_str_no_space [of 16 _ n]) auto
  then have "dropWhile is_space (rev (nat_str 16 n)) = rev (nat_str 16 n)"
    by (cases "nat_str 16 n" rule: rev_cases) auto
  then show ?thesis by (simp add: hex_of_text_def read_unsigned_nat_str)
qed

section \<open>Truth values\<close>

text \<open>Python's truth value of \<open>str | None\<close> and \<open>int | None\<close>.\<close>

definition truthy_str :: "string option \<Rightarrow> bool" where
  "truthy_str s \<longleftrightarrow> s \<noteq> None \<and> s \<noteq> Some []"

definition truthy_int :: "int option \<Rightarrow> bool" where
  "truthy_int n \<longleftrightarrow> n \<noteq> None \<and> n \<noteq> Some 0"

lemma truthy_simps [simp]:
  "truthy_str None = False" "truthy_str (Some s) = (s \<noteq> [])"
  "truthy_int None = False" "truthy_int (Some n) = (n \<noteq> 0)"
  by (auto simp: truthy_str_def truthy_int_def)

section \<open>Numbered names\<close>

text \<open>\<open>'{}_{}'.format(name, k)\<close>\<close>

definition numbered :: "string \<Rightarrow> nat \<Rightarrow> string" where
  "numbered name k = name @ ''_'' @ nat_str 10 k"

lemma read_digits_nat_str_10: "read_digits 10 0 (nat_str 10 k) = Some k"
  by (rule read_digits_nat_str) simp_all

lemma nat_str_inj: "nat_str 10 j = nat_str 10 k \<Longrightarrow> j = k"
  by (metis option.inject read_digits_nat_str_10)

lemma numbered_inj: "numbered name j = numbered name k \<Longrightarrow> j = k"
  by (auto simp: numbered_def intro: nat_str_inj)

lemma finite_numbered: "finite {k. n \<le> k \<and> numbered name k \<in> set names}"
proof -
  have "inj_on (numbered name) {k. n \<le> k \<and> numbered name k \<in> set names}"
    by (auto simp: inj_on_def intro: numbered_inj)
  moreover have "finite (numbered name ` {k. n \<le> k \<and> numbered name k \<in> set names})"
    by (rule finite_subset [of _ "set names"]) auto
  ultimately show ?thesis by (rule finite_imageD [rotated])
qed

end
