(* ===== verification/Element_Tree.thy ===== *)
theory Element_Tree
  imports Py_Prelude "HOL-Library.AList"
begin

text \<open>
  The documents the map file generator reads and writes, as element trees: the tag, the
  prefixes declared in scope, the attributes in document order, the text before the first
  child, and the children.  Parsing and printing XML text is lxml's work and is not modelled.
  How lxml expands a name of \<open>find\<close>/\<open>findall\<close> with the \<open>namespaces=\<close> argument is a parameter
  (the type \<open>resolver\<close>); what the theorems need of it is the hypothesis \<open>plain_names\<close>.
\<close>

type_synonym nsmap = "(string option \<times> string) list"

datatype elem = Elem
  (el_tag: string)
  (el_nsmap: nsmap)
  (el_attrib: "(string \<times> string) list")
  (el_text: "string option")
  (el_children: "elem list")

type_synonym resolver = "nsmap \<Rightarrow> string \<Rightarrow> string"

text \<open>
  The documented behaviour the map file reader relies on: without a default namespace in
  scope, an unprefixed name stands for itself.
\<close>

definition plain_names :: "resolver \<Rightarrow> bool" where
  "plain_names rs \<longleftrightarrow>
     (\<forall>ns n. None \<notin> fst ` set ns \<longrightarrow> CHR '':'' \<notin> set n \<longrightarrow> rs ns n = n)"

text \<open>A resolver with that behaviour: names are taken in the default namespace, if there is one.\<close>

definition default_ns_resolver :: resolver where
  "default_ns_resolver ns n =
     (case map_of ns None of None \<Rightarrow> n | Some uri \<Rightarrow> ''{'' @ uri @ ''}'' @ n)"

lemma plain_names_default [simp]: "plain_names default_ns_resolver"
  by (simp add: plain_names_def default_ns_resolver_def flip: map_of_eq_None_iff)

lemma plain_names_rs:
  "plain_names rs \<Longrightarrow> None \<notin> fst ` set ns \<Longrightarrow> CHR '':'' \<notin> set n \<Longrightarrow> rs ns n = n"
  by (simp add: plain_names_def)

section \<open>Building\<close>

text \<open>\<open>ET.SubElement(parent, tag)\<close> creates an empty element in the scope of its parent.\<close>

definition el_new :: "nsmap \<Rightarrow> string \<Rightarrow> elem" where
  "el_new ns tag = Elem tag ns [] None []"

fun el_append :: "elem \<Rightarrow> elem \<Rightarrow> elem" where
  "el_append (Elem t ns as tx cs) c = Elem t ns as tx (cs @ [c])"

fun el_set :: "string \<Rightarrow> string \<Rightarrow> elem \<Rightarrow> elem" where
  "el_set k v (Elem t ns as tx cs) = Elem t ns (AList.update k v as) tx cs"

fun el_set_text :: "string option \<Rightarrow> elem \<Rightarrow> elem" where
  "el_set_text s (Elem t ns as tx cs) = Elem t ns as s cs"

definition el_get :: "elem \<Rightarrow> string \<Rightarrow> string option" where
  "el_get e k = map_of (el_attrib e) k"

lemma el_new_sel [simp]:
  "el_tag (el_new ns t) = t" "el_nsmap (el_new ns t) = ns" "el_children (el_new ns t) = []"
  "el_text (el_new ns t) = None" "el_attrib (el_new ns t) = []" "el_get (el_new ns t) k = None"
  by (auto simp: el_new_def el_get_def)

lemma el_set_sel [simp]:
  "el_tag (el_set k v e) = el_tag e" "el_nsmap (el_set k v e) = el_nsmap e"
  "el_children (el_set k v e) = el_children e" "el_text (el_set k v e) = el_text e"
  by (cases e; simp)+

lemma el_append_sel [simp]:
  "el_tag (el_append e c) = el_tag e" "el_nsmap (el_append e c) = el_nsmap e"
  "el_children (el_append e c) = el_children e @ [c]" "el_text (el_append e c) = el_text e"
  "el_get (el_append e c) k = el_get e k"
  by (cases e; simp add: el_get_def)+

lemma el_set_text_sel [simp]:
  "el_tag (el_set_text s e) = el_tag e" "el_nsmap (el_set_text s e) = el_nsmap e"
  "el_children (el_set_text s e) = el_children e" "el_text (el_set_text s e) = s"
  "el_get (el_set_text s e) k = el_get e k"
  by (cases e; simp add: el_get_def)+

text \<open>
  The contract of an attribute store: what is read after a write.  The client lemmas cover the
  pattern every writer of the generator uses, a write under a condition.
\<close>

locale attribute_store =
  fixes get :: "'e \<Rightarrow> string \<Rightarrow> string option"
    and put :: "string \<Rightarrow> string \<Rightarrow> 'e \<Rightarrow> 'e"
  assumes get_put: "get (put k v e) k' = (if k' = k then Some v else get e k')"
begin

lemma get_put_same: "get (put k v e) k = Some v"
  by (simp add: get_put)

lemma get_put_other: "k' \<noteq> k \<Longrightarrow> get (put k v e) k' = get e k'"
  by (simp add: get_put)

lemma get_put_if: "get (if b then put k v e else e) k' = (if b \<and> k' = k then Some v else get e k')"
  by (simp add: get_put)

lemma put_put_get: "get (put k v (put k w e)) k' = get (put k v e) k'"
  by (simp add: get_put)

lemma put_commute_get: "k \<noteq> l \<Longrightarrow> get (put k v (put l w e)) k' = get (put l w (put k v e)) k'"
  by (simp add: get_put)

end

interpretation attr: attribute_store el_get el_set
proof unfold_locales
  fix k v k' :: string and e :: elem
  show "el_get (el_set k v e) k' = (if k' = k then Some v else el_get e k')"
    by (cases e) (simp add: el_get_def update_conv)
qed

declare attr.get_put [simp]

section \<open>Searching\<close>

definition find_plain :: "string \<Rightarrow> elem \<Rightarrow> elem option" where
  "find_plain n e = List.find (\<lambda>c. el_tag c = n) (el_children e)"

definition find_ns :: "resolver \<Rightarrow> nsmap \<Rightarrow> string \<Rightarrow> elem \<Rightarrow> elem option" where
  "find_ns rs ns n e = List.find (\<lambda>c. el_tag c = rs ns n) (el_children e)"

definition findall_ns :: "resolver \<Rightarrow> nsmap \<Rightarrow> string \<Rightarrow> elem \<Rightarrow> elem list" where
  "findall_ns rs ns n e = filter (\<lambda>c. el_tag c = rs ns n) (el_children e)"

lemma find_append:
  "List.find P (xs @ ys) = (case List.find P xs of None \<Rightarrow> List.find P ys | Some x \<Rightarrow> Some x)"
  by (induction xs) auto

lemma find_ns_plain: "rs ns n = n \<Longrightarrow> find_ns rs ns n e = find_plain n e"
  by (simp add: find_ns_def find_plain_def)

lemma find_plain_new [simp]: "find_plain n (el_new ns t) = None"
  by (simp add: find_plain_def)

lemma find_plain_set [simp]: "find_plain n (el_set k v e) = find_plain n e"
  by (simp add: find_plain_def)

lemma find_plain_append [simp]:
  "find_plain n (el_append e c) =
     (case find_plain n e of None \<Rightarrow> (if el_tag c = n then Some c else None) | Some x \<Rightarrow> Some x)"
  by (simp add: find_plain_def find_append split: option.splits)

lemma find_plain_if [simp]:
  "find_plain n (if b then x else y) = (if b then find_plain n x else find_plain n y)"
  by simp

lemma el_size_children: "c \<in> set (el_children e) \<Longrightarrow> size c < size e"
  by (cases e) (auto simp: less_Suc_eq_le dest: size_list_estimation' [where f = size, OF _ order_refl])

lemma findall_size: "c \<in> set (findall_ns rs ns n e) \<Longrightarrow> size c < size e"
  by (simp add: findall_ns_def el_size_children)

end
