(* ===== verification/Map_Settings.thy ===== *)
theory Map_Settings
  imports Element_Tree
begin

text \<open>
  \<open>HistorySetting\<close> and \<open>EncryptionSettings\<close> of
  tools/mapfileGenerator/ctk\_opcua\_generator\_tools/generatorClass.py: their fields, their
  completeness checks, and how they are written to and read from the attributes of an element.
\<close>

section \<open>History settings\<close>

record history_setting =
  hs_name :: string
  entriesPerResponse :: "int option"
  bufferLength :: "int option"
  interval :: "int option"
  backendType :: string

definition HistorySetting_init :: "string \<Rightarrow> history_setting" where
  "HistorySetting_init name =
     \<lparr>hs_name = name, entriesPerResponse = Some 1000, bufferLength = Some 100,
      interval = Some 1000, backendType = ''circular buffer''\<rparr>"

definition checkSettings :: "history_setting \<Rightarrow> unit res" where
  "checkSettings h =
     (if entriesPerResponse h = None
      then Inl (RuntimeError ''Number of entries per response not set.'')
      else if interval h = None then Inl (RuntimeError ''Sampling interval not set.'')
      else if bufferLength h = None then Inl (RuntimeError ''Buffer length not set.'')
      else Inr ())"

text \<open>\<open>str(n)\<close> of an \<open>int | None\<close>.\<close>

definition str_int_opt :: "int option \<Rightarrow> string" where
  "str_int_opt n = (case n of None \<Rightarrow> ''None'' | Some i \<Rightarrow> int_str i)"

definition influx_text :: "history_setting \<Rightarrow> string" where
  "influx_text h = (if backendType h = ''influxDB'' then ''True'' else ''False'')"

definition createHistory :: "history_setting \<Rightarrow> elem \<Rightarrow> elem" where
  "createHistory h e =
     el_set ''useInfluxBackend'' (influx_text h)
      (el_set ''interval'' (str_int_opt (interval h))
       (el_set ''buffer_length'' (str_int_opt (bufferLength h))
        (el_set ''entries_per_response'' (str_int_opt (entriesPerResponse h))
         (el_set ''name'' (hs_name h) e))))"

text \<open>Reading an optional integer attribute: the field keeps its value when the attribute is absent.\<close>

definition read_int_attr :: "elem \<Rightarrow> string \<Rightarrow> int option \<Rightarrow> int option res" where
  "read_int_attr e k old =
     (case el_get e k of None \<Rightarrow> Inr old | Some s \<Rightarrow> rbind (py3_int s) (\<lambda>n. Inr (Some n)))"

definition readHistory :: "elem \<Rightarrow> history_setting \<Rightarrow> history_setting res" where
  "readHistory e h =
     rbind (read_int_attr e ''entries_per_response'' (entriesPerResponse h)) (\<lambda>epr.
     rbind (read_int_attr e ''buffer_length'' (bufferLength h)) (\<lambda>bl.
     rbind (read_int_attr e ''interval'' (interval h)) (\<lambda>iv.
       Inr \<lparr>hs_name = (case el_get e ''name'' of None \<Rightarrow> hs_name h | Some s \<Rightarrow> s),
            entriesPerResponse = epr, bufferLength = bl, interval = iv,
            backendType = (if el_get e ''useInfluxBackend'' = Some ''True''
                           then ''influxDB'' else ''circular buffer'')\<rparr>)))"

definition writeSetting :: "history_setting \<Rightarrow> elem \<Rightarrow> elem" where
  "writeSetting h e =
     (let e1 = el_set ''useInfluxBackend'' (influx_text h)
                (el_set ''interval'' (str_int_opt (interval h))
                 (el_set ''entries_per_response'' (str_int_opt (entriesPerResponse h))
                  (el_set ''name'' (hs_name h) e)))
      in if backendType h \<noteq> ''influxDB''
         then el_set ''buffer_length'' (str_int_opt (bufferLength h)) e1 else e1)"

lemma writeSetting_sel [simp]:
  "el_tag (writeSetting h e) = el_tag e" "el_nsmap (writeSetting h e) = el_nsmap e"
  "el_children (writeSetting h e) = el_children e"
  by (simp_all add: writeSetting_def Let_def)

text \<open>
  A setting the generator's dialog can produce: the backend is one of the two of its selection,
  the numbers are set.  An influxDB setting does not carry its buffer length into the file.
\<close>

definition history_wf :: "history_setting \<Rightarrow> bool" where
  "history_wf h \<longleftrightarrow> entriesPerResponse h \<noteq> None \<and> interval h \<noteq> None \<and> bufferLength h \<noteq> None \<and>
     backendType h \<in> {''influxDB'', ''circular buffer''}"

definition saved_history :: "history_setting \<Rightarrow> history_setting" where
  "saved_history h =
     (if backendType h = ''influxDB'' then h\<lparr>bufferLength := Some 100\<rparr> else h)"

lemma history_wf_check: "history_wf h \<Longrightarrow> checkSettings h = Inr ()"
  by (auto simp: history_wf_def checkSettings_def)

lemma readHistory_writeSetting:
  assumes "history_wf h"
  shows "readHistory (writeSetting h (el_new ns t)) (HistorySetting_init nm) = Inr (saved_history h)"
proof -
  obtain n a b c d where h: "h = \<lparr>hs_name = n, entriesPerResponse = a, bufferLength = b,
      interval = c, backendType = d\<rparr>"
    by (cases h)
  show ?thesis
    using assms unfolding h
    by (auto simp: history_wf_def readHistory_def writeSetting_def saved_history_def
        HistorySetting_init_def influx_text_def read_int_attr_def str_int_opt_def Let_def)
qed

lemma readHistory_createHistory:
  assumes "history_wf h"
  shows "readHistory (createHistory h (el_new ns t)) (HistorySetting_init nm) = Inr h"
proof -
  obtain n a b c d where h: "h = \<lparr>hs_name = n, entriesPerResponse = a, bufferLength = b,
      interval = c, backendType = d\<rparr>"
    by (cases h)
  show ?thesis
    using assms unfolding h
    by (auto simp: history_wf_def readHistory_def createHistory_def
        HistorySetting_init_def influx_text_def read_int_attr_def str_int_opt_def)
qed

lemma hs_name_saved [simp]: "hs_name (saved_history h) = hs_name h"
  by (simp add: saved_history_def)

section \<open>Encryption settings\<close>

record encryption_settings =
  allowAnyCertificate :: bool
  encryptionEnabled :: bool
  addUnsecureEndpoint :: bool
  certificate :: "string option"
  enc_key :: "string option"
  blockList :: "string option"
  trustList :: "string option"
  issuerList :: "string option"

text \<open>
  \<open>EncryptionSettings.__init__\<close>, on any subclass: \<open>Config.readConfig\<close> calls it on an existing
  object to clear the settings.
\<close>

definition EncryptionSettings_init ::
    "'a encryption_settings_scheme \<Rightarrow> 'a encryption_settings_scheme" where
  "EncryptionSettings_init c = c
     \<lparr>allowAnyCertificate := False, encryptionEnabled := False, addUnsecureEndpoint := False,
      certificate := None, enc_key := None, blockList := None, trustList := None,
      issuerList := None\<rparr>"

definition checkEncryptionSettings :: "'a encryption_settings_scheme \<Rightarrow> unit res" where
  "checkEncryptionSettings c =
     (if enc_key c = None then Inl (RuntimeError ''Server key not set.'')
      else if certificate c = None then Inl (RuntimeError ''Server certificate not set.'')
      else if trustList c = None \<or> (issuerList c = None \<or> blockList c = None)
      then Inl (RuntimeError ''No trust list or CA related configuration set.'')
      else Inr ())"

text \<open>\<open>if s: element.set(k, s)\<close>\<close>

definition set_if_truthy :: "string \<Rightarrow> string option \<Rightarrow> elem \<Rightarrow> elem" where
  "set_if_truthy k s e = (case s of None \<Rightarrow> e | Some v \<Rightarrow> if v = [] then e else el_set k v e)"

lemma set_if_truthy_sel [simp]:
  "el_tag (set_if_truthy k s e) = el_tag e" "el_nsmap (set_if_truthy k s e) = el_nsmap e"
  "el_children (set_if_truthy k s e) = el_children e"
  by (simp_all add: set_if_truthy_def split: option.splits)

lemma find_plain_set_if_truthy [simp]: "find_plain n (set_if_truthy k s e) = find_plain n e"
  by (simp add: set_if_truthy_def split: option.splits)

lemma get_set_if_truthy [simp]:
  "el_get (set_if_truthy k s e) k' = (if k' = k \<and> truthy_str s then s else el_get e k')"
  by (auto simp: set_if_truthy_def split: option.splits)

definition createEncryption :: "'a encryption_settings_scheme \<Rightarrow> elem \<Rightarrow> elem" where
  "createEncryption c e =
     set_if_truthy ''blocklist'' (blockList c)
     (set_if_truthy ''issuerlist'' (issuerList c)
     (set_if_truthy ''trustlist'' (trustList c)
     (set_if_truthy ''certificate'' (certificate c)
     (set_if_truthy ''privatekey'' (enc_key c)
     (el_set ''allowAnyCertificate'' (if allowAnyCertificate c then ''True'' else ''False'')
     (el_set ''unsecure'' (if addUnsecureEndpoint c then ''True'' else ''False'') e))))))"

definition readEncryption ::
    "elem \<Rightarrow> 'a encryption_settings_scheme \<Rightarrow> 'a encryption_settings_scheme" where
  "readEncryption e c = c
     \<lparr>addUnsecureEndpoint := (if el_get e ''unsecure'' = Some ''True'' then True
                             else addUnsecureEndpoint c),
      allowAnyCertificate := (if el_get e ''allowAnyCertificate'' = Some ''True'' then True
                              else allowAnyCertificate c),
      enc_key := (case el_get e ''privatekey'' of None \<Rightarrow> enc_key c | Some s \<Rightarrow> Some s),
      certificate := (case el_get e ''certificate'' of None \<Rightarrow> certificate c | Some s \<Rightarrow> Some s),
      trustList := (case el_get e ''trustlist'' of None \<Rightarrow> trustList c | Some s \<Rightarrow> Some s),
      issuerList := (case el_get e ''issuerlist'' of None \<Rightarrow> issuerList c | Some s \<Rightarrow> Some s),
      blockList := (case el_get e ''blocklist'' of None \<Rightarrow> blockList c | Some s \<Rightarrow> Some s)\<rparr>"

text \<open>No text setting is the empty string: such a value is written as if it were not set.\<close>

definition encryption_wf :: "'a encryption_settings_scheme \<Rightarrow> bool" where
  "encryption_wf c \<longleftrightarrow> Some [] \<notin> {certificate c, enc_key c, blockList c, trustList c, issuerList c}"

lemma readEncryption_createEncryption:
  assumes wf: "encryption_wf c"
    and fresh: "\<not> addUnsecureEndpoint d" "\<not> allowAnyCertificate d" "certificate d = None"
      "enc_key d = None" "blockList d = None" "trustList d = None" "issuerList d = None"
  shows "readEncryption (createEncryption c (el_new ns t)) d = d
     \<lparr>addUnsecureEndpoint := addUnsecureEndpoint c, allowAnyCertificate := allowAnyCertificate c,
      enc_key := enc_key c, certificate := certificate c, trustList := trustList c,
      issuerList := issuerList c, blockList := blockList c\<rparr>"
proof -
  have t: "truthy_str s \<longleftrightarrow> s \<noteq> None" if "s \<noteq> Some []" for s
    using that by (auto simp: truthy_str_def)
  from wf have "certificate c \<noteq> Some []" "enc_key c \<noteq> Some []" "blockList c \<noteq> Some []"
    "trustList c \<noteq> Some []" "issuerList c \<noteq> Some []"
    by (auto simp: encryption_wf_def)
  note truthy = this [THEN t]
  show ?thesis
    using fresh by (auto simp: readEncryption_def createEncryption_def truthy split: option.splits)
qed

lemma checkEncryptionSettings_iff:
  "checkEncryptionSettings c = Inr () \<longleftrightarrow>
     enc_key c \<noteq> None \<and> certificate c \<noteq> None \<and> trustList c \<noteq> None \<and>
     issuerList c \<noteq> None \<and> blockList c \<noteq> None"
  by (auto simp: checkEncryptionSettings_def)

end
