(* ===== verification/Map_Config.thy ===== *)
theory Map_Config
  imports Map_Settings
begin

text \<open>
  \<open>Config\<close> of generatorClass.py: the server configuration of the generator, written to the
  \<open>config\<close> section of a map file (\<open>createConfig\<close>) and read back from it (\<open>readConfig\<close>).
  Each section of the element is one definition; the two operations compose them in the
  order of the code.  An exception ends the operation: its result is the error.
\<close>

record config = encryption_settings +
  username :: "string option"
  password :: "string option"
  applicationName :: "string option"
  rootFolder :: "string option"
  applicationDescription :: string
  enableLogin :: bool
  cfg_port :: "int option"
  historySettings :: "history_setting list"
  logLevel :: string
  useBoolAsVoid :: bool
  registerLDS :: bool
  ldsAddress :: "string option"
  ldsRegistryName :: "string option"
  ldsRegisterPeriod :: int

definition Config_init :: config where
  "Config_init =
     \<lparr>allowAnyCertificate = False, encryptionEnabled = False, addUnsecureEndpoint = False,
      certificate = None, enc_key = None, blockList = None, trustList = None, issuerList = None,
      username = None, password = None, applicationName = None, rootFolder = None,
      applicationDescription = [], enableLogin = False, cfg_port = None, historySettings = [],
      logLevel = ''INFO'', useBoolAsVoid = False, registerLDS = False, ldsAddress = None,
      ldsRegistryName = None, ldsRegisterPeriod = 10\<rparr>"

section \<open>Writing\<close>

definition server_element :: "'a config_scheme \<Rightarrow> nsmap \<Rightarrow> elem" where
  "server_element c ns =
     el_set ''logLevel'' (logLevel c)
      ((if truthy_int (cfg_port c) then el_set ''port'' (str_int_opt (cfg_port c)) else id)
       (set_if_truthy ''applicationName'' (applicationName c) (el_new ns ''server'')))"

definition lds_element :: "'a config_scheme \<Rightarrow> nsmap \<Rightarrow> elem res" where
  "lds_element c ns =
     (if truthy_str (ldsAddress c) then
        Inr ((if ldsRegisterPeriod c \<noteq> 0
              then el_set ''registerPeriod'' (int_str (ldsRegisterPeriod c)) else id)
             (set_if_truthy ''registryName'' (ldsRegistryName c)
              (set_if_truthy ''address'' (ldsAddress c)
               (el_set ''register'' ''True'' (el_new ns ''lds'')))))
      else Inl (RuntimeError ''No lds address set but LDS  registration is enabled!''))"

definition login_element :: "'a config_scheme \<Rightarrow> nsmap \<Rightarrow> elem res" where
  "login_element c ns =
     (if truthy_str (username c) then
        if truthy_str (password c) then
          Inr (set_if_truthy ''password'' (password c)
               (set_if_truthy ''username'' (username c) (el_new ns ''login'')))
        else Inl (RuntimeError ''No password set!'')
      else Inl (RuntimeError ''No username set!''))"

definition security_element :: "'a config_scheme \<Rightarrow> nsmap \<Rightarrow> elem res" where
  "security_element c ns =
     rbind (checkEncryptionSettings c) (\<lambda>_. Inr (createEncryption c (el_new ns ''security'')))"

definition void_element :: "nsmap \<Rightarrow> elem" where
  "void_element ns = el_set ''useBool'' ''True'' (el_new ns ''voidHandling'')"

definition add_setup :: "history_setting \<Rightarrow> elem \<Rightarrow> elem" where
  "add_setup h e = el_append e (writeSetting h (el_new (el_nsmap e) ''setup''))"

definition historizing_element :: "'a config_scheme \<Rightarrow> nsmap \<Rightarrow> elem" where
  "historizing_element c ns = fold add_setup (historySettings c) (el_new ns ''historizing'')"

text \<open>A section that is written under a condition: \<open>if b: SubElement(config, ...)\<close>.\<close>

definition section_if :: "bool \<Rightarrow> elem res \<Rightarrow> elem \<Rightarrow> elem res" where
  "section_if b s cfg = (if b then rbind s (\<lambda>x. Inr (el_append cfg x)) else Inr cfg)"

definition createConfig :: "'a config_scheme \<Rightarrow> elem \<Rightarrow> elem res" where
  "createConfig c root =
     (let ns = el_nsmap root;
          cfg = el_set ''description'' (applicationDescription c)
                  (set_if_truthy ''rootFolder'' (rootFolder c) (el_new ns ''config''))
      in rbind (section_if True (Inr (server_element c ns)) cfg) (\<lambda>cfg.
         rbind (section_if (registerLDS c) (lds_element c ns) cfg) (\<lambda>cfg.
         rbind (section_if (enableLogin c) (login_element c ns) cfg) (\<lambda>cfg.
         rbind (section_if (encryptionEnabled c) (security_element c ns) cfg) (\<lambda>cfg.
         rbind (section_if (useBoolAsVoid c) (Inr (void_element ns)) cfg) (\<lambda>cfg.
         rbind (section_if (length (historySettings c) > 0) (Inr (historizing_element c ns)) cfg)
           (\<lambda>cfg. Inr (el_append root cfg))))))))"

section \<open>Reading\<close>

definition log_levels :: "string list" where
  "log_levels = [''TRACE'', ''DEBUG'', ''INFO'', ''WARNING'', ''ERROR'', ''FATAL'']"

definition read_root_folder :: "elem \<Rightarrow> 'a config_scheme \<Rightarrow> 'a config_scheme res" where
  "read_root_folder e c =
     (case el_get e ''rootFolder'' of
        None \<Rightarrow> Inr c
      | Some r \<Rightarrow>
          (case el_get e ''description'' of
             None \<Rightarrow> Inl (KeyError ''description'')
           | Some d \<Rightarrow> Inr (c\<lparr>rootFolder := Some r, applicationDescription := d\<rparr>)))"

definition read_server :: "elem \<Rightarrow> 'a config_scheme \<Rightarrow> 'a config_scheme res" where
  "read_server e c =
     (case find_plain ''server'' e of
        None \<Rightarrow> Inr c
      | Some server \<Rightarrow>
          rbind (read_int_attr server ''port'' (cfg_port c)) (\<lambda>p.
            Inr (c\<lparr>applicationName := (case el_get server ''applicationName'' of
                                        None \<Rightarrow> applicationName c | Some s \<Rightarrow> Some s),
                   cfg_port := p,
                   logLevel := (case el_get server ''logLevel'' of
                                  None \<Rightarrow> logLevel c
                                | Some l \<Rightarrow> if str_upper l \<in> set log_levels then str_upper l
                                            else logLevel c)\<rparr>)))"

definition read_lds :: "elem \<Rightarrow> 'a config_scheme \<Rightarrow> 'a config_scheme" where
  "read_lds e c =
     (case find_plain ''lds'' e of
        None \<Rightarrow> c
      | Some lds \<Rightarrow>
          c\<lparr>registerLDS := (case el_get lds ''register'' of
                              None \<Rightarrow> registerLDS c | Some r \<Rightarrow> str_upper r = ''TRUE''),
            ldsAddress := (case el_get lds ''address'' of None \<Rightarrow> ldsAddress c | Some s \<Rightarrow> Some s),
            ldsRegistryName := (case el_get lds ''registryName'' of
                                  None \<Rightarrow> ldsRegistryName c | Some s \<Rightarrow> Some s),
            ldsRegisterPeriod := (case el_get lds ''registerPeriod'' of
                                    None \<Rightarrow> ldsRegisterPeriod c
                                  | Some s \<Rightarrow> (case py3_int s of Inl _ \<Rightarrow> ldsRegisterPeriod c
                                                              | Inr n \<Rightarrow> n))\<rparr>)"

definition read_voidHandling :: "elem \<Rightarrow> 'a config_scheme \<Rightarrow> 'a config_scheme" where
  "read_voidHandling e c =
     (case find_plain ''voidHandling'' e of
        None \<Rightarrow> c
      | Some v \<Rightarrow>
          (case el_get v ''useBool'' of
             None \<Rightarrow> c
           | Some b \<Rightarrow> if str_upper b = ''TRUE'' then c\<lparr>useBoolAsVoid := True\<rparr> else c))"

definition read_login :: "elem \<Rightarrow> 'a config_scheme \<Rightarrow> 'a config_scheme" where
  "read_login e c =
     (case find_plain ''login'' e of
        None \<Rightarrow> c\<lparr>enableLogin := False, username := None, password := None\<rparr>
      | Some l \<Rightarrow>
          c\<lparr>enableLogin := True,
            username := (case el_get l ''username'' of None \<Rightarrow> username c | Some s \<Rightarrow> Some s),
            password := (case el_get l ''password'' of None \<Rightarrow> password c | Some s \<Rightarrow> Some s)\<rparr>)"

definition read_security :: "elem \<Rightarrow> 'a config_scheme \<Rightarrow> 'a config_scheme" where
  "read_security e c =
     (case find_plain ''security'' e of
        None \<Rightarrow> EncryptionSettings_init c
      | Some s \<Rightarrow> readEncryption s (c\<lparr>encryptionEnabled := True\<rparr>))"

definition read_setup :: "elem \<Rightarrow> 'a config_scheme \<Rightarrow> 'a config_scheme res" where
  "read_setup setup c =
     rbind (readHistory setup (HistorySetting_init [])) (\<lambda>h.
       Inr (case List.find (\<lambda>x. hs_name x = hs_name h) (historySettings c) of
              None \<Rightarrow> c\<lparr>historySettings := historySettings c @ [h]\<rparr>
            | Some _ \<Rightarrow> c))"

definition read_historizing ::
    "resolver \<Rightarrow> nsmap \<Rightarrow> elem \<Rightarrow> 'a config_scheme \<Rightarrow> 'a config_scheme res" where
  "read_historizing rs ns e c =
     (case find_plain ''historizing'' e of
        None \<Rightarrow> Inr c
      | Some hist \<Rightarrow> foldM read_setup (findall_ns rs ns ''setup'' hist) c)"

definition readConfig :: "resolver \<Rightarrow> elem \<Rightarrow> 'a config_scheme \<Rightarrow> 'a config_scheme res" where
  "readConfig rs data c =
     (case find_ns rs (el_nsmap data) ''config'' data of
        None \<Rightarrow> Inr c
      | Some e \<Rightarrow>
          rbind (read_root_folder e c) (\<lambda>c.
          rbind (read_server e c) (\<lambda>c.
            read_historizing rs (el_nsmap data) e
              (read_security e (read_login e (read_voidHandling e (read_lds e c)))))))"

section \<open>When the configuration is complete\<close>

lemma lds_element_tag [simp]: "lds_element c ns = Inr x \<Longrightarrow> el_tag x = ''lds''"
  by (auto simp: lds_element_def split: if_splits)

lemma login_element_tag [simp]: "login_element c ns = Inr x \<Longrightarrow> el_tag x = ''login''"
  by (auto simp: login_element_def split: if_splits)

lemma createEncryption_tag [simp]: "el_tag (createEncryption c e) = el_tag e"
  by (simp add: createEncryption_def)

lemma security_element_tag [simp]: "security_element c ns = Inr x \<Longrightarrow> el_tag x = ''security''"
  by (auto simp: security_element_def rbind_Inr_iff)

lemma plain_element_tags [simp]:
  "el_tag (server_element c ns) = ''server''" "el_tag (void_element ns) = ''voidHandling''"
  by (simp_all add: server_element_def void_element_def)

lemma fold_add_setup_sel [simp]:
  "el_tag (fold add_setup hs e) = el_tag e" "el_nsmap (fold add_setup hs e) = el_nsmap e"
  by (induction hs arbitrary: e) (simp_all add: add_setup_def)

lemma historizing_tag [simp]: "el_tag (historizing_element c ns) = ''historizing''"
  by (simp add: historizing_element_def)

text \<open>What a conditional section adds to the section lookup and leaves of the attributes.\<close>

lemma section_if_Inr:
  "section_if b s cfg = Inr cfg' \<longleftrightarrow>
     (if b then \<exists>x. s = Inr x \<and> cfg' = el_append cfg x else cfg' = cfg)"
  by (auto simp: section_if_def rbind_Inr_iff)

text \<open>
  What the parts that are switched on need: an address, a user name and a password that are not
  empty, and for encryption the key, the certificate, and all three lists.
\<close>

definition config_complete :: "'a config_scheme \<Rightarrow> bool" where
  "config_complete c \<longleftrightarrow>
     (registerLDS c \<longrightarrow> ldsAddress c \<notin> {None, Some []}) \<and>
     (enableLogin c \<longrightarrow> username c \<notin> {None, Some []} \<and> password c \<notin> {None, Some []}) \<and>
     (encryptionEnabled c \<longrightarrow> enc_key c \<noteq> None \<and> certificate c \<noteq> None \<and> trustList c \<noteq> None \<and>
        issuerList c \<noteq> None \<and> blockList c \<noteq> None)"

lemma config_complete_checks:
  "config_complete c \<longleftrightarrow>
     (registerLDS c \<longrightarrow> truthy_str (ldsAddress c)) \<and>
     (enableLogin c \<longrightarrow> truthy_str (username c) \<and> truthy_str (password c)) \<and>
     (encryptionEnabled c \<longrightarrow> checkEncryptionSettings c = Inr ())"
  by (auto simp: config_complete_def truthy_str_def checkEncryptionSettings_iff)

lemma section_if_total: "(\<exists>y. section_if b s cfg = Inr y) \<longleftrightarrow> (b \<longrightarrow> (\<exists>x. s = Inr x))"
  by (cases s) (auto simp: section_if_def)

lemma section_elements_ok:
  "(\<exists>x. lds_element c ns = Inr x) \<longleftrightarrow> truthy_str (ldsAddress c)"
  "(\<exists>x. login_element c ns = Inr x) \<longleftrightarrow> truthy_str (username c) \<and> truthy_str (password c)"
  "(\<exists>x. security_element c ns = Inr x) \<longleftrightarrow> checkEncryptionSettings c = Inr ()"
  by (auto simp: lds_element_def login_element_def security_element_def rbind_Inr_iff)

lemma section_elements_err:
  "lds_element c ns = Inl e \<Longrightarrow> \<exists>m. e = RuntimeError m"
  "login_element c ns = Inl e \<Longrightarrow> \<exists>m. e = RuntimeError m"
  "security_element c ns = Inl e \<Longrightarrow> \<exists>m. e = RuntimeError m"
  by (auto simp: lds_element_def login_element_def security_element_def checkEncryptionSettings_def
      split: if_splits)

lemma section_if_err: "section_if b s cfg = Inl e \<Longrightarrow> b \<and> s = Inl e"
  by (cases s) (auto simp: section_if_def split: if_splits)

lemma createConfig_error_kind: "createConfig c root = Inl e \<Longrightarrow> \<exists>m. e = RuntimeError m"
  unfolding createConfig_def Let_def
  by (elim rbind_InlE) (auto dest!: section_if_err dest: section_elements_err)

lemma createConfig_total_iff: "(\<exists>r. createConfig c root = Inr r) \<longleftrightarrow> config_complete c"
proof
  assume "\<exists>r. createConfig c root = Inr r"
  then obtain r where r: "createConfig c root = Inr r" ..
  show "config_complete c"
    using r unfolding createConfig_def Let_def
    by (elim rbind_InrE)
       (auto simp only: section_if_Inr config_complete_checks split: if_splits
         dest: section_elements_ok [THEN iffD1, OF exI])
next
  assume complete: "config_complete c"
  have ok: "registerLDS c \<longrightarrow> (\<exists>x. lds_element c (el_nsmap root) = Inr x)"
      "enableLogin c \<longrightarrow> (\<exists>x. login_element c (el_nsmap root) = Inr x)"
      "encryptionEnabled c \<longrightarrow> (\<exists>x. security_element c (el_nsmap root) = Inr x)"
    using complete unfolding config_complete_checks section_elements_ok by blast+
  then show "\<exists>r. createConfig c root = Inr r"
    by (cases "registerLDS c"; cases "enableLogin c"; cases "encryptionEnabled c")
       (auto simp: createConfig_def Let_def section_if_def)
qed

section \<open>Writing and reading back\<close>

definition section_of :: "bool \<Rightarrow> elem res \<Rightarrow> elem option" where
  "section_of b s = (if b then (case s of Inl _ \<Rightarrow> None | Inr x \<Rightarrow> Some x) else None)"

lemma find_section_if:
  assumes "section_if b s cfg = Inr cfg'" and "\<And>x. s = Inr x \<Longrightarrow> el_tag x = t"
  shows "find_plain n cfg' = (case find_plain n cfg of
           None \<Rightarrow> if n = t then section_of b s else None | Some y \<Rightarrow> Some y)"
  using assms by (cases s) (auto simp: section_if_def section_of_def split: option.splits if_splits)

lemma get_section_if: "section_if b s cfg = Inr cfg' \<Longrightarrow> el_get cfg' k = el_get cfg k"
  by (auto simp: section_if_Inr split: if_splits)

lemma tag_section_if: "section_if b s cfg = Inr cfg' \<Longrightarrow> el_tag cfg' = el_tag cfg"
  by (auto simp: section_if_Inr split: if_splits)

text \<open>The content of a written \<open>config\<close> element, section by section.\<close>

lemma createConfig_sections:
  assumes "createConfig c root = Inr r"
  obtains e where "r = el_append root e" and "el_tag e = ''config''"
    and "el_get e ''rootFolder'' = (if truthy_str (rootFolder c) then rootFolder c else None)"
    and "el_get e ''description'' = Some (applicationDescription c)"
    and "find_plain ''server'' e = Some (server_element c (el_nsmap root))"
    and "find_plain ''lds'' e = section_of (registerLDS c) (lds_element c (el_nsmap root))"
    and "find_plain ''login'' e = section_of (enableLogin c) (login_element c (el_nsmap root))"
    and "find_plain ''security'' e = section_of (encryptionEnabled c) (security_element c (el_nsmap root))"
    and "find_plain ''voidHandling'' e = (if useBoolAsVoid c then Some (void_element (el_nsmap root)) else None)"
    and "find_plain ''historizing'' e = (if historySettings c \<noteq> []
          then Some (historizing_element c (el_nsmap root)) else None)"
proof -
  let ?ns = "el_nsmap root"
  let ?c0 = "el_set ''description'' (applicationDescription c)
               (set_if_truthy ''rootFolder'' (rootFolder c) (el_new ?ns ''config''))"
  from assms obtain c1 c2 c3 c4 c5 e where
      s1: "section_if True (Inr (server_element c ?ns)) ?c0 = Inr c1"
    and s2: "section_if (registerLDS c) (lds_element c ?ns) c1 = Inr c2"
    and s3: "section_if (enableLogin c) (login_element c ?ns) c2 = Inr c3"
    and s4: "section_if (encryptionEnabled c) (security_element c ?ns) c3 = Inr c4"
    and s5: "section_if (useBoolAsVoid c) (Inr (void_element ?ns)) c4 = Inr c5"
    and s6: "section_if (length (historySettings c) > 0) (Inr (historizing_element c ?ns)) c5 = Inr e"
    and r: "r = el_append root e"
    unfolding createConfig_def Let_def by (elim rbind_InrE) blast
  have f1: "find_plain n c1 = (case find_plain n ?c0 of
      None \<Rightarrow> if n = ''server'' then section_of True (Inr (server_element c ?ns)) else None
    | Some y \<Rightarrow> Some y)" for n
    by (rule find_section_if [OF s1]) auto
  have f2: "find_plain n c2 = (case find_plain n c1 of
      None \<Rightarrow> if n = ''lds'' then section_of (registerLDS c) (lds_element c ?ns) else None
    | Some y \<Rightarrow> Some y)" for n
    by (rule find_section_if [OF s2]) auto
  have f3: "find_plain n c3 = (case find_plain n c2 of
      None \<Rightarrow> if n = ''login'' then section_of (enableLogin c) (login_element c ?ns) else None
    | Some y \<Rightarrow> Some y)" for n
    by (rule find_section_if [OF s3]) auto
  have f4: "find_plain n c4 = (case find_plain n c3 of
      None \<Rightarrow> if n = ''security'' then section_of (encryptionEnabled c) (security_element c ?ns) else None
    | Some y \<Rightarrow> Some y)" for n
    by (rule find_section_if [OF s4]) auto
  have f5: "find_plain n c5 = (case find_plain n c4 of
      None \<Rightarrow> if n = ''voidHandling'' then section_of (useBoolAsVoid c) (Inr (void_element ?ns)) else None
    | Some y \<Rightarrow> Some y)" for n
    by (rule find_section_if [OF s5]) auto
  have f6: "find_plain n e = (case find_plain n c5 of
      None \<Rightarrow> if n = ''historizing''
        then section_of (length (historySettings c) > 0) (Inr (historizing_element c ?ns)) else None
    | Some y \<Rightarrow> Some y)" for n
    by (rule find_section_if [OF s6]) auto
  note finds = f6 f5 f4 f3 f2 f1
  note gets = s6 [THEN get_section_if] s5 [THEN get_section_if] s4 [THEN get_section_if]
    s3 [THEN get_section_if] s2 [THEN get_section_if] s1 [THEN get_section_if]
  note tags = s6 [THEN tag_section_if] s5 [THEN tag_section_if] s4 [THEN tag_section_if]
    s3 [THEN tag_section_if] s2 [THEN tag_section_if] s1 [THEN tag_section_if]
  show ?thesis
    by (rule that [OF r]) (simp_all add: tags gets finds section_of_def split: sum.splits)
qed

text \<open>The configurations whose every setting survives the file.\<close>

definition config_wf :: "'a config_scheme \<Rightarrow> bool" where
  "config_wf c \<longleftrightarrow>
     rootFolder c \<noteq> Some [] \<and> (rootFolder c = None \<longrightarrow> applicationDescription c = []) \<and>
     applicationName c \<noteq> Some [] \<and> cfg_port c \<noteq> Some 0 \<and> logLevel c \<in> set log_levels \<and>
     (if registerLDS c then ldsRegistryName c \<noteq> Some [] \<and> ldsRegisterPeriod c \<noteq> 0
      else ldsAddress c = None \<and> ldsRegistryName c = None \<and> ldsRegisterPeriod c = 10) \<and>
     (\<not> enableLogin c \<longrightarrow> username c = None \<and> password c = None) \<and>
     (if encryptionEnabled c then encryption_wf c else EncryptionSettings_init c = c) \<and>
     list_all history_wf (historySettings c) \<and> distinct (map hs_name (historySettings c))"

lemma log_level_upper: "l \<in> set log_levels \<Longrightarrow> str_upper l = l"
proof -
  have "list_all (\<lambda>l. str_upper l = l) log_levels" by code_simp
  then show "l \<in> set log_levels \<Longrightarrow> str_upper l = l" by (simp add: list_all_iff)
qed

lemma true_upper: "str_upper ''True'' = ''TRUE''"
  by code_simp

lemma truthy_str_iff: "s \<noteq> Some [] \<Longrightarrow> truthy_str s \<longleftrightarrow> s \<noteq> None"
  by (auto simp: truthy_str_def)

lemma truthy_int_iff: "n \<noteq> Some 0 \<Longrightarrow> truthy_int n \<longleftrightarrow> n \<noteq> None"
  by (auto simp: truthy_int_def)

lemma read_server_written:
  assumes "find_plain ''server'' e = Some (server_element c ns)"
    and "applicationName c \<noteq> Some []" and "cfg_port c \<noteq> Some 0" and "logLevel c \<in> set log_levels"
    and "applicationName d = None" and "cfg_port d = None"
  shows "read_server e d = Inr (d\<lparr>applicationName := applicationName c, cfg_port := cfg_port c,
           logLevel := logLevel c\<rparr>)"
proof -
  have "el_get (server_element c ns) ''logLevel'' = Some (logLevel c)"
    by (simp add: server_element_def)
  moreover have "el_get (server_element c ns) ''applicationName'' = applicationName c"
    using assms(2) by (simp add: server_element_def truthy_str_def)
  moreover have "el_get (server_element c ns) ''port'' =
      (case cfg_port c of None \<Rightarrow> None | Some p \<Rightarrow> Some (int_str p))"
    using assms(3) by (cases "cfg_port c") (simp_all add: server_element_def str_int_opt_def)
  ultimately show ?thesis
    using assms
    by (simp add: read_server_def read_int_attr_def log_level_upper split: option.splits)
qed

lemma read_lds_written:
  assumes "find_plain ''lds'' e = section_of (registerLDS c) (lds_element c ns)"
    and "registerLDS c \<longrightarrow> truthy_str (ldsAddress c) \<and> ldsRegistryName c \<noteq> Some [] \<and>
           ldsRegisterPeriod c \<noteq> 0"
    and "ldsRegistryName d = None"
  shows "read_lds e d = (if registerLDS c
           then d\<lparr>registerLDS := True, ldsAddress := ldsAddress c,
                  ldsRegistryName := ldsRegistryName c, ldsRegisterPeriod := ldsRegisterPeriod c\<rparr>
           else d)"
proof (cases "registerLDS c")
  case True
  then obtain a where a: "ldsAddress c = Some a" "a \<noteq> []"
    using assms(2) by (cases "ldsAddress c") auto
  show ?thesis
    using True assms a
    by (cases "ldsRegistryName c")
       (simp_all add: read_lds_def lds_element_def section_of_def true_upper)
qed (use assms in \<open>simp add: read_lds_def section_of_def\<close>)

lemma read_login_written:
  assumes "find_plain ''login'' e = section_of (enableLogin c) (login_element c ns)"
    and "enableLogin c \<longrightarrow> truthy_str (username c) \<and> truthy_str (password c)"
    and "\<not> enableLogin c \<longrightarrow> username c = None \<and> password c = None"
  shows "read_login e d = d\<lparr>enableLogin := enableLogin c, username := username c,
           password := password c\<rparr>"
proof (cases "enableLogin c")
  case True
  then obtain u p where "username c = Some u" "u \<noteq> []" "password c = Some p" "p \<noteq> []"
    using assms(2) by (cases "username c"; cases "password c") auto
  with True assms(1) show ?thesis
    by (simp add: read_login_def login_element_def section_of_def)
qed (use assms in \<open>simp add: read_login_def section_of_def\<close>)

lemma read_security_written:
  assumes "find_plain ''security'' e = section_of (encryptionEnabled c) (security_element c ns)"
    and "encryptionEnabled c \<longrightarrow> checkEncryptionSettings c = Inr ()"
    and "if encryptionEnabled c then encryption_wf c else EncryptionSettings_init c = c"
    and "EncryptionSettings_init d = d"
  shows "read_security e d = d
     \<lparr>encryptionEnabled := encryptionEnabled c,
      addUnsecureEndpoint := addUnsecureEndpoint c, allowAnyCertificate := allowAnyCertificate c,
      enc_key := enc_key c, certificate := certificate c, trustList := trustList c,
      issuerList := issuerList c, blockList := blockList c\<rparr>"
proof (cases "encryptionEnabled c")
  case True
  have d: "\<not> addUnsecureEndpoint d" "\<not> allowAnyCertificate d" "certificate d = None"
      "enc_key d = None" "blockList d = None" "trustList d = None" "issuerList d = None"
    by (subst assms(4) [symmetric], simp add: EncryptionSettings_init_def)+
  show ?thesis
    using True assms(1-3) d
    by (simp add: read_security_def section_of_def security_element_def
        readEncryption_createEncryption)
next
  case False
  then have "EncryptionSettings_init c = c" using assms(3) by simp
  then have "encryption_settings.truncate (EncryptionSettings_init c) = encryption_settings.truncate c"
    by simp
  then have c: "\<not> addUnsecureEndpoint c" "\<not> allowAnyCertificate c" "certificate c = None"
      "enc_key c = None" "blockList c = None" "trustList c = None" "issuerList c = None"
    by (simp_all add: EncryptionSettings_init_def encryption_settings.truncate_def)
  show ?thesis
    using False assms(1) c
    by (simp add: read_security_def section_of_def EncryptionSettings_init_def)
qed

lemma children_fold_add_setup:
  "el_children (fold add_setup hs e) =
     el_children e @ map (\<lambda>h. writeSetting h (el_new (el_nsmap e) ''setup'')) hs"
  by (induction hs arbitrary: e) (simp_all add: add_setup_def)

lemma read_setups_written:
  assumes "list_all history_wf hs" and "distinct (map hs_name (historySettings d) @ map hs_name hs)"
  shows "foldM read_setup (map (\<lambda>h. writeSetting h (el_new ns ''setup'')) hs) d =
           Inr (d\<lparr>historySettings := historySettings d @ map saved_history hs\<rparr>)"
  using assms
proof (induction hs arbitrary: d)
  case Nil
  then show ?case by simp
next
  case (Cons h hs)
  have new: "List.find (\<lambda>x. hs_name x = hs_name h) (historySettings d) = None"
    using Cons.prems(2) by (auto simp: find_None_iff) (metis image_eqI)
  have "read_setup (writeSetting h (el_new ns ''setup'')) d =
      Inr (d\<lparr>historySettings := historySettings d @ [saved_history h]\<rparr>)"
    using Cons.prems(1) by (simp add: read_setup_def readHistory_writeSetting new)
  then show ?case using Cons by simp
qed

lemma read_historizing_written:
  assumes "find_plain ''historizing'' e =
             (if historySettings c \<noteq> [] then Some (historizing_element c ns) else None)"
    and "list_all history_wf (historySettings c)" and "distinct (map hs_name (historySettings c))"
    and "historySettings d = []" and "rs ns' ''setup'' = ''setup''"
  shows "read_historizing rs ns' e d =
           Inr (d\<lparr>historySettings := map saved_history (historySettings c)\<rparr>)"
proof (cases "historySettings c = []")
  case True
  with assms show ?thesis by (simp add: read_historizing_def)
next
  case False
  have "findall_ns rs ns' ''setup'' (historizing_element c ns) =
      map (\<lambda>h. writeSetting h (el_new ns ''setup'')) (historySettings c)"
    using assms(5)
    by (simp add: findall_ns_def historizing_element_def children_fold_add_setup filter_map o_def)
  with False assms show ?thesis
    by (simp add: read_historizing_def read_setups_written)
qed

definition saved_config :: "'a config_scheme \<Rightarrow> 'a config_scheme" where
  "saved_config c = c\<lparr>historySettings := map saved_history (historySettings c)\<rparr>"

text \<open>The four middle sections of \<open>readConfig\<close>, read into a configuration that has only the
  root folder and server settings so far.\<close>

definition fresh_middle :: "'a config_scheme \<Rightarrow> bool" where
  "fresh_middle d \<longleftrightarrow> \<not> registerLDS d \<and> ldsAddress d = None \<and> ldsRegistryName d = None \<and>
     ldsRegisterPeriod d = 10 \<and> \<not> useBoolAsVoid d \<and> EncryptionSettings_init d = d"

lemma read_middle_written:
  assumes "find_plain ''lds'' e = section_of (registerLDS c) (lds_element c ns)"
    and "find_plain ''login'' e = section_of (enableLogin c) (login_element c ns)"
    and "find_plain ''security'' e = section_of (encryptionEnabled c) (security_element c ns)"
    and "find_plain ''voidHandling'' e = (if useBoolAsVoid c then Some (void_element ns) else None)"
    and wf: "config_wf c" "config_complete c" and fresh: "fresh_middle d"
  shows "read_security e (read_login e (read_voidHandling e (read_lds e d))) = d
     \<lparr>registerLDS := registerLDS c, ldsAddress := ldsAddress c, ldsRegistryName := ldsRegistryName c,
      ldsRegisterPeriod := ldsRegisterPeriod c, useBoolAsVoid := useBoolAsVoid c,
      enableLogin := enableLogin c, username := username c, password := password c,
      encryptionEnabled := encryptionEnabled c, addUnsecureEndpoint := addUnsecureEndpoint c,
      allowAnyCertificate := allowAnyCertificate c, enc_key := enc_key c,
      certificate := certificate c, trustList := trustList c, issuerList := issuerList c,
      blockList := blockList c\<rparr>"
proof -
  have lds: "read_lds e d = d\<lparr>registerLDS := registerLDS c, ldsAddress := ldsAddress c,
      ldsRegistryName := ldsRegistryName c, ldsRegisterPeriod := ldsRegisterPeriod c\<rparr>"
    using read_lds_written [OF assms(1), of d] wf fresh
    by (cases "registerLDS c") (auto simp: config_wf_def config_complete_checks fresh_middle_def)
  define d1 where "d1 = read_voidHandling e (read_lds e d)"
  have d1: "d1 = (read_lds e d)\<lparr>useBoolAsVoid := useBoolAsVoid c\<rparr>"
    using assms(4) fresh
    by (cases "useBoolAsVoid c")
       (auto simp: d1_def lds read_voidHandling_def void_element_def true_upper fresh_middle_def)
  define d2 where "d2 = read_login e d1"
  have d2: "d2 = d1\<lparr>enableLogin := enableLogin c, username := username c, password := password c\<rparr>"
    unfolding d2_def using wf
    by (intro read_login_written [OF assms(2)]) (auto simp: config_wf_def config_complete_checks)
  have "EncryptionSettings_init d2 = d2"
  proof -
    have "EncryptionSettings_init d2 = (EncryptionSettings_init d)\<lparr>registerLDS := registerLDS c,
        ldsAddress := ldsAddress c, ldsRegistryName := ldsRegistryName c,
        ldsRegisterPeriod := ldsRegisterPeriod c, useBoolAsVoid := useBoolAsVoid c,
        enableLogin := enableLogin c, username := username c, password := password c\<rparr>"
      by (simp add: d2 d1 lds EncryptionSettings_init_def)
    with fresh show ?thesis by (simp add: fresh_middle_def d2 d1 lds)
  qed
  then have "read_security e d2 = d2
     \<lparr>encryptionEnabled := encryptionEnabled c, addUnsecureEndpoint := addUnsecureEndpoint c,
      allowAnyCertificate := allowAnyCertificate c, enc_key := enc_key c,
      certificate := certificate c, trustList := trustList c, issuerList := issuerList c,
      blockList := blockList c\<rparr>"
    using wf by (intro read_security_written [OF assms(3)])
      (auto simp: config_wf_def config_complete_checks)
  then show ?thesis by (simp add: d2_def [symmetric] d1_def [symmetric] d2) (simp add: d1 lds)
qed

lemma read_head_written:
  assumes "el_get e ''rootFolder'' = (if truthy_str (rootFolder c) then rootFolder c else None)"
    and "el_get e ''description'' = Some (applicationDescription c)"
    and "find_plain ''server'' e = Some (server_element c ns)"
    and "config_wf c"
  shows "rbind (read_root_folder e Config_init) (read_server e) = Inr (Config_init
     \<lparr>rootFolder := rootFolder c, applicationDescription := applicationDescription c,
      applicationName := applicationName c, cfg_port := cfg_port c, logLevel := logLevel c\<rparr>)"
proof -
  have "read_root_folder e Config_init = Inr (Config_init\<lparr>rootFolder := rootFolder c,
      applicationDescription := applicationDescription c\<rparr>)"
    using assms
    by (cases "rootFolder c") (auto simp: read_root_folder_def config_wf_def Config_init_def)
  then show ?thesis
    using assms(4) by (simp add: read_server_written [OF assms(3)] config_wf_def Config_init_def)
qed

text \<open>C22: a configuration whose settings are all representable in a map file, once written by
  \<open>createConfig\<close> and read by \<open>readConfig\<close> into a freshly started generator, is the same
  configuration again; only the buffer length of an influxDB history is back at its default,
  because \<open>writeSetting\<close> does not write it.\<close>

theorem config_roundtrip:
  assumes "config_wf c" and "createConfig c root = Inr r"
    and "plain_names rs" and "None \<notin> fst ` set (el_nsmap root)" and "find_plain ''config'' root = None"
  shows "readConfig rs r Config_init = Inr (saved_config c)"
proof -
  have complete: "config_complete c"
    using assms(2) createConfig_total_iff by blast
  have names: "rs (el_nsmap root) ''config'' = ''config''" "rs (el_nsmap root) ''setup'' = ''setup''"
    using assms(3,4) by (auto intro: plain_names_rs)
  obtain e where e: "r = el_append root e" "el_tag e = ''config''"
    and head: "el_get e ''rootFolder'' = (if truthy_str (rootFolder c) then rootFolder c else None)"
      "el_get e ''description'' = Some (applicationDescription c)"
      "find_plain ''server'' e = Some (server_element c (el_nsmap root))"
    and middle: "find_plain ''lds'' e = section_of (registerLDS c) (lds_element c (el_nsmap root))"
      "find_plain ''login'' e = section_of (enableLogin c) (login_element c (el_nsmap root))"
      "find_plain ''security'' e = section_of (encryptionEnabled c) (security_element c (el_nsmap root))"
      "find_plain ''voidHandling'' e = (if useBoolAsVoid c then Some (void_element (el_nsmap root)) else None)"
    and hist: "find_plain ''historizing'' e = (if historySettings c \<noteq> []
          then Some (historizing_element c (el_nsmap root)) else None)"
    by (rule createConfig_sections [OF assms(2)])
  define d where "d = Config_init
     \<lparr>rootFolder := rootFolder c, applicationDescription := applicationDescription c,
      applicationName := applicationName c, cfg_port := cfg_port c, logLevel := logLevel c\<rparr>"
  define m where "m = read_security e (read_login e (read_voidHandling e (read_lds e d)))"
  have fresh: "fresh_middle d"
    by (simp add: fresh_middle_def d_def Config_init_def EncryptionSettings_init_def)
  note m = read_middle_written [OF middle assms(1) complete fresh, folded m_def]
  have "historySettings m = []" by (simp add: m d_def Config_init_def)
  then have "read_historizing rs (el_nsmap root) e m =
     Inr (m\<lparr>historySettings := map saved_history (historySettings c)\<rparr>)"
    using assms(1) hist names by (intro read_historizing_written) (auto simp: config_wf_def)
  moreover have "m\<lparr>historySettings := map saved_history (historySettings c)\<rparr> = saved_config c"
    by (simp add: m d_def Config_init_def saved_config_def)
  moreover have "find_ns rs (el_nsmap r) ''config'' r = Some e"
    using assms(5) e names by (simp add: find_ns_plain)
  ultimately show ?thesis
    using read_head_written [OF head assms(1), folded d_def] e(1)
    by (simp add: readConfig_def rbind_assoc [symmetric] m_def)
qed

definition demo_config :: config where
  "demo_config = Config_init\<lparr>rootFolder := Some ''Test'', applicationName := Some ''Test'', cfg_port := Some 16664,
     enableLogin := True, username := Some ''user'', password := Some ''test'',
     historySettings := [(HistorySetting_init ''h'')\<lparr>entriesPerResponse := Some 5, interval := Some 7\<rparr>]\<rparr>"

corollary config_roundtrip_witness:
  "\<exists>r. createConfig demo_config (el_new [] ''uamapping'') = Inr r \<and>
     readConfig default_ns_resolver r Config_init = Inr (saved_config demo_config)"
proof -
  have wf: "config_wf demo_config" and "config_complete demo_config"
    by code_simp+
  then obtain r where r: "createConfig demo_config (el_new [] ''uamapping'') = Inr r"
    using createConfig_total_iff by blast
  have "readConfig default_ns_resolver r Config_init = Inr (saved_config demo_config)"
    by (rule config_roundtrip [OF wf r]) (simp_all add: find_plain_def)
  with r show ?thesis by blast
qed

text \<open>C38: \<open>createConfig\<close> writes the configuration section exactly when the settings are
  complete: an address that is not empty where the LDS is used, user name and password that are not
  empty where the login is, and the key, the certificate, the trust list, the issuer list and the
  block list where encryption is.  Otherwise it refuses with a \<open>RuntimeError\<close>.\<close>

theorem createConfig_refuses_incomplete:
  "if config_complete c then \<exists>r. createConfig c root = Inr r
   else \<exists>m. createConfig c root = Inl (RuntimeError m)"
  using createConfig_total_iff createConfig_error_kind by (metis sum.exhaust)

end
