(* ===== verification/Map_Tree.thy ===== *)
theory Map_Tree
  imports Element_Tree
begin

text \<open>
  \<open>XMLVar\<close> and \<open>XMLDirectory\<close> of generatorClass.py: the variable tree of an application, the
  user's changes to it, the search for a directory or a variable by its path, and the map
  file entries generated from the changes.  \<open>findDir\<close> and \<open>findVar\<close> return references
  to objects of the tree, which their callers then assign to; a reference is the position of the
  object in the tree (the child indices from the root), read by \<open>dir_at\<close> and \<open>var_at\<close> and
  assigned through by \<open>modify_dir\<close> and \<open>modify_var\<close>.
\<close>

section \<open>Variables\<close>

record xml_var =
  v_exclude :: "bool option"
  v_historizing :: "string option"
  v_name :: string
  v_newName :: "string option"
  v_valueType :: "string option"
  v_numberOfElements :: int
  v_unit :: "string option"
  v_newUnit :: "string option"
  v_direction :: "string option"
  v_description :: "string option"
  v_newDescription :: "string option"
  v_newDestination :: "string option"
  v_fullName :: string

text \<open>\<open>var.find(tag, namespaces=var.nsmap).text\<close>\<close>

definition child_text :: "resolver \<Rightarrow> string \<Rightarrow> elem \<Rightarrow> string option res" where
  "child_text rs n e =
     (case find_ns rs (el_nsmap e) n e of None \<Rightarrow> Inl AttributeError | Some c \<Rightarrow> Inr (el_text c))"

definition int_of_opt_text :: "string option \<Rightarrow> int res" where
  "int_of_opt_text s = (case s of None \<Rightarrow> Inl TypeError | Some t \<Rightarrow> py3_int t)"

definition XMLVar_init :: "resolver \<Rightarrow> elem \<Rightarrow> string \<Rightarrow> xml_var res" where
  "XMLVar_init rs var path =
     (case el_get var ''name'' of
        None \<Rightarrow> Inl (KeyError ''name'')
      | Some name \<Rightarrow>
          rbind (child_text rs ''value_type'' var) (\<lambda>vt.
          rbind (rbind (child_text rs ''numberOfElements'' var) int_of_opt_text) (\<lambda>n.
          rbind (child_text rs ''unit'' var) (\<lambda>u.
          rbind (child_text rs ''direction'' var) (\<lambda>dr.
          rbind (child_text rs ''description'' var) (\<lambda>de.
            Inr \<lparr>v_exclude = None, v_historizing = None, v_name = name, v_newName = None,
                 v_valueType = vt, v_numberOfElements = n, v_unit = u, v_newUnit = None,
                 v_direction = dr, v_description = de, v_newDescription = None,
                 v_newDestination = None, v_fullName = path @ ''/'' @ name\<rparr>))))))"

definition XMLVar_reset :: "xml_var \<Rightarrow> xml_var" where
  "XMLVar_reset v =
     v\<lparr>v_newName := None, v_newUnit := None, v_newDescription := None, v_newDestination := None\<rparr>"

section \<open>Directories\<close>

record dir_info =
  d_exclude :: "bool option"
  d_historizing :: "string option"
  d_name :: string
  d_path :: string
  d_newName :: "string option"
  d_newDescription :: "string option"
  d_newDestination :: "string option"
  d_hierarchyLevel :: nat

datatype xml_directory = XMLDirectory
  (dinfo: dir_info)
  (ddirs: "xml_directory list")
  (dvars: "xml_var list")

definition dir_info_init :: "string \<Rightarrow> nat \<Rightarrow> string \<Rightarrow> dir_info" where
  "dir_info_init name level path =
     \<lparr>d_exclude = None, d_historizing = None, d_name = name, d_path = path @ ''/'' @ name,
      d_newName = None, d_newDescription = None, d_newDestination = None, d_hierarchyLevel = level\<rparr>"

text \<open>\<open>XMLDirectory.__init__\<close> with the \<open>parseDir\<close> it ends with.\<close>

function XMLDirectory_init ::
    "resolver \<Rightarrow> string \<Rightarrow> elem \<Rightarrow> nat \<Rightarrow> string \<Rightarrow> xml_directory res" where
  "XMLDirectory_init rs name data level path =
     (let info = dir_info_init name level path
      in rbind (mapM (\<lambda>d. case el_get d ''name'' of
                            None \<Rightarrow> Inl (KeyError ''name'')
                          | Some n \<Rightarrow> XMLDirectory_init rs n d (level + 1) (d_path info))
                 (findall_ns rs (el_nsmap data) ''directory'' data)) (\<lambda>ds.
         rbind (mapM (\<lambda>v. XMLVar_init rs v (d_path info))
                 (findall_ns rs (el_nsmap data) ''variable'' data)) (\<lambda>vs.
           Inr (XMLDirectory info ds vs))))"
  by pat_completeness auto
termination
  by (relation "measure (\<lambda>(rs, name, data, level, path). size data)") (auto dest: findall_size)

declare XMLDirectory_init.simps [simp del]

fun XMLDirectory_reset :: "xml_directory \<Rightarrow> xml_directory" where
  "XMLDirectory_reset (XMLDirectory i ds vs) =
     XMLDirectory (i\<lparr>d_newName := None, d_newDescription := None, d_newDestination := None\<rparr>)
       (map XMLDirectory_reset ds) (map XMLVar_reset vs)"

section \<open>Search\<close>

type_synonym dir_ref = "nat list"
type_synonym var_ref = "nat list \<times> nat"

text \<open>
  \<open>findDir\<close> compares the directory itself first, then each child and, through the
  recursive call, the child's subtree.  \<open>findVar\<close> looks at the variables before the directories.
\<close>

fun findDir :: "xml_directory \<Rightarrow> string \<Rightarrow> dir_ref option"
  and findDirs :: "nat \<Rightarrow> xml_directory list \<Rightarrow> string \<Rightarrow> dir_ref option" where
  "findDir (XMLDirectory i ds vs) p = (if d_path i = p then Some [] else findDirs 0 ds p)"
| "findDirs k [] p = None"
| "findDirs k (d # ds) p =
     (if d_path (dinfo d) = p then Some [k]
      else case findDir d p of Some r \<Rightarrow> Some (k # r) | None \<Rightarrow> findDirs (Suc k) ds p)"

fun findVarIn :: "nat \<Rightarrow> xml_var list \<Rightarrow> string \<Rightarrow> nat option" where
  "findVarIn k [] p = None"
| "findVarIn k (v # vs) p = (if v_fullName v = p then Some k else findVarIn (Suc k) vs p)"

fun findVar :: "xml_directory \<Rightarrow> string \<Rightarrow> var_ref option"
  and findVars :: "nat \<Rightarrow> xml_directory list \<Rightarrow> string \<Rightarrow> var_ref option" where
  "findVar (XMLDirectory i ds vs) p =
     (case findVarIn 0 vs p of Some k \<Rightarrow> Some ([], k) | None \<Rightarrow> findVars 0 ds p)"
| "findVars k [] p = None"
| "findVars k (d # ds) p =
     (case findVar d p of Some (r, j) \<Rightarrow> Some (k # r, j) | None \<Rightarrow> findVars (Suc k) ds p)"

text \<open>Following a reference, and assigning through it.\<close>

fun dir_at :: "xml_directory \<Rightarrow> dir_ref \<Rightarrow> xml_directory option" where
  "dir_at d [] = Some d"
| "dir_at d (k # r) = (if k < length (ddirs d) then dir_at (ddirs d ! k) r else None)"

fun modify_dir :: "dir_ref \<Rightarrow> (dir_info \<Rightarrow> dir_info) \<Rightarrow> xml_directory \<Rightarrow> xml_directory" where
  "modify_dir [] f (XMLDirectory i ds vs) = XMLDirectory (f i) ds vs"
| "modify_dir (k # r) f (XMLDirectory i ds vs) =
     (if k < length ds then XMLDirectory i (ds[k := modify_dir r f (ds ! k)]) vs
      else XMLDirectory i ds vs)"

definition var_at :: "xml_directory \<Rightarrow> var_ref \<Rightarrow> xml_var option" where
  "var_at d r = (case dir_at d (fst r) of
     None \<Rightarrow> None
   | Some e \<Rightarrow> if snd r < length (dvars e) then Some (dvars e ! snd r) else None)"

fun modify_vars :: "dir_ref \<Rightarrow> (xml_var list \<Rightarrow> xml_var list) \<Rightarrow> xml_directory \<Rightarrow> xml_directory" where
  "modify_vars [] f (XMLDirectory i ds vs) = XMLDirectory i ds (f vs)"
| "modify_vars (k # r) f (XMLDirectory i ds vs) =
     (if k < length ds then XMLDirectory i (ds[k := modify_vars r f (ds ! k)]) vs
      else XMLDirectory i ds vs)"

definition modify_var :: "var_ref \<Rightarrow> (xml_var \<Rightarrow> xml_var) \<Rightarrow> xml_directory \<Rightarrow> xml_directory" where
  "modify_var r f =
     modify_vars (fst r) (\<lambda>vs. if snd r < length vs then vs[snd r := f (vs ! snd r)] else vs)"

section \<open>Map file entries\<close>

definition sub_text :: "nsmap \<Rightarrow> string \<Rightarrow> string \<Rightarrow> elem" where
  "sub_text ns tag s = el_set_text (Some s) (el_new ns tag)"

definition exclude_entry :: "nsmap \<Rightarrow> string \<Rightarrow> elem" where
  "exclude_entry ns s = el_set ''sourceName'' s (el_new ns ''exclude'')"

definition when_truthy :: "string option \<Rightarrow> (string \<Rightarrow> 'a list) \<Rightarrow> 'a list" where
  "when_truthy s f = (case s of None \<Rightarrow> [] | Some t \<Rightarrow> if t = [] then [] else f t)"

definition append_all :: "elem list \<Rightarrow> elem \<Rightarrow> elem" where
  "append_all cs e = fold (\<lambda>c e. el_append e c) cs e"

text \<open>
  \<open>XMLVar.generateMapEntry\<close>: the elements it appends to the root, in order.  The destination
  \<open>/root\<close> is written as an empty element, with the original name when there is no new one.
\<close>

definition pv_source_name :: "string \<Rightarrow> xml_var \<Rightarrow> string" where
  "pv_source_name path v =
     (if removeprefix ''/root/'' path = [] then v_name v
      else removeprefix ''/root/'' path @ ''/'' @ v_name v)"

definition pv_destination :: "nsmap \<Rightarrow> xml_var \<Rightarrow> string \<Rightarrow> elem list" where
  "pv_destination ns v d =
     (if d = ''/root''
      then el_new ns ''destination'' #
           (if truthy_str (v_newName v) then [] else [sub_text ns ''name'' (v_name v)])
      else [sub_text ns ''destination'' (removeprefix ''/root/'' d)])"

definition pv_changed :: "bool \<Rightarrow> xml_var \<Rightarrow> bool" where
  "pv_changed historizingActive v \<longleftrightarrow>
     truthy_str (v_newName v) \<or> truthy_str (v_newDescription v) \<or> truthy_str (v_newUnit v) \<or>
     truthy_str (v_newDestination v) \<or> (truthy_str (v_historizing v) \<and> \<not> historizingActive)"

definition pv_entry :: "nsmap \<Rightarrow> string \<Rightarrow> bool \<Rightarrow> xml_var \<Rightarrow> elem" where
  "pv_entry ns path historizingActive v =
     el_set ''copy'' (if truthy_str (v_newName v) then ''True'' else ''False'')
      (append_all
        (when_truthy (v_newDescription v) (\<lambda>s. [sub_text ns ''description'' s]) @
         when_truthy (v_newName v) (\<lambda>s. [sub_text ns ''name'' s]) @
         when_truthy (v_newUnit v) (\<lambda>s. [sub_text ns ''unit'' s]) @
         when_truthy (v_newDestination v) (pv_destination ns v))
        ((if truthy_str (v_historizing v) \<and> \<not> historizingActive
          then el_set ''history'' (the (v_historizing v)) else id)
         (el_set ''sourceName'' (pv_source_name path v) (el_new ns ''process_variable''))))"

definition generateMapEntry ::
    "nsmap \<Rightarrow> string \<Rightarrow> bool \<Rightarrow> bool \<Rightarrow> xml_var \<Rightarrow> elem list" where
  "generateMapEntry ns path historizingActive excludeActive v =
     (if v_exclude v = Some True \<and> \<not> excludeActive
      then [exclude_entry ns (removeprefix ''/root/'' (v_fullName v))] else []) @
     (if pv_changed historizingActive v then [pv_entry ns path historizingActive v] else [])"

text \<open>
  The folder entries of a directory: one that only describes it, one that renames, moves or
  historizes it.
\<close>

definition dir_parent :: "dir_info \<Rightarrow> string" where
  "dir_parent i = removesuffix (d_name i) (removeprefix ''/root'' (d_path i))"

definition trim_slashes :: "string \<Rightarrow> string" where
  "trim_slashes s = removesuffix ''/'' (removeprefix ''/'' s)"

definition describes_only :: "dir_info \<Rightarrow> bool" where
  "describes_only i \<longleftrightarrow> truthy_str (d_newDescription i) \<and> \<not> truthy_str (d_newName i) \<and>
     \<not> truthy_str (d_newDestination i)"

definition description_entry :: "nsmap \<Rightarrow> dir_info \<Rightarrow> elem" where
  "description_entry ns i =
     append_all
       ([sub_text ns ''description'' (the (d_newDescription i)), sub_text ns ''name'' (d_name i)] @
        (if dir_parent i \<noteq> [] then [sub_text ns ''destination'' (trim_slashes (dir_parent i))] else []))
       (el_new ns ''folder'')"

definition folder_destination :: "dir_info \<Rightarrow> string" where
  "folder_destination i =
     (if truthy_str (d_newDestination i)
      then removeprefix ''/'' (removeprefix ''/root'' (the (d_newDestination i)))
      else trim_slashes (dir_parent i))"

definition folder_entry :: "nsmap \<Rightarrow> bool \<Rightarrow> dir_info \<Rightarrow> elem" where
  "folder_entry ns historizingActive i =
     append_all
       (if truthy_str (d_newName i) \<or> truthy_str (d_newDestination i)
        then (if truthy_str (d_newDescription i) \<and> \<not> describes_only i
              then [sub_text ns ''description'' (the (d_newDescription i))] else []) @
             [sub_text ns ''name''
                (if truthy_str (d_newName i) then the (d_newName i) else d_name i),
              sub_text ns ''destination'' (folder_destination i)]
        else [])
       ((if truthy_str (d_historizing i) \<and> \<not> historizingActive
         then el_set ''history'' (the (d_historizing i)) else id)
        (el_set ''copy'' ''False''
         (el_set ''sourceName'' (removeprefix ''/root/'' (d_path i)) (el_new ns ''folder''))))"

definition folder_entries :: "nsmap \<Rightarrow> bool \<Rightarrow> dir_info \<Rightarrow> elem list" where
  "folder_entries ns historizingActive i =
     (if describes_only i then [description_entry ns i] else []) @
     (if truthy_str (d_newName i) \<or> truthy_str (d_newDestination i) \<or>
         (truthy_str (d_historizing i) \<and> \<not> historizingActive)
      then [folder_entry ns historizingActive i] else [])"

fun generateMapEntries :: "nsmap \<Rightarrow> bool \<Rightarrow> bool \<Rightarrow> xml_directory \<Rightarrow> elem list" where
  "generateMapEntries ns historizingActive excludeActive (XMLDirectory i ds vs) =
     concat (map (generateMapEntries ns (d_historizing i \<noteq> None) (d_exclude i \<noteq> None)) ds) @
     concat (map (generateMapEntry ns (d_path i) (d_historizing i \<noteq> None) (d_exclude i \<noteq> None)) vs) @
     (if d_exclude i = Some True \<and> \<not> excludeActive
      then [exclude_entry ns (removeprefix ''/root/'' (d_path i) @ ''/*'')] else []) @
     folder_entries ns historizingActive i"

end
