(* ===== verification/Map_Parse.thy ===== *)
theory Map_Parse
  imports Map_Config Map_Tree
begin

text \<open>
  \<open>MapGenerator\<close> of generatorClass.py: loading the variable tree of an application, loading an
  existing map file into it, and building the map file to be saved.  Reading a file into an
  element tree and printing one are lxml's.
\<close>

record map_generator = config +
  inputFile :: "string option"
  outputFile :: "string option"
  mg_nsmap :: "nsmap option"
  mg_dir :: "xml_directory option"

definition csa_nsmap :: nsmap where
  "csa_nsmap = [(Some ''csa'', ''https://github.com/ChimeraTK/ControlSystemAdapter-OPC-UA-Adapter'')]"

section \<open>Loading an application\<close>

definition application_tag :: "string \<Rightarrow> bool res" where
  "application_tag tag =
     (if tag = ''application'' then Inr True
      else case split_on (CHR ''}'') tag of
             _ # t # _ \<Rightarrow> Inr (t = ''application'')
           | _ \<Rightarrow> Inl IndexError)"

definition parseChimeraTK :: "resolver \<Rightarrow> elem \<Rightarrow> map_generator \<Rightarrow> map_generator res" where
  "parseChimeraTK rs data g =
     rbind (application_tag (el_tag data)) (\<lambda>ok.
       if ok then
         rbind (XMLDirectory_init rs ''root'' data 0 []) (\<lambda>d.
           Inr (g\<lparr>applicationName := (case el_get data ''name'' of
                                       None \<Rightarrow> applicationName g | Some n \<Rightarrow> Some n),
                  mg_nsmap := Some (el_nsmap data), mg_dir := Some d\<rparr>))
       else Inl (RuntimeError ''Failed to find application tag. Not an XML file created by ChimeraTK's XML generator.''))"

definition MapGenerator_init ::
    "resolver \<Rightarrow> (string \<Rightarrow> elem res) \<Rightarrow> string option \<Rightarrow> map_generator res" where
  "MapGenerator_init rs openFile f =
     (let g = config.extend Config_init
                \<lparr>inputFile = f, outputFile = None, mg_nsmap = None, mg_dir = None\<rparr>
      in case f of
           None \<Rightarrow> Inr g
         | Some s \<Rightarrow> if s = [] then Inr g else rbind (openFile s) (\<lambda>data. parseChimeraTK rs data g))"

section \<open>Loading a map file\<close>

definition fnd :: "resolver \<Rightarrow> string \<Rightarrow> elem \<Rightarrow> elem option" where
  "fnd rs n e = find_ns rs (el_nsmap e) n e"

text \<open>\<open>e.find(n).text\<close>, when there is such a child and it has a text.\<close>

definition fnd_text :: "resolver \<Rightarrow> string \<Rightarrow> elem \<Rightarrow> string option" where
  "fnd_text rs n e = (case fnd rs n e of None \<Rightarrow> None | Some c \<Rightarrow> el_text c)"

subsection \<open>Folder entries\<close>

text \<open>
  What an entry with a source folder does to the directory: lines 548 to 564.  The comparison
  path \<open>tmpPath\<close> is built from the entry's destination and, only where the entry renames the
  directory, its name.
\<close>

definition folder_history :: "elem \<Rightarrow> dir_info \<Rightarrow> dir_info" where
  "folder_history e i =
     (case el_get e ''history'' of None \<Rightarrow> i | Some h \<Rightarrow> i\<lparr>d_historizing := Some h\<rparr>)"

definition folder_description :: "resolver \<Rightarrow> elem \<Rightarrow> dir_info \<Rightarrow> dir_info" where
  "folder_description rs e i =
     (case fnd_text rs ''description'' e of
        None \<Rightarrow> i | Some t \<Rightarrow> i\<lparr>d_newDescription := Some t\<rparr>)"

definition parent_of_path :: "dir_info \<Rightarrow> string" where
  "parent_of_path i =
     removesuffix ''/'' (removesuffix (d_name i)
       (removeprefix ''/'' (removeprefix ''/root'' (d_path i))))"

definition folder_move :: "resolver \<Rightarrow> elem \<Rightarrow> dir_info \<Rightarrow> string \<times> dir_info" where
  "folder_move rs e i =
     (case fnd_text rs ''destination'' e of
        None \<Rightarrow> (''/root/'', i)
      | Some t \<Rightarrow> (''/root/'' @ t,
                   if parent_of_path i \<noteq> t then i\<lparr>d_newDestination := Some (''/root/'' @ t)\<rparr> else i))"

definition folder_rename :: "resolver \<Rightarrow> elem \<Rightarrow> string \<times> dir_info \<Rightarrow> (string \<times> dir_info) res" where
  "folder_rename rs e ti =
     (case fnd rs ''name'' e of
        None \<Rightarrow> Inr ti
      | Some n \<Rightarrow>
          if Some (d_name (snd ti)) \<noteq> el_text n then
            (case el_text n of
               None \<Rightarrow> Inl TypeError
             | Some t \<Rightarrow> Inr (removesuffix ''/'' (fst ti) @ ''/'' @ t, (snd ti)\<lparr>d_newName := Some t\<rparr>))
          else Inr ti)"

definition folder_apply :: "resolver \<Rightarrow> elem \<Rightarrow> dir_info \<Rightarrow> dir_info res" where
  "folder_apply rs e i =
     (let i1 = folder_history e i
      in if fnd rs ''name'' e = None \<and> fnd rs ''destination'' e = None \<and> fnd rs ''description'' e = None
         then Inr i1
         else rbind (folder_rename rs e (folder_move rs e (folder_description rs e i1))) (\<lambda>(tmpPath, i2).
                Inr (if d_newDestination i2 = None \<and> tmpPath \<noteq> d_path i2
                     then i2\<lparr>d_newDestination := Some ''/root''\<rparr> else i2)))"

type_synonym skipped = "nat \<times> nat \<times> nat"
type_synonym parse_state = "xml_directory \<times> skipped"

definition skip_folder :: "skipped \<Rightarrow> skipped" where
  "skip_folder n = (Suc (fst n), snd n)"

definition skip_pv :: "skipped \<Rightarrow> skipped" where
  "skip_pv n = (fst n, Suc (fst (snd n)), snd (snd n))"

definition skip_exclude :: "skipped \<Rightarrow> skipped" where
  "skip_exclude n = (fst n, fst (snd n), Suc (snd (snd n)))"

text \<open>Assigning the fields of the object a reference stands for.\<close>

definition update_dir :: "dir_ref \<Rightarrow> (dir_info \<Rightarrow> dir_info res) \<Rightarrow> xml_directory \<Rightarrow> xml_directory res" where
  "update_dir r f d =
     (case dir_at d r of
        None \<Rightarrow> Inr d
      | Some e \<Rightarrow> rbind (f (dinfo e)) (\<lambda>i. Inr (modify_dir r (\<lambda>_. i) d)))"

definition parse_sourced_folder :: "resolver \<Rightarrow> elem \<Rightarrow> string \<Rightarrow> parse_state \<Rightarrow> parse_state res" where
  "parse_sourced_folder rs e src s =
     (case findDir (fst s) (''/root/'' @ src) of
        None \<Rightarrow> Inr (fst s, skip_folder (snd s))
      | Some r \<Rightarrow> rbind (update_dir r (folder_apply rs e) (fst s)) (\<lambda>d. Inr (d, snd s)))"

definition parse_plain_folder :: "resolver \<Rightarrow> elem \<Rightarrow> parse_state \<Rightarrow> parse_state res" where
  "parse_plain_folder rs e s =
     (case fnd_text rs ''name'' e of
        None \<Rightarrow> Inl TypeError
      | Some tmpName \<Rightarrow>
          let src = (case fnd_text rs ''destination'' e of
                       None \<Rightarrow> ''/root/'' @ tmpName
                     | Some dest \<Rightarrow> ''/root/'' @ dest @ ''/'' @ tmpName)
          in case findDir (fst s) src of
               None \<Rightarrow> Inr (fst s, skip_folder (snd s))
             | Some r \<Rightarrow>
                 Inr (case fnd rs ''description'' e of
                        None \<Rightarrow> s
                      | Some c \<Rightarrow> (modify_dir r (\<lambda>i. i\<lparr>d_newDescription := el_text c\<rparr>) (fst s), snd s)))"

definition parse_folder :: "resolver \<Rightarrow> elem \<Rightarrow> parse_state \<Rightarrow> parse_state res" where
  "parse_folder rs e s =
     (case el_get e ''sourceName'' of
        Some src \<Rightarrow> parse_sourced_folder rs e src s
      | None \<Rightarrow> parse_plain_folder rs e s)"

subsection \<open>Process variable and exclude entries\<close>

definition set_from :: "resolver \<Rightarrow> string \<Rightarrow> elem \<Rightarrow> string option \<Rightarrow> string option" where
  "set_from rs n e old = (case fnd rs n e of None \<Rightarrow> old | Some c \<Rightarrow> el_text c)"

definition pv_apply :: "resolver \<Rightarrow> elem \<Rightarrow> xml_var \<Rightarrow> xml_var" where
  "pv_apply rs e v =
     (let w = v\<lparr>v_historizing := (case el_get e ''history'' of None \<Rightarrow> v_historizing v | Some h \<Rightarrow> Some h),
                v_newDescription := set_from rs ''description'' e (v_newDescription v),
                v_newUnit := set_from rs ''unit'' e (v_newUnit v),
                v_newName := set_from rs ''name'' e (v_newName v),
                v_newDestination := set_from rs ''destination'' e (v_newDestination v)\<rparr>
      in if (v_newDestination w = Some [] \<or> v_newDestination w = None) \<and> Some (v_name w) = v_newName w
         then w\<lparr>v_newDestination := Some ''/root'', v_newName := None\<rparr> else w)"

definition is_slash :: "char \<Rightarrow> bool" where
  "is_slash c \<longleftrightarrow> c = CHR ''/''"

definition parse_pv :: "resolver \<Rightarrow> elem \<Rightarrow> parse_state \<Rightarrow> parse_state res" where
  "parse_pv rs e s =
     Inr (case el_get e ''sourceName'' of
            None \<Rightarrow> s
          | Some src \<Rightarrow>
              (case findVar (fst s) (''/root/'' @ strip_chars is_slash src) of
                 None \<Rightarrow> (fst s, skip_pv (snd s))
               | Some r \<Rightarrow> (modify_var r (pv_apply rs e) (fst s), snd s)))"

definition parse_exclude :: "elem \<Rightarrow> parse_state \<Rightarrow> parse_state res" where
  "parse_exclude e s =
     Inr (case el_get e ''sourceName'' of
            None \<Rightarrow> s
          | Some src \<Rightarrow>
              if suffix ''/*'' src then
                (case findDir (fst s) (''/root/'' @ take (length src - 2) src) of
                   None \<Rightarrow> (fst s, skip_exclude (snd s))
                 | Some r \<Rightarrow> (modify_dir r (\<lambda>i. i\<lparr>d_exclude := Some True\<rparr>) (fst s), snd s))
              else
                (case findVar (fst s) (''/root/'' @ src) of
                   None \<Rightarrow> (fst s, skip_exclude (snd s))
                 | Some r \<Rightarrow> (modify_var r (\<lambda>v. v\<lparr>v_exclude := Some True\<rparr>) (fst s), snd s)))"

text \<open>The three loops of \<open>parseMapFile\<close> over the tree, and the whole operation.\<close>

definition parse_entries :: "resolver \<Rightarrow> elem \<Rightarrow> xml_directory \<Rightarrow> parse_state res" where
  "parse_entries rs data d =
     rbind (foldM (parse_folder rs) (findall_ns rs (el_nsmap data) ''folder'' data) (d, 0, 0, 0)) (\<lambda>s.
     rbind (foldM (parse_pv rs) (findall_ns rs (el_nsmap data) ''process_variable'' data) s)
       (foldM parse_exclude (findall_ns rs (el_nsmap data) ''exclude'' data)))"

definition parseMapFile ::
    "resolver \<Rightarrow> elem \<Rightarrow> map_generator \<Rightarrow> (skipped \<times> map_generator) res" where
  "parseMapFile rs data g0 =
     (let g = g0\<lparr>mg_dir := map_option XMLDirectory_reset (mg_dir g0)\<rparr>
      in if el_tag data = ''uamapping'' then
           rbind (readConfig rs data g) (\<lambda>g.
             case mg_dir g of
               None \<Rightarrow> Inr ((0, 0, 0), g)
             | Some d \<Rightarrow> rbind (parse_entries rs data d) (\<lambda>s. Inr (snd s, g\<lparr>mg_dir := Some (fst s)\<rparr>)))
         else Inl (RuntimeError ''Failed to find uamapping tag. Not an ControlSystem-OPC-UA XML mapping file.''))"

section \<open>Saving\<close>

text \<open>The document \<open>save\<close> prints into the output file.\<close>

definition save_document :: "map_generator \<Rightarrow> elem res" where
  "save_document g =
     rbind (createConfig g (el_new csa_nsmap ''uamapping'')) (\<lambda>root.
       Inr (case mg_dir g of
              None \<Rightarrow> root
            | Some d \<Rightarrow> append_all (generateMapEntries (el_nsmap root) False False d) root))"

end
