(* ===== verification/Map_Search.thy ===== *)
theory Map_Search
  imports Map_Tree
begin

text \<open>
  References into the variable tree: the contract of reading and assigning through a reference,
  and the correctness of the searches \<open>findDir\<close> and \<open>findVar\<close> that produce them.
\<close>

section \<open>References\<close>

text \<open>
  The contract: an assignment is seen through the same reference, is not seen through any
  other, and does nothing through a reference to no object.
\<close>

locale object_refs =
  fixes at :: "'s \<Rightarrow> 'r \<Rightarrow> 'a option"
    and modify :: "'r \<Rightarrow> ('a \<Rightarrow> 'a) \<Rightarrow> 's \<Rightarrow> 's"
  assumes at_modify_same: "at (modify r f s) r = map_option f (at s r)"
    and at_modify_other: "r' \<noteq> r \<Longrightarrow> at (modify r f s) r' = at s r'"
begin

lemma at_modify: "at (modify r f s) r' = (if r' = r then map_option f (at s r) else at s r')"
  by (simp add: at_modify_same at_modify_other)

lemma at_modify_None: "at (modify r f s) r' = None \<longleftrightarrow> at s r' = None"
  by (simp add: at_modify)

lemma at_modify_keeps:
  assumes "\<And>x. g (f x) = g x"
  shows "map_option g (at (modify r f s) r') = map_option g (at s r')"
  by (cases "at s r") (auto simp: at_modify assms)

lemma at_modify_twice: "at (modify r f (modify r h s)) r' = at (modify r (f \<circ> h) s) r'"
  by (simp add: at_modify option.map_comp)

lemma at_modify_commute:
  "r \<noteq> r2 \<Longrightarrow> at (modify r f (modify r2 h s)) r' = at (modify r2 h (modify r f s)) r'"
  by (auto simp: at_modify)

end

definition dir_info_at :: "xml_directory \<Rightarrow> dir_ref \<Rightarrow> dir_info option" where
  "dir_info_at d r = map_option dinfo (dir_at d r)"

lemma dir_info_at_Nil [simp]: "dir_info_at d [] = Some (dinfo d)"
  by (simp add: dir_info_at_def)

lemma dir_info_at_Cons [simp]:
  "dir_info_at d (k # r) = (if k < length (ddirs d) then dir_info_at (ddirs d ! k) r else None)"
  by (simp add: dir_info_at_def)

lemma dir_info_at_modify_same: "dir_info_at (modify_dir r f d) r = map_option f (dir_info_at d r)"
  by (induction r f d rule: modify_dir.induct) auto

lemma dir_info_at_modify_other:
  "r' \<noteq> r \<Longrightarrow> dir_info_at (modify_dir r f d) r' = dir_info_at d r'"
proof (induction r f d arbitrary: r' rule: modify_dir.induct)
  case (1 f i ds vs)
  then show ?case by (cases r') auto
next
  case (2 k r f i ds vs)
  then show ?case by (cases r') (auto simp: nth_list_update)
qed

interpretation dir: object_refs dir_info_at modify_dir
  by unfold_locales (auto simp: dir_info_at_modify_same dir_info_at_modify_other)

lemma dvars_at_modify_vars:
  "map_option dvars (dir_at (modify_vars r f d) r') =
     (if r' = r then map_option (f \<circ> dvars) (dir_at d r) else map_option dvars (dir_at d r'))"
proof (induction r f d arbitrary: r' rule: modify_vars.induct)
  case (1 f i ds vs)
  then show ?case by (cases r') auto
next
  case (2 k r f i ds vs)
  then show ?case by (cases r') (auto simp: nth_list_update o_def)
qed

lemma var_at_Cons [simp]:
  "var_at (XMLDirectory i ds vs) (k # r, j) =
     (if k < length ds then var_at (ds ! k) (r, j) else None)"
  by (simp add: var_at_def split: option.splits)

lemma var_at_alt:
  "var_at d r = (case map_option dvars (dir_at d (fst r)) of
     None \<Rightarrow> None | Some vs \<Rightarrow> if snd r < length vs then Some (vs ! snd r) else None)"
  by (simp add: var_at_def split: option.splits)

lemma var_at_modify:
  "var_at (modify_var r f d) r' = (if r' = r then map_option f (var_at d r) else var_at d r')"
  by (cases r; cases r')
     (auto simp: var_at_alt modify_var_def dvars_at_modify_vars nth_list_update split: option.splits)

interpretation var: object_refs var_at modify_var
  by unfold_locales (auto simp: var_at_modify)

section \<open>The searches find what is there\<close>

lemma findDir_sound:
  "findDir d p = Some r \<Longrightarrow> \<exists>e. dir_at d r = Some e \<and> d_path (dinfo e) = p"
  "findDirs k ds p = Some r \<Longrightarrow>
     \<exists>j r' e. r = (k + j) # r' \<and> j < length ds \<and> dir_at (ds ! j) r' = Some e \<and> d_path (dinfo e) = p"
proof (induction d p and k ds p arbitrary: r and r rule: findDir_findDirs.induct)
  case (1 i ds vs p)
  then show ?case by (fastforce split: if_splits)
next
  case (2 k p)
  then show ?case by simp
next
  case (3 k d ds p)
  show ?case
  proof (cases "d_path (dinfo d) = p")
    case True
    with "3.prems" have "r = (k + 0) # []" by simp
    with True show ?thesis by (intro exI [of _ 0] exI [of _ "[]"] exI [of _ d]) simp
  next
    case False
    show ?thesis
    proof (cases "findDir d p")
      case None
      with False "3.prems" have "findDirs (Suc k) ds p = Some r" by simp
      then obtain j r' e where "r = (Suc k + j) # r'" "j < length ds" "dir_at (ds ! j) r' = Some e"
        "d_path (dinfo e) = p"
        using "3.IH"(2) [OF False None] by blast
      then show ?thesis by (intro exI [of _ "Suc j"] exI [of _ r'] exI [of _ e]) simp
    next
      case (Some q)
      with False "3.prems" have "r = (k + 0) # q" by simp
      moreover obtain e where "dir_at d q = Some e" "d_path (dinfo e) = p"
        using "3.IH"(1) [OF False Some] by blast
      ultimately show ?thesis by (intro exI [of _ 0] exI [of _ q] exI [of _ e]) simp
    qed
  qed
qed

lemma findDir_complete:
  "findDir d p = None \<Longrightarrow> dir_at d r = Some e \<Longrightarrow> d_path (dinfo e) \<noteq> p"
  "findDirs k ds p = None \<Longrightarrow> j < length ds \<Longrightarrow> dir_at (ds ! j) r = Some e \<Longrightarrow>
     d_path (dinfo e) \<noteq> p"
proof (induction d p and k ds p arbitrary: r e and j r e rule: findDir_findDirs.induct)
  case (1 i ds vs p)
  then show ?case by (cases r) (auto split: if_splits)
next
  case (2 k p)
  then show ?case by simp
next
  case (3 k d ds p)
  from "3.prems"(1) have neq: "d_path (dinfo d) \<noteq> p" and none: "findDir d p = None"
    and rest: "findDirs (Suc k) ds p = None"
    by (simp_all split: if_splits option.splits)
  show ?case
  proof (cases j)
    case 0
    with "3.prems" "3.IH"(1) [OF neq none] show ?thesis by simp
  next
    case (Suc i)
    with "3.prems" show ?thesis using "3.IH"(2) [OF neq none rest, of i] by simp
  qed
qed

lemma findVarIn_Some:
  "findVarIn k vs p = Some j \<Longrightarrow> k \<le> j \<and> j - k < length vs \<and> v_fullName (vs ! (j - k)) = p"
proof (induction k vs p rule: findVarIn.induct)
  case (1 k p)
  then show ?case by simp
next
  case (2 k v vs p)
  show ?case
  proof (cases "v_fullName v = p")
    case True
    with "2.prems" show ?thesis by simp
  next
    case False
    with 2 have IH: "Suc k \<le> j \<and> j - Suc k < length vs \<and> v_fullName (vs ! (j - Suc k)) = p" by simp
    then have "j - k = Suc (j - Suc k)" by arith
    with IH show ?thesis by simp
  qed
qed

lemma findVarIn_None:
  "findVarIn k vs p = None \<longleftrightarrow> (\<forall>v \<in> set vs. v_fullName v \<noteq> p)"
  by (induction k vs p rule: findVarIn.induct) auto

lemma findVar_sound:
  "findVar d p = Some r \<Longrightarrow> \<exists>v. var_at d r = Some v \<and> v_fullName v = p"
  "findVars k ds p = Some r \<Longrightarrow>
     \<exists>j r' v. fst r = (k + j) # r' \<and> j < length ds \<and> var_at (ds ! j) (r', snd r) = Some v \<and>
       v_fullName v = p"
proof (induction d p and k ds p arbitrary: r and r rule: findVar_findVars.induct)
  case (1 i ds vs p)
  show ?case
  proof (cases "findVarIn 0 vs p")
    case None
    with "1.prems" have "findVars 0 ds p = Some r" by simp
    from "1.IH" [OF None this] show ?thesis by (cases r) auto
  next
    case (Some j)
    with "1.prems" findVarIn_Some [OF Some] show ?thesis by (auto simp: var_at_def)
  qed
next
  case (2 k p)
  then show ?case by simp
next
  case (3 k d ds p)
  show ?case
  proof (cases "findVar d p")
    case None
    with "3.prems" have "findVars (Suc k) ds p = Some r" by simp
    then obtain j r' v where "fst r = (Suc k + j) # r'" "j < length ds"
        "var_at (ds ! j) (r', snd r) = Some v" "v_fullName v = p"
      using "3.IH"(2) [OF None] by blast
    then show ?thesis by (intro exI [of _ "Suc j"] exI [of _ r'] exI [of _ v]) simp
  next
    case (Some q)
    with "3.prems" have "r = (k # fst q, snd q)" by (cases q) simp
    moreover obtain v where "var_at d q = Some v" "v_fullName v = p"
      using "3.IH"(1) [OF Some] by blast
    ultimately show ?thesis by (intro exI [of _ 0] exI [of _ "fst q"] exI [of _ v]) simp
  qed
qed

lemma findVar_complete:
  "findVar d p = None \<Longrightarrow> var_at d r = Some v \<Longrightarrow> v_fullName v \<noteq> p"
  "findVars k ds p = None \<Longrightarrow> j < length ds \<Longrightarrow> var_at (ds ! j) r = Some v \<Longrightarrow> v_fullName v \<noteq> p"
proof (induction d p and k ds p arbitrary: r v and j r v rule: findVar_findVars.induct)
  case (1 i ds vs p)
  show ?case
  proof (cases "fst r")
    case Nil
    with "1.prems" show ?thesis
      by (auto simp: var_at_def findVarIn_None split: option.splits if_splits)
  next
    case (Cons k r')
    with "1.prems" have "k < length ds" "var_at (ds ! k) (r', snd r) = Some v"
      by (auto simp: var_at_def split: option.splits if_splits)
    with "1.prems" "1.IH" show ?thesis by (auto split: option.splits)
  qed
next
  case (2 k p)
  then show ?case by simp
next
  case (3 k d ds p)
  from "3.prems"(1) have none: "findVar d p = None" and rest: "findVars (Suc k) ds p = None"
    by (simp_all split: option.splits prod.splits)
  show ?case
  proof (cases j)
    case 0
    with "3.prems" "3.IH"(1) [OF none] show ?thesis by simp
  next
    case (Suc i)
    with "3.prems" show ?thesis using "3.IH"(2) [OF none rest, of i] by simp
  qed
qed

section \<open>Paths identify objects\<close>

text \<open>
  \<open>paths_ok\<close>: every path is the path of the parent extended by the own name, which
  \<open>XMLDirectory.__init__\<close> establishes.  \<open>names_ok\<close>: sibling names differ and hold no slash, a
  property of the application's XML file.
\<close>

fun paths_ok :: "xml_directory \<Rightarrow> bool" where
  "paths_ok (XMLDirectory i ds vs) \<longleftrightarrow>
     (\<forall>d \<in> set ds. d_path (dinfo d) = d_path i @ ''/'' @ d_name (dinfo d) \<and> paths_ok d) \<and>
     (\<forall>v \<in> set vs. v_fullName v = d_path i @ ''/'' @ v_name v)"

fun names_ok :: "xml_directory \<Rightarrow> bool" where
  "names_ok (XMLDirectory i ds vs) \<longleftrightarrow>
     distinct (map (\<lambda>d. d_name (dinfo d)) ds) \<and> distinct (map v_name vs) \<and>
     (\<forall>d \<in> set ds. CHR ''/'' \<notin> set (d_name (dinfo d)) \<and> names_ok d) \<and>
     (\<forall>v \<in> set vs. CHR ''/'' \<notin> set (v_name v))"

lemma XMLVar_init_fullName:
  "XMLVar_init rs e path = Inr v \<Longrightarrow> v_fullName v = path @ ''/'' @ v_name v"
  by (auto simp: XMLVar_init_def rbind_Inr_iff split: option.splits)

lemma XMLDirectory_init_info:
  "XMLDirectory_init rs name data level path = Inr d \<Longrightarrow> dinfo d = dir_info_init name level path"
  by (auto simp: XMLDirectory_init.simps [of rs name data] Let_def rbind_Inr_iff)

lemma dir_info_init_sel [simp]:
  "d_name (dir_info_init name level path) = name"
  "d_path (dir_info_init name level path) = path @ ''/'' @ name"
  by (simp_all add: dir_info_init_def)

lemma XMLDirectory_init_paths_ok:
  "XMLDirectory_init rs name data level path = Inr d \<Longrightarrow> paths_ok d"
proof (induction rs name data level path arbitrary: d rule: XMLDirectory_init.induct)
  case (1 rs name data level path)
  let ?p = "d_path (dir_info_init name level path)"
  from "1.prems" obtain ds vs where d: "d = XMLDirectory (dir_info_init name level path) ds vs"
    and ds: "mapM (\<lambda>c. case el_get c ''name'' of None \<Rightarrow> Inl (KeyError ''name'')
        | Some n \<Rightarrow> XMLDirectory_init rs n c (level + 1) ?p)
      (findall_ns rs (el_nsmap data) ''directory'' data) = Inr ds"
    and vs: "mapM (\<lambda>v. XMLVar_init rs v ?p)
      (findall_ns rs (el_nsmap data) ''variable'' data) = Inr vs"
    by (auto simp: XMLDirectory_init.simps [of rs name data] Let_def rbind_Inr_iff)
  have "d_path (dinfo c) = ?p @ ''/'' @ d_name (dinfo c) \<and> paths_ok c" if mem: "c \<in> set ds" for c
  proof -
    obtain e n where "e \<in> set (findall_ns rs (el_nsmap data) ''directory'' data)"
      and n: "el_get e ''name'' = Some n" and c: "XMLDirectory_init rs n e (level + 1) ?p = Inr c"
      using mapM_in_set [OF ds mem] by (auto split: option.splits)
    then have "paths_ok c" using "1.IH" by blast
    with XMLDirectory_init_info [OF c] show ?thesis by simp
  qed
  moreover have "v_fullName v = ?p @ ''/'' @ v_name v" if "v \<in> set vs" for v
    using mapM_in_set [OF vs that] XMLVar_init_fullName by auto
  ultimately show ?case by (simp add: d)
qed

definition slash_tail :: "string \<Rightarrow> bool" where
  "slash_tail s \<longleftrightarrow> s = [] \<or> hd s = CHR ''/''"

lemma slash_tail_takeWhile:
  assumes "CHR ''/'' \<notin> set a" and "slash_tail s"
  shows "takeWhile (\<lambda>c. c \<noteq> CHR ''/'') (a @ s) = a"
proof -
  have "takeWhile (\<lambda>c. c \<noteq> CHR ''/'') a = a" using assms(1) by (simp add: takeWhile_eq_all_conv) metis
  moreover have "takeWhile (\<lambda>c. c \<noteq> CHR ''/'') (a @ s) = a @ takeWhile (\<lambda>c. c \<noteq> CHR ''/'') s"
    using assms(1) by (intro takeWhile_append2) auto
  moreover have "takeWhile (\<lambda>c. c \<noteq> CHR ''/'') s = []"
    using assms(2) by (cases s) (auto simp: slash_tail_def)
  ultimately show ?thesis by simp
qed

lemma slash_split:
  assumes "a @ s = b @ t" and "CHR ''/'' \<notin> set a" "CHR ''/'' \<notin> set b" "slash_tail s" "slash_tail t"
  shows "a = b"
  using slash_tail_takeWhile [of a s] slash_tail_takeWhile [of b t] assms by simp

lemma slash_rsplit:
  assumes "p @ CHR ''/'' # a = q @ CHR ''/'' # b" and "CHR ''/'' \<notin> set a" "CHR ''/'' \<notin> set b"
  shows "p = q \<and> a = b"
proof -
  have "rev a @ CHR ''/'' # rev p = rev b @ CHR ''/'' # rev q"
    using arg_cong [OF assms(1), of rev] by simp
  moreover from this have "rev a = rev b"
    by (rule slash_split) (use assms in \<open>auto simp: slash_tail_def\<close>)
  ultimately show ?thesis by simp
qed

lemma dir_at_paths_ok: "paths_ok d \<Longrightarrow> dir_at d r = Some e \<Longrightarrow> paths_ok e"
  by (induction d r rule: dir_at.induct) (auto split: if_splits, metis nth_mem paths_ok.simps xml_directory.collapse)

lemma dir_at_names_ok: "names_ok d \<Longrightarrow> dir_at d r = Some e \<Longrightarrow> names_ok e"
  by (induction d r rule: dir_at.induct) (auto split: if_splits, metis nth_mem names_ok.simps xml_directory.collapse)

lemma paths_ok_child:
  assumes "paths_ok d" and "k < length (ddirs d)"
  shows "d_path (dinfo (ddirs d ! k)) = d_path (dinfo d) @ CHR ''/'' # d_name (dinfo (ddirs d ! k))"
    and "paths_ok (ddirs d ! k)"
  using assms by (cases d; simp)+

lemma dir_at_path:
  "paths_ok d \<Longrightarrow> dir_at d r = Some e \<Longrightarrow>
     \<exists>s. d_path (dinfo e) = d_path (dinfo d) @ s \<and> slash_tail s \<and> (s = [] \<longleftrightarrow> r = [])"
proof (induction d r rule: dir_at.induct)
  case (2 d k r)
  from "2.prems"(2) have k: "k < length (ddirs d)" and e: "dir_at (ddirs d ! k) r = Some e"
    by (simp_all split: if_splits)
  obtain s where "d_path (dinfo e) = d_path (dinfo (ddirs d ! k)) @ s"
    using "2.IH" [OF k paths_ok_child(2) [OF "2.prems"(1) k] e] by blast
  then show ?case using paths_ok_child(1) [OF "2.prems"(1) k] by (simp add: slash_tail_def)
qed (simp add: slash_tail_def)

lemma dir_path_unique:
  "paths_ok d \<Longrightarrow> names_ok d \<Longrightarrow> dir_at d r = Some e \<Longrightarrow> dir_at d r' = Some e' \<Longrightarrow>
     d_path (dinfo e) = d_path (dinfo e') \<Longrightarrow> r = r'"
proof (induction d r arbitrary: r' rule: dir_at.induct)
  case (1 d)
  then show ?case using dir_at_path [of d r' e'] by auto
next
  case (2 d k r)
  from "2.prems"(3) have k: "k < length (ddirs d)" and e: "dir_at (ddirs d ! k) r = Some e"
    by (simp_all split: if_splits)
  obtain s where s: "d_path (dinfo e) = d_path (dinfo (ddirs d ! k)) @ s" "slash_tail s"
    using dir_at_path [OF paths_ok_child(2) [OF "2.prems"(1) k] e] by blast
  show ?case
  proof (cases r')
    case Nil
    with "2.prems" s paths_ok_child(1) [OF "2.prems"(1) k] show ?thesis by simp
  next
    case (Cons l q)
    with "2.prems"(4) have l: "l < length (ddirs d)" and e': "dir_at (ddirs d ! l) q = Some e'"
      by (simp_all split: if_splits)
    obtain t where t: "d_path (dinfo e') = d_path (dinfo (ddirs d ! l)) @ t" "slash_tail t"
      using dir_at_path [OF paths_ok_child(2) [OF "2.prems"(1) l] e'] by blast
    have names: "distinct (map (\<lambda>d. d_name (dinfo d)) (ddirs d))"
        "CHR ''/'' \<notin> set (d_name (dinfo (ddirs d ! k)))" "CHR ''/'' \<notin> set (d_name (dinfo (ddirs d ! l)))"
        "names_ok (ddirs d ! k)"
      using "2.prems"(2) k l by (cases d; simp)+
    have "d_name (dinfo (ddirs d ! k)) @ s = d_name (dinfo (ddirs d ! l)) @ t"
      using "2.prems"(5) s t paths_ok_child(1) [OF "2.prems"(1) k] paths_ok_child(1) [OF "2.prems"(1) l]
      by simp
    then have "d_name (dinfo (ddirs d ! k)) = d_name (dinfo (ddirs d ! l))"
      using names(2,3) s(2) t(2) by (rule slash_split)
    then have "k = l" using names(1) k l by (simp add: distinct_conv_nth) metis
    moreover have "r = q"
      using "2.IH" [OF k paths_ok_child(2) [OF "2.prems"(1) k] names(4) e] e' "2.prems"(5) \<open>k = l\<close>
      by simp
    ultimately show ?thesis using Cons by simp
  qed
qed

lemma var_path_unique:
  assumes "paths_ok d" "names_ok d" and "var_at d r = Some v" "var_at d r' = Some v'"
    and "v_fullName v = v_fullName v'"
  shows "r = r'"
proof -
  obtain e where e: "dir_at d (fst r) = Some e" "snd r < length (dvars e)" "v = dvars e ! snd r"
    using assms(3) by (auto simp: var_at_def split: option.splits if_splits)
  obtain e' where e': "dir_at d (fst r') = Some e'" "snd r' < length (dvars e')" "v' = dvars e' ! snd r'"
    using assms(4) by (auto simp: var_at_def split: option.splits if_splits)
  have full: "v_fullName v = d_path (dinfo e) @ CHR ''/'' # v_name v" "CHR ''/'' \<notin> set (v_name v)"
      "distinct (map v_name (dvars e))"
    using dir_at_paths_ok [OF assms(1) e(1)] dir_at_names_ok [OF assms(2) e(1)] e(2,3)
    by (cases e; simp)+
  have full': "v_fullName v' = d_path (dinfo e') @ CHR ''/'' # v_name v'" "CHR ''/'' \<notin> set (v_name v')"
    using dir_at_paths_ok [OF assms(1) e'(1)] dir_at_names_ok [OF assms(2) e'(1)] e'(2,3)
    by (cases e'; simp)+
  have eq: "d_path (dinfo e) = d_path (dinfo e') \<and> v_name v = v_name v'"
    using full full' assms(5) by (intro slash_rsplit) auto
  then have "fst r = fst r'"
    using dir_path_unique [OF assms(1,2) e(1) e'(1)] by blast
  moreover have "snd r = snd r'"
    using full(3) e e' eq \<open>fst r = fst r'\<close> by (simp add: distinct_conv_nth) metis
  ultimately show ?thesis by (simp add: prod_eq_iff)
qed

text \<open>The application's file of the generator's unit test, test/test.xml, and the tree it gives.\<close>

definition test_nsmap :: nsmap where
  "test_nsmap = [(None, ''https://github.com/ChimeraTK/ApplicationCore'')]"

definition ac_tag :: "string \<Rightarrow> string" where
  "ac_tag n = ''{https://github.com/ChimeraTK/ApplicationCore}'' @ n"

definition test_variable :: "string \<Rightarrow> elem" where
  "test_variable n = Elem (ac_tag ''variable'') test_nsmap [(''name'', n)] (Some ''    '')
     [Elem (ac_tag ''value_type'') test_nsmap [] (Some ''int32'') [],
      Elem (ac_tag ''direction'') test_nsmap [] (Some ''application_to_control_system'') [],
      Elem (ac_tag ''unit'') test_nsmap [] (Some ''unknown'') [],
      Elem (ac_tag ''description'') test_nsmap [] (Some ''description'') [],
      Elem (ac_tag ''numberOfElements'') test_nsmap [] (Some ''1'') []]"

definition test_application :: elem where
  "test_application = Elem (ac_tag ''application'') test_nsmap [(''name'', ''LLRFServer'')] (Some ''  '')
     [Elem (ac_tag ''directory'') test_nsmap [(''name'', ''Configuration'')] (Some ''   '')
        [test_variable ''test'']]"

definition test_var :: xml_var where
  "test_var = \<lparr>v_exclude = None, v_historizing = None, v_name = ''test'', v_newName = None,
     v_valueType = Some ''int32'', v_numberOfElements = 1, v_unit = Some ''unknown'', v_newUnit = None,
     v_direction = Some ''application_to_control_system'', v_description = Some ''description'',
     v_newDescription = None, v_newDestination = None, v_fullName = ''/root/Configuration/test''\<rparr>"

definition test_tree :: xml_directory where
  "test_tree = XMLDirectory (dir_info_init ''root'' 0 [])
     [XMLDirectory (dir_info_init ''Configuration'' 1 ''/root'') [] [test_var]] []"

lemma test_application_tree:
  "XMLDirectory_init default_ns_resolver ''root'' test_application 0 [] = Inr test_tree"
  by code_simp

lemma test_tree_names_ok: "names_ok test_tree"
  by (simp add: test_tree_def test_var_def dir_info_init_def)

lemma findDir_at:
  assumes "paths_ok d" and "names_ok d" and "dir_at d r = Some e"
  shows "findDir d (d_path (dinfo e)) = Some r"
proof -
  obtain r' where r': "findDir d (d_path (dinfo e)) = Some r'"
    using findDir_complete(1) assms(3) by (cases "findDir d (d_path (dinfo e))") blast+
  then obtain e' where "dir_at d r' = Some e'" "d_path (dinfo e') = d_path (dinfo e)"
    using findDir_sound(1) by blast
  then have "r' = r" using dir_path_unique [OF assms(1,2) _ assms(3)] by blast
  with r' show ?thesis by simp
qed

lemma findVar_at:
  assumes "paths_ok d" and "names_ok d" and "var_at d r = Some v"
  shows "findVar d (v_fullName v) = Some r"
proof -
  obtain r' where r': "findVar d (v_fullName v) = Some r'"
    using findVar_complete(1) assms(3) by (cases "findVar d (v_fullName v)") blast+
  then obtain v' where "var_at d r' = Some v'" "v_fullName v' = v_fullName v"
    using findVar_sound(1) by blast
  then have "r' = r" using var_path_unique [OF assms(1,2) _ assms(3)] by blast
  with r' show ?thesis by simp
qed

text \<open>C20: in a tree loaded from an application's XML file in which no two directories and no two
  variables of one directory have the same name and no name below the root has a slash (\<open>names_ok\<close>),
  \<open>findDir\<close> finds every directory by its path, and that very directory: the reference it returns is
  the directory's own position.\<close>

theorem findDir_finds_the_directory:
  assumes "XMLDirectory_init rs ''root'' data 0 [] = Inr d" and "names_ok d"
    and "dir_at d r = Some e"
  shows "findDir d (d_path (dinfo e)) = Some r"
  using XMLDirectory_init_paths_ok [OF assms(1)] assms(2,3) by (rule findDir_at)

corollary findDir_finds_the_directory_witness:
  "findDir test_tree ''/root/Configuration'' = Some [0]"
  using findDir_finds_the_directory
    [OF test_application_tree test_tree_names_ok, where r = "[0]" and e = "ddirs test_tree ! 0"]
  by (simp add: test_tree_def dir_info_init_def)

text \<open>C21: in such a tree, under the same condition on the names (\<open>names_ok\<close>), \<open>findVar\<close> returns for the
  full name of any variable the position of that very variable.\<close>

theorem findVar_finds_the_variable:
  assumes "XMLDirectory_init rs ''root'' data 0 [] = Inr d" and "names_ok d"
    and "var_at d r = Some v"
  shows "findVar d (v_fullName v) = Some r"
  using XMLDirectory_init_paths_ok [OF assms(1)] assms(2,3) by (rule findVar_at)

corollary findVar_finds_the_variable_witness:
  "findVar test_tree ''/root/Configuration/test'' = Some ([0], 0)"
  using findVar_finds_the_variable
    [OF test_application_tree test_tree_names_ok, where r = "([0], 0)" and v = test_var]
  by (simp add: test_tree_def var_at_def test_var_def)

end
