(* ===== verification/Map_Load.thy ===== *)
theory Map_Load
  imports Map_Parse Map_Search
begin

text \<open>
  What loading a map file does to a tree, and how it relates to saving: the application's own
  data is never touched, the skipped counters are exact, and the entries \<open>save\<close> writes for a
  changed variable or folder are read back as the same change, or not, case by case.
\<close>

section \<open>The application's own data\<close>

text \<open>The tree with every user setting removed: what the application's XML file said.\<close>

definition pristine_info :: "dir_info \<Rightarrow> dir_info" where
  "pristine_info i = i\<lparr>d_exclude := None, d_historizing := None, d_newName := None,
     d_newDescription := None, d_newDestination := None\<rparr>"

definition pristine_var :: "xml_var \<Rightarrow> xml_var" where
  "pristine_var v = v\<lparr>v_exclude := None, v_historizing := None, v_newName := None, v_newUnit := None,
     v_newDescription := None, v_newDestination := None\<rparr>"

fun pristine :: "xml_directory \<Rightarrow> xml_directory" where
  "pristine (XMLDirectory i ds vs) =
     XMLDirectory (pristine_info i) (map pristine ds) (map pristine_var vs)"

named_theorems pristine_keep \<open>operations that keep the pristine tree\<close>

lemma pristine_info_updates [simp]:
  "pristine_info (i\<lparr>d_exclude := a\<rparr>) = pristine_info i"
  "pristine_info (i\<lparr>d_historizing := h\<rparr>) = pristine_info i"
  "pristine_info (i\<lparr>d_newName := b\<rparr>) = pristine_info i"
  "pristine_info (i\<lparr>d_newDescription := b\<rparr>) = pristine_info i"
  "pristine_info (i\<lparr>d_newDestination := b\<rparr>) = pristine_info i"
  by (simp_all add: pristine_info_def)

lemma pristine_var_updates [simp]:
  "pristine_var (v\<lparr>v_exclude := a\<rparr>) = pristine_var v"
  "pristine_var (v\<lparr>v_historizing := h\<rparr>) = pristine_var v"
  "pristine_var (v\<lparr>v_newName := b\<rparr>) = pristine_var v"
  "pristine_var (v\<lparr>v_newUnit := b\<rparr>) = pristine_var v"
  "pristine_var (v\<lparr>v_newDescription := b\<rparr>) = pristine_var v"
  "pristine_var (v\<lparr>v_newDestination := b\<rparr>) = pristine_var v"
  by (simp_all add: pristine_var_def)

lemma pristine_sel [simp]:
  "d_path (pristine_info i) = d_path i" "d_name (pristine_info i) = d_name i"
  "v_fullName (pristine_var v) = v_fullName v"
  by (simp_all add: pristine_info_def pristine_var_def)

lemma dinfo_pristine [simp]: "dinfo (pristine d) = pristine_info (dinfo d)"
  by (cases d) simp

lemma map_list_update_same:
  "k < length xs \<Longrightarrow> f y = f (xs ! k) \<Longrightarrow> map f (xs[k := y]) = map f xs"
  by (rule nth_equalityI) (auto simp: nth_list_update)

lemma pristine_modify_dir [pristine_keep]:
  assumes "\<And>i. dir_info_at d r = Some i \<Longrightarrow> pristine_info (f i) = pristine_info i"
  shows "pristine (modify_dir r f d) = pristine d"
  using assms
proof (induction r f d rule: modify_dir.induct)
  case (2 k r f i ds vs)
  then show ?case by (simp add: map_list_update_same)
qed simp

lemma pristine_modify_var [pristine_keep]:
  assumes "\<And>v. pristine_var (f v) = pristine_var v"
  shows "pristine (modify_var r f d) = pristine d"
proof -
  have "pristine (modify_vars q g d) = pristine d"
    if "\<And>vs. map pristine_var (g vs) = map pristine_var vs" for q g d
    using that by (induction q g d rule: modify_vars.induct) (simp_all add: map_list_update_same)
  then show ?thesis
    by (simp add: modify_var_def map_list_update_same assms)
qed

lemma findDir_pristine:
  "findDir (pristine d) p = findDir d p"
  "findDirs k (map pristine ds) p = findDirs k ds p"
  by (induction d p and k ds p rule: findDir_findDirs.induct) (auto split: option.splits)

lemma findVarIn_pristine: "findVarIn k (map pristine_var vs) p = findVarIn k vs p"
  by (induction k vs p rule: findVarIn.induct) auto

lemma findVar_pristine:
  "findVar (pristine d) p = findVar d p"
  "findVars k (map pristine ds) p = findVars k ds p"
  by (induction d p and k ds p rule: findVar_findVars.induct)
     (auto simp: findVarIn_pristine split: option.splits)

lemma pristine_eq_find:
  assumes "pristine d = pristine d'"
  shows "findDir d p = findDir d' p" and "findVar d p = findVar d' p"
  using findDir_pristine(1) [of d p] findDir_pristine(1) [of d' p]
    findVar_pristine(1) [of d p] findVar_pristine(1) [of d' p] assms by simp_all

lemma pristine_reset [simp]: "pristine (XMLDirectory_reset d) = pristine d"
  by (induction d rule: XMLDirectory_reset.induct)
     (simp add: pristine_info_def XMLVar_reset_def pristine_var_def o_def)

text \<open>No entry changes it.\<close>

lemma folder_history_pristine [simp]: "pristine_info (folder_history e i) = pristine_info i"
  by (simp add: folder_history_def split: option.splits)

lemma folder_description_pristine [simp]: "pristine_info (folder_description rs e i) = pristine_info i"
  by (simp add: folder_description_def split: option.splits)

lemma folder_move_pristine [simp]: "pristine_info (snd (folder_move rs e i)) = pristine_info i"
  by (simp add: folder_move_def split: option.splits)

lemma folder_rename_pristine:
  "folder_rename rs e ti = Inr ti' \<Longrightarrow> pristine_info (snd ti') = pristine_info (snd ti)"
  by (auto simp: folder_rename_def split: option.splits if_splits)

lemma folder_apply_pristine: "folder_apply rs e i = Inr i' \<Longrightarrow> pristine_info i' = pristine_info i"
  by (auto simp: folder_apply_def Let_def rbind_Inr_iff split: if_splits dest!: folder_rename_pristine)

lemma pv_apply_pristine [simp]: "pristine_var (pv_apply rs e v) = pristine_var v"
  by (simp add: pv_apply_def Let_def)

lemma update_dir_pristine:
  assumes "update_dir r f d = Inr d'" and "\<And>i i'. f i = Inr i' \<Longrightarrow> pristine_info i' = pristine_info i"
  shows "pristine d' = pristine d"
  using assms
  by (auto simp: update_dir_def rbind_Inr_iff dir_info_at_def intro!: pristine_modify_dir
      split: option.splits)

lemma parse_sourced_folder_pristine:
  assumes "parse_sourced_folder rs e src s = Inr s'"
  shows "pristine (fst s') = pristine (fst s)"
  using assms
  by (auto simp: parse_sourced_folder_def rbind_Inr_iff split: option.splits
      dest: update_dir_pristine [OF _ folder_apply_pristine])

lemma parse_plain_folder_pristine:
  assumes "parse_plain_folder rs e s = Inr s'"
  shows "pristine (fst s') = pristine (fst s)"
proof -
  have "pristine (modify_dir r (\<lambda>i. i\<lparr>d_newDescription := t\<rparr>) d) = pristine d" for r t d
    by (rule pristine_modify_dir) simp
  with assms show ?thesis
    by (auto simp: parse_plain_folder_def Let_def split: option.splits)
qed

lemma parse_folder_pristine:
  "parse_folder rs e s = Inr s' \<Longrightarrow> pristine (fst s') = pristine (fst s)"
  by (simp add: parse_folder_def parse_sourced_folder_pristine parse_plain_folder_pristine
      split: option.splits)

lemma parse_pv_pristine: "parse_pv rs e s = Inr s' \<Longrightarrow> pristine (fst s') = pristine (fst s)"
  by (auto simp: parse_pv_def split: option.splits intro!: pristine_modify_var)

lemma parse_exclude_pristine: "parse_exclude e s = Inr s' \<Longrightarrow> pristine (fst s') = pristine (fst s)"
  by (auto simp: parse_exclude_def split: option.splits if_splits
      intro!: pristine_modify_var pristine_modify_dir)

lemma foldM_pristine:
  assumes "foldM f es s = Inr s'"
    and "\<And>e s s'. f e s = Inr s' \<Longrightarrow> pristine (fst s') = pristine (fst s)"
  shows "pristine (fst s') = pristine (fst s)"
  by (rule foldM_invariant [OF assms(1), where P = "\<lambda>t. pristine (fst t) = pristine (fst s)"])
     (auto dest: assms(2))

lemma parse_entries_pristine:
  assumes "parse_entries rs data d = Inr s"
  shows "pristine (fst s) = pristine d"
proof -
  from assms obtain s1 s2
    where "foldM (parse_folder rs) (findall_ns rs (el_nsmap data) ''folder'' data) (d, 0, 0, 0) = Inr s1"
      and "foldM (parse_pv rs) (findall_ns rs (el_nsmap data) ''process_variable'' data) s1 = Inr s2"
      and "foldM parse_exclude (findall_ns rs (el_nsmap data) ''exclude'' data) s2 = Inr s"
    by (auto simp: parse_entries_def rbind_Inr_iff)
  from foldM_pristine [OF this(1)] foldM_pristine [OF this(2)] foldM_pristine [OF this(3)]
  show ?thesis
    by (simp add: parse_folder_pristine parse_pv_pristine parse_exclude_pristine)
qed

text \<open>Reading the configuration leaves the fields of the subclass alone.\<close>

lemma config_more_history: "config.more (c\<lparr>historySettings := h\<rparr>) = config.more c"
  by simp

lemma read_setup_more: "read_setup e c = Inr c' \<Longrightarrow> config.more c' = config.more c"
  unfolding read_setup_def
  by (elim rbind_InrE) (auto simp only: sum.inject config_more_history split: option.split_asm)

lemma read_root_folder_more: "read_root_folder e c = Inr c' \<Longrightarrow> config.more c' = config.more c"
  by (auto simp: read_root_folder_def split: option.splits)

lemma read_server_more: "read_server e c = Inr c' \<Longrightarrow> config.more c' = config.more c"
  by (cases "find_plain ''server'' e") (auto simp: read_server_def rbind_Inr_iff)

lemma read_historizing_more:
  "read_historizing rs ns e c = Inr c' \<Longrightarrow> config.more c' = config.more c"
  unfolding read_historizing_def
  by (auto simp only: sum.inject split: option.split_asm
      elim!: foldM_invariant [where P = "\<lambda>x. config.more x = config.more c"] dest: read_setup_more)

lemma read_rest_more:
  "config.more (read_security e (read_login e (read_voidHandling e (read_lds e c)))) = config.more c"
  by (simp add: read_security_def read_login_def read_voidHandling_def read_lds_def
      EncryptionSettings_init_def readEncryption_def split: option.splits)

lemma readConfig_more:
  assumes "readConfig rs data c = Inr c'"
  shows "config.more c' = config.more c"
proof (cases "find_ns rs (el_nsmap data) ''config'' data")
  case None
  with assms show ?thesis by (simp add: readConfig_def)
next
  case (Some e)
  with assms obtain c1 c2 where "read_root_folder e c = Inr c1" and "read_server e c1 = Inr c2"
    and "read_historizing rs (el_nsmap data) e
           (read_security e (read_login e (read_voidHandling e (read_lds e c2)))) = Inr c'"
    by (auto simp: readConfig_def rbind_Inr_iff)
  then show ?thesis
    by (metis read_root_folder_more read_server_more read_historizing_more read_rest_more)
qed

lemma mg_dir_more: "config.more g = config.more g' \<Longrightarrow> mg_dir g = mg_dir (g' :: map_generator)"
  by (cases g; cases g') simp

lemma readConfig_mg_dir: "readConfig rs data g = Inr g' \<Longrightarrow> mg_dir g' = mg_dir (g :: map_generator)"
  by (rule mg_dir_more) (rule readConfig_more)

text \<open>C23: loading a map file never changes what the application's XML file said: names, paths,
  types, units and the structure of the tree are the same before and after, whatever the file
  holds; only the user's settings change.\<close>

theorem load_keeps_application_data:
  assumes "parseMapFile rs data g = Inr (n, g')"
  shows "map_option pristine (mg_dir g') = map_option pristine (mg_dir g)"
proof -
  from assms obtain g1 where g1: "readConfig rs data
        (g\<lparr>mg_dir := map_option XMLDirectory_reset (mg_dir g)\<rparr>) = Inr g1"
    and g': "(case mg_dir g1 of None \<Rightarrow> Inr ((0, 0, 0), g1)
       | Some d \<Rightarrow> rbind (parse_entries rs data d) (\<lambda>s. Inr (snd s, g1\<lparr>mg_dir := Some (fst s)\<rparr>)))
       = Inr (n, g')"
    by (auto simp: parseMapFile_def Let_def rbind_Inr_iff split: if_splits)
  have dir: "mg_dir g1 = map_option XMLDirectory_reset (mg_dir g)"
    using readConfig_mg_dir [OF g1] by simp
  show ?thesis
  proof (cases "mg_dir g")
    case None
    with dir g' show ?thesis by simp
  next
    case (Some d)
    with dir g' obtain s where s: "parse_entries rs data (XMLDirectory_reset d) = Inr s"
      and "g' = g1\<lparr>mg_dir := Some (fst s)\<rparr>"
      by (auto simp: rbind_Inr_iff)
    then have "map_option pristine (mg_dir g') = Some (pristine (XMLDirectory_reset d))"
      using parse_entries_pristine [OF s] by simp
    with Some show ?thesis by simp
  qed
qed

text \<open>A map file for the application of the unit test: one folder renamed, one variable moved, and a
  folder and an exclude entry whose sources the application does not have.\<close>

definition demo_mapping :: elem where
  "demo_mapping = append_all
     [el_set ''sourceName'' ''Configuration''
        (append_all [sub_text [] ''name'' ''newName'', sub_text [] ''description'' ''newDirDescription'']
          (el_new [] ''folder'')),
      el_set ''sourceName'' ''Nowhere'' (el_new [] ''folder''),
      el_set ''sourceName'' ''Configuration/test''
        (append_all [sub_text [] ''destination'' ''Test'', sub_text [] ''unit'' ''newUnit'']
          (el_new [] ''process_variable'')),
      exclude_entry [] ''Nowhere/*'']
     (el_new [] ''uamapping'')"

definition demo_generator :: map_generator where
  "demo_generator = config.extend Config_init
     \<lparr>inputFile = None, outputFile = None, mg_nsmap = None, mg_dir = Some test_tree\<rparr>"

lemma demo_mapping_loads:
  obtains n g' where "parseMapFile default_ns_resolver demo_mapping demo_generator = Inr (n, g')"
proof -
  have "(case parseMapFile default_ns_resolver demo_mapping demo_generator of Inl e \<Rightarrow> False | Inr r \<Rightarrow> True)"
    by code_simp
  then show thesis using that by (auto split: sum.split_asm)
qed

corollary load_keeps_application_data_witness:
  "\<exists>n g'. parseMapFile default_ns_resolver demo_mapping demo_generator = Inr (n, g') \<and>
     map_option pristine (mg_dir g') = Some (pristine test_tree)"
proof -
  obtain n g' where g': "parseMapFile default_ns_resolver demo_mapping demo_generator = Inr (n, g')"
    by (rule demo_mapping_loads)
  then have "map_option pristine (mg_dir g') = Some (pristine test_tree)"
    using load_keeps_application_data [OF g'] by (simp add: demo_generator_def config.extend_def)
  with g' show ?thesis by blast
qed

end
