(* ===== verification/Map_Save.thy ===== *)
theory Map_Save
  imports Map_Load
begin

text \<open>
  Saving against loading.  An element written by \<open>save\<close> and read back is \<open>stored\<close>: an empty text
  is no text.  The skipped counters of a load are exact; the entry of a changed variable is found
  again and restores the change; a moved folder comes back moved, a renamed one moved to the root.
\<close>

section \<open>The skipped counters\<close>

definition folder_source :: "resolver \<Rightarrow> elem \<Rightarrow> string option" where
  "folder_source rs e =
     (case el_get e ''sourceName'' of
        Some src \<Rightarrow> Some (''/root/'' @ src)
      | None \<Rightarrow> map_option (\<lambda>n. ''/root/'' @ (case fnd_text rs ''destination'' e of
                                              None \<Rightarrow> n | Some t \<Rightarrow> t @ ''/'' @ n))
                 (fnd_text rs ''name'' e))"

text \<open>Whether the tree has a directory with the path, or a variable with the full name, at any position.\<close>

definition has_directory :: "xml_directory \<Rightarrow> string \<Rightarrow> bool" where
  "has_directory d p \<longleftrightarrow> (\<exists>r e. dir_at d r = Some e \<and> d_path (dinfo e) = p)"

definition has_variable :: "xml_directory \<Rightarrow> string \<Rightarrow> bool" where
  "has_variable d p \<longleftrightarrow> (\<exists>r v. var_at d r = Some v \<and> v_fullName v = p)"

lemma has_directory_find [code]: "has_directory d p \<longleftrightarrow> findDir d p \<noteq> None"
  using findDir_complete(1) [of d p] findDir_sound(1) [of d p]
  by (cases "findDir d p") (auto simp: has_directory_def)

lemma has_variable_find [code]: "has_variable d p \<longleftrightarrow> findVar d p \<noteq> None"
  using findVar_complete(1) [of d p] findVar_sound(1) [of d p]
  by (cases "findVar d p") (auto simp: has_variable_def)

definition folder_unresolved :: "resolver \<Rightarrow> xml_directory \<Rightarrow> elem \<Rightarrow> bool" where
  "folder_unresolved rs d e = (case folder_source rs e of None \<Rightarrow> False | Some p \<Rightarrow> \<not> has_directory d p)"

definition pv_unresolved :: "xml_directory \<Rightarrow> elem \<Rightarrow> bool" where
  "pv_unresolved d e = (case el_get e ''sourceName'' of
     None \<Rightarrow> False | Some src \<Rightarrow> \<not> has_variable d (''/root/'' @ strip_chars is_slash src))"

definition exclude_unresolved :: "xml_directory \<Rightarrow> elem \<Rightarrow> bool" where
  "exclude_unresolved d e = (case el_get e ''sourceName'' of
     None \<Rightarrow> False
   | Some src \<Rightarrow> if suffix ''/*'' src then \<not> has_directory d (''/root/'' @ take (length src - 2) src)
                 else \<not> has_variable d (''/root/'' @ src))"

lemmas unresolved_defs = folder_unresolved_def pv_unresolved_def exclude_unresolved_def
  has_directory_find has_variable_find

lemma unresolved_pristine:
  assumes "pristine d = pristine d'"
  shows "folder_unresolved rs d = folder_unresolved rs d'" and "pv_unresolved d = pv_unresolved d'"
    and "exclude_unresolved d = exclude_unresolved d'"
  unfolding unresolved_defs
  by (simp_all add: pristine_eq_find [OF assms] cong: option.case_cong)

lemma parse_folder_count:
  assumes "parse_folder rs e s = Inr s'"
  shows "snd s' = (if folder_unresolved rs (fst s) e then skip_folder (snd s) else snd s)"
proof (cases "el_get e ''sourceName''")
  case None
  with assms show ?thesis
    by (auto simp: parse_folder_def parse_plain_folder_def unresolved_defs folder_source_def
        Let_def split: option.splits)
next
  case (Some src)
  with assms show ?thesis
    by (auto simp: parse_folder_def parse_sourced_folder_def unresolved_defs folder_source_def
        rbind_Inr_iff split: option.splits)
qed

lemma parse_pv_count:
  "parse_pv rs e s = Inr s' \<Longrightarrow>
     snd s' = (if pv_unresolved (fst s) e then skip_pv (snd s) else snd s)"
  by (auto simp: parse_pv_def unresolved_defs split: option.splits)

lemma parse_exclude_count:
  "parse_exclude e s = Inr s' \<Longrightarrow>
     snd s' = (if exclude_unresolved (fst s) e then skip_exclude (snd s) else snd s)"
  by (auto simp: parse_exclude_def unresolved_defs split: option.splits if_splits)

text \<open>A loop that skips the entries \<open>P\<close> and leaves the pristine tree alone counts the \<open>P\<close>.\<close>

lemma foldM_count:
  assumes "foldM f es s = Inr t"
    and "\<And>e s s'. f e s = Inr s' \<Longrightarrow> pristine (fst s') = pristine (fst s)"
    and "\<And>e s s'. f e s = Inr s' \<Longrightarrow> snd s' = (if P (fst s) e then k (snd s) else snd s)"
    and "\<And>d d'. pristine d = pristine d' \<Longrightarrow> P d = P d'"
  shows "snd t = (k ^^ length (filter (P (fst s)) es)) (snd s)"
  using assms(1)
proof (induction es arbitrary: s)
  case Nil
  then show ?case by simp
next
  case (Cons e es)
  then obtain u where u: "f e s = Inr u" and rest: "foldM f es u = Inr t"
    by (auto simp: rbind_Inr_iff)
  have P: "P (fst u) = P (fst s)" by (rule assms(4)) (rule assms(2) [OF u])
  show ?case using Cons.IH [OF rest] assms(3) [OF u] by (simp add: P funpow_swap1)
qed

lemma skip_funpow:
  "(skip_folder ^^ n) (a, b, c) = (a + n, b, c)" "(skip_pv ^^ n) (a, b, c) = (a, b + n, c)"
  "(skip_exclude ^^ n) (a, b, c) = (a, b, c + n)"
  by (induction n; simp add: skip_folder_def skip_pv_def skip_exclude_def)+

lemma parse_entries_counts:
  assumes "parse_entries rs data d = Inr s"
  shows "snd s =
    (length (filter (folder_unresolved rs d) (findall_ns rs (el_nsmap data) ''folder'' data)),
     length (filter (pv_unresolved d) (findall_ns rs (el_nsmap data) ''process_variable'' data)),
     length (filter (exclude_unresolved d) (findall_ns rs (el_nsmap data) ''exclude'' data)))"
proof -
  from assms obtain s1 s2
    where f1: "foldM (parse_folder rs) (findall_ns rs (el_nsmap data) ''folder'' data) (d, 0, 0, 0) = Inr s1"
      and f2: "foldM (parse_pv rs) (findall_ns rs (el_nsmap data) ''process_variable'' data) s1 = Inr s2"
      and f3: "foldM parse_exclude (findall_ns rs (el_nsmap data) ''exclude'' data) s2 = Inr s"
    by (auto simp: parse_entries_def rbind_Inr_iff)
  have p1: "pristine (fst s1) = pristine d"
    using foldM_pristine [OF f1 parse_folder_pristine] by simp
  have p2: "pristine (fst s2) = pristine d"
    using foldM_pristine [OF f2 parse_pv_pristine] p1 by simp
  note c1 = foldM_count [OF f1 parse_folder_pristine parse_folder_count unresolved_pristine(1)]
  note c2 = foldM_count [OF f2 parse_pv_pristine parse_pv_count unresolved_pristine(2)]
  note c3 = foldM_count [OF f3 parse_exclude_pristine parse_exclude_count unresolved_pristine(3)]
  show ?thesis
    using c1 c2 c3 unresolved_pristine(2) [OF p1] unresolved_pristine(3) [OF p2]
    by (simp add: skip_funpow)
qed

text \<open>C24: the three counters \<open>parseMapFile\<close> returns are exactly the numbers of folder, process
  variable and exclude entries whose source is not in the application's tree: no directory of the tree,
  at any position, has the path, or no variable the full name.  The source is \<open>/root/\<close> followed by
  the \<open>sourceName\<close>, which loses the slashes around it for process variables only; for folders and
  excludes it is taken as it stands, so \<open>/Configuration\<close> is not found as \<open>Configuration\<close>.  A folder
  without a \<open>sourceName\<close> is looked for by its destination and name.\<close>

theorem skipped_counters_exact:
  assumes "parseMapFile rs data g = Inr (n, g')" and "mg_dir g = Some d"
  shows "n =
    (length (filter (folder_unresolved rs d) (findall_ns rs (el_nsmap data) ''folder'' data)),
     length (filter (pv_unresolved d) (findall_ns rs (el_nsmap data) ''process_variable'' data)),
     length (filter (exclude_unresolved d) (findall_ns rs (el_nsmap data) ''exclude'' data)))"
proof -
  from assms obtain g1 where g1: "readConfig rs data
        (g\<lparr>mg_dir := Some (XMLDirectory_reset d)\<rparr>) = Inr g1"
    and g': "(case mg_dir g1 of None \<Rightarrow> Inr ((0, 0, 0), g1)
       | Some d \<Rightarrow> rbind (parse_entries rs data d) (\<lambda>s. Inr (snd s, g1\<lparr>mg_dir := Some (fst s)\<rparr>)))
       = Inr (n, g')"
    by (auto simp: parseMapFile_def Let_def rbind_Inr_iff split: if_splits)
  have "mg_dir g1 = Some (XMLDirectory_reset d)"
    using readConfig_mg_dir [OF g1] by simp
  with g' obtain s where "parse_entries rs data (XMLDirectory_reset d) = Inr s" and "n = snd s"
    by (auto simp: rbind_Inr_iff)
  then show ?thesis
    using parse_entries_counts unresolved_pristine [OF pristine_reset] by simp
qed

corollary skipped_counters_exact_witness:
  "\<exists>g'. parseMapFile default_ns_resolver demo_mapping demo_generator = Inr ((1, 0, 1), g')"
proof -
  obtain n g' where g': "parseMapFile default_ns_resolver demo_mapping demo_generator = Inr (n, g')"
    by (rule demo_mapping_loads)
  have "mg_dir demo_generator = Some test_tree" by (simp add: demo_generator_def config.extend_def)
  from skipped_counters_exact [OF g' this]
  have "n = (length (filter (folder_unresolved default_ns_resolver test_tree)
          (findall_ns default_ns_resolver (el_nsmap demo_mapping) ''folder'' demo_mapping)),
        length (filter (pv_unresolved test_tree)
          (findall_ns default_ns_resolver (el_nsmap demo_mapping) ''process_variable'' demo_mapping)),
        length (filter (exclude_unresolved test_tree)
          (findall_ns default_ns_resolver (el_nsmap demo_mapping) ''exclude'' demo_mapping)))" .
  also have "\<dots> = (1, 0, 1)" by code_simp
  finally show ?thesis using g' by blast
qed

text \<open>
  The map file of the unit test names its folder \<open>/Configuration\<close> and its variable
  \<open>/Configuration/test\<close>.  The variable is found; the folder, which the test expects to be renamed and
  moved, is skipped.
\<close>

definition test_folder :: elem where
  "test_folder = Elem ''folder'' [] [(''sourceName'', ''/Configuration''), (''copy'', ''False'')] None
     [Elem ''description'' [] [] (Some ''newDirDescription'') [],
      Elem ''destination'' [] [] (Some ''Test'') [], Elem ''name'' [] [] (Some ''newName'') []]"

definition test_process_variable :: elem where
  "test_process_variable = Elem ''process_variable'' []
     [(''sourceName'', ''/Configuration/test''), (''copy'', ''False'')] None []"

lemma leading_slash_not_found:
  "folder_unresolved default_ns_resolver test_tree test_folder" "\<not> pv_unresolved test_tree test_process_variable"
  "parse_folder default_ns_resolver test_folder (test_tree, 0, 0, 0) = Inr (test_tree, 1, 0, 0)"
  by code_simp+

end
