(* ===== verification/Map_Roundtrip.thy ===== *)
theory Map_Roundtrip
  imports Map_Save
begin

text \<open>
  The map file entries of a changed variable and of a changed folder, read back by the loops of
  \<open>parseMapFile\<close> on a freshly loaded tree.
\<close>

section \<open>What is read of a written entry\<close>

text \<open>
  Writing an element to the file and reading it again: an element with an empty text has no text.
\<close>

fun stored :: "elem \<Rightarrow> elem" where
  "stored (Elem t ns as tx cs) = Elem t ns as (if tx = Some [] then None else tx) (map stored cs)"

lemma stored_sel [simp]:
  "el_tag (stored e) = el_tag e" "el_nsmap (stored e) = el_nsmap e" "el_get (stored e) k = el_get e k"
  "el_text (stored e) = (if el_text e = Some [] then None else el_text e)"
  "el_children (stored e) = map stored (el_children e)"
  by (cases e; simp add: el_get_def)+

lemma append_all_sel [simp]:
  "el_tag (append_all cs e) = el_tag e" "el_nsmap (append_all cs e) = el_nsmap e"
  "el_get (append_all cs e) k = el_get e k" "el_children (append_all cs e) = el_children e @ cs"
  by (induction cs arbitrary: e) (simp_all add: append_all_def)

lemma sub_text_sel [simp]:
  "el_tag (sub_text ns t s) = t" "el_text (sub_text ns t s) = Some s"
  by (simp_all add: sub_text_def)

lemma fnd_stored:
  assumes "plain_names rs" and "None \<notin> fst ` set (el_nsmap e)" and "CHR '':'' \<notin> set n"
  shows "fnd rs n (stored e) = map_option stored (find_plain n e)"
proof -
  have "List.find P (map stored cs) = map_option stored (List.find (P \<circ> stored) cs)" for P cs
    by (induction cs) auto
  then show ?thesis
    using plain_names_rs [OF assms] by (simp add: fnd_def find_ns_def find_plain_def o_def)
qed

lemma find_plain_append_all:
  "find_plain n (append_all cs e) =
     (case find_plain n e of None \<Rightarrow> List.find (\<lambda>c. el_tag c = n) cs | Some x \<Rightarrow> Some x)"
  by (simp add: find_plain_def find_append)

lemma when_truthy_if: "when_truthy s f = (if truthy_str s then f (the s) else [])"
  by (cases s) (simp_all add: when_truthy_def)

lemma find_if: "List.find P (if b then xs else ys) = (if b then List.find P xs else List.find P ys)"
  by simp

lemma truthy_wf: "s \<noteq> Some [] \<Longrightarrow> truthy_str s \<longleftrightarrow> s \<noteq> None"
  by (cases s) simp_all

lemma el_get_set: "el_get (el_set k v e) k' = (if k' = k then Some v else el_get e k')"
  by (rule attr.get_put)

section \<open>Process variables\<close>

text \<open>The user's settings of a variable that \<open>save\<close> can write without loss.\<close>

definition pv_wf :: "xml_var \<Rightarrow> bool" where
  "pv_wf v \<longleftrightarrow> v_newName v \<noteq> Some [] \<and> v_newUnit v \<noteq> Some [] \<and> v_newDescription v \<noteq> Some [] \<and>
     v_historizing v \<noteq> Some [] \<and> v_newName v \<noteq> Some (v_name v) \<and> v_name v \<noteq> [] \<and>
     (case v_newDestination v of
        None \<Rightarrow> True
      | Some d \<Rightarrow> if d = ''/root'' then v_newName v = None
                  else prefix ''/root/'' d \<and> removeprefix ''/root/'' d \<noteq> [] \<and>
                    hd (removeprefix ''/root/'' d) \<noteq> CHR ''/'')"

text \<open>A variable as loaded from the application's file, before any change.\<close>

definition pv_fresh :: "xml_var \<Rightarrow> xml_var" where
  "pv_fresh v = v\<lparr>v_historizing := None, v_newName := None, v_newUnit := None, v_newDescription := None,
     v_newDestination := None\<rparr>"

text \<open>What a destination comes back as: without the leading \<open>/root/\<close>.\<close>

definition reread_destination :: "string option \<Rightarrow> string option" where
  "reread_destination d = map_option (removeprefix ''/root/'') d"

lemma find_pv_entry:
  "find_plain ''description'' (pv_entry ns path h v) =
     (if truthy_str (v_newDescription v)
      then Some (sub_text ns ''description'' (the (v_newDescription v))) else None)"
  "find_plain ''unit'' (pv_entry ns path h v) =
     (if truthy_str (v_newUnit v) then Some (sub_text ns ''unit'' (the (v_newUnit v))) else None)"
  "find_plain ''name'' (pv_entry ns path h v) =
     (if truthy_str (v_newName v) then Some (sub_text ns ''name'' (the (v_newName v)))
      else if v_newDestination v = Some ''/root'' then Some (sub_text ns ''name'' (v_name v)) else None)"
  "find_plain ''destination'' (pv_entry ns path h v) =
     (if truthy_str (v_newDestination v)
      then if v_newDestination v = Some ''/root'' then Some (el_new ns ''destination'')
           else Some (sub_text ns ''destination'' (removeprefix ''/root/'' (the (v_newDestination v))))
      else None)"
  by (cases "v_newDestination v";
      simp add: pv_entry_def find_plain_append_all find_append when_truthy_if find_if pv_destination_def)+

lemma pv_children:
  fixes path :: string
  assumes "plain_names rs" and "None \<notin> fst ` set ns" and "pv_wf v"
  defines "e \<equiv> stored (pv_entry ns path False v)"
  shows "set_from rs ''description'' e None = v_newDescription v"
    and "set_from rs ''unit'' e None = v_newUnit v"
    and "set_from rs ''name'' e None =
           (if v_newDestination v = Some ''/root'' then Some (v_name v) else v_newName v)"
    and "set_from rs ''destination'' e None =
           (if v_newDestination v = Some ''/root'' then None else reread_destination (v_newDestination v))"
    and "el_get e ''history'' = v_historizing v"
proof -
  have ns: "el_nsmap (pv_entry ns path False v) = ns" by (simp add: pv_entry_def)
  note fs = fnd_stored [OF assms(1), of "pv_entry ns path False v", unfolded ns, OF assms(2)]
  have wf: "v_newName v \<noteq> Some []" "v_newUnit v \<noteq> Some []" "v_newDescription v \<noteq> Some []"
      "v_historizing v \<noteq> Some []" "v_newDestination v \<noteq> Some []" and name: "v_name v \<noteq> []"
    using assms(3) by (auto simp: pv_wf_def)
  note truthy = wf [THEN truthy_wf]
  show "set_from rs ''description'' e None = v_newDescription v"
    using wf by (auto simp: e_def set_from_def fs find_pv_entry truthy)
  show "set_from rs ''unit'' e None = v_newUnit v"
    using wf by (auto simp: e_def set_from_def fs find_pv_entry truthy)
  show "set_from rs ''name'' e None =
      (if v_newDestination v = Some ''/root'' then Some (v_name v) else v_newName v)"
    using wf name assms(3) by (auto simp: e_def set_from_def fs find_pv_entry truthy pv_wf_def)
  show "set_from rs ''destination'' e None =
      (if v_newDestination v = Some ''/root'' then None else reread_destination (v_newDestination v))"
    using wf assms(3)
    by (auto simp: e_def set_from_def fs find_pv_entry truthy pv_wf_def reread_destination_def)
  show "el_get e ''history'' = v_historizing v"
    using wf by (auto simp: e_def pv_entry_def el_get_set truthy)
qed

lemma pv_apply_fresh:
  assumes "plain_names rs" and "None \<notin> fst ` set ns" and "pv_wf v"
  shows "pv_apply rs (stored (pv_entry ns path False v)) (pv_fresh v) =
    v\<lparr>v_newDestination := (if v_newDestination v = Some ''/root'' then Some ''/root''
                          else reread_destination (v_newDestination v))\<rparr>"
proof -
  define e where "e = stored (pv_entry ns path False v)"
  have fresh: "v_historizing (pv_fresh v) = None" "v_newDescription (pv_fresh v) = None"
      "v_newUnit (pv_fresh v) = None" "v_newName (pv_fresh v) = None"
      "v_newDestination (pv_fresh v) = None" "v_name (pv_fresh v) = v_name v"
    by (simp_all add: pv_fresh_def)
  note cs = pv_children [OF assms, of path, folded e_def]
  have hist: "(case el_get e ''history'' of None \<Rightarrow> v_historizing (pv_fresh v) | Some h \<Rightarrow> Some h) =
      v_historizing v"
    unfolding cs fresh by (cases "v_historizing v") simp_all
  define w where "w = (pv_fresh v)\<lparr>v_historizing := v_historizing v,
    v_newDescription := v_newDescription v, v_newUnit := v_newUnit v,
    v_newName := (if v_newDestination v = Some ''/root'' then Some (v_name v) else v_newName v),
    v_newDestination := (if v_newDestination v = Some ''/root'' then None
                         else reread_destination (v_newDestination v))\<rparr>"
  have apply_w: "pv_apply rs e (pv_fresh v) =
     (if (v_newDestination w = Some [] \<or> v_newDestination w = None) \<and> Some (v_name w) = v_newName w
      then w\<lparr>v_newDestination := Some ''/root'', v_newName := None\<rparr> else w)"
    unfolding pv_apply_def Let_def hist unfolding fresh cs w_def ..
  show ?thesis
  proof (cases "v_newDestination v = Some ''/root''")
    case True
    then have "pv_apply rs e (pv_fresh v) = w\<lparr>v_newDestination := Some ''/root'', v_newName := None\<rparr>"
      by (simp add: apply_w w_def fresh)
    with True assms(3) show ?thesis by (simp add: e_def w_def pv_wf_def pv_fresh_def)
  next
    case False
    with assms(3) have "v_newName v \<noteq> Some (v_name v)" by (simp add: pv_wf_def)
    with False have "pv_apply rs e (pv_fresh v) = w"
      by (auto simp: apply_w w_def fresh)
    with False show ?thesis by (simp add: e_def w_def pv_fresh_def)
  qed
qed

text \<open>C29: a changed variable below directories without a history, written by \<open>save\<close>, read into the
  freshly loaded variable and written again, gives the same entry, if its settings are as \<open>pv_wf\<close> asks:
  none is the empty text, the new name is not the old one, the destination is \<open>/root\<close> or \<open>/root/\<close>
  followed by something that does not start with a slash, and a variable moved to \<open>/root\<close> is not
  renamed as well (then the move is lost, see \<open>root_and_rename_lost\<close>).  The new destination itself
  comes back without its leading \<open>/root/\<close>, which the entry never had.  No prefix of the map file's
  namespaces is empty and names without a colon are resolved as they are.\<close>

theorem pv_entry_stable:
  assumes "plain_names rs" and "None \<notin> fst ` set ns" and "pv_wf v"
  shows "pv_entry ns path False (pv_apply rs (stored (pv_entry ns path False v)) (pv_fresh v)) =
    pv_entry ns path False v"
proof -
  have same: "removeprefix ''/root/'' q = q" if "hd q \<noteq> CHR ''/''" "q \<noteq> []" for q
    using that by (intro removeprefix_no) (cases q; auto)
  define w where "w = v\<lparr>v_newDestination := (if v_newDestination v = Some ''/root'' then Some ''/root''
                          else reread_destination (v_newDestination v))\<rparr>"
  have dest: "when_truthy (v_newDestination w) (pv_destination ns w) =
      when_truthy (v_newDestination v) (pv_destination ns v)"
  proof (cases "v_newDestination v")
    case (Some d)
    show ?thesis
    proof (cases "d = ''/root''")
      case False
      define q where "q = removeprefix ''/root/'' d"
      with assms(3) Some False have "d \<noteq> []" and q: "q \<noteq> []" "hd q \<noteq> CHR ''/''"
        by (auto simp: pv_wf_def)
      from q have "q \<noteq> ''/root''" by auto
      with same [OF q(2,1)] q Some False \<open>d \<noteq> []\<close> show ?thesis
        by (simp add: w_def when_truthy_def pv_destination_def reread_destination_def flip: q_def)
    qed (simp add: w_def Some when_truthy_def pv_destination_def)
  qed (simp add: w_def when_truthy_def reread_destination_def)
  have "v_newName w = v_newName v" "v_newDescription w = v_newDescription v"
      "v_newUnit w = v_newUnit v" "v_historizing w = v_historizing v" "v_name w = v_name v"
    by (simp_all add: w_def)
  with dest show ?thesis
    unfolding pv_apply_fresh [OF assms] by (simp add: pv_entry_def pv_source_name_def flip: w_def)
qed

definition demo_var :: xml_var where
  "demo_var = test_var\<lparr>v_newName := Some ''other'', v_newUnit := Some ''V'',
     v_newDestination := Some ''/root/Test''\<rparr>"

corollary pv_entry_stable_witness:
  "pv_entry csa_nsmap ''/root/Configuration'' False
     (pv_apply default_ns_resolver
       (stored (pv_entry csa_nsmap ''/root/Configuration'' False demo_var)) (pv_fresh demo_var)) =
   pv_entry csa_nsmap ''/root/Configuration'' False demo_var"
  by (rule pv_entry_stable)
     (simp_all add: csa_nsmap_def pv_wf_def demo_var_def test_var_def removeprefix_def)

text \<open>Renamed and moved to the root at once: the variable comes back renamed only.\<close>

lemma root_and_rename_lost:
  "v_newDestination (pv_apply default_ns_resolver (stored (pv_entry [] ''/root/Configuration'' False
     (test_var\<lparr>v_newName := Some ''n'', v_newDestination := Some ''/root''\<rparr>)))
     (pv_fresh (test_var\<lparr>v_newName := Some ''n'', v_newDestination := Some ''/root''\<rparr>))) = None"
  by code_simp

section \<open>Finding the variable of an entry\<close>

lemma strip_slash_id:
  "s \<noteq> [] \<Longrightarrow> hd s \<noteq> CHR ''/'' \<Longrightarrow> last s \<noteq> CHR ''/'' \<Longrightarrow> strip_chars is_slash s = s"
  by (simp add: strip_chars_ends is_slash_def)

text \<open>The source name \<open>save\<close> writes for a variable in a subdirectory of the tree is found again
  by the loop of \<open>parseMapFile\<close>, and leads to that very variable.\<close>

theorem pv_source_found:
  assumes "XMLDirectory_init rs ''root'' data 0 [] = Inr d" and "names_ok d"
    and "dir_at d (fst r) = Some e" and "var_at d r = Some v"
    and "d_path (dinfo e) = ''/root/'' @ p" and "p \<noteq> []" and "hd p \<noteq> CHR ''/''" and "v_name v \<noteq> []"
  shows "findVar d (''/root/'' @ strip_chars is_slash (pv_source_name (d_path (dinfo e)) v)) = Some r"
proof -
  have ok: "paths_ok d" using assms(1) by (rule XMLDirectory_init_paths_ok)
  have v: "v \<in> set (dvars e)"
    using assms(3,4) by (auto simp: var_at_def split: if_splits)
  then have full: "v_fullName v = d_path (dinfo e) @ ''/'' @ v_name v"
    using dir_at_paths_ok [OF ok assms(3)] by (cases e) simp
  have "CHR ''/'' \<notin> set (v_name v)"
    using dir_at_names_ok [OF assms(2,3)] v by (cases e) simp
  then have "last (v_name v) \<noteq> CHR ''/''" using assms(8) last_in_set by metis
  moreover have "removeprefix ''/root/'' (d_path (dinfo e)) = p"
    by (simp only: assms(5) removeprefix_append)
  ultimately have "strip_chars is_slash (pv_source_name (d_path (dinfo e)) v) = p @ ''/'' @ v_name v"
    using assms(6-8) by (simp add: pv_source_name_def strip_slash_id)
  then show ?thesis
    using findVar_at [OF ok assms(2,4)] by (simp add: full assms(5))
qed

corollary pv_source_found_witness:
  "findVar test_tree (''/root/'' @ strip_chars is_slash
     (pv_source_name ''/root/Configuration'' test_var)) = Some ([0], 0)"
  using pv_source_found [OF test_application_tree test_tree_names_ok,
      where r = "([0], 0)" and e = "ddirs test_tree ! 0" and p = "''Configuration''" and v = test_var]
  by (simp add: test_tree_def dir_info_init_def var_at_def test_var_def)

text \<open>C32: the source name written for a variable directly below the root never leads back to that
  variable: \<open>generateMapEntry\<close> compares the path with \<open>/root/\<close>, which the root's own path
  \<open>/root\<close> does not start with, so the entry names \<open>/root/<name>\<close>.\<close>

theorem root_variable_not_found:
  assumes "XMLDirectory_init rs ''root'' data 0 [] = Inr d" and "names_ok d"
    and "var_at d ([], k) = Some v" and "v_name v \<noteq> []"
  shows "findVar d (''/root/'' @ strip_chars is_slash (pv_source_name (d_path (dinfo d)) v)) \<noteq> Some ([], k)"
proof
  have v: "v \<in> set (dvars d)"
    using assms(3) by (auto simp: var_at_def split: if_splits)
  have path: "d_path (dinfo d) = ''/root''"
    using assms(1) by (subst (asm) XMLDirectory_init.simps)
      (auto simp: Let_def rbind_Inr_iff dir_info_init_def)
  have full: "v_fullName v = ''/root/'' @ v_name v"
    using XMLDirectory_init_paths_ok [OF assms(1)] v path by (cases d) simp
  have "CHR ''/'' \<notin> set (v_name v)" using assms(2) v by (cases d) simp
  then have name: "hd (v_name v) \<noteq> CHR ''/''" "last (v_name v) \<noteq> CHR ''/''"
    using assms(4) hd_in_set last_in_set by metis+
  have "strip_chars is_slash (''root/'' @ v_name v) = ''root/'' @ v_name v"
    using assms(4) name by (intro strip_slash_id) simp_all
  then have src: "strip_chars is_slash (pv_source_name (d_path (dinfo d)) v) = ''root/'' @ v_name v"
    by (simp add: path pv_source_name_def removeprefix_def strip_chars_def is_slash_def)
  assume "findVar d (''/root/'' @ strip_chars is_slash (pv_source_name (d_path (dinfo d)) v)) = Some ([], k)"
  then obtain v' where "var_at d ([], k) = Some v'" and "v_fullName v' = ''/root/root/'' @ v_name v"
    using findVar_sound(1) src by fastforce
  with assms(3) full have "''/root/'' @ v_name v = ''/root/root/'' @ v_name v" by simp
  then show False by (simp add: arg_cong [where f = length])
qed

definition root_var_application :: elem where
  "root_var_application = Elem (ac_tag ''application'') test_nsmap [(''name'', ''LLRFServer'')] None
     [test_variable ''run'']"

definition root_var_tree :: xml_directory where
  "root_var_tree = XMLDirectory (dir_info_init ''root'' 0 []) []
     [test_var\<lparr>v_name := ''run'', v_fullName := ''/root/run''\<rparr>]"

corollary root_variable_not_found_witness:
  "pv_source_name ''/root'' (dvars root_var_tree ! 0) = ''/root/run'' \<and>
   findVar root_var_tree (''/root/'' @ strip_chars is_slash ''/root/run'') \<noteq> Some ([], 0)"
proof -
  have "XMLDirectory_init default_ns_resolver ''root'' root_var_application 0 [] = Inr root_var_tree"
    by code_simp
  moreover have "names_ok root_var_tree" by (simp add: root_var_tree_def test_var_def)
  moreover have "var_at root_var_tree ([], 0) = Some (dvars root_var_tree ! 0)"
    by (simp add: root_var_tree_def var_at_def)
  moreover have "v_name (dvars root_var_tree ! 0) \<noteq> []" by (simp add: root_var_tree_def)
  ultimately have "findVar root_var_tree (''/root/'' @ strip_chars is_slash
      (pv_source_name (d_path (dinfo root_var_tree)) (dvars root_var_tree ! 0))) \<noteq> Some ([], 0)"
    by (rule root_variable_not_found)
  moreover have "d_path (dinfo root_var_tree) = ''/root''"
    by (simp add: root_var_tree_def dir_info_init_def)
  moreover have "pv_source_name ''/root'' (dvars root_var_tree ! 0) = ''/root/run''"
    by (simp add: pv_source_name_def removeprefix_def root_var_tree_def)
  ultimately show ?thesis by simp
qed

section \<open>Folders\<close>

definition folder_fresh :: "dir_info \<Rightarrow> dir_info" where
  "folder_fresh i = i\<lparr>d_historizing := None, d_newName := None, d_newDescription := None,
     d_newDestination := None\<rparr>"

text \<open>A directory two or more levels below the root: its parent is \<open>/root/<p>\<close>.\<close>

definition folder_wf :: "dir_info \<Rightarrow> string \<Rightarrow> bool" where
  "folder_wf i p \<longleftrightarrow> d_path i = ''/root/'' @ p @ ''/'' @ d_name i \<and> p \<noteq> [] \<and> d_name i \<noteq> [] \<and>
     d_newName i \<noteq> Some [] \<and> d_newName i \<noteq> Some (d_name i) \<and> d_newDescription i \<noteq> Some [] \<and>
     d_historizing i \<noteq> Some [] \<and> CHR ''/'' \<notin> set (d_name i) \<and>
     (case d_newName i of None \<Rightarrow> True | Some n \<Rightarrow> CHR ''/'' \<notin> set n)"

lemma folder_parent:
  assumes "folder_wf i p"
  shows "trim_slashes (dir_parent i) = p" and "parent_of_path i = p"
proof -
  have path: "d_path i = ''/root'' @ CHR ''/'' # p @ CHR ''/'' # d_name i"
    using assms by (simp add: folder_wf_def)
  have "dir_parent i = removesuffix (d_name i) ((''/'' @ p @ ''/'') @ d_name i)"
    unfolding dir_parent_def path removeprefix_append by simp
  then have parent: "dir_parent i = ''/'' @ p @ ''/''"
    by (simp only: removesuffix_append)
  have "trim_slashes (dir_parent i) = removesuffix ''/'' (p @ ''/'')"
    unfolding trim_slashes_def parent removeprefix_append ..
  then show "trim_slashes (dir_parent i) = p" by (simp only: removesuffix_append)
  have "removeprefix ''/'' (CHR ''/'' # p @ CHR ''/'' # d_name i) = (p @ ''/'') @ d_name i"
    by (simp add: removeprefix_def)
  then show "parent_of_path i = p"
    unfolding parent_of_path_def path removeprefix_append by (simp only: removesuffix_append)
qed

lemma find_folder_entry:
  assumes "truthy_str (d_newName i) \<or> truthy_str (d_newDestination i)"
  shows "find_plain ''description'' (folder_entry ns h i) =
     (if truthy_str (d_newDescription i)
      then Some (sub_text ns ''description'' (the (d_newDescription i))) else None)"
  and "find_plain ''name'' (folder_entry ns h i) = Some (sub_text ns ''name''
     (if truthy_str (d_newName i) then the (d_newName i) else d_name i))"
  and "find_plain ''destination'' (folder_entry ns h i) =
     Some (sub_text ns ''destination'' (folder_destination i))"
  using assms by (auto simp: folder_entry_def find_plain_append_all find_append describes_only_def)

text \<open>What the reader sees of a written entry that renames or moves.\<close>

lemma folder_entry_read:
  fixes h :: bool
  assumes "plain_names rs" and "None \<notin> fst ` set ns"
    and "truthy_str (d_newName i) \<or> truthy_str (d_newDestination i)" and "folder_wf i p"
  defines "e \<equiv> stored (folder_entry ns False i)"
  shows "fnd_text rs ''description'' e = d_newDescription i"
    and "fnd rs ''name'' e \<noteq> None"
    and "fnd rs ''name'' e = Some c \<Longrightarrow>
           el_text c = Some (case d_newName i of None \<Rightarrow> d_name i | Some n \<Rightarrow> n)"
    and "fnd_text rs ''destination'' e =
           (if folder_destination i = [] then None else Some (folder_destination i))"
    and "el_get e ''history'' = d_historizing i"
proof -
  have ns: "el_nsmap (folder_entry ns False i) = ns" by (simp add: folder_entry_def)
  note fs = fnd_stored [OF assms(1), of "folder_entry ns False i", unfolded ns, OF assms(2)]
  have wf: "d_newName i \<noteq> Some []" "d_newDescription i \<noteq> Some []" "d_historizing i \<noteq> Some []"
      and name: "d_name i \<noteq> []"
    using assms(4) by (auto simp: folder_wf_def)
  note truthy = wf [THEN truthy_wf]
  show "fnd_text rs ''description'' e = d_newDescription i"
    using wf by (auto simp: e_def fnd_text_def fs find_folder_entry [OF assms(3)] truthy)
  show "fnd rs ''name'' e \<noteq> None"
    by (simp add: e_def fs find_folder_entry [OF assms(3)])
  show "el_text c = Some (case d_newName i of None \<Rightarrow> d_name i | Some n \<Rightarrow> n)"
    if "fnd rs ''name'' e = Some c"
    using that wf name
    by (auto simp: e_def fs find_folder_entry [OF assms(3)] truthy split: option.splits)
  show "fnd_text rs ''destination'' e =
      (if folder_destination i = [] then None else Some (folder_destination i))"
    by (simp add: e_def fnd_text_def fs find_folder_entry [OF assms(3)])
  show "el_get e ''history'' = d_historizing i"
    using wf by (auto simp: e_def folder_entry_def el_get_set truthy)
qed

lemma folder_apply_read:
  assumes "fnd_text rs ''description'' e = d_newDescription i"
    and "fnd rs ''name'' e \<noteq> None"
    and "\<And>c. fnd rs ''name'' e = Some c \<Longrightarrow>
           el_text c = Some (case d_newName i of None \<Rightarrow> d_name i | Some n \<Rightarrow> n)"
    and "el_get e ''history'' = d_historizing i" and "folder_wf i p"
  defines "t \<equiv> fst (folder_move rs e (folder_fresh i))"
    and "m \<equiv> d_newDestination (snd (folder_move rs e (folder_fresh i)))"
  defines "t' \<equiv> case d_newName i of None \<Rightarrow> t | Some n \<Rightarrow> removesuffix ''/'' t @ ''/'' @ n"
  shows "folder_apply rs e (folder_fresh i) =
    Inr (i\<lparr>d_newDestination := (if m = None \<and> t' \<noteq> d_path i then Some ''/root'' else m)\<rparr>)"
proof -
  have hd: "folder_description rs e (folder_history e (folder_fresh i)) =
      i\<lparr>d_newName := None, d_newDestination := None\<rparr>"
    by (cases "d_historizing i"; cases "d_newDescription i")
       (simp_all add: folder_description_def folder_history_def assms(1,4) folder_fresh_def)
  have mv: "folder_move rs e (i\<lparr>d_newName := None, d_newDestination := None\<rparr>) =
      (t, i\<lparr>d_newName := None, d_newDestination := m\<rparr>)"
    by (auto simp: t_def m_def folder_move_def parent_of_path_def folder_fresh_def split: option.split)
  have rn: "folder_rename rs e (t, i\<lparr>d_newName := None, d_newDestination := m\<rparr>) =
      Inr (t', i\<lparr>d_newDestination := m\<rparr>)"
  proof -
    obtain c where c: "fnd rs ''name'' e = Some c" using assms(2) by blast
    show ?thesis
      using assms(3) [OF c] assms(5)
      by (cases "d_newName i") (auto simp: folder_rename_def c t'_def folder_wf_def)
  qed
  show ?thesis
    unfolding folder_apply_def Let_def hd mv rn using assms(2) by auto
qed

lemma folder_apply_written:
  assumes "plain_names rs" and "None \<notin> fst ` set ns"
    and "truthy_str (d_newName i) \<or> truthy_str (d_newDestination i)" and "folder_wf i p"
  defines "q \<equiv> folder_destination i"
  shows "folder_apply rs (stored (folder_entry ns False i)) (folder_fresh i) =
    Inr (i\<lparr>d_newDestination :=
      (if q \<noteq> [] \<and> q \<noteq> p then Some (''/root/'' @ q)
       else if (case d_newName i of None \<Rightarrow> ''/root/'' @ q
                | Some n \<Rightarrow> removesuffix ''/'' (''/root/'' @ q) @ ''/'' @ n) \<noteq> d_path i
       then Some ''/root'' else None)\<rparr>)"
proof -
  note r = folder_entry_read [OF assms(1-4)]
  have parent: "parent_of_path (folder_fresh i) = p"
    using folder_parent(2) [OF assms(4)] by (simp add: parent_of_path_def folder_fresh_def)
  have fresh: "d_newDestination (folder_fresh i) = None" by (simp add: folder_fresh_def)
  have mv: "fst (folder_move rs (stored (folder_entry ns False i)) (folder_fresh i)) = ''/root/'' @ q"
    "d_newDestination (snd (folder_move rs (stored (folder_entry ns False i)) (folder_fresh i))) =
      (if q \<noteq> [] \<and> q \<noteq> p then Some (''/root/'' @ q) else None)"
    unfolding folder_move_def r(4) q_def [symmetric] by (simp_all add: fresh parent)
  show ?thesis
    using folder_apply_read [OF r(1-3) r(5) assms(4)] unfolding mv by simp
qed

text \<open>C30: a folder below the first level, in directories without a history, that the user moves to
  another directory, with or without renaming it, comes back from the map file with exactly the user's
  settings, if these are as \<open>folder_wf\<close> asks: no setting is the empty text, the new name is not the old
  one, and neither name has a slash.  The destination is \<open>/root\<close>, or \<open>/root/\<close> followed by a path that is not
  the folder's own parent.  (Inside a directory with a history the folder's own history is not written.)
  No prefix of the map file's namespaces is empty and names without a colon are resolved as they are.\<close>

theorem moved_folder_roundtrip:
  assumes "plain_names rs" and "None \<notin> fst ` set ns" and "folder_wf i p"
    and "d_newDestination i = Some dest"
    and "dest = ''/root'' \<or> (\<exists>q. dest = ''/root/'' @ q \<and> q \<noteq> [] \<and> q \<noteq> p)"
  shows "folder_apply rs (stored (folder_entry ns False i)) (folder_fresh i) = Inr i"
  using assms(5)
proof
  assume root: "dest = ''/root''"
  then have q: "folder_destination i = []"
    by (simp add: folder_destination_def assms(4) removeprefix_def)
  have "n \<noteq> p @ ''/'' @ d_name i" if "d_newName i = Some n" for n
    using assms(3) that by (auto simp: folder_wf_def)
  then have "(case d_newName i of None \<Rightarrow> ''/root/''
      | Some n \<Rightarrow> removesuffix ''/'' ''/root/'' @ ''/'' @ n) \<noteq> d_path i"
    using assms(3) by (auto simp: folder_wf_def removesuffix_def suffix_def split: option.split)
  then show ?thesis
    using folder_apply_written [OF assms(1,2) _ assms(3), unfolded q append_Nil2]
      assms(4) root by simp
next
  assume "\<exists>q. dest = ''/root/'' @ q \<and> q \<noteq> [] \<and> q \<noteq> p"
  then obtain q where q: "dest = ''/root'' @ CHR ''/'' # q" "q \<noteq> []" "q \<noteq> p" by auto
  have "folder_destination i = removeprefix ''/'' (removeprefix ''/root'' dest)"
    using q(1) by (simp add: folder_destination_def assms(4))
  also have "\<dots> = q" unfolding q(1) removeprefix_append by (simp add: removeprefix_def)
  finally show ?thesis
    using folder_apply_written [OF assms(1,2) _ assms(3)] assms(4) q by simp
qed

text \<open>C31: a folder below the first level that the user only renames comes back as moved to the
  root as well: the comparison path of \<open>parseMapFile\<close> holds the new name, so it never equals the
  directory's path.\<close>

theorem renamed_folder_moves_to_root:
  assumes "plain_names rs" and "None \<notin> fst ` set ns" and "folder_wf i p"
    and "d_newName i = Some n" and "d_newDestination i = None"
  shows "folder_apply rs (stored (folder_entry ns False i)) (folder_fresh i) =
    Inr (i\<lparr>d_newDestination := Some ''/root''\<rparr>)"
proof -
  have n: "n \<noteq> d_name i" "CHR ''/'' \<notin> set n" "CHR ''/'' \<notin> set (d_name i)" "n \<noteq> []"
    using assms(3,4) by (auto simp: folder_wf_def)
  have "removesuffix ''/'' (''/root/'' @ p) @ CHR ''/'' # n \<noteq> (''/root/'' @ p) @ CHR ''/'' # d_name i"
    using slash_rsplit n by blast
  moreover have "d_path i = (''/root/'' @ p) @ CHR ''/'' # d_name i"
    using assms(3) by (simp add: folder_wf_def)
  moreover have "folder_destination i = p"
    using folder_parent(1) [OF assms(3)] by (simp add: folder_destination_def assms(5))
  ultimately show ?thesis
    using folder_apply_written [OF assms(1,2) _ assms(3)] assms(4) n(4) by simp
qed

definition demo_folder :: dir_info where
  "demo_folder = (dir_info_init ''logging'' 2 ''/root/watchdog'')\<lparr>d_newName := Some ''log'',
     d_newDescription := Some ''Test''\<rparr>"

corollary moved_folder_roundtrip_witness:
  "folder_apply default_ns_resolver
     (stored (folder_entry csa_nsmap False (demo_folder\<lparr>d_newDestination := Some ''/root/other''\<rparr>)))
     (folder_fresh (demo_folder\<lparr>d_newDestination := Some ''/root/other''\<rparr>)) =
   Inr (demo_folder\<lparr>d_newDestination := Some ''/root/other''\<rparr>)"
proof (rule moved_folder_roundtrip [where p = "''watchdog''"])
  show "''/root/other'' = ''/root'' \<or> (\<exists>q. ''/root/other'' = ''/root/'' @ q \<and> q \<noteq> [] \<and> q \<noteq> ''watchdog'')"
    by (rule disjI2, rule exI [of _ "''other''"]) simp
qed (simp_all add: csa_nsmap_def folder_wf_def demo_folder_def dir_info_init_def)

corollary renamed_folder_moves_to_root_witness:
  "folder_apply default_ns_resolver (stored (folder_entry csa_nsmap False demo_folder))
     (folder_fresh demo_folder) = Inr (demo_folder\<lparr>d_newDestination := Some ''/root''\<rparr>)"
  by (rule renamed_folder_moves_to_root [where p = "''watchdog''"])
     (simp_all add: csa_nsmap_def folder_wf_def demo_folder_def dir_info_init_def)

section \<open>Untouched trees\<close>

text \<open>A tree without any user setting adds no entry to the map file.\<close>

theorem untouched_no_entries: "generateMapEntries ns h x (pristine d) = []"
proof (induction d arbitrary: h x rule: pristine.induct)
  case (1 i ds vs)
  have var: "generateMapEntry ns p h x (pristine_var v) = []" for p h x v
    by (simp add: generateMapEntry_def pv_changed_def pristine_var_def)
  have "folder_entries ns h (pristine_info i) = []"
    by (simp add: folder_entries_def describes_only_def pristine_info_def)
  with 1 show ?case by (simp add: var pristine_info_def)
qed

end
