(* ===== verification/Xml_Dom.thy ===== *)
theory Xml_Dom
  imports Py_Prelude
begin

text \<open>
  The nodes of \<open>xml.dom.minidom\<close> the namespace scripts read: elements with their tag name, their
  attributes and their child nodes, and everything that only carries character data.
\<close>

datatype xnode =
  XElem (tagName: string) (attributes: "(string \<times> string) list") (childNodes: "xnode list")
| XData string

fun is_element :: "xnode \<Rightarrow> bool" where
  "is_element (XElem t as cs) = True"
| "is_element (XData s) = False"

text \<open>\<open>node.tagName\<close>, \<open>node.data\<close>, \<open>node.firstChild\<close>.\<close>

fun tag_of :: "xnode \<Rightarrow> string res" where
  "tag_of (XElem t as cs) = Inr t"
| "tag_of (XData s) = Inl AttributeError"

fun data_of :: "xnode \<Rightarrow> string res" where
  "data_of (XElem t as cs) = Inl AttributeError"
| "data_of (XData s) = Inr s"

fun child_nodes :: "xnode \<Rightarrow> xnode list" where
  "child_nodes (XElem t as cs) = cs"
| "child_nodes (XData s) = []"

definition firstChild :: "xnode \<Rightarrow> xnode option" where
  "firstChild x = (case child_nodes x of [] \<Rightarrow> None | c # cs \<Rightarrow> Some c)"

text \<open>\<open>node.firstChild.data\<close>, of an element that may have no child.\<close>

definition first_data :: "xnode \<Rightarrow> string res" where
  "first_data x = (case firstChild x of None \<Rightarrow> Inl AttributeError | Some c \<Rightarrow> data_of c)"

text \<open>\<open>hasAttribute\<close> and \<open>getAttribute\<close>.\<close>

definition get_attribute :: "string \<Rightarrow> xnode \<Rightarrow> string option" where
  "get_attribute k x = (case x of XElem t as cs \<Rightarrow> map_of as k | XData s \<Rightarrow> None)"

text \<open>\<open>getElementsByTagName\<close>: the descendant elements of that name, in document order.\<close>

fun elements_below :: "string \<Rightarrow> xnode \<Rightarrow> xnode list" where
  "elements_below n (XData s) = []"
| "elements_below n (XElem t as cs) =
     (if t = n then [XElem t as cs] else []) @ concat (map (elements_below n) cs)"

definition getElementsByTagName :: "string \<Rightarrow> xnode \<Rightarrow> xnode list" where
  "getElementsByTagName n x = concat (map (elements_below n) (child_nodes x))"

text \<open>
  \<open>getNextElementNode\<close>: a node is seen with the siblings that follow it, so the next element is
  the first of those, again with its own followers.
\<close>

definition getNextElementNode :: "xnode list \<Rightarrow> xnode list" where
  "getNextElementNode siblings =
     (case siblings of [] \<Rightarrow> [] | x # rest \<Rightarrow> dropWhile (\<lambda>y. \<not> is_element y) rest)"

lemma tag_of_element [simp]: "is_element x \<Longrightarrow> tag_of x = Inr (tagName x)"
  by (cases x) simp_all

lemma elements_below_element:
  "y \<in> set (elements_below n x) \<Longrightarrow> is_element y \<and> tagName y = n"
  by (induction n x rule: elements_below.induct) (auto split: if_splits)

lemma getElementsByTagName_element:
  "y \<in> set (getElementsByTagName n x) \<Longrightarrow> is_element y \<and> tagName y = n"
  by (auto simp: getElementsByTagName_def dest: elements_below_element)

lemma getNextElementNode_hd:
  "getNextElementNode xs = y # ys \<Longrightarrow> is_element y"
  by (cases xs) (auto simp: getNextElementNode_def dropWhile_eq_Cons_conv)

end
