(* ===== verification/Node_Id.thy ===== *)
theory Node_Id
  imports Py_Prelude
begin

text \<open>
  \<open>opcua_node_id_t\<close> of ua_node_types.py: parsing the text of a node id, the text it is printed as
  (numeric before guid before bytestring before string), its equality, and which of the texts
  name the same id again.  The scripts are Python 2.
\<close>

record node_id =
  id_i :: "int option"
  id_b :: "string option"
  id_g :: "int list option"
  id_s :: "string option"
  id_ns :: int
  mystrname :: string

definition empty_id :: node_id where
  "empty_id = \<lparr>id_i = None, id_b = None, id_g = None, id_s = None, id_ns = 0, mystrname = []\<rparr>"

text \<open>\<open>hex(n)\<close> on the 64-bit Python 2: a long, from two to the 63 on, ends with an \<open>L\<close>.\<close>

definition py2_hex :: "int \<Rightarrow> string" where
  "py2_hex n =
     (if n < 0 then ''-'' else []) @ ''0x'' @ nat_str 16 (nat \<bar>n\<bar>) @
     (if n < - (2 ^ 63) \<or> 2 ^ 63 \<le> n then ''L'' else [])"

definition guid_text :: "int list \<Rightarrow> string" where
  "guid_text g = concat (map (\<lambda>n. CHR ''-'' # replace_all ''0x'' [] (py2_hex n)) g)"

definition ns_text :: "int \<Rightarrow> string" where
  "ns_text n = (if n \<noteq> 0 then ''ns='' @ int_str n @ '';'' else [])"

definition toString :: "node_id \<Rightarrow> node_id" where
  "toString n = n\<lparr>mystrname :=
     (let pre = ns_text (id_ns n) in
      case id_i n of Some i \<Rightarrow> pre @ ''i='' @ int_str i
      | None \<Rightarrow>
        (case id_g n of Some g \<Rightarrow> replace_all ''g=-'' ''g='' (pre @ ''g='' @ guid_text g)
         | None \<Rightarrow>
           (case id_b n of Some b \<Rightarrow> pre @ ''b='' @ b
            | None \<Rightarrow> (case id_s n of Some s \<Rightarrow> pre @ ''s='' @ s | None \<Rightarrow> pre))))\<rparr>"

text \<open>One part of the text, between semicolons.\<close>

definition id_part :: "string \<Rightarrow> node_id \<Rightarrow> node_id res" where
  "id_part p n =
     (if take 2 p = ''ns'' then rbind (py2_int (drop 3 p)) (\<lambda>k. Inr (n\<lparr>id_ns := k\<rparr>))
      else if take 2 p = ''i='' then rbind (py2_int (drop 2 p)) (\<lambda>k. Inr (n\<lparr>id_i := Some k\<rparr>))
      else if take 2 p = ''o='' then Inr (n\<lparr>id_b := Some (drop 2 p)\<rparr>)
      else if take 2 p = ''g='' then
        rbind (mapM hex_of_text (split_on (CHR ''-'') (drop 2 p))) (\<lambda>g. Inr (n\<lparr>id_g := Some g\<rparr>))
      else if take 2 p = ''s='' then Inr (n\<lparr>id_s := Some (drop 2 p)\<rparr>)
      else Inr n)"

definition parse_node_id :: "string \<Rightarrow> node_id res" where
  "parse_node_id s = rbind (foldM id_part (split_on (CHR '';'') s) empty_id) (\<lambda>n. Inr (toString n))"

definition id_str :: "node_id \<Rightarrow> string" where
  "id_str n = mystrname n"

text \<open>\<open>__eq__\<close> compares what \<open>toString\<close> returns, which is \<open>None\<close> for both.\<close>

definition toString_result :: "node_id \<Rightarrow> unit option" where
  "toString_result n = None"

definition node_id_eq :: "node_id \<Rightarrow> node_id option \<Rightarrow> bool" where
  "node_id_eq n m = (case m of None \<Rightarrow> False | Some k \<Rightarrow> toString_result n = toString_result k)"

section \<open>The printed text\<close>

lemma id_part_ns: "id_part (''ns='' @ int_str k) n = Inr (n\<lparr>id_ns := k\<rparr>)"
  by (simp add: id_part_def)

lemma id_part_i: "id_part (''i='' @ int_str k) n = Inr (n\<lparr>id_i := Some k\<rparr>)"
  by (simp add: id_part_def)

lemma id_part_s: "id_part (''s='' @ t) n = Inr (n\<lparr>id_s := Some t\<rparr>)"
  by (simp add: id_part_def)

lemma id_part_b: "id_part (''b='' @ t) n = Inr n"
  by (simp add: id_part_def)

lemma split_int_str: "split_on (CHR '';'') (''ns='' @ int_str k @ CHR '';'' # t) = (''ns='' @ int_str k) # split_on (CHR '';'') t"
proof -
  have "CHR '';'' \<notin> set (''ns='' @ int_str k)"
    using int_str_no_char [of "CHR '';''" k] digit_char_props(5) by simp
  from split_on_append [OF this, of t] show ?thesis by simp
qed

text \<open>Reading the text printed for the namespace and a body without semicolons.\<close>

lemma parse_ns_text:
  assumes "CHR '';'' \<notin> set t"
  shows "parse_node_id (ns_text k @ t) = rbind (id_part t (empty_id\<lparr>id_ns := k\<rparr>)) (\<lambda>n. Inr (toString n))"
proof (cases "k = 0")
  case True
  moreover have "empty_id\<lparr>id_ns := 0\<rparr> = empty_id" by (simp add: empty_id_def)
  ultimately show ?thesis
    using assms by (simp add: parse_node_id_def ns_text_def split_on_none)
next
  case False
  then have "split_on (CHR '';'') (ns_text k @ t) = [''ns='' @ int_str k, t]"
    using assms split_int_str [of k t] by (simp add: ns_text_def split_on_none)
  then show ?thesis
    by (simp add: parse_node_id_def id_part_ns del: append_Cons append_Nil)
qed

text \<open>A guid.\<close>

definition guid_ok :: "int list \<Rightarrow> bool" where
  "guid_ok g \<longleftrightarrow> g \<noteq> [] \<and> (\<forall>n \<in> set g. 0 \<le> n \<and> n < 2 ^ 63)"

lemma nat_str_hex_chars:
  "CHR ''-'' \<notin> set (nat_str 16 n)" "CHR '';'' \<notin> set (nat_str 16 n)" "CHR ''x'' \<notin> set (nat_str 16 n)"
  "CHR ''='' \<notin> set (nat_str 16 n)"
  by (rule nat_str_no_char; simp add: digit_char_props)+

lemma hex_digits:
  assumes "0 \<le> n" and "n < 2 ^ 63"
  shows "replace_all ''0x'' [] (py2_hex n) = nat_str 16 (nat n)"
proof -
  have "py2_hex n = ''0x'' @ nat_str 16 (nat n)"
    using assms by (simp add: py2_hex_def)
  moreover have "\<not> sublist ''0x'' (nat_str 16 (nat n))"
    by (rule not_sublist_char [where c = "CHR ''x''"]) (simp_all add: nat_str_hex_chars)
  ultimately show ?thesis using replace_all_at [of "''0x''" _ "[]"] by simp
qed

definition guid_body :: "int list \<Rightarrow> string" where
  "guid_body g = drop 1 (concat (map (\<lambda>n. CHR ''-'' # nat_str 16 (nat n)) g))"

lemma guid_text_ok: "guid_ok g \<Longrightarrow> guid_text g = CHR ''-'' # guid_body g"
  by (cases g) (auto simp: guid_ok_def guid_text_def guid_body_def hex_digits
      intro!: arg_cong [where f = concat])

lemma split_guid:
  "split_on (CHR ''-'') (nat_str 16 k @ concat (map (\<lambda>n. CHR ''-'' # nat_str 16 (nat n)) g)) =
     nat_str 16 k # map (\<lambda>n. nat_str 16 (nat n)) g"
  by (induction g arbitrary: k)
     (simp_all add: split_on_none split_on_append nat_str_hex_chars)

lemma id_part_g:
  assumes "guid_ok g"
  shows "id_part (''g='' @ guid_body g) n = Inr (n\<lparr>id_g := Some g\<rparr>)"
proof (cases g)
  case Nil
  with assms show ?thesis by (simp add: guid_ok_def)
next
  case (Cons x xs)
  have body: "guid_body g = nat_str 16 (nat x) @ concat (map (\<lambda>n. CHR ''-'' # nat_str 16 (nat n)) xs)"
    by (simp add: guid_body_def Cons)
  have "mapM hex_of_text (map (\<lambda>n. nat_str 16 (nat n)) ys) = Inr ys" if "\<forall>n \<in> set ys. 0 \<le> n" for ys
    using that by (induction ys) simp_all
  from this [of g] have "mapM hex_of_text (split_on (CHR ''-'') (guid_body g)) = Inr g"
    using assms unfolding body split_guid by (simp add: Cons guid_ok_def del: mapM.simps)
  then show ?thesis by (simp add: id_part_def)
qed

lemma guid_body_chars:
  "guid_ok g \<Longrightarrow> CHR '';'' \<notin> set (guid_body g) \<and> CHR ''='' \<notin> set (guid_body g)"
  by (cases g) (auto simp: guid_body_def nat_str_hex_chars)

lemma ns_text_chars: "CHR ''g'' \<notin> set (ns_text k)"
  using int_str_no_char [of "CHR ''g''" k] digit_char_props(8) by (simp add: ns_text_def)

lemma guid_mystrname:
  assumes "guid_ok g"
  shows "replace_all ''g=-'' ''g='' (ns_text k @ ''g='' @ guid_text g) = ns_text k @ ''g='' @ guid_body g"
proof -
  have "\<not> sublist ''g=-'' (guid_body g)"
    using guid_body_chars [OF assms] by (intro not_sublist_char [where c = "CHR ''=''"]) simp_all
  then have "replace_all ''g=-'' ''g='' (''g=-'' @ guid_body g) = ''g='' @ guid_body g"
    by (rule replace_all_at [rotated]) simp
  then show ?thesis
    using replace_all_skip [OF ns_text_chars, of "''=-''" "''g=''"] by (simp add: guid_text_ok [OF assms])
qed

section \<open>Reading the printed text back\<close>

text \<open>What an id read from a text can be: a string part has no semicolon, a guid has parts.\<close>

definition id_wf :: "node_id \<Rightarrow> bool" where
  "id_wf n \<longleftrightarrow> (case id_b n of None \<Rightarrow> True | Some b \<Rightarrow> CHR '';'' \<notin> set b) \<and>
     (case id_s n of None \<Rightarrow> True | Some s \<Rightarrow> CHR '';'' \<notin> set s) \<and>
     (case id_g n of None \<Rightarrow> True | Some g \<Rightarrow> g \<noteq> [] \<and> (\<forall>k \<in> set g. 0 \<le> k))"

lemma split_on_parts: "p \<in> set (split_on d s) \<Longrightarrow> d \<notin> set p"
  by (induction s arbitrary: p) (auto split: list.splits if_splits)

lemma hex_of_text_nonneg: "hex_of_text s = Inr n \<Longrightarrow> 0 \<le> n"
  by (auto simp: hex_of_text_def split: option.splits)

lemma mapM_hex_nonneg: "mapM hex_of_text xs = Inr g \<Longrightarrow> \<forall>k \<in> set g. 0 \<le> k"
  by (induction xs arbitrary: g) (auto simp: rbind_Inr_iff dest: hex_of_text_nonneg)

lemma parsed_guid:
  assumes "mapM hex_of_text (split_on c s) = Inr g"
  shows "g \<noteq> [] \<and> (\<forall>k \<in> set g. 0 \<le> k)"
  using mapM_hex_nonneg [OF assms] mapM_length [OF assms] by (cases g) auto

lemma id_part_wf:
  assumes "id_part p n = Inr n'" and "id_wf n" and "CHR '';'' \<notin> set p"
  shows "id_wf n'"
proof -
  have drop: "CHR '';'' \<notin> set (drop k p)" for k
    using assms(3) in_set_dropD by fast
  show ?thesis
  proof (cases "take 2 p = ''g=''")
    case True
    then obtain g where "n' = n\<lparr>id_g := Some g\<rparr>" and "g \<noteq> [] \<and> (\<forall>k \<in> set g. 0 \<le> k)"
      using assms(1) by (auto simp: id_part_def rbind_Inr_iff dest: parsed_guid)
    with assms(2) show ?thesis by (simp add: id_wf_def)
  next
    case False
    with assms(1,2) drop show ?thesis
      by (auto simp: id_part_def id_wf_def rbind_Inr_iff split: if_splits)
  qed
qed

lemma parse_node_id_wf:
  assumes "parse_node_id s = Inr n"
  shows "id_wf n"
proof -
  obtain m where m: "foldM id_part (split_on (CHR '';'') s) empty_id = Inr m" and "n = toString m"
    using assms by (auto simp: parse_node_id_def rbind_Inr_iff)
  have "id_wf m"
  proof (rule foldM_invariant [OF m, where P = id_wf])
    show "id_wf empty_id" by (simp add: id_wf_def empty_id_def)
  qed (metis id_part_wf split_on_parts)
  with \<open>n = toString m\<close> show ?thesis by (simp add: id_wf_def toString_def)
qed

lemma toString_idem [simp]: "toString (toString n) = toString n"
  by (cases n) (simp add: toString_def Let_def split: option.split)

lemma parse_node_id_str: "parse_node_id s = Inr n \<Longrightarrow> n = toString n"
  by (auto simp: parse_node_id_def rbind_Inr_iff)

definition guid_small :: "node_id \<Rightarrow> bool" where
  "guid_small n = (case id_g n of None \<Rightarrow> True | Some g \<Rightarrow> list_all (\<lambda>k. k < 2 ^ 63) g)"

lemma toString_text:
  "id_i n = Some i \<Longrightarrow> mystrname (toString n) = ns_text (id_ns n) @ ''i='' @ int_str i"
  "id_i n = None \<Longrightarrow> id_g n = Some g \<Longrightarrow> guid_ok g \<Longrightarrow> mystrname (toString n) = ns_text (id_ns n) @ ''g='' @ guid_body g"
  "id_i n = None \<Longrightarrow> id_g n = None \<Longrightarrow> id_b n = Some b \<Longrightarrow> mystrname (toString n) = ns_text (id_ns n) @ ''b='' @ b"
  "id_i n = None \<Longrightarrow> id_g n = None \<Longrightarrow> id_b n = None \<Longrightarrow> id_s n = Some t \<Longrightarrow>
     mystrname (toString n) = ns_text (id_ns n) @ ''s='' @ t"
  "id_i n = None \<Longrightarrow> id_g n = None \<Longrightarrow> id_b n = None \<Longrightarrow> id_s n = None \<Longrightarrow>
     mystrname (toString n) = ns_text (id_ns n)"
  using guid_mystrname [of g] by (simp_all add: toString_def Let_def)

text \<open>A printed identifier that reads back as an id that prints the same.\<close>

lemma printed_reads_back:
  assumes "CHR '';'' \<notin> set c" and "id_str n = ns_text (id_ns n) @ c"
    and "id_part c (empty_id\<lparr>id_ns := id_ns n\<rparr>) = Inr m" and "mystrname (toString m) = ns_text (id_ns n) @ c"
  shows "\<exists>m. parse_node_id (id_str n) = Inr m \<and> id_str m = id_str n"
  using assms(2-4) by (auto simp: parse_ns_text [OF assms(1)] id_str_def)

text \<open>C37: an id read from any text prints a text that, read again, prints the same text, unless it
  is known by a bytestring only, or has a guid group of more than 63 bits: the printed text of a
  numeric, guid or string id names the id.\<close>

theorem node_id_text_roundtrip:
  assumes "parse_node_id s = Inr n" and "id_b n = None \<or> id_i n \<noteq> None \<or> id_g n \<noteq> None"
    and "guid_small n"
  shows "\<exists>m. parse_node_id (id_str n) = Inr m \<and> id_str m = id_str n"
proof -
  have wf: "id_wf n" using assms(1) by (rule parse_node_id_wf)
  have str: "id_str n = mystrname (toString n)"
    using parse_node_id_str [OF assms(1)] by (simp add: id_str_def)
  show ?thesis
  proof (cases "id_i n")
    case (Some i)
    have "CHR '';'' \<notin> set (''i='' @ int_str i)"
      using int_str_no_char [of "CHR '';''" i] digit_char_props(5) by simp
    then show ?thesis
      by (rule printed_reads_back [OF _ _ id_part_i]) (simp_all add: str toString_text Some)
  next
    case no_i: None
    show ?thesis
    proof (cases "id_g n")
      case (Some g)
      then have g: "guid_ok g"
        using wf assms(3) by (auto simp: id_wf_def guid_small_def guid_ok_def list_all_iff)
      have "CHR '';'' \<notin> set (''g='' @ guid_body g)" using guid_body_chars [OF g] by simp
      then show ?thesis
        by (rule printed_reads_back [OF _ _ id_part_g [OF g]])
           (simp_all add: str toString_text(2) [OF _ _ g] no_i Some empty_id_def)
    next
      case None
      with assms(2) no_i have no: "id_i n = None" "id_g n = None" "id_b n = None" by simp_all
      show ?thesis
      proof (cases "id_s n")
        case (Some t)
        then have "CHR '';'' \<notin> set (''s='' @ t)" using wf by (simp add: id_wf_def)
        then show ?thesis
          by (rule printed_reads_back [OF _ _ id_part_s]) (simp_all add: str toString_text(4) no Some empty_id_def)
      next
        case None
        then show ?thesis
          by (intro printed_reads_back [where c = "[]" and m = "empty_id\<lparr>id_ns := id_ns n\<rparr>"])
             (simp_all add: str toString_text(5) no empty_id_def id_part_def)
      qed
    qed
  qed
qed

corollary node_id_text_roundtrip_witness:
  "\<exists>m. parse_node_id ''ns=2;g=1f-0-a'' = Inr m \<and> id_str m = ''ns=2;g=1f-0-a''"
proof -
  obtain n where n: "parse_node_id ''g=01F-0-A;ns=2'' = Inr n" and "id_b n = None" and "guid_small n"
      and str: "id_str n = ''ns=2;g=1f-0-a''"
    by (rule that [of "\<lparr>id_i = None, id_b = None, id_g = Some [31, 0, 10], id_s = None, id_ns = 2,
        mystrname = ''ns=2;g=1f-0-a''\<rparr>"]) code_simp+
  then show ?thesis using node_id_text_roundtrip [OF n] by simp
qed

text \<open>An id known only by a bytestring is read from \<open>o=\<close> but printed with \<open>b=\<close>, which the
  reader ignores: reading the printed text gives the bare namespace and loses the identifier.\<close>

theorem node_id_bytestring_lost:
  assumes "parse_node_id s = Inr n" and "id_b n = Some b" and "id_i n = None" and "id_g n = None"
  shows "id_str n = ns_text (id_ns n) @ ''b='' @ b \<and>
    parse_node_id (id_str n) = Inr (toString (empty_id\<lparr>id_ns := id_ns n\<rparr>))"
proof -
  have "id_str n = mystrname (toString n)"
    using parse_node_id_str [OF assms(1)] by (simp add: id_str_def)
  then have str: "id_str n = ns_text (id_ns n) @ ''b='' @ b"
    by (simp add: toString_def assms Let_def)
  have c: "CHR '';'' \<notin> set (''b='' @ b)"
    using parse_node_id_wf [OF assms(1)] assms(2) by (simp add: id_wf_def)
  have "parse_node_id (id_str n) = Inr (toString (empty_id\<lparr>id_ns := id_ns n\<rparr>))"
    unfolding str parse_ns_text [OF c] id_part_b by simp
  with str show ?thesis by blast
qed

corollary node_id_bytestring_lost_witness:
  "parse_node_id ''ns=1;o=M/RbKBsRVkePCePcx24oRA=='' =
     Inr (toString (empty_id\<lparr>id_ns := 1, id_b := Some ''M/RbKBsRVkePCePcx24oRA==''\<rparr>)) \<and>
   parse_node_id (id_str (toString (empty_id\<lparr>id_ns := 1, id_b := Some ''M/RbKBsRVkePCePcx24oRA==''\<rparr>))) =
     Inr (toString (empty_id\<lparr>id_ns := 1\<rparr>))"
proof
  show n: "parse_node_id ''ns=1;o=M/RbKBsRVkePCePcx24oRA=='' =
     Inr (toString (empty_id\<lparr>id_ns := 1, id_b := Some ''M/RbKBsRVkePCePcx24oRA==''\<rparr>))"
    by code_simp
  show "parse_node_id (id_str (toString (empty_id\<lparr>id_ns := 1, id_b := Some ''M/RbKBsRVkePCePcx24oRA==''\<rparr>))) =
     Inr (toString (empty_id\<lparr>id_ns := 1\<rparr>))"
    using node_id_bytestring_lost [OF n] by (simp add: id_str_def toString_def empty_id_def)
qed

end
