(* ===== verification/Ua_Builtin.thy ===== *)
theory Ua_Builtin
  imports Xml_Dom Node_Id
begin

text \<open>
  The builtin types of ua_builtin_types.py: one class per OPC UA builtin type, each with its name
  in the C code, its numeric code (ua_constants.py), the reader of its XML element and the printer
  of its C expression.  Messages to the logger are left out, except where building one raises.
  What \<open>float()\<close> reads and what time it is now are parameters (\<open>py_env\<close>).
\<close>

section \<open>Types and values\<close>

datatype builtin =
  BooleanT | Int32T | UInt32T | Int16T | UInt16T | Int64T | UInt64T | ByteT | SByteT | FloatT
| DoubleT | StringT | ByteStringT | LocalizedTextT | StatusCodeT | DiagnosticInfoT | NodeIdT
| GuidT | DateTimeT | QualifiedNameT | ExpandedNodeIdT | XmlElementT

datatype value_class = Builtin builtin | ExtensionObject

text \<open>An encoding: nested lists of type names, field names and value ranks.\<close>

datatype enc = EncStr string | EncInt int | EncList "enc list"

text \<open>
  What the \<open>value\<close> of a value object can be, and the object.  A float is kept as the text
  \<open>str()\<close> prints for it, a time as year, month, day, hour, minute and second, a node as its id.
\<close>

datatype pyval =
  PNone | PInt int | PFloat string | PStr string | PTime "nat list" | PNode node_id
| PList "pyval list" | PObj opcua_value
and opcua_value = UaValue
  (u_class: value_class)
  (u_value: pyval)
  (u_alias: "string option")
  (u_encoding: enc)
  (u_typeId: "node_id option")
  (u_instance: "string option")

fun set_value :: "pyval \<Rightarrow> opcua_value \<Rightarrow> opcua_value" where
  "set_value v (UaValue c w a e t n) = UaValue c v a e t n"

fun set_alias :: "string option \<Rightarrow> opcua_value \<Rightarrow> opcua_value" where
  "set_alias a (UaValue c v b e t n) = UaValue c v (case a of None \<Rightarrow> b | Some _ \<Rightarrow> a) e t n"

fun setEncodingRule :: "enc \<Rightarrow> opcua_value \<Rightarrow> opcua_value" where
  "setEncodingRule e (UaValue c v a f t n) = UaValue c v a e t n"

fun set_typeId :: "node_id \<Rightarrow> opcua_value \<Rightarrow> opcua_value" where
  "set_typeId t (UaValue c v a e s n) = UaValue c v a e (Some t) n"

fun set_instance :: "string \<Rightarrow> opcua_value \<Rightarrow> opcua_value" where
  "set_instance n (UaValue c v a e t m) = UaValue c v a e t (Some n)"

lemma set_value_sel [simp]:
  "u_class (set_value v u) = u_class u" "u_value (set_value v u) = v" "u_alias (set_value v u) = u_alias u"
  by (cases u; simp)+

definition value_init :: "value_class \<Rightarrow> opcua_value" where
  "value_init c = UaValue c PNone None (EncList []) None None"

record class_info =
  stringRepresentation :: string
  binTypeId :: int

definition localizedtext_class :: class_info where
  "localizedtext_class = \<lparr>stringRepresentation = ''LocalizedText'', binTypeId = 2\<rparr>"

definition expandednodeid_class :: class_info where
  "expandednodeid_class = \<lparr>stringRepresentation = ''ExpandedNodeId'', binTypeId = 3\<rparr>"

definition nodeid_class :: class_info where
  "nodeid_class = \<lparr>stringRepresentation = ''NodeId'', binTypeId = 4\<rparr>"

definition datetime_class :: class_info where
  "datetime_class = \<lparr>stringRepresentation = ''DateTime'', binTypeId = 5\<rparr>"

definition qualifiedname_class :: class_info where
  "qualifiedname_class = \<lparr>stringRepresentation = ''QualifiedName'', binTypeId = 6\<rparr>"

definition statuscode_class :: class_info where
  "statuscode_class = \<lparr>stringRepresentation = ''StatusCode'', binTypeId = 7\<rparr>"

definition diagnosticinfo_class :: class_info where
  "diagnosticinfo_class = \<lparr>stringRepresentation = ''StatusCode'', binTypeId = 23\<rparr>"

definition guid_class :: class_info where
  "guid_class = \<lparr>stringRepresentation = ''Guid'', binTypeId = 8\<rparr>"

definition boolean_class :: class_info where
  "boolean_class = \<lparr>stringRepresentation = ''Boolean'', binTypeId = 9\<rparr>"

definition byte_class :: class_info where
  "byte_class = \<lparr>stringRepresentation = ''Byte'', binTypeId = 10\<rparr>"

definition sbyte_class :: class_info where
  "sbyte_class = \<lparr>stringRepresentation = ''SByte'', binTypeId = 11\<rparr>"

definition int16_class :: class_info where
  "int16_class = \<lparr>stringRepresentation = ''Int16'', binTypeId = 12\<rparr>"

definition uint16_class :: class_info where
  "uint16_class = \<lparr>stringRepresentation = ''UInt16'', binTypeId = 13\<rparr>"

definition int32_class :: class_info where
  "int32_class = \<lparr>stringRepresentation = ''Int32'', binTypeId = 14\<rparr>"

definition uint32_class :: class_info where
  "uint32_class = \<lparr>stringRepresentation = ''UInt32'', binTypeId = 15\<rparr>"

definition int64_class :: class_info where
  "int64_class = \<lparr>stringRepresentation = ''Int64'', binTypeId = 16\<rparr>"

definition uint64_class :: class_info where
  "uint64_class = \<lparr>stringRepresentation = ''UInt64'', binTypeId = 17\<rparr>"

definition float_class :: class_info where
  "float_class = \<lparr>stringRepresentation = ''Float'', binTypeId = 18\<rparr>"

definition double_class :: class_info where
  "double_class = \<lparr>stringRepresentation = ''Double'', binTypeId = 19\<rparr>"

definition string_class :: class_info where
  "string_class = \<lparr>stringRepresentation = ''String'', binTypeId = 20\<rparr>"

definition xmlelement_class :: class_info where
  "xmlelement_class = \<lparr>stringRepresentation = ''XmlElement'', binTypeId = 21\<rparr>"

definition bytestring_class :: class_info where
  "bytestring_class = \<lparr>stringRepresentation = ''ByteString'', binTypeId = 22\<rparr>"

definition extensionObject_class :: class_info where
  "extensionObject_class = \<lparr>stringRepresentation = ''ExtensionObject'', binTypeId = 1\<rparr>"

fun class_of :: "builtin \<Rightarrow> class_info" where
  "class_of LocalizedTextT = localizedtext_class"
| "class_of ExpandedNodeIdT = expandednodeid_class"
| "class_of NodeIdT = nodeid_class"
| "class_of DateTimeT = datetime_class"
| "class_of QualifiedNameT = qualifiedname_class"
| "class_of StatusCodeT = statuscode_class"
| "class_of DiagnosticInfoT = diagnosticinfo_class"
| "class_of GuidT = guid_class"
| "class_of BooleanT = boolean_class"
| "class_of ByteT = byte_class"
| "class_of SByteT = sbyte_class"
| "class_of Int16T = int16_class"
| "class_of UInt16T = uint16_class"
| "class_of Int32T = int32_class"
| "class_of UInt32T = uint32_class"
| "class_of Int64T = int64_class"
| "class_of UInt64T = uint64_class"
| "class_of FloatT = float_class"
| "class_of DoubleT = double_class"
| "class_of StringT = string_class"
| "class_of XmlElementT = xmlelement_class"
| "class_of ByteStringT = bytestring_class"

definition info_of :: "value_class \<Rightarrow> class_info" where
  "info_of c = (case c of Builtin b \<Rightarrow> class_of b | ExtensionObject \<Rightarrow> extensionObject_class)"

definition knownTypes :: "string list" where
  "knownTypes = [''boolean'', ''int32'', ''uint32'', ''int16'', ''uint16'', ''int64'', ''uint64'',
     ''byte'', ''sbyte'', ''float'', ''double'', ''string'', ''bytestring'', ''localizedtext'',
     ''statuscode'', ''diagnosticinfo'', ''nodeid'', ''guid'', ''datetime'', ''qualifiedname'',
     ''expandednodeid'', ''xmlelement'']"

definition isBuiltinByString :: "string \<Rightarrow> bool" where
  "isBuiltinByString s \<longleftrightarrow> str_lower s \<in> set knownTypes"

definition getTypeByString :: "string \<Rightarrow> enc \<Rightarrow> (builtin \<times> opcua_value) option" where
  "getTypeByString stringName enc =
     (let n = str_lower stringName; t = (\<lambda>b. Some (b, setEncodingRule enc (value_init (Builtin b)))) in
      if n = ''boolean'' then t BooleanT
      else if n = ''int32'' then t Int32T
      else if n = ''uint32'' then t UInt32T
      else if n = ''int16'' then t Int16T
      else if n = ''uint16'' then t UInt16T
      else if n = ''int64'' then t Int64T
      else if n = ''uint64'' then t UInt64T
      else if n = ''byte'' then t ByteT
      else if n = ''sbyte'' then t SByteT
      else if n = ''float'' then t FloatT
      else if n = ''double'' then t DoubleT
      else if n = ''string'' then t StringT
      else if n = ''bytestring'' then t ByteStringT
      else if n = ''localizedtext'' then t LocalizedTextT
      else if n = ''statuscode'' then t StatusCodeT
      else if n = ''diagnosticinfo'' then t DiagnosticInfoT
      else if n = ''nodeid'' then t NodeIdT
      else if n = ''guid'' then t GuidT
      else if n = ''datetime'' then t DateTimeT
      else if n = ''qualifiedname'' then t QualifiedNameT
      else if n = ''expandednodeid'' then t ExpandedNodeIdT
      else if n = ''xmlelement'' then t XmlElementT
      else None)"

section \<open>Reading\<close>

record py_env =
  env_float :: "string \<Rightarrow> string option"
  env_now :: "nat list"

definition getNodeByIDString :: "node_id list \<Rightarrow> string \<Rightarrow> node_id option" where
  "getNodeByIDString nodes s = List.find (\<lambda>n. id_str n = s) nodes"

text \<open>Every reader but one first returns when it is not given an element.\<close>

definition on_element :: "xnode \<Rightarrow> opcua_value \<Rightarrow> opcua_value res \<Rightarrow> opcua_value res" where
  "on_element x u k = (if is_element x then k else Inr u)"

definition is_locale_char :: "char \<Rightarrow> bool" where
  "is_locale_char c \<longleftrightarrow>
     c \<in> set ''ABCDEFGHIJKLMNOPQRSTUVWXYZabcdefghijklmnopqrstuvwxyz0123456789_''"

definition ltext_locale :: "xnode \<Rightarrow> string res" where
  "ltext_locale x =
     (case getElementsByTagName ''Locale'' x of
        [] \<Rightarrow> Inr ''en_US''
      | l # ls \<Rightarrow>
          rbind (case firstChild l of None \<Rightarrow> Inr ''en_US'' | Some c \<Rightarrow> data_of c) (\<lambda>s.
            Inr (filter is_locale_char s)))"

definition ltext_text :: "xnode \<Rightarrow> string res" where
  "ltext_text x =
     (case getElementsByTagName ''Text'' x of
        [] \<Rightarrow> Inr ''''
      | t # ts \<Rightarrow> (case firstChild t of None \<Rightarrow> Inr '''' | Some c \<Rightarrow> data_of c))"

definition localizedtext_parseXML :: "xnode \<Rightarrow> opcua_value \<Rightarrow> opcua_value res" where
  "localizedtext_parseXML x u = on_element x u
     (if firstChild x = None then Inr (set_value (PList [PStr ''en_US'', PStr '''']) u)
      else rbind (ltext_locale x) (\<lambda>l. rbind (ltext_text x) (\<lambda>t.
             Inr (set_value (PList [PStr l, PStr t]) u))))"

definition expandednodeid_parseXML :: "xnode \<Rightarrow> opcua_value \<Rightarrow> opcua_value res" where
  "expandednodeid_parseXML x u = on_element x u (Inl NameError)"

definition nodeid_parseXML :: "node_id list \<Rightarrow> xnode \<Rightarrow> opcua_value \<Rightarrow> opcua_value res" where
  "nodeid_parseXML nodes x u = on_element x u
     (if firstChild x = None then Inr (set_value PNone u)
      else
        rbind (first_data (case getElementsByTagName ''Identifier'' x of [] \<Rightarrow> x | i # is \<Rightarrow> i)) (\<lambda>s.
          Inr (set_value (case getNodeByIDString nodes s of None \<Rightarrow> PNone | Some n \<Rightarrow> PNode n) u)))"

text \<open>
  \<open>time.strptime\<close> for the format \<open>%Y-%m-%dT%H:%M:%S\<close>: the fields the format's expression
  accepts, in any case of the \<open>T\<close>, and a day that exists.
\<close>

definition is_digit :: "char \<Rightarrow> bool" where
  "is_digit c \<longleftrightarrow> c \<in> set ''0123456789''"

definition field :: "nat \<Rightarrow> nat \<Rightarrow> string \<Rightarrow> nat option" where
  "field lo hi s =
     (if (length s = 1 \<or> length s = 2) \<and> list_all is_digit s
      then (case read_digits 10 0 s of
              None \<Rightarrow> None | Some n \<Rightarrow> if lo \<le> n \<and> n \<le> hi then Some n else None)
      else None)"

definition year_field :: "string \<Rightarrow> nat option" where
  "year_field s = (if length s = 4 \<and> list_all is_digit s then read_digits 10 0 s else None)"

definition cut :: "char list \<Rightarrow> string \<Rightarrow> (string \<times> string) option" where
  "cut cs s =
     (case dropWhile (\<lambda>c. c \<notin> set cs) s of
        [] \<Rightarrow> None | c # rest \<Rightarrow> Some (takeWhile (\<lambda>c. c \<notin> set cs) s, rest))"

definition days_in_month :: "nat \<Rightarrow> nat \<Rightarrow> nat" where
  "days_in_month y m =
     (if m = 2 then (if y mod 4 = 0 \<and> (y mod 100 \<noteq> 0 \<or> y mod 400 = 0) then 29 else 28)
      else if m \<in> {4, 6, 9, 11} then 30 else 31)"

definition day_field :: "string \<Rightarrow> nat option" where
  "day_field s = (case s of
     [a, b] \<Rightarrow> if a = CHR '' '' then field 1 9 [b] else field 1 31 s | _ \<Rightarrow> field 1 31 s)"

definition strptime :: "string \<Rightarrow> nat list option" where
  "strptime s0 =
     Option.bind (cut ''-'' s0) (\<lambda>(y, s1). Option.bind (cut ''-'' s1) (\<lambda>(m, s2).
     Option.bind (cut ''Tt'' s2) (\<lambda>(d, s3). Option.bind (cut '':'' s3) (\<lambda>(h, s4).
     Option.bind (cut '':'' s4) (\<lambda>(mi, sec).
     Option.bind (year_field y) (\<lambda>yn. Option.bind (field 1 12 m) (\<lambda>mn.
     Option.bind (day_field d) (\<lambda>dn. Option.bind (field 0 23 h) (\<lambda>hn.
     Option.bind (field 0 59 mi) (\<lambda>min. Option.bind (field 0 61 sec) (\<lambda>sn.
       if 1 \<le> yn \<and> dn \<le> days_in_month yn mn then Some [yn, mn, dn, hn, min, sn] else None)))))))))))"

definition time_text :: "string \<Rightarrow> string" where
  "time_text s = rev (dropWhile (\<lambda>c. \<not> is_digit c) (rev (takeWhile (\<lambda>c. c \<noteq> CHR ''.'') s)))"

definition datetime_parseXML :: "py_env \<Rightarrow> xnode \<Rightarrow> opcua_value \<Rightarrow> opcua_value res" where
  "datetime_parseXML env x u = on_element x u
     (case firstChild x of
        None \<Rightarrow> Inr (set_value (PTime (env_now env)) u)
      | Some c \<Rightarrow> rbind (data_of c) (\<lambda>s.
          Inr (set_value (PTime (case strptime (time_text s) of None \<Rightarrow> env_now env | Some t \<Rightarrow> t)) u)))"

definition qualifiedname_parseXML :: "xnode \<Rightarrow> opcua_value \<Rightarrow> opcua_value res" where
  "qualifiedname_parseXML x u = on_element x u
     (if firstChild x = None then Inr (set_value (PList [PInt 0, PStr '''']) u)
      else
        (case getElementsByTagName ''NamespaceIndex'' x of
           i # is \<Rightarrow>
             rbind (rbind (first_data i) py2_int) (\<lambda>k.
             rbind (case getElementsByTagName ''Name'' x of
                      [] \<Rightarrow> Inr '''' | n # ns \<Rightarrow> first_data n) (\<lambda>name.
               Inr (set_value (PList [PInt k, PStr name]) u)))
         | [] \<Rightarrow> rbind (first_data x) (\<lambda>s. Inr (set_value (PList [PInt 0, PStr s]) u))))"

definition statuscode_parseXML :: "xnode \<Rightarrow> opcua_value \<Rightarrow> opcua_value res" where
  "statuscode_parseXML x u = on_element x u (Inr u)"

definition diagnosticinfo_parseXML :: "xnode \<Rightarrow> opcua_value \<Rightarrow> opcua_value res" where
  "diagnosticinfo_parseXML x u = on_element x u (Inr u)"

text \<open>Groups that are no number are left out; whatever the check says, the value is the rest.\<close>

definition guid_groups :: "string \<Rightarrow> pyval list" where
  "guid_groups s =
     concat (map (\<lambda>g. case hex_of_text g of Inl _ \<Rightarrow> [] | Inr n \<Rightarrow> [PInt n])
       (split_on (CHR ''-'') (replace_all ''}'' [] (replace_all ''{'' [] s))))"

definition guid_parseXML :: "xnode \<Rightarrow> opcua_value \<Rightarrow> opcua_value res" where
  "guid_parseXML x u = on_element x u
     (case firstChild x of
        None \<Rightarrow> Inr (set_value (PList [PInt 0, PInt 0, PInt 0, PInt 0]) u)
      | Some c \<Rightarrow> rbind (data_of c) (\<lambda>s. Inr (set_value (PList (guid_groups s)) u)))"

definition boolean_parseXML :: "xnode \<Rightarrow> opcua_value \<Rightarrow> opcua_value res" where
  "boolean_parseXML x u = on_element x u
     (case firstChild x of
        None \<Rightarrow> Inr (set_value (PStr ''false'') u)
      | Some c \<Rightarrow> rbind (data_of c) (\<lambda>s.
          Inr (set_value (PStr (if contains ''false'' (str_lower s) then ''false'' else ''true'')) u)))"

text \<open>The integer types: a text that is no integer leaves the value as it was.\<close>

definition int_field :: "xnode \<Rightarrow> opcua_value \<Rightarrow> opcua_value res" where
  "int_field x u =
     (case firstChild x of
        None \<Rightarrow> Inr (set_value (PInt 0) u)
      | Some c \<Rightarrow> rbind (data_of c) (\<lambda>s.
          Inr (case py2_int s of Inl _ \<Rightarrow> u | Inr n \<Rightarrow> set_value (PInt n) u)))"

definition byte_parseXML :: "xnode \<Rightarrow> opcua_value \<Rightarrow> opcua_value res" where
  "byte_parseXML x u = on_element x u (int_field x u)"

definition sbyte_parseXML :: "xnode \<Rightarrow> opcua_value \<Rightarrow> opcua_value res" where
  "sbyte_parseXML x u = on_element x u (int_field x u)"

definition int16_parseXML :: "xnode \<Rightarrow> opcua_value \<Rightarrow> opcua_value res" where
  "int16_parseXML x u = on_element x u (int_field x u)"

definition uint16_parseXML :: "xnode \<Rightarrow> opcua_value \<Rightarrow> opcua_value res" where
  "uint16_parseXML x u = on_element x u (int_field x u)"

definition int32_parseXML :: "xnode \<Rightarrow> opcua_value \<Rightarrow> opcua_value res" where
  "int32_parseXML x u = on_element x u (int_field x u)"

definition uint32_parseXML :: "xnode \<Rightarrow> opcua_value \<Rightarrow> opcua_value res" where
  "uint32_parseXML x u = on_element x u (int_field x u)"

definition uint64_parseXML :: "xnode \<Rightarrow> opcua_value \<Rightarrow> opcua_value res" where
  "uint64_parseXML x u = on_element x u (int_field x u)"

definition int64_parseXML :: "xnode \<Rightarrow> opcua_value \<Rightarrow> opcua_value res" where
  "int64_parseXML x u = rbind (tag_of x) (\<lambda>_. int_field x u)"

definition float_field :: "py_env \<Rightarrow> xnode \<Rightarrow> opcua_value \<Rightarrow> opcua_value res" where
  "float_field env x u =
     (case firstChild x of
        None \<Rightarrow> Inr (set_value (PFloat ''0.0'') u)
      | Some c \<Rightarrow> rbind (data_of c) (\<lambda>s.
          Inr (case env_float env s of None \<Rightarrow> u | Some f \<Rightarrow> set_value (PFloat f) u)))"

definition float_parseXML :: "py_env \<Rightarrow> xnode \<Rightarrow> opcua_value \<Rightarrow> opcua_value res" where
  "float_parseXML env x u = on_element x u (float_field env x u)"

definition double_parseXML :: "py_env \<Rightarrow> xnode \<Rightarrow> opcua_value \<Rightarrow> opcua_value res" where
  "double_parseXML env x u = on_element x u (float_field env x u)"

definition text_field :: "xnode \<Rightarrow> opcua_value \<Rightarrow> opcua_value res" where
  "text_field x u =
     (case firstChild x of
        None \<Rightarrow> Inr (set_value (PStr '''') u)
      | Some c \<Rightarrow> rbind (data_of c) (\<lambda>s. Inr (set_value (PStr s) u)))"

definition string_parseXML :: "xnode \<Rightarrow> opcua_value \<Rightarrow> opcua_value res" where
  "string_parseXML x u = on_element x u (text_field x u)"

definition bytestring_parseXML :: "xnode \<Rightarrow> opcua_value \<Rightarrow> opcua_value res" where
  "bytestring_parseXML x u = on_element x u (text_field x u)"

text \<open>\<open>t.parseXML(xmlvalue)\<close>, by the class of \<open>t\<close>; the XML element type inherits its reader.\<close>

definition builtin_parseXML ::
    "py_env \<Rightarrow> node_id list \<Rightarrow> builtin \<Rightarrow> xnode \<Rightarrow> opcua_value \<Rightarrow> opcua_value res" where
  "builtin_parseXML env nodes b x u =
     (case b of
        LocalizedTextT \<Rightarrow> localizedtext_parseXML x u
      | ExpandedNodeIdT \<Rightarrow> expandednodeid_parseXML x u
      | NodeIdT \<Rightarrow> nodeid_parseXML nodes x u
      | DateTimeT \<Rightarrow> datetime_parseXML env x u
      | QualifiedNameT \<Rightarrow> qualifiedname_parseXML x u
      | StatusCodeT \<Rightarrow> statuscode_parseXML x u
      | DiagnosticInfoT \<Rightarrow> diagnosticinfo_parseXML x u
      | GuidT \<Rightarrow> guid_parseXML x u
      | BooleanT \<Rightarrow> boolean_parseXML x u
      | ByteT \<Rightarrow> byte_parseXML x u
      | SByteT \<Rightarrow> sbyte_parseXML x u
      | Int16T \<Rightarrow> int16_parseXML x u
      | UInt16T \<Rightarrow> uint16_parseXML x u
      | Int32T \<Rightarrow> int32_parseXML x u
      | UInt32T \<Rightarrow> uint32_parseXML x u
      | Int64T \<Rightarrow> int64_parseXML x u
      | UInt64T \<Rightarrow> uint64_parseXML x u
      | FloatT \<Rightarrow> float_parseXML env x u
      | DoubleT \<Rightarrow> double_parseXML env x u
      | StringT \<Rightarrow> string_parseXML x u
      | XmlElementT \<Rightarrow> string_parseXML x u
      | ByteStringT \<Rightarrow> bytestring_parseXML x u)"

section \<open>Printing\<close>

text \<open>\<open>str(self.value)\<close> of the classes that hold a number, a text or nothing.\<close>

definition scalar_str :: "pyval \<Rightarrow> string res" where
  "scalar_str v =
     (case v of PNone \<Rightarrow> Inr ''None'' | PInt n \<Rightarrow> Inr (int_str n) | PFloat f \<Rightarrow> Inr f | PStr s \<Rightarrow> Inr s
      | _ \<Rightarrow> Inl TypeError)"

definition cast_print :: "class_info \<Rightarrow> opcua_value \<Rightarrow> string res" where
  "cast_print c u =
     rbind (scalar_str (u_value u)) (\<lambda>s. Inr (''(UA_'' @ stringRepresentation c @ '') '' @ s))"

definition boolean_print :: "opcua_value \<Rightarrow> string res" where
  "boolean_print u = cast_print boolean_class u"

definition byte_print :: "opcua_value \<Rightarrow> string res" where
  "byte_print u = cast_print byte_class u"

definition sbyte_print :: "opcua_value \<Rightarrow> string res" where
  "sbyte_print u = cast_print sbyte_class u"

definition int16_print :: "opcua_value \<Rightarrow> string res" where
  "int16_print u = cast_print int16_class u"

definition uint16_print :: "opcua_value \<Rightarrow> string res" where
  "uint16_print u = cast_print uint16_class u"

definition int32_print :: "opcua_value \<Rightarrow> string res" where
  "int32_print u = cast_print int32_class u"

definition uint32_print :: "opcua_value \<Rightarrow> string res" where
  "uint32_print u = cast_print uint32_class u"

definition int64_print :: "opcua_value \<Rightarrow> string res" where
  "int64_print u = cast_print int64_class u"

definition uint64_print :: "opcua_value \<Rightarrow> string res" where
  "uint64_print u = cast_print uint64_class u"

definition float_print :: "opcua_value \<Rightarrow> string res" where
  "float_print u = cast_print float_class u"

definition double_print :: "opcua_value \<Rightarrow> string res" where
  "double_print u = cast_print double_class u"

definition value_print :: "opcua_value \<Rightarrow> string res" where
  "value_print u = Inr ''''"

definition localizedtext_print :: "bool \<Rightarrow> opcua_value \<Rightarrow> string res" where
  "localizedtext_print asIndirect u =
     (case u_value u of
        PList [PStr locale, PStr txt] \<Rightarrow>
          Inr ((if asIndirect then ''UA_LOCALIZEDTEXT_ALLOC('' else ''UA_LOCALIZEDTEXT('') @
               ''\"'' @ locale @ ''\", \"'' @ txt @ ''\")'')
      | _ \<Rightarrow> Inl TypeError)"

definition expandednodeid_print :: "opcua_value \<Rightarrow> string res" where
  "expandednodeid_print u = Inr ''''"

definition nodeid_print :: "opcua_value \<Rightarrow> string res" where
  "nodeid_print u =
     (case u_value u of
        PNone \<Rightarrow> Inr ''UA_NODEID_NUMERIC(0,0)''
      | PNode n \<Rightarrow>
          Inr (case id_i n of
                 Some i \<Rightarrow> ''UA_NODEID_NUMERIC('' @ int_str (id_ns n) @ '', '' @ int_str i @ '')''
               | None \<Rightarrow>
                  (case id_s n of
                     Some s \<Rightarrow> ''UA_NODEID_STRING('' @ int_str (id_ns n) @ '', '' @ s @ '')''
                   | None \<Rightarrow> ''UA_NODEID_NUMERIC(0,0)''))
      | _ \<Rightarrow> Inl AttributeError)"

definition qualifiedname_print :: "opcua_value \<Rightarrow> string res" where
  "qualifiedname_print u =
     (case u_value u of
        PList [PInt k, PStr name] \<Rightarrow>
          Inr (''UA_QUALIFIEDNAME_ALLOC('' @ int_str k @ '', \"'' @ name @ ''\")'')
      | _ \<Rightarrow> Inl TypeError)"

definition string_print :: "opcua_value \<Rightarrow> string res" where
  "string_print u =
     (case u_value u of PStr s \<Rightarrow> Inr (''UA_STRING_ALLOC(\"'' @ s @ ''\")'') | _ \<Rightarrow> Inl AttributeError)"

definition xmlelement_print :: "opcua_value \<Rightarrow> string res" where
  "xmlelement_print u =
     (case u_value u of PStr s \<Rightarrow> Inr (''UA_XMLELEMENT_ALLOC(\"'' @ s @ ''\")'') | _ \<Rightarrow> Inl AttributeError)"

definition bytestring_print :: "opcua_value \<Rightarrow> string res" where
  "bytestring_print u =
     (case u_value u of
        PStr s \<Rightarrow> Inr (''UA_STRING_ALLOC(\"'' @ filter (\<lambda>c. c \<noteq> char_of (10::nat)) s @ ''\")'')
      | _ \<Rightarrow> Inl TypeError)"

text \<open>\<open>printOpen62541CCode_SubType\<close>, by class; the classes without one inherit the empty text.\<close>

definition builtin_print :: "bool \<Rightarrow> builtin \<Rightarrow> opcua_value \<Rightarrow> string res" where
  "builtin_print asIndirect b u =
     (case b of
        LocalizedTextT \<Rightarrow> localizedtext_print asIndirect u
      | ExpandedNodeIdT \<Rightarrow> expandednodeid_print u
      | NodeIdT \<Rightarrow> nodeid_print u
      | DateTimeT \<Rightarrow> value_print u
      | QualifiedNameT \<Rightarrow> qualifiedname_print u
      | StatusCodeT \<Rightarrow> value_print u
      | DiagnosticInfoT \<Rightarrow> value_print u
      | GuidT \<Rightarrow> value_print u
      | BooleanT \<Rightarrow> boolean_print u
      | ByteT \<Rightarrow> byte_print u
      | SByteT \<Rightarrow> sbyte_print u
      | Int16T \<Rightarrow> int16_print u
      | UInt16T \<Rightarrow> uint16_print u
      | Int32T \<Rightarrow> int32_print u
      | UInt32T \<Rightarrow> uint32_print u
      | Int64T \<Rightarrow> int64_print u
      | UInt64T \<Rightarrow> uint64_print u
      | FloatT \<Rightarrow> float_print u
      | DoubleT \<Rightarrow> double_print u
      | StringT \<Rightarrow> string_print u
      | XmlElementT \<Rightarrow> xmlelement_print u
      | ByteStringT \<Rightarrow> bytestring_print u)"

end
