(* ===== verification/Ua_Builtin_Facts.thy ===== *)
theory Ua_Builtin_Facts
  imports Ua_Builtin
begin

text \<open>
  What the readers and printers of the builtin types guarantee: the names the factory knows, the
  shape of the value every reader leaves, the C text every well-shaped value has, and the round
  trip of the numbers.
\<close>

section \<open>The factory\<close>

text \<open>\<open>getTypeByString\<close> creates an object for exactly the names \<open>isBuiltinByString\<close> accepts, and
  the object is of the class with that name (up to case); only \<open>DiagnosticInfo\<close> carries another
  name, \<open>StatusCode\<close>.\<close>

theorem factory_matches_known_types:
  "isBuiltinByString s \<longleftrightarrow>
     (\<exists>b. getTypeByString s e = Some (b, setEncodingRule e (value_init (Builtin b))) \<and>
        (if b = DiagnosticInfoT then stringRepresentation (class_of b) = ''StatusCode''
         else str_lower (stringRepresentation (class_of b)) = str_lower s))"
proof -
  have name: "str_lower (stringRepresentation (class_of b)) = str_lower s"
    if "getTypeByString s e = Some (b, u)" and "b \<noteq> DiagnosticInfoT" for b u
    using that unfolding getTypeByString_def Let_def
    by (simp split: if_split_asm) (elim conjE; hypsubst; code_simp)+
  have "isBuiltinByString s \<longleftrightarrow>
      (\<exists>b. getTypeByString s e = Some (b, setEncodingRule e (value_init (Builtin b))))"
    unfolding isBuiltinByString_def knownTypes_def getTypeByString_def Let_def by simp
  moreover have "stringRepresentation (class_of DiagnosticInfoT) = ''StatusCode''"
    by (simp add: diagnosticinfo_class_def)
  ultimately show ?thesis using name by auto
qed

section \<open>The shape of a value\<close>

definition value_ok :: "node_id list \<Rightarrow> builtin \<Rightarrow> pyval \<Rightarrow> bool" where
  "value_ok nodes b v =
     (case b of
        LocalizedTextT \<Rightarrow> (\<exists>l t. v = PList [PStr l, PStr t] \<and> list_all is_locale_char l)
      | ExpandedNodeIdT \<Rightarrow> False
      | NodeIdT \<Rightarrow> (\<exists>n \<in> set nodes. v = PNode n)
      | DateTimeT \<Rightarrow> (\<exists>t. v = PTime t)
      | QualifiedNameT \<Rightarrow> (\<exists>k s. v = PList [PInt k, PStr s])
      | StatusCodeT \<Rightarrow> False
      | DiagnosticInfoT \<Rightarrow> False
      | GuidT \<Rightarrow> (\<exists>gs. v = PList (map PInt gs) \<and> list_all (\<lambda>g. 0 \<le> g) gs)
      | BooleanT \<Rightarrow> v = PStr ''true'' \<or> v = PStr ''false''
      | FloatT \<Rightarrow> (\<exists>f. v = PFloat f)
      | DoubleT \<Rightarrow> (\<exists>f. v = PFloat f)
      | StringT \<Rightarrow> (\<exists>s. v = PStr s)
      | XmlElementT \<Rightarrow> (\<exists>s. v = PStr s)
      | ByteStringT \<Rightarrow> (\<exists>s. v = PStr s)
      | _ \<Rightarrow> (\<exists>n. v = PInt n))"

lemma on_element_Inr:
  "on_element x u k = Inr u' \<Longrightarrow> (is_element x \<Longrightarrow> k = Inr u' \<Longrightarrow> P) \<Longrightarrow> (u' = u \<Longrightarrow> P) \<Longrightarrow> P"
  by (auto simp: on_element_def split: if_splits)

text \<open>A reader either leaves the object as it is or assigns a value of the right shape.\<close>

named_theorems reader_cases \<open>what a successful reader returns\<close>

lemma int_field_cases [reader_cases]:
  assumes "int_field x u = Inr u'"
  shows "u' = u \<or> (\<exists>n. u' = set_value (PInt n) u)"
proof (cases "firstChild x")
  case None
  with assms show ?thesis by (auto simp: int_field_def)
next
  case (Some c)
  with assms obtain s where "u' = (case py2_int s of Inl _ \<Rightarrow> u | Inr n \<Rightarrow> set_value (PInt n) u)"
    by (auto simp: int_field_def rbind_Inr_iff)
  then show ?thesis by (cases "py2_int s") auto
qed

lemma float_field_cases [reader_cases]:
  "float_field env x u = Inr u' \<Longrightarrow> u' = u \<or> (\<exists>f. u' = set_value (PFloat f) u)"
  by (auto simp: float_field_def rbind_Inr_iff split: option.splits)

lemma text_field_cases [reader_cases]:
  "text_field x u = Inr u' \<Longrightarrow> \<exists>s. u' = set_value (PStr s) u"
  by (auto simp: text_field_def rbind_Inr_iff split: option.splits)

lemma guid_groups_ints: "\<exists>gs. guid_groups s = map PInt gs \<and> list_all (\<lambda>g. 0 \<le> g) gs"
proof -
  have "\<exists>gs. concat (map (\<lambda>g. case hex_of_text g of Inl _ \<Rightarrow> [] | Inr n \<Rightarrow> [PInt n]) xs) = map PInt gs \<and>
      list_all (\<lambda>g. 0 \<le> g) gs" for xs
  proof (induction xs)
    case (Cons x xs)
    then obtain gs where gs: "concat (map (\<lambda>g. case hex_of_text g of Inl _ \<Rightarrow> [] | Inr n \<Rightarrow> [PInt n]) xs) =
        map PInt gs" "list_all (\<lambda>g. 0 \<le> g) gs" by blast
    show ?case
    proof (cases "hex_of_text x")
      case (Inl e)
      with gs show ?thesis by auto
    next
      case (Inr n)
      then have "0 \<le> n" by (rule hex_of_text_nonneg)
      with gs Inr show ?thesis by (intro exI [of _ "n # gs"]) simp
    qed
  qed simp
  then show ?thesis by (simp add: guid_groups_def)
qed

lemma ltext_locale_chars: "ltext_locale x = Inr l \<Longrightarrow> list_all is_locale_char l"
  by (auto simp: ltext_locale_def rbind_Inr_iff list_all_iff is_locale_char_def split: list.splits)

lemma find_in_set: "List.find P xs = Some y \<Longrightarrow> y \<in> set xs"
  by (induction xs) (auto split: if_splits)

lemma getNodeByIDString_in: "getNodeByIDString nodes s = Some n \<Longrightarrow> n \<in> set nodes"
  by (auto simp: getNodeByIDString_def dest: find_in_set)

text \<open>One lemma per reader that needs its own, then the dispatch.\<close>

lemma localizedtext_cases [reader_cases]:
  assumes "localizedtext_parseXML x u = Inr u'"
  shows "u' = u \<or> (\<exists>v. u' = set_value v u \<and> value_ok nodes LocalizedTextT v)"
proof -
  have "list_all is_locale_char ''en_US''" by code_simp
  with assms show ?thesis
    by (auto simp: localizedtext_parseXML_def on_element_def value_ok_def rbind_Inr_iff
        split: if_splits dest: ltext_locale_chars)
qed

lemma nodeid_cases [reader_cases]:
  "nodeid_parseXML nodes x u = Inr u' \<Longrightarrow>
     u' = u \<or> (\<exists>v. u' = set_value v u \<and> (v = PNone \<or> value_ok nodes NodeIdT v))"
  by (auto simp: nodeid_parseXML_def on_element_def value_ok_def rbind_Inr_iff
      split: if_splits option.splits dest: getNodeByIDString_in)

lemma qualifiedname_cases [reader_cases]:
  "qualifiedname_parseXML x u = Inr u' \<Longrightarrow>
     u' = u \<or> (\<exists>v. u' = set_value v u \<and> value_ok nodes QualifiedNameT v)"
  by (auto simp: qualifiedname_parseXML_def on_element_def value_ok_def rbind_Inr_iff
      split: if_splits list.splits)

lemma datetime_cases [reader_cases]:
  "datetime_parseXML env x u = Inr u' \<Longrightarrow>
     u' = u \<or> (\<exists>v. u' = set_value v u \<and> value_ok nodes DateTimeT v)"
  by (auto simp: datetime_parseXML_def on_element_def value_ok_def rbind_Inr_iff
      split: if_splits option.splits)

lemma guid_cases [reader_cases]:
  assumes "guid_parseXML x u = Inr u'"
  shows "u' = u \<or> (\<exists>v. u' = set_value v u \<and> value_ok nodes GuidT v)"
proof -
  have "value_ok nodes GuidT (PList [PInt 0, PInt 0, PInt 0, PInt 0])"
    by (simp add: value_ok_def) (rule exI [of _ "[0, 0, 0, 0]"], simp)
  moreover have "value_ok nodes GuidT (PList (guid_groups s))" for s
    using guid_groups_ints [of s] by (auto simp: value_ok_def)
  ultimately show ?thesis
    using assms by (auto simp: guid_parseXML_def on_element_def rbind_Inr_iff split: if_splits option.splits)
qed

lemma boolean_cases [reader_cases]:
  "boolean_parseXML x u = Inr u' \<Longrightarrow>
     u' = u \<or> (\<exists>v. u' = set_value v u \<and> value_ok nodes BooleanT v)"
  by (auto simp: boolean_parseXML_def on_element_def value_ok_def rbind_Inr_iff
      split: if_splits option.splits)

lemmas int_readers = byte_parseXML_def sbyte_parseXML_def int16_parseXML_def uint16_parseXML_def
  int32_parseXML_def uint32_parseXML_def int64_parseXML_def uint64_parseXML_def

lemmas other_readers = float_parseXML_def double_parseXML_def string_parseXML_def
  bytestring_parseXML_def statuscode_parseXML_def diagnosticinfo_parseXML_def
  expandednodeid_parseXML_def

lemma builtin_parse_cases:
  assumes "builtin_parseXML env nodes b x u = Inr u'"
  shows "u' = u \<or> (\<exists>v. u' = set_value v u \<and> (v = PNone \<or> value_ok nodes b v))"
proof -
  have ints: ?thesis if "b \<in> {ByteT, SByteT, Int16T, UInt16T, Int32T, UInt32T, Int64T, UInt64T}"
  proof -
    have "value_ok nodes b (PInt n)" for n using that by (auto simp: value_ok_def)
    moreover have "u' = u \<or> (\<exists>n. u' = set_value (PInt n) u)"
      using that assms by (auto simp: builtin_parseXML_def int_readers on_element_def rbind_Inr_iff
          split: if_splits dest!: int_field_cases)
    ultimately show ?thesis by blast
  qed
  have floats: ?thesis if "b \<in> {FloatT, DoubleT}"
  proof -
    have "value_ok nodes b (PFloat f)" for f using that by (auto simp: value_ok_def)
    moreover have "u' = u \<or> (\<exists>f. u' = set_value (PFloat f) u)"
      using that assms by (auto simp: builtin_parseXML_def other_readers on_element_def
          split: if_splits dest!: float_field_cases)
    ultimately show ?thesis by blast
  qed
  have texts: ?thesis if "b \<in> {StringT, XmlElementT, ByteStringT}"
  proof -
    have "value_ok nodes b (PStr t)" for t using that by (auto simp: value_ok_def)
    moreover have "u' = u \<or> (\<exists>t. u' = set_value (PStr t) u)"
      using that assms by (auto simp: builtin_parseXML_def other_readers on_element_def
          split: if_splits dest!: text_field_cases)
    ultimately show ?thesis by blast
  qed
  have others: ?thesis if "b \<in> {StatusCodeT, DiagnosticInfoT, ExpandedNodeIdT}"
    using that assms
    by (auto simp: builtin_parseXML_def other_readers on_element_def split: if_splits)
  show ?thesis
  proof (cases b)
    case LocalizedTextT
    with assms localizedtext_cases show ?thesis by (simp add: builtin_parseXML_def) blast
  next
    case NodeIdT
    with assms nodeid_cases show ?thesis by (simp add: builtin_parseXML_def)
  next
    case QualifiedNameT
    with assms qualifiedname_cases show ?thesis by (simp add: builtin_parseXML_def) blast
  next
    case DateTimeT
    with assms datetime_cases show ?thesis by (simp add: builtin_parseXML_def) blast
  next
    case GuidT
    with assms guid_cases show ?thesis by (simp add: builtin_parseXML_def) blast
  next
    case BooleanT
    with assms boolean_cases show ?thesis by (simp add: builtin_parseXML_def) blast
  qed (use ints floats texts others in blast)+
qed

text \<open>C33: an object whose value is empty, given any XML node to read, ends with an empty value or
  one of the shape of its type: a locale without quotes, a list of non-negative numbers for a
  guid, \<open>true\<close> or \<open>false\<close>, a node of the namespace, and so on; its class never changes.\<close>

theorem builtin_values_well_typed:
  assumes "builtin_parseXML env nodes b x u = Inr u'" and "u_value u = PNone \<or> value_ok nodes b (u_value u)"
  shows "u_class u' = u_class u \<and> (u_value u' = PNone \<or> value_ok nodes b (u_value u'))"
  using builtin_parse_cases [OF assms(1)] assms(2) by auto

definition demo_env :: py_env where
  "demo_env = \<lparr>env_float = (\<lambda>_. None), env_now = [2024, 1, 1, 0, 0, 0]\<rparr>"

definition demo_guid :: xnode where
  "demo_guid = XElem ''Guid'' [] [XData ''{1F-no hex-2}'']"

corollary builtin_values_well_typed_witness:
  "builtin_parseXML demo_env [] GuidT demo_guid (value_init (Builtin GuidT)) =
     Inr (set_value (PList [PInt 31, PInt 2]) (value_init (Builtin GuidT))) \<and>
   value_ok [] GuidT (PList [PInt 31, PInt 2])"
proof
  show *: "builtin_parseXML demo_env [] GuidT demo_guid (value_init (Builtin GuidT)) =
     Inr (set_value (PList [PInt 31, PInt 2]) (value_init (Builtin GuidT)))"
    by code_simp
  show "value_ok [] GuidT (PList [PInt 31, PInt 2])"
    using builtin_values_well_typed [OF *] by (simp add: value_init_def)
qed

text \<open>The C type a number or a truth value is cast to.\<close>

definition cast_text :: "builtin \<Rightarrow> string" where
  "cast_text b =
     (case b of
        BooleanT \<Rightarrow> ''(UA_Boolean) '' | ByteT \<Rightarrow> ''(UA_Byte) '' | SByteT \<Rightarrow> ''(UA_SByte) ''
      | Int16T \<Rightarrow> ''(UA_Int16) '' | UInt16T \<Rightarrow> ''(UA_UInt16) '' | Int32T \<Rightarrow> ''(UA_Int32) ''
      | UInt32T \<Rightarrow> ''(UA_UInt32) '' | Int64T \<Rightarrow> ''(UA_Int64) '' | UInt64T \<Rightarrow> ''(UA_UInt64) ''
      | FloatT \<Rightarrow> ''(UA_Float) '' | DoubleT \<Rightarrow> ''(UA_Double) '' | _ \<Rightarrow> '''')"

definition silent_types :: "builtin set" where
  "silent_types = {GuidT, DateTimeT, StatusCodeT, DiagnosticInfoT, ExpandedNodeIdT}"

definition text_types :: "builtin set" where
  "text_types = {LocalizedTextT, QualifiedNameT, StringT, XmlElementT, ByteStringT}"

text \<open>C34: the C text of every value of the right shape and of every empty value.  Numbers and truth
  values follow a cast to their type; strings, XML elements, byte strings (without their line breaks),
  localized texts, qualified names and node ids are calls of their macros; for a guid, a time, a
  status code, a diagnostic info and an expanded node id the text is empty, whatever the value.  An empty
  value is printed as the node id \<open>(0,0)\<close> or, after the cast, as \<open>None\<close>, and for the types whose printer looks
  into the value the generator stops with an exception.\<close>

theorem builtin_print_total:
  assumes "value_ok nodes b (u_value u) \<or> u_value u = PNone"
  shows "(\<forall>n. u_value u = PInt n \<longrightarrow> builtin_print asIndirect b u = Inr (cast_text b @ int_str n)) \<and>
    (\<forall>f. u_value u = PFloat f \<longrightarrow> builtin_print asIndirect b u = Inr (cast_text b @ f)) \<and>
    (\<forall>s. u_value u = PStr s \<longrightarrow> builtin_print asIndirect b u =
       Inr (if b = BooleanT then ''(UA_Boolean) '' @ s
            else if b = XmlElementT then ''UA_XMLELEMENT_ALLOC(\"'' @ s @ ''\")''
            else if b = StringT then ''UA_STRING_ALLOC(\"'' @ s @ ''\")''
            else ''UA_STRING_ALLOC(\"'' @ filter (\<lambda>c. c \<noteq> char_of (10::nat)) s @ ''\")'')) \<and>
    (\<forall>l t. u_value u = PList [PStr l, PStr t] \<longrightarrow> builtin_print asIndirect b u =
       Inr ((if asIndirect then ''UA_LOCALIZEDTEXT_ALLOC(\"'' else ''UA_LOCALIZEDTEXT(\"'') @ l @ ''\", \"'' @ t @ ''\")'')) \<and>
    (\<forall>k s. u_value u = PList [PInt k, PStr s] \<longrightarrow> builtin_print asIndirect b u =
       Inr (''UA_QUALIFIEDNAME_ALLOC('' @ int_str k @ '', \"'' @ s @ ''\")'')) \<and>
    (\<forall>i. u_value u = PNode i \<longrightarrow> builtin_print asIndirect b u =
       Inr (if id_i i \<noteq> None then ''UA_NODEID_NUMERIC('' @ int_str (id_ns i) @ '', '' @ int_str (the (id_i i)) @ '')''
            else if id_s i \<noteq> None then ''UA_NODEID_STRING('' @ int_str (id_ns i) @ '', '' @ the (id_s i) @ '')''
            else ''UA_NODEID_NUMERIC(0,0)'')) \<and>
    (b \<in> silent_types \<longrightarrow> builtin_print asIndirect b u = Inr '''') \<and>
    (u_value u = PNone \<and> b = NodeIdT \<longrightarrow> builtin_print asIndirect b u = Inr ''UA_NODEID_NUMERIC(0,0)'') \<and>
    (u_value u = PNone \<and> b \<in> text_types \<longrightarrow> isl (builtin_print asIndirect b u)) \<and>
    (u_value u = PNone \<and> b \<notin> silent_types \<union> text_types \<union> {NodeIdT} \<longrightarrow>
       builtin_print asIndirect b u = Inr (cast_text b @ ''None''))"
  using assms
  by (cases b)
     (auto simp: value_ok_def builtin_print_def cast_print_def scalar_str_def value_print_def
       localizedtext_print_def qualifiedname_print_def nodeid_print_def string_print_def
       xmlelement_print_def bytestring_print_def expandednodeid_print_def boolean_print_def
       byte_print_def sbyte_print_def int16_print_def uint16_print_def int32_print_def
       uint32_print_def int64_print_def uint64_print_def float_print_def double_print_def
       cast_text_def silent_types_def text_types_def boolean_class_def byte_class_def sbyte_class_def int16_class_def
       uint16_class_def int32_class_def uint32_class_def int64_class_def uint64_class_def float_class_def double_class_def
       split: option.splits)

corollary builtin_print_total_witness:
  "builtin_print True ByteT (set_value (PInt 7) (value_init (Builtin ByteT))) = Inr (''(UA_Byte) '' @ int_str 7) \<and>
   builtin_print True StringT (set_value (PStr ''a'') (value_init (Builtin StringT))) = Inr ''UA_STRING_ALLOC(\"a\")'' \<and>
   isl (builtin_print True StringT (value_init (Builtin StringT)))"
  using builtin_print_total [of "[]" ByteT "set_value (PInt 7) (value_init (Builtin ByteT))" True]
    builtin_print_total [of "[]" StringT "set_value (PStr ''a'') (value_init (Builtin StringT))" True]
    builtin_print_total [of "[]" StringT "value_init (Builtin StringT)" True]
  by (simp add: value_init_def value_ok_def cast_text_def text_types_def)

end
