(* ===== verification/Ua_Value.thy ===== *)
theory Ua_Value
  imports Ua_Builtin_Facts
begin

text \<open>
  \<open>opcua_value_t\<close> and \<open>opcua_BuiltinType_extensionObject_t\<close> of ua_builtin_types.py: reading the
  value of a variable along the encoding of its data type, and generating the C code that fills it.
  A value object reaches the rest of the program only through its parent node; \<open>value_parent\<close> holds
  what it reads there.
\<close>

record data_type_view =
  dt_encoding :: enc
  dt_browseName :: string
  dt_id :: node_id

record value_parent =
  p_printable :: string
  p_valueRank :: int
  p_dataType :: "data_type_view option"
  p_nodes :: "node_id list"

text \<open>\<open>self.parent.dataType().target()\<close>\<close>

definition data_type_of :: "value_parent \<Rightarrow> data_type_view res" where
  "data_type_of p = (case p_dataType p of None \<Rightarrow> Inl AttributeError | Some d \<Rightarrow> Inr d)"

section \<open>Encodings as Python lists\<close>

fun enc_items :: "enc \<Rightarrow> enc list res" where
  "enc_items (EncStr s) = Inr (map (\<lambda>c. EncStr [c]) s)"
| "enc_items (EncInt n) = Inl TypeError"
| "enc_items (EncList es) = Inr es"

definition enc_at :: "enc \<Rightarrow> nat \<Rightarrow> enc res" where
  "enc_at e k = rbind (enc_items e) (\<lambda>es. if k < length es then Inr (es ! k) else Inl IndexError)"

definition enc_len :: "enc \<Rightarrow> nat res" where
  "enc_len e = rbind (enc_items e) (\<lambda>es. Inr (length es))"

text \<open>\<open>repr\<close> of a string and of a list, and \<open>str\<close> of an encoding.\<close>

definition repr_char :: "char \<Rightarrow> char \<Rightarrow> string" where
  "repr_char q c =
     (let n = of_char c :: nat in
      if c = q \<or> n = 92 then [char_of (92::nat), c]
      else if n = 9 then [char_of (92::nat), CHR ''t'']
      else if n = 10 then [char_of (92::nat), CHR ''n'']
      else if n = 13 then [char_of (92::nat), CHR ''r'']
      else if n < 32 \<or> 127 \<le> n then
        [char_of (92::nat), CHR ''x'', digit_char (n div 16), digit_char (n mod 16)]
      else [c])"

definition repr_str :: "string \<Rightarrow> string" where
  "repr_str s =
     (let q = (if char_of (39::nat) \<in> set s \<and> char_of (34::nat) \<notin> set s then char_of (34::nat)
               else char_of (39::nat)) in
      [q] @ concat (map (repr_char q) s) @ [q])"

fun enc_repr :: "enc \<Rightarrow> string" where
  "enc_repr (EncStr s) = repr_str s"
| "enc_repr (EncInt n) = int_str n"
| "enc_repr (EncList es) = ''['' @ join '', '' (map enc_repr es) @ '']''"

definition enc_str :: "enc \<Rightarrow> string" where
  "enc_str e = (case e of EncStr s \<Rightarrow> s | _ \<Rightarrow> enc_repr e)"

text \<open>What makes the descent into an encoding end.\<close>

fun enc_measure :: "enc \<Rightarrow> nat" where
  "enc_measure (EncStr s) = (if length s \<le> 1 then 1 else 1 + 3 * length s)"
| "enc_measure (EncInt n) = 1"
| "enc_measure (EncList es) = 2 + sum_list (map (\<lambda>e. enc_measure e + 1) es)"

definition encs_measure :: "enc list \<Rightarrow> nat" where
  "encs_measure es = sum_list (map (\<lambda>e. enc_measure e + 1) es)"

lemma encs_measure_simps [simp]:
  "encs_measure [] = 0" "encs_measure (e # es) = enc_measure e + 1 + encs_measure es"
  by (simp_all add: encs_measure_def)

lemma enc_items_measure:
  assumes "enc_items e = Inr es" and "\<And>n. es \<noteq> [EncStr n]"
  shows "encs_measure es < enc_measure e"
proof (cases e)
  case (EncStr s)
  have "encs_measure (map (\<lambda>c. EncStr [c]) t) = 2 * length t" for t
    by (induction t) simp_all
  moreover have "length s \<noteq> 1"
    using assms EncStr by (cases s; cases "tl s") auto
  ultimately show ?thesis
    using assms(1) EncStr by (auto simp: le_Suc_eq)
qed (use assms in \<open>auto simp: encs_measure_def\<close>)

section \<open>Reading a value\<close>

definition ext_init :: "enc \<Rightarrow> node_id \<Rightarrow> string \<Rightarrow> opcua_value" where
  "ext_init e t a = set_alias (Some a) (set_typeId t (setEncodingRule e (value_init ExtensionObject)))"

text \<open>
  The first element of a body and its followers: \<open>x.firstChild\<close>, moved on to the next element
  where it is none.
\<close>

definition first_element :: "xnode \<Rightarrow> xnode list res" where
  "first_element x =
     (case child_nodes x of
        [] \<Rightarrow> Inl AttributeError
      | c # cs \<Rightarrow> Inr (if is_element c then c # cs else getNextElementNode (c # cs)))"

text \<open>
  What an \<open>ExtensionObject\<close> element holds: the type's node and the fields of its body with their
  followers; \<open>None\<close> where the reader reports an error and returns nothing.
\<close>

definition ext_type :: "value_parent \<Rightarrow> xnode \<Rightarrow> node_id option res" where
  "ext_type p x =
     (case getElementsByTagName ''TypeId'' x of
        [] \<Rightarrow> Inr None
      | t # _ \<Rightarrow>
          (case getElementsByTagName ''Identifier'' t of
             [] \<Rightarrow> Inr None
           | i # _ \<Rightarrow> rbind (first_data i) (\<lambda>s. Inr (getNodeByIDString (p_nodes p) s))))"

definition ext_parts :: "value_parent \<Rightarrow> xnode \<Rightarrow> (string \<times> xnode list) option res" where
  "ext_parts p x =
     (case getElementsByTagName ''Body'' x of
        [] \<Rightarrow> Inr None
      | body # _ \<Rightarrow>
          rbind (first_element body) (\<lambda>parts.
          rbind (data_type_of p) (\<lambda>dt.
            case parts of
              [] \<Rightarrow> Inr None
            | part # _ \<Rightarrow>
                rbind (tag_of part) (\<lambda>ptag.
                if ptag \<noteq> dt_browseName dt then Inr None
                else rbind (first_element part) (\<lambda>fs. Inr (if fs = [] then None else Some (ptag, fs)))))))"

definition ext_header :: "value_parent \<Rightarrow> xnode \<Rightarrow> (node_id \<times> string \<times> xnode list) option res" where
  "ext_header p x =
     rbind (tag_of x) (\<lambda>tag.
     if tag \<noteq> ''ExtensionObject'' then Inr None
     else rbind (ext_type p x) (\<lambda>t.
       case t of
         None \<Rightarrow> Inr None
       | Some etype \<Rightarrow> rbind (ext_parts p x) (\<lambda>r. Inr (map_option (Pair etype) r))))"

text \<open>A builtin value read from \<open>x\<close>, with the alias where there is one.\<close>

definition read_builtin ::
    "py_env \<Rightarrow> value_parent \<Rightarrow> xnode \<Rightarrow> string option \<Rightarrow> string \<Rightarrow> enc \<Rightarrow> pyval res" where
  "read_builtin env p x alias n e =
     (case getTypeByString n e of
        None \<Rightarrow> Inl AttributeError
      | Some (b, u) \<Rightarrow> rbind (builtin_parseXML env (p_nodes p) b x (set_alias alias u)) (\<lambda>v. Inr (PObj v)))"

definition next_alias :: "string option \<Rightarrow> string \<Rightarrow> enc \<Rightarrow> string option res" where
  "next_alias alias n e1 =
     (case alias of
        None \<Rightarrow> Inr (Some n)
      | Some a \<Rightarrow> rbind (enc_len e1) (\<lambda>k. Inr (Some (if 1 < k then n else a))))"

text \<open>
  \<open>__parseXMLSingleValue\<close> with a given encoding, and its loop over the fields of a multipart
  encoding; the XML parts come with their followers.
\<close>

function (sequential) parseXMLSingleValue ::
    "py_env \<Rightarrow> value_parent \<Rightarrow> xnode \<Rightarrow> string option \<Rightarrow> enc \<Rightarrow> pyval res"
  and parse_fields :: "py_env \<Rightarrow> value_parent \<Rightarrow> xnode list \<Rightarrow> enc list \<Rightarrow> pyval list res" where
  "parseXMLSingleValue env p x alias e =
     rbind (enc_items e) (\<lambda>es.
       case es of
         [e0] \<Rightarrow>
           (case e0 of
              EncStr n \<Rightarrow>
                rbind (tag_of x) (\<lambda>tag.
                  case alias of
                    Some a \<Rightarrow> if tag \<noteq> a then Inr PNone else read_builtin env p x (Some a) n e
                  | None \<Rightarrow> if \<not> isBuiltinByString tag then Inr PNone else read_builtin env p x None n e)
            | _ \<Rightarrow> parseXMLSingleValue env p x alias e0)
       | [EncStr n, e1, e2] \<Rightarrow>
           rbind (next_alias alias n e1) (\<lambda>a. parseXMLSingleValue env p x a e1)
       | _ \<Rightarrow>
           rbind (ext_header p x) (\<lambda>h.
             case h of
               None \<Rightarrow> Inr PNone
             | Some (t, a, fs) \<Rightarrow>
                 rbind (parse_fields env p fs es) (\<lambda>vs.
                   Inr (PObj (set_value (PList vs) (ext_init e t a))))))"
| "parse_fields env p parts [] = Inr []"
| "parse_fields env p [] (e # es) = parse_fields env p [] es"
| "parse_fields env p (x # xs) (e # es) =
     rbind (parseXMLSingleValue env p x None e) (\<lambda>v.
     rbind (parse_fields env p (getNextElementNode (x # xs)) es) (\<lambda>vs. Inr (v # vs)))"
  by pat_completeness auto
termination
  by (relation "measure (case_sum (\<lambda>(env, p, x, a, e). enc_measure e) (\<lambda>(env, p, xs, es). encs_measure es))")
     (use enc_items_measure in \<open>fastforce\<close>)+

declare parseXMLSingleValue.simps [simp del]

text \<open>The four forms of an encoding.\<close>

lemma single_items:
  assumes "parseXMLSingleValue env p x al e = Inr v"
  obtains es where "enc_items e = Inr es"
  using assms by (subst (asm) parseXMLSingleValue.simps) (auto simp: rbind_Inr_iff)

lemma single_builtin:
  assumes "enc_items e = Inr [EncStr n]"
  shows "parseXMLSingleValue env p x al e =
    rbind (tag_of x) (\<lambda>tag.
      case al of
        Some a \<Rightarrow> if tag \<noteq> a then Inr PNone else read_builtin env p x (Some a) n e
      | None \<Rightarrow> if \<not> isBuiltinByString tag then Inr PNone else read_builtin env p x None n e)"
  using assms by (simp add: parseXMLSingleValue.simps)

lemma single_nested:
  assumes "enc_items e = Inr [e0]" and "\<And>n. e0 \<noteq> EncStr n"
  shows "parseXMLSingleValue env p x al e = parseXMLSingleValue env p x al e0"
  using assms by (subst parseXMLSingleValue.simps) (cases e0; auto)

lemma single_aliased:
  assumes "enc_items e = Inr [EncStr n, e1, e2]"
  shows "parseXMLSingleValue env p x al e =
    rbind (next_alias al n e1) (\<lambda>a. parseXMLSingleValue env p x a e1)"
  using assms by (subst parseXMLSingleValue.simps) simp

lemma single_multi:
  assumes "enc_items e = Inr es" and "\<And>e0. es \<noteq> [e0]" and "\<And>n e1 e2. es \<noteq> [EncStr n, e1, e2]"
  shows "parseXMLSingleValue env p x al e =
    rbind (ext_header p x) (\<lambda>h.
      case h of
        None \<Rightarrow> Inr PNone
      | Some (t, a, fs) \<Rightarrow>
          rbind (parse_fields env p fs es) (\<lambda>vs. Inr (PObj (set_value (PList vs) (ext_init e t a)))))"
  using assms by (subst parseXMLSingleValue.simps) (simp split: list.split enc.split)

text \<open>Induction along the descent, by the form of the encoding.\<close>

lemma single_induct [case_names error builtin nested aliased multi nil none field]:
  assumes error: "\<And>x al e err. enc_items e = Inl err \<Longrightarrow> P x al e"
    and builtin: "\<And>x al e n. enc_items e = Inr [EncStr n] \<Longrightarrow> P x al e"
    and nested: "\<And>x al e e0. enc_items e = Inr [e0] \<Longrightarrow> (\<And>n. e0 \<noteq> EncStr n) \<Longrightarrow> P x al e0 \<Longrightarrow> P x al e"
    and aliased: "\<And>x al e n e1 e2. enc_items e = Inr [EncStr n, e1, e2] \<Longrightarrow> (\<And>a. P x a e1) \<Longrightarrow> P x al e"
    and multi: "\<And>x al e es. enc_items e = Inr es \<Longrightarrow> (\<And>e0. es \<noteq> [e0]) \<Longrightarrow>
        (\<And>n e1 e2. es \<noteq> [EncStr n, e1, e2]) \<Longrightarrow> (\<And>fs. Q fs es) \<Longrightarrow> P x al e"
    and nil: "\<And>xs. Q xs []" and none: "\<And>e es. Q [] es \<Longrightarrow> Q [] (e # es)"
    and field: "\<And>x xs e es. P x None e \<Longrightarrow> Q (getNextElementNode (x # xs)) es \<Longrightarrow> Q (x # xs) (e # es)"
  shows "P x al e" and "Q parts es"
proof -
  have "(\<forall>x al e. enc_measure e < n \<longrightarrow> P x al e) \<and> (\<forall>parts es. encs_measure es < n \<longrightarrow> Q parts es)" for n
  proof (induction n)
    case (Suc n)
    then have IHP: "P x al e" if "enc_measure e < n" for x al e using that by blast
    from Suc have IHQ: "Q parts es" if "encs_measure es < n" for parts es using that by blast
    have P: "P x al e" if "enc_measure e < Suc n" for x al e
    proof (cases "enc_items e")
      case (Inl err)
      then show ?thesis by (rule error)
    next
      case (Inr es)
      consider (str) k where "es = [EncStr k]" | (one) e0 where "es = [e0]" "\<And>k. e0 \<noteq> EncStr k"
        | (three) k e1 e2 where "es = [EncStr k, e1, e2]"
        | (more) "\<And>e0. es \<noteq> [e0]" "\<And>k e1 e2. es \<noteq> [EncStr k, e1, e2]"
        by (metis enc.exhaust)
      then show ?thesis
      proof cases
        case str
        with Inr show ?thesis using builtin by blast
      next
        case one
        then have "encs_measure es < n" using enc_items_measure [OF Inr] that by auto
        then have "P x al e0" using one(1) by (intro IHP) simp
        with Inr one show ?thesis using nested by blast
      next
        case three
        then have "encs_measure es < n" using enc_items_measure [OF Inr] that by auto
        then have "P x a e1" for a using three by (intro IHP) simp
        with Inr three show ?thesis using aliased by blast
      next
        case more
        then have "encs_measure es < n" using enc_items_measure [OF Inr] that by auto
        with Inr more show ?thesis using multi IHQ by blast
      qed
    qed
    have "Q parts es" if "encs_measure es < Suc n" for parts es
      using that
    proof (induction es arbitrary: parts)
      case (Cons e es)
      then have es: "Q ps es" for ps by simp
      show ?case
      proof (cases parts)
        case Nil
        then show ?thesis using none es by blast
      next
        case (Cons x xs)
        have "P x None e" using \<open>encs_measure (e # es) < Suc n\<close> by (intro P) simp
        then show ?thesis unfolding Cons by (rule field) (rule es)
      qed
    qed (rule nil)
    with P show ?case by blast
  qed simp
  then show "P x al e" and "Q parts es" by blast+
qed

text \<open>
  \<open>parseXML\<close> of the value of a variable: the first child element of \<open>Value\<close>, or \<open>Value\<close> itself,
  is read as one value or, when its name says so, as a list of values.
\<close>

definition value_parseXML :: "py_env \<Rightarrow> value_parent \<Rightarrow> xnode \<Rightarrow> pyval \<Rightarrow> pyval res" where
  "value_parseXML env p x v =
     rbind (data_type_of p) (\<lambda>dt.
     rbind (tag_of x) (\<lambda>tag.
       if \<not> contains ''value'' (str_lower tag) then Inr v
       else if child_nodes x = [] then Inr v
       else
         (let y = (case List.find is_element (child_nodes x) of None \<Rightarrow> x | Some c \<Rightarrow> c) in
          if contains ''ListOf'' (tagName y) then
            rbind (mapM (\<lambda>c. parseXMLSingleValue env p c None (dt_encoding dt))
                    (filter is_element (child_nodes y))) (\<lambda>vs. Inr (PList vs))
          else
            rbind (parseXMLSingleValue env p y None (dt_encoding dt)) (\<lambda>w. Inr (PList [w])))))"

text \<open>\<open>getValueFieldByAlias\<close>: the value of the first field with that alias.\<close>

fun field_by_alias :: "string \<Rightarrow> pyval list \<Rightarrow> pyval res" where
  "field_by_alias n [] = Inr PNone"
| "field_by_alias n (PObj u # vs) = (if u_alias u = Some n then Inr (u_value u) else field_by_alias n vs)"
| "field_by_alias n (v # vs) = Inl AttributeError"

fun getValueFieldByAlias :: "string \<Rightarrow> pyval \<Rightarrow> pyval res" where
  "getValueFieldByAlias n (PList []) = Inl IndexError"
| "getValueFieldByAlias n (PList (PObj u # vs)) = field_by_alias n (PObj u # vs)"
| "getValueFieldByAlias n v = Inr PNone"

section \<open>C code of an extension object\<close>

definition alias_text :: "string option \<Rightarrow> string" where
  "alias_text a = (case a of None \<Rightarrow> ''None'' | Some s \<Rightarrow> s)"

definition getCodeInstanceName :: "opcua_value \<Rightarrow> string res" where
  "getCodeInstanceName u = (case u_instance u of None \<Rightarrow> Inl AttributeError | Some n \<Rightarrow> Inr n)"

definition setCodeInstanceName :: "value_parent \<Rightarrow> nat \<Rightarrow> nat \<Rightarrow> opcua_value \<Rightarrow> opcua_value" where
  "setCodeInstanceName p recursionDepth arrayIndex u =
     set_instance (p_printable p @ ''_'' @ alias_text (u_alias u) @ ''_'' @ nat_str 10 arrayIndex @
       ''_'' @ nat_str 10 recursionDepth) u"

definition extensionObject_print :: "bool \<Rightarrow> opcua_value \<Rightarrow> string res" where
  "extensionObject_print asIndirect u =
     rbind (getCodeInstanceName u) (\<lambda>n. Inr (if asIndirect then n else ''*'' @ n))"

definition subtype_print :: "bool \<Rightarrow> opcua_value \<Rightarrow> string res" where
  "subtype_print asIndirect u =
     (case u_class u of
        Builtin b \<Rightarrow> builtin_print asIndirect b u
      | ExtensionObject \<Rightarrow> extensionObject_print asIndirect u)"

definition type_name :: "opcua_value \<Rightarrow> string" where
  "type_name u = stringRepresentation (info_of (u_class u))"

text \<open>\<open>for x in v\<close> over the value of an object.\<close>

definition value_items :: "pyval \<Rightarrow> pyval list res" where
  "value_items v = (case v of PList vs \<Rightarrow> Inr vs | PStr s \<Rightarrow> Inr (map (\<lambda>c. PStr [c]) s) | _ \<Rightarrow> Inl TypeError)"

fun is_plist :: "pyval \<Rightarrow> bool" where
  "is_plist (PList vs) = True"
| "is_plist _ = False"

definition is_scalar_field :: "enc \<Rightarrow> bool res" where
  "is_scalar_field f = rbind (enc_at f 2) (\<lambda>k. Inr (k = EncInt 0))"

text \<open>The member of the one-time struct a field of the encoding gives.\<close>

definition field_member :: "enc \<Rightarrow> string list res" where
  "field_member f =
     rbind (is_scalar_field f) (\<lambda>scalar.
     rbind (enc_at f 0) (\<lambda>name.
     rbind (enc_at f 1) (\<lambda>t.
     rbind (enc_len t) (\<lambda>k.
       let ptr = (if scalar then '''' else ''*'');
           size = (if scalar then [] else [''  UA_Int32 '' @ enc_str name @ ''Size;''])
       in if k = 1
          then rbind (enc_at t 0) (\<lambda>t0.
                 Inr (size @ [''  UA_'' @ enc_str t0 @ '' '' @ ptr @ enc_str name @ '';'']))
          else Inr (size @ [''  UA_ExtensionObject  '' @ ptr @ enc_str name @ '';''])))))"

text \<open>
  Assigning the value of field \<open>k\<close>, and encoding it.  (A list among the fields has raised an
  exception before, where the object is searched for nested objects.)
\<close>

definition field_object :: "pyval \<Rightarrow> (string \<times> opcua_value) res" where
  "field_object v =
     (case v of
        PObj u \<Rightarrow> (case u_alias u of None \<Rightarrow> Inl TypeError | Some a \<Rightarrow> Inr (a, u))
      | _ \<Rightarrow> Inl AttributeError)"

definition assign_field :: "string \<Rightarrow> enc \<Rightarrow> nat \<Rightarrow> pyval \<Rightarrow> string list res" where
  "assign_field inst rule k v =
     rbind (enc_at rule k) (\<lambda>f.
     rbind (field_object v) (\<lambda>(a, u).
     rbind (is_scalar_field f) (\<lambda>scalar.
       let member = inst @ ''_struct.'' @ a in
       if scalar then rbind (subtype_print False u) (\<lambda>c. Inr [member @ '' = '' @ c @ '';''])
       else
         rbind (subtype_print True u) (\<lambda>c.
           Inr [member @ ''Size = 1;'',
                member @ '' = (UA_'' @ type_name u @ '' *) UA_malloc(sizeof(UA_'' @ type_name u @ ''));'',
                member @ ''[0]  = '' @ c @ '';'']))))"

definition encode_field :: "string \<Rightarrow> enc \<Rightarrow> nat \<Rightarrow> pyval \<Rightarrow> string res" where
  "encode_field inst rule k v =
     rbind (enc_at rule k) (\<lambda>f.
     rbind (is_scalar_field f) (\<lambda>scalar.
     rbind (field_object v) (\<lambda>(a, u).
       Inr (''retval |= UA_encodeBinary(&'' @ inst @ ''_struct.'' @ a @ (if scalar then '''' else ''[0]'') @
            '', &UA_TYPES[UA_TYPES_'' @ str_upper (type_name u) @ ''], NULL, NULL, &'' @ inst @
            ''->content.encoded.body, &'' @ inst @ ''_encOffset);''))))"

definition opt_int_str :: "int option \<Rightarrow> string" where
  "opt_int_str n = (case n of None \<Rightarrow> ''None'' | Some k \<Rightarrow> int_str k)"

definition ext_alloc_code :: "string \<Rightarrow> node_id \<Rightarrow> string list" where
  "ext_alloc_code inst i =
     [''UA_ExtensionObject *'' @ inst @ '' =  UA_ExtensionObject_new();'',
      inst @ ''->encoding = UA_EXTENSIONOBJECT_ENCODED_BYTESTRING;'',
      inst @ ''->content.encoded.typeId = UA_NODEID_NUMERIC('' @ int_str (id_ns i) @ '', '' @
        opt_int_str (id_i i) @ ''+ UA_ENCODINGOFFSET_BINARY);'',
      ''if(UA_ByteString_allocBuffer(&'' @ inst @
        ''->content.encoded.body, 65000) != UA_STATUSCODE_GOOD) {}'']"

definition ext_shrink_code :: "string \<Rightarrow> string list" where
  "ext_shrink_code inst =
     [inst @ ''->content.encoded.body.length = '' @ inst @ ''_encOffset;'',
      ''UA_Byte *'' @ inst @ ''_newBody = (UA_Byte *) UA_malloc('' @ inst @ ''_encOffset );'',
      ''memcpy('' @ inst @ ''_newBody, '' @ inst @ ''->content.encoded.body.data, '' @ inst @ ''_encOffset);'',
      ''UA_Byte *'' @ inst @ ''_oldBody = '' @ inst @ ''->content.encoded.body.data;'',
      inst @ ''->content.encoded.body.data = '' @ inst @ ''_newBody;'',
      ''UA_free('' @ inst @ ''_oldBody);'',
      '''']"

definition enum :: "'a list \<Rightarrow> (nat \<times> 'a) list" where
  "enum xs = zip [0..<length xs] xs"

definition extensionObject_build ::
    "value_parent \<Rightarrow> nat \<Rightarrow> nat \<Rightarrow> opcua_value \<Rightarrow> (string list \<times> opcua_value) res" where
  "extensionObject_build p recursionDepth arrayIndex u0 =
     (let u = setCodeInstanceName p recursionDepth arrayIndex u0; rule = u_encoding u in
      rbind (getCodeInstanceName u) (\<lambda>inst.
      rbind (value_items (u_value u)) (\<lambda>vs.
      if list_ex is_plist vs then Inl NameError
      else
        rbind (rbind (enc_items rule) (mapM field_member)) (\<lambda>members.
        rbind (mapM (\<lambda>(k, v). assign_field inst rule k v) (enum vs)) (\<lambda>assigns.
        rbind (data_type_of p) (\<lambda>dt.
        rbind (mapM (\<lambda>(k, v). encode_field inst rule k v) (enum vs)) (\<lambda>encodes.
          Inr ([''''] @ [''struct {''] @ concat members @ [''} '' @ inst @ ''_struct;''] @ concat assigns @
               ext_alloc_code inst (dt_id dt) @
               [''size_t '' @ inst @ ''_encOffset = 0;''] @ encodes @ ext_shrink_code inst, u))))))))"

section \<open>C code of a variable's value\<close>

text \<open>The types whose values are not printed: guid, date and time, diagnostic info, status code.\<close>

definition unprintable :: "value_class \<Rightarrow> bool" where
  "unprintable c \<longleftrightarrow> binTypeId (info_of c) \<in> {8, 5, 23, 7}"

definition as_array :: "int \<Rightarrow> nat \<Rightarrow> bool" where
  "as_array rank n \<longleftrightarrow> rank \<noteq> -1 \<and> (rank \<ge> 0 \<or> (n > 1 \<and> (rank \<noteq> -2 \<or> rank \<noteq> -3)))"

definition valueName :: "value_parent \<Rightarrow> string" where
  "valueName p = p_printable p @ ''_variant_DataContents''"

definition ua_types :: "opcua_value \<Rightarrow> string" where
  "ua_types u = ''&UA_TYPES[UA_TYPES_'' @ str_upper (type_name u) @ '']''"

text \<open>Building the extension objects of an array, and their values with the names assigned.\<close>

definition build_element :: "value_parent \<Rightarrow> nat \<Rightarrow> pyval \<Rightarrow> (string list \<times> pyval) res" where
  "build_element p k v =
     (case v of
        PObj u \<Rightarrow>
          if u_class u = ExtensionObject
          then rbind (extensionObject_build p 0 k u) (\<lambda>(c, w). Inr (c, PObj w))
          else Inl AttributeError
      | _ \<Rightarrow> Inl AttributeError)"

definition print_element :: "bool \<Rightarrow> pyval \<Rightarrow> string res" where
  "print_element asIndirect v = (case v of PObj u \<Rightarrow> subtype_print asIndirect u | _ \<Rightarrow> Inl AttributeError)"

definition index_text :: "value_parent \<Rightarrow> nat \<Rightarrow> string" where
  "index_text p k = valueName p @ ''['' @ nat_str 10 k @ '']''"

definition array_code :: "value_parent \<Rightarrow> opcua_value \<Rightarrow> pyval list \<Rightarrow> (string list \<times> pyval list) res" where
  "array_code p u0 vs =
     (let ext = (u_class u0 = ExtensionObject); n = nat_str 10 (length vs);
          declare_line = ''UA_'' @ type_name u0 @ '' '' @ valueName p @ ''['' @ n @ ''];'';
          set_line = ''UA_Variant_setArray( &attr.value, &'' @ valueName p @ '', (UA_Int32) '' @ n @
                     '', '' @ ua_types u0 @ '');''
      in if ext then
           rbind (mapM (\<lambda>(k, v). build_element p k v) (enum vs)) (\<lambda>built.
           rbind (mapM (\<lambda>(k, v).
                    rbind (print_element False v) (\<lambda>c.
                    rbind (print_element True v) (\<lambda>i.
                      Inr [index_text p k @ '' = '' @ c @ '';'', ''UA_free('' @ i @ '');''])))
                   (enum (map snd built))) (\<lambda>assigns.
             Inr (concat (map fst built) @ [declare_line] @ concat assigns @ [set_line], map snd built)))
         else
           rbind (mapM (\<lambda>(k, v). rbind (print_element True v) (\<lambda>c. Inr (index_text p k @ '' = '' @ c @ '';'')))
                   (enum vs)) (\<lambda>assigns.
             Inr ([declare_line] @ assigns @ [set_line], vs)))"

definition scalar_code ::
    "value_parent \<Rightarrow> bool \<Rightarrow> opcua_value \<Rightarrow> pyval list \<Rightarrow> (string list \<times> pyval list) res" where
  "scalar_code p bootstrapping u0 vs =
     (if u_class u0 = ExtensionObject then
        rbind (extensionObject_build p 0 0 u0) (\<lambda>(code, u).
        rbind (subtype_print True u) (\<lambda>i.
          Inr (code @
               [''UA_'' @ type_name u @ '' *'' @ valueName p @ '' = '' @ i @ '';'',
                ''UA_Variant_setScalar( &attr.value, '' @ valueName p @ '', '' @ ua_types u @ '');''],
               PObj u # tl vs)))
      else
        rbind (subtype_print True u0) (\<lambda>c.
          Inr ((if bootstrapping
                then [''UA_Variant* '' @ p_printable p @ ''_variant = UA_Variant_new();''] else []) @
               [''UA_'' @ type_name u0 @ '' *'' @ valueName p @ '' =  UA_'' @ type_name u0 @ ''_new();'',
                ''*'' @ valueName p @ '' = '' @ c @ '';'',
                ''UA_Variant_setScalar( '' @
                  (if bootstrapping then p_printable p @ ''_variant'' else ''&attr.value'') @
                  '', '' @ valueName p @ '', '' @ ua_types u0 @ '');''],
               vs)))"

definition value_printOpen62541CCode ::
    "value_parent \<Rightarrow> bool \<Rightarrow> pyval \<Rightarrow> (string list \<times> pyval) res" where
  "value_printOpen62541CCode p bootstrapping v =
     rbind (value_items v) (\<lambda>vs.
     case vs of
       [] \<Rightarrow> Inr ([], v)
     | v0 # _ \<Rightarrow>
       (case v0 of
          PObj u0 \<Rightarrow>
            if unprintable (u_class u0) then Inr ([], v)
            else if as_array (p_valueRank p) (length vs)
            then rbind (array_code p u0 vs) (\<lambda>(code, ws). Inr (code, PList ws))
            else rbind (scalar_code p bootstrapping u0 vs) (\<lambda>(code, ws). Inr (code, PList ws))
        | _ \<Rightarrow> Inr ([], v)))"

end
