(* ===== verification/Ua_Value_Facts.thy ===== *)
theory Ua_Value_Facts
  imports Ua_Value
begin

text \<open>
  What reading a value along an encoding gives: values of the right shape at every level, the
  fields of a structure under the names its encoding gives them, and the C code of the values.
\<close>

section \<open>Well-shaped values\<close>

fun parsed_ok :: "node_id list \<Rightarrow> pyval \<Rightarrow> bool" where
  "parsed_ok nodes (PObj (UaValue (Builtin b) v a e t n)) \<longleftrightarrow> v = PNone \<or> value_ok nodes b v"
| "parsed_ok nodes (PObj (UaValue ExtensionObject (PList vs) a e (Some t) n)) \<longleftrightarrow>
     t \<in> set nodes \<and> a \<noteq> None \<and> (\<forall>v \<in> set vs. parsed_ok nodes v)"
| "parsed_ok nodes (PObj _) \<longleftrightarrow> False"
| "parsed_ok nodes PNone \<longleftrightarrow> True"
| "parsed_ok nodes _ \<longleftrightarrow> False"

lemma builtin_object:
  assumes "getTypeByString n e = Some (b, u)"
  shows "u = setEncodingRule e (value_init (Builtin b))"
  using assms unfolding getTypeByString_def Let_def by (auto split: if_split_asm)

lemma read_builtin_object:
  assumes "read_builtin env p x alias n e = Inr v"
  obtains b u where "v = PObj u" and "u_class u = Builtin b" and "u_alias u = alias"
    and "u_value u = PNone \<or> value_ok (p_nodes p) b (u_value u)"
proof -
  obtain b u w where u: "getTypeByString n e = Some (b, u)"
    and w: "builtin_parseXML env (p_nodes p) b x (set_alias alias u) = Inr w" and v: "v = PObj w"
    using assms by (auto simp: read_builtin_def rbind_Inr_iff split: option.splits)
  have u': "u_class (set_alias alias u) = Builtin b" "u_value (set_alias alias u) = PNone"
      "u_alias (set_alias alias u) = alias"
    by (simp_all add: builtin_object [OF u] value_init_def split: option.split)
  from builtin_parse_cases [OF w] show thesis
    by (elim disjE exE conjE; intro that [OF v]) (use u' in auto)
qed

lemma read_builtin_ok: "read_builtin env p x alias n e = Inr v \<Longrightarrow> parsed_ok (p_nodes p) v"
  by (erule read_builtin_object) (metis opcua_value.collapse parsed_ok.simps(1))

lemma ext_header_node:
  "ext_header p x = Inr (Some (t, a, fs)) \<Longrightarrow> t \<in> set (p_nodes p)"
  unfolding ext_header_def ext_type_def
  by (auto simp: rbind_Inr_iff split: if_split_asm list.split_asm option.split_asm
      dest: getNodeByIDString_in)

lemma ext_object_ok:
  assumes "t \<in> set nodes" and "\<forall>v \<in> set vs. parsed_ok nodes v"
  shows "parsed_ok nodes (PObj (set_value (PList vs) (ext_init e t a)))"
  using assms by (simp add: ext_init_def value_init_def)

lemma parse_single_ok:
  "parseXMLSingleValue env p x al e = Inr v \<Longrightarrow> parsed_ok (p_nodes p) v"
  "parse_fields env p parts es = Inr vs \<Longrightarrow> \<forall>v \<in> set vs. parsed_ok (p_nodes p) v"
proof (induction x al e and parts es arbitrary: v and vs rule: single_induct)
  case (error x al e err)
  from error(2) show ?case by (rule single_items) (use error(1) in simp)
next
  case (builtin x al e n)
  then show ?case
    by (auto simp: single_builtin rbind_Inr_iff split: option.splits if_split_asm dest: read_builtin_ok)
next
  case (nested x al e e0)
  then show ?case by (simp add: single_nested)
next
  case (aliased x al e n e1 e2)
  then show ?case by (auto simp: single_aliased rbind_Inr_iff)
next
  case (multi x al e es)
  from multi.prems [unfolded single_multi [OF multi.hyps]] multi.IH show ?case
    by (auto simp: rbind_Inr_iff split: option.splits intro!: ext_object_ok dest: ext_header_node)
next
  case (field x xs e es)
  then show ?case by (auto simp: rbind_Inr_iff)
qed auto

text \<open>C25: reading the value of a variable, whatever its encoding and its XML, either leaves the
  value as it was or gives a list of values that are well-shaped at every level: empty, a builtin
  value of the shape of its type, or an extension object of a known type whose fields are
  well-shaped again.\<close>

theorem read_values_well_shaped:
  assumes "value_parseXML env p x v = Inr v'"
  shows "v' = v \<or> (\<exists>vs. v' = PList vs \<and> (\<forall>w \<in> set vs. parsed_ok (p_nodes p) w))"
proof -
  have list: "\<forall>w \<in> set vs. parsed_ok (p_nodes p) w"
    if "mapM (\<lambda>c. parseXMLSingleValue env p c None e) xs = Inr vs" for e xs vs
    using that by (auto dest!: mapM_in_set parse_single_ok(1))
  obtain dt tag where "data_type_of p = Inr dt" and "tag_of x = Inr tag"
    using assms by (auto simp: value_parseXML_def rbind_Inr_iff)
  with assms show ?thesis
    by (auto simp: value_parseXML_def Let_def rbind_Inr_iff split: if_split_asm
        dest: list parse_single_ok(1))
qed

text \<open>A structure of two fields, one of them an array, as a namespace file has it.\<close>

definition range_id :: node_id where
  "range_id = toString (empty_id\<lparr>id_i := Some 884\<rparr>)"

definition range_type :: enc where
  "range_type = EncList [EncList [EncStr ''Low'', EncList [EncStr ''Int32''], EncInt 0],
     EncList [EncStr ''High'', EncList [EncStr ''Int32''], EncInt 1]]"

definition range_parent :: value_parent where
  "range_parent = \<lparr>p_printable = ''i_2365'', p_valueRank = -1,
     p_dataType = Some \<lparr>dt_encoding = range_type, dt_browseName = ''Range'', dt_id = range_id\<rparr>,
     p_nodes = [range_id]\<rparr>"

definition range_fields :: "xnode list" where
  "range_fields = [XElem ''Low'' [] [XData ''-5''], XData '' '', XElem ''High'' [] [XData ''7'']]"

definition range_xml :: xnode where
  "range_xml = XElem ''Value'' [] [XElem ''ExtensionObject'' []
     [XElem ''TypeId'' [] [XElem ''Identifier'' [] [XData ''i=884'']],
      XElem ''Body'' [] [XData '' '', XElem ''Range'' [] range_fields]]]"

definition range_values :: "pyval list" where
  "range_values =
     [PObj (UaValue (Builtin Int32T) (PInt (-5)) (Some ''Low'') (EncList [EncStr ''Int32'']) None None),
      PObj (UaValue (Builtin Int32T) (PInt 7) (Some ''High'') (EncList [EncStr ''Int32'']) None None)]"

definition range_object :: opcua_value where
  "range_object = UaValue ExtensionObject (PList range_values) (Some ''Range'') range_type (Some range_id) None"

corollary read_values_well_shaped_witness:
  "value_parseXML demo_env range_parent range_xml PNone = Inr (PList [PObj range_object]) \<and>
   parsed_ok [range_id] (PObj range_object)"
proof
  show *: "value_parseXML demo_env range_parent range_xml PNone = Inr (PList [PObj range_object])"
    by code_simp
  show "parsed_ok [range_id] (PObj range_object)"
    using read_values_well_shaped [OF *] by (simp add: range_parent_def)
qed

section \<open>Structures\<close>

text \<open>
  The encoding of a structure whose fields are builtin types: for each field its name, the name of
  its type and its value rank (zero for a scalar).
\<close>

type_synonym flat = "string \<times> string \<times> int"

definition flat_field :: "flat \<Rightarrow> enc" where
  "flat_field f = (case f of (n, t, r) \<Rightarrow> EncList [EncStr n, EncList [EncStr t], EncInt r])"

definition named :: "string \<Rightarrow> pyval \<Rightarrow> bool" where
  "named n v \<longleftrightarrow> (\<exists>u. v = PObj u \<and> u_alias u = Some n)"

lemma flat_field_read:
  assumes "parseXMLSingleValue env p x None (flat_field (n, t, r)) = Inr v"
  shows "v = PNone \<or> named n v"
proof -
  have "enc_items (flat_field (n, t, r)) = Inr [EncStr n, EncList [EncStr t], EncInt r]"
    by (simp add: flat_field_def)
  from assms [unfolded single_aliased [OF this]]
  have "parseXMLSingleValue env p x (Some n) (EncList [EncStr t]) = Inr v"
    by (simp add: next_alias_def)
  moreover have "enc_items (EncList [EncStr t]) = Inr [EncStr t]" by simp
  ultimately show ?thesis
    by (auto simp: single_builtin rbind_Inr_iff named_def split: if_split_asm elim!: read_builtin_object)
qed

text \<open>The fields read for such a structure are empty or carry, position by position, the name
  the encoding gives the field, also when the body has fewer elements than the encoding.\<close>

theorem structure_fields_named:
  assumes "parse_fields env p parts (map flat_field fs) = Inr vs"
  shows "length vs \<le> length fs \<and> (\<forall>k < length vs. vs ! k = PNone \<or> named (fst (fs ! k)) (vs ! k))"
  using assms
proof (induction fs arbitrary: parts vs)
  case (Cons f fs)
  obtain n t r where f: "f = (n, t, r)" by (cases f)
  show ?case
  proof (cases parts)
    case Nil
    have "parse_fields env p [] es = Inr []" for es by (induction es) simp_all
    with Cons.prems Nil show ?thesis by simp
  next
    case (Cons x xs)
    with Cons.prems obtain v ws where v: "parseXMLSingleValue env p x None (flat_field f) = Inr v"
      and ws: "parse_fields env p (getNextElementNode (x # xs)) (map flat_field fs) = Inr ws"
      and vs: "vs = v # ws"
      by (auto simp: rbind_Inr_iff)
    show ?thesis
      using Cons.IH [OF ws] flat_field_read [OF v [unfolded f]] unfolding vs f
      by (auto simp: nth_Cons split: nat.split)
  qed
qed simp

definition range_flat :: "flat list" where
  "range_flat = [(''Low'', ''Int32'', 0), (''High'', ''Int32'', 1)]"

corollary structure_fields_named_witness:
  "parse_fields demo_env range_parent range_fields (map flat_field range_flat) = Inr range_values \<and>
   named ''High'' (range_values ! 1)"
proof
  show *: "parse_fields demo_env range_parent range_fields (map flat_field range_flat) = Inr range_values"
    by code_simp
  have "1 < length range_values" by (simp add: range_values_def)
  with structure_fields_named [OF *]
  have "range_values ! 1 = PNone \<or> named (fst (range_flat ! 1)) (range_values ! 1)" by blast
  then show "named ''High'' (range_values ! 1)" by (simp add: range_values_def range_flat_def)
qed

definition member_line :: "flat \<Rightarrow> string" where
  "member_line f = (case f of (n, t, r) \<Rightarrow>
     ''  UA_'' @ t @ '' '' @ (if r = 0 then '''' else ''*'') @ n @ '';'')"

lemma flat_field_at:
  "enc_at (flat_field (n, t, r)) 0 = Inr (EncStr n)"
  "enc_at (flat_field (n, t, r)) 1 = Inr (EncList [EncStr t])"
  "enc_at (flat_field (n, t, r)) 2 = Inr (EncInt r)"
  by (simp_all add: enc_at_def flat_field_def)

lemma flat_field_scalar: "is_scalar_field (flat_field (n, t, r)) = Inr (r = 0)"
  by (simp add: is_scalar_field_def flat_field_at)

lemma enum_nth [simp]: "length (enum xs) = length xs" "k < length xs \<Longrightarrow> enum xs ! k = (k, xs ! k)"
  by (simp_all add: enum_def)

text \<open>
  The lines for the field \<open>(n, t, r)\<close> of such an encoding: its members in the struct, the assignments
  of the value printed as \<open>c\<close>, and the line that encodes it.
\<close>

definition member_lines :: "flat \<Rightarrow> string list" where
  "member_lines f = (case f of (n, t, r) \<Rightarrow> (if r = 0 then [] else [''  UA_Int32 '' @ n @ ''Size;'']) @ [member_line f])"

definition assign_lines :: "string \<Rightarrow> flat \<Rightarrow> opcua_value \<Rightarrow> string \<Rightarrow> string list" where
  "assign_lines inst f u c = (case f of (n, t, r) \<Rightarrow>
     if r = 0 then [inst @ ''_struct.'' @ n @ '' = '' @ c @ '';'']
     else [inst @ ''_struct.'' @ n @ ''Size = 1;'',
           inst @ ''_struct.'' @ n @ '' = (UA_'' @ type_name u @ '' *) UA_malloc(sizeof(UA_'' @ type_name u @ ''));'',
           inst @ ''_struct.'' @ n @ ''[0]  = '' @ c @ '';''])"

definition encode_line :: "string \<Rightarrow> flat \<Rightarrow> opcua_value \<Rightarrow> string" where
  "encode_line inst f u = (case f of (n, t, r) \<Rightarrow>
     ''retval |= UA_encodeBinary(&'' @ inst @ ''_struct.'' @ n @ (if r = 0 then '''' else ''[0]'') @
     '', &UA_TYPES[UA_TYPES_'' @ str_upper (type_name u) @ ''], NULL, NULL, &'' @ inst @
     ''->content.encoded.body, &'' @ inst @ ''_encOffset);'')"

text \<open>The code: a struct with a member for each field, then assignments to members of the first fields only.\<close>

definition structure_text :: "string \<Rightarrow> flat list \<Rightarrow> opcua_value list \<Rightarrow> (nat \<Rightarrow> string) \<Rightarrow> node_id \<Rightarrow> string list" where
  "structure_text inst fs us txt i =
     [''''] @ [''struct {''] @ concat (map member_lines fs) @ [''} '' @ inst @ ''_struct;''] @
     concat (map (\<lambda>k. assign_lines inst (fs ! k) (us ! k) (txt k)) [0..<length us]) @
     ext_alloc_code inst i @ [''size_t '' @ inst @ ''_encOffset = 0;''] @
     map (\<lambda>k. encode_line inst (fs ! k) (us ! k)) [0..<length us] @ ext_shrink_code inst"

lemma flat_field_member: "field_member (flat_field f) = Inr (member_lines f)"
proof (cases f)
  case (fields n t r)
  have t: "enc_len (EncList [EncStr t]) = Inr 1" "enc_at (EncList [EncStr t]) 0 = Inr (EncStr t)"
    by (simp_all add: enc_len_def enc_at_def)
  show ?thesis
    unfolding fields field_member_def flat_field_scalar rbind.simps flat_field_at t Let_def
    by (simp add: enc_str_def member_line_def member_lines_def)
qed

lemma flat_members: "mapM field_member (map flat_field fs) = Inr (map member_lines fs)"
  by (induction fs) (simp_all add: flat_field_member)

lemma rule_at: "k < length fs \<Longrightarrow> enc_at (EncList (map flat_field fs)) k = Inr (flat_field (fs ! k))"
  by (simp add: enc_at_def)

lemma assign_flat:
  assumes "k < length fs" and "u_alias u = Some (fst (fs ! k))"
    and "subtype_print (snd (snd (fs ! k)) \<noteq> 0) u = Inr c"
  shows "assign_field inst (EncList (map flat_field fs)) k (PObj u) = Inr (assign_lines inst (fs ! k) u c)"
  using assms(2,3)
  by (cases "fs ! k") (auto simp: assign_field_def rule_at [OF assms(1)] flat_field_scalar field_object_def assign_lines_def Let_def)

lemma encode_flat:
  assumes "k < length fs" and "u_alias u = Some (fst (fs ! k))"
  shows "encode_field inst (EncList (map flat_field fs)) k (PObj u) = Inr (encode_line inst (fs ! k) u)"
  using assms(2)
  by (cases "fs ! k") (auto simp: encode_field_def rule_at [OF assms(1)] flat_field_scalar field_object_def encode_line_def)

text \<open>A loop over the numbered field values.\<close>

lemma field_loop:
  assumes "\<And>k. k < length us \<Longrightarrow> f k (PObj (us ! k)) = Inr (g k)"
  shows "mapM (\<lambda>(k, v). f k v) (enum (map PObj us)) = Inr (map g [0..<length us])"
proof -
  have e: "enum (map PObj us) = map (\<lambda>k. (k, PObj (us ! k))) [0..<length us]"
    by (rule nth_equalityI) simp_all
  have step: "mapM (\<lambda>(k, v). f k v) (map (\<lambda>k. (k, PObj (us ! k))) ks) = Inr (map g ks)"
    if "set ks \<subseteq> {..<length us}" for ks
    using that by (induction ks) (simp_all add: assms)
  show ?thesis unfolding e by (rule step) auto
qed

text \<open>C28: for an extension object whose encoding is a list of builtin fields, and whose values, at most
  as many as fields, carry the names of the first fields in order and are printable, the code is
  exactly this: a one-time struct that declares for every field a member of the field's name and
  type, with a size and as a pointer if it is an array, assignments to the members of the fields that
  have values, and no others, and the lines that encode these members.  The data type of the variable
  has to be known.\<close>

theorem structure_code_declares_members:
  assumes "u_encoding u = EncList (map flat_field fs)" and "u_value u = PList (map PObj us)"
    and "length us \<le> length fs" and "p_dataType p = Some dt"
    and "\<And>k. k < length us \<Longrightarrow> u_alias (us ! k) = Some (fst (fs ! k))"
    and "\<And>k. k < length us \<Longrightarrow> subtype_print (snd (snd (fs ! k)) \<noteq> 0) (us ! k) = Inr (txt k)"
    and "inst = p_printable p @ ''_'' @ alias_text (u_alias u) @ ''_'' @ nat_str 10 i @ ''_'' @ nat_str 10 d"
  shows "extensionObject_build p d i u = Inr (structure_text inst fs us txt (dt_id dt), set_instance inst u)"
proof -
  let ?rule = "EncList (map flat_field fs)" and ?u = "set_instance inst u"
  have u: "setCodeInstanceName p d i u = ?u" "getCodeInstanceName ?u = Inr inst" "u_encoding ?u = ?rule"
    "u_value ?u = PList (map PObj us)"
    using assms(1,2,7) by (cases u; simp add: setCodeInstanceName_def getCodeInstanceName_def)+
  have "mapM (\<lambda>(k, v). assign_field inst ?rule k v) (enum (map PObj us)) =
      Inr (map (\<lambda>k. assign_lines inst (fs ! k) (us ! k) (txt k)) [0..<length us])"
    by (rule field_loop, rule assign_flat) (use assms(3,5,6) in auto)
  moreover have "mapM (\<lambda>(k, v). encode_field inst ?rule k v) (enum (map PObj us)) =
      Inr (map (\<lambda>k. encode_line inst (fs ! k) (us ! k)) [0..<length us])"
    by (rule field_loop, rule encode_flat) (use assms(3,5) in auto)
  moreover have "\<not> list_ex is_plist (map PObj us)" by (simp add: list_ex_iff)
  moreover have "data_type_of p = Inr dt" using assms(4) by (simp add: data_type_of_def)
  ultimately show ?thesis
    unfolding extensionObject_build_def Let_def u
    by (simp add: value_items_def flat_members structure_text_def)
qed

text \<open>A range: the upper bound is an array.\<close>

definition range_us :: "opcua_value list" where
  "range_us = map (\<lambda>v. case v of PObj u \<Rightarrow> u | _ \<Rightarrow> range_object) range_values"

corollary structure_code_declares_members_witness:
  "\<exists>code u'. extensionObject_build range_parent 0 0 range_object = Inr (code, u') \<and>
     ''  UA_Int32 Low;'' \<in> set code \<and> ''  UA_Int32 HighSize;'' \<in> set code \<and> ''  UA_Int32 *High;'' \<in> set code"
proof -
  have enc: "u_encoding range_object = EncList (map flat_field range_flat)"
    by (simp add: range_object_def range_type_def range_flat_def flat_field_def)
  have val: "u_value range_object = PList (map PObj range_us)" by (simp add: range_object_def range_us_def range_values_def)
  obtain dt where dt: "p_dataType range_parent = Some dt" by (simp add: range_parent_def)
  have len: "length range_us = 2" "length range_us \<le> length range_flat"
    by (simp_all add: range_us_def range_values_def range_flat_def)
  have two: "k = 0 \<or> k = 1" if "k < length range_us" for k using that len by auto
  have name: "u_alias (range_us ! k) = Some (fst (range_flat ! k))" if "k < length range_us" for k
    using two [OF that] by (auto simp: range_us_def range_values_def range_flat_def)
  have print: "subtype_print (snd (snd (range_flat ! k)) \<noteq> 0) (range_us ! k) =
      Inr (case subtype_print (snd (snd (range_flat ! k)) \<noteq> 0) (range_us ! k) of Inr c \<Rightarrow> c | Inl _ \<Rightarrow> [])"
    if "k < length range_us" for k
    using two [OF that] by (auto simp: range_us_def range_values_def range_flat_def subtype_print_def builtin_print_def
        int32_print_def cast_print_def scalar_str_def)
  note code = structure_code_declares_members [OF enc val len(2) dt name print refl]
  show ?thesis
    by (intro exI conjI, rule code) (simp_all add: structure_text_def range_flat_def member_lines_def member_line_def)
qed

section \<open>Numbers\<close>

definition int_types :: "builtin list" where
  "int_types = [ByteT, SByteT, Int16T, UInt16T, Int32T, UInt32T, Int64T, UInt64T]"

lemma int_types_parse:
  assumes "b \<in> set int_types" and "is_element x"
  shows "builtin_parseXML env nodes b x u = int_field x u"
  using assms by (auto simp: int_types_def builtin_parseXML_def int_readers on_element_def)

lemma int_types_print:
  assumes "b \<in> set int_types"
  shows "builtin_print ind b u = cast_print (class_of b) u"
  using assms by (auto simp: int_types_def builtin_print_def byte_print_def sbyte_print_def
      int16_print_def uint16_print_def int32_print_def uint32_print_def int64_print_def uint64_print_def)

text \<open>An integer written in the XML file as a value of one of the eight integer types is the
  number in the C code, cast to the type; the number is not checked against the type's range.\<close>

theorem integers_printed_as_read:
  assumes "b \<in> set int_types"
  shows "rbind (builtin_parseXML env nodes b (XElem t as [XData (int_str n)]) u) (builtin_print ind b) =
    Inr (''(UA_'' @ stringRepresentation (class_of b) @ '') '' @ int_str n)"
  by (simp add: int_types_parse [OF assms] int_types_print [OF assms] int_field_def firstChild_def
      cast_print_def scalar_str_def)

corollary integers_printed_as_read_witness:
  "rbind (builtin_parseXML demo_env [] ByteT (XElem ''Byte'' [] [XData (int_str 300)])
       (value_init (Builtin ByteT))) (builtin_print True ByteT) =
     Inr (''(UA_Byte) '' @ int_str 300)"
  using integers_printed_as_read [of ByteT demo_env "[]" "''Byte''" "[]" 300 _ True]
  by (simp add: int_types_def byte_class_def)

definition int_object :: "builtin \<Rightarrow> int \<Rightarrow> pyval" where
  "int_object b n = PObj (set_value (PInt n) (value_init (Builtin b)))"

lemma int_types_printable: "b \<in> set int_types \<Longrightarrow> \<not> unprintable (Builtin b)"
  unfolding int_types_def unprintable_def info_of_def
  by (auto simp: byte_class_def sbyte_class_def int16_class_def uint16_class_def int32_class_def
      uint32_class_def int64_class_def uint64_class_def)

lemma int_object_print:
  assumes "b \<in> set int_types"
  shows "print_element ind (int_object b n) =
    Inr (''(UA_'' @ stringRepresentation (class_of b) @ '') '' @ int_str n)"
  by (simp add: print_element_def int_object_def subtype_print_def value_init_def
      int_types_print [OF assms] cast_print_def scalar_str_def)

text \<open>An array of integers becomes a C array of its length with every element assigned in
  order, one assignment per element and no index outside the array.\<close>

theorem int_array_code:
  assumes "b \<in> set int_types" and "ns \<noteq> []" and "p_valueRank p \<ge> 0"
  shows "value_printOpen62541CCode p boot (PList (map (int_object b) ns)) =
    Inr ([''UA_'' @ stringRepresentation (class_of b) @ '' '' @ valueName p @ ''['' @
            nat_str 10 (length ns) @ ''];''] @
         map (\<lambda>k. valueName p @ ''['' @ nat_str 10 k @ ''] = (UA_'' @ stringRepresentation (class_of b) @
           '') '' @ int_str (ns ! k) @ '';'') [0..<length ns] @
         [''UA_Variant_setArray( &attr.value, &'' @ valueName p @ '', (UA_Int32) '' @
            nat_str 10 (length ns) @ '', &UA_TYPES[UA_TYPES_'' @
            str_upper (stringRepresentation (class_of b)) @ '']);''],
         PList (map (int_object b) ns))"
proof -
  obtain n ms where ns: "ns = n # ms" using assms(2) by (cases ns) auto
  define u0 where "u0 = set_value (PInt n) (value_init (Builtin b))"
  have u0: "u_class u0 = Builtin b" "type_name u0 = stringRepresentation (class_of b)"
    by (simp_all add: u0_def value_init_def type_name_def info_of_def)
  have "mapM (\<lambda>(k, v). rbind (print_element True v) (\<lambda>c. Inr (index_text p k @ '' = '' @ c @ '';'')))
      (enum (map (int_object b) ns)) =
    Inr (map (\<lambda>k. index_text p k @ '' = '' @ (''(UA_'' @ stringRepresentation (class_of b) @ '') '' @
        int_str (ns ! k)) @ '';'') [0..<length ns])"
    (is "mapM ?f _ = Inr (map ?g _)")
  proof -
    have "enum (map (int_object b) ns) = map (\<lambda>k. (k, int_object b (ns ! k))) [0..<length ns]"
      by (rule nth_equalityI) simp_all
    moreover have "mapM ?f (map (\<lambda>k. (k, int_object b (ns ! k))) ks) = Inr (map ?g ks)" for ks
      by (induction ks) (simp_all add: int_object_print [OF assms(1)])
    ultimately show ?thesis by simp
  qed
  then have "array_code p u0 (map (int_object b) ns) = Inr
      ([''UA_'' @ stringRepresentation (class_of b) @ '' '' @ valueName p @ ''['' @
            nat_str 10 (length ns) @ ''];''] @
         map (\<lambda>k. valueName p @ ''['' @ nat_str 10 k @ ''] = (UA_'' @ stringRepresentation (class_of b) @
           '') '' @ int_str (ns ! k) @ '';'') [0..<length ns] @
         [''UA_Variant_setArray( &attr.value, &'' @ valueName p @ '', (UA_Int32) '' @
            nat_str 10 (length ns) @ '', &UA_TYPES[UA_TYPES_'' @
            str_upper (stringRepresentation (class_of b)) @ '']);''], map (int_object b) ns)"
    by (simp add: array_code_def u0 index_text_def ua_types_def Let_def)
  moreover have "as_array (p_valueRank p) (length (map (int_object b) ns))"
    using assms(3) by (simp add: as_array_def)
  moreover have "map (int_object b) ns = PObj u0 # map (int_object b) ms"
    by (simp add: ns int_object_def u0_def)
  ultimately show ?thesis
    using int_types_printable [OF assms(1)]
    by (simp add: value_printOpen62541CCode_def value_items_def u0)
qed

corollary int_array_code_witness:
  "fst (the (case value_printOpen62541CCode (range_parent\<lparr>p_valueRank := 1\<rparr>) True
       (PList (map (int_object Int32T) [4, -2])) of Inl _ \<Rightarrow> None | Inr r \<Rightarrow> Some r)) =
     [''UA_Int32 i_2365_variant_DataContents[2];'',
      ''i_2365_variant_DataContents[0] = (UA_Int32) 4;'',
      ''i_2365_variant_DataContents[1] = (UA_Int32) -2;'',
      ''UA_Variant_setArray( &attr.value, &i_2365_variant_DataContents, (UA_Int32) 2, &UA_TYPES[UA_TYPES_INT32]);'']"
proof -
  have "nat_str 10 (length [4, -2 :: int]) = ''2''" "nat_str 10 0 = ''0''" "nat_str 10 (Suc 0) = ''1''"
      "int_str 4 = ''4''" "int_str (-2) = ''-2''" "str_upper ''Int32'' = ''INT32''"
    by code_simp+
  then show ?thesis
    using int_array_code [of Int32T "[4, -2]" "range_parent\<lparr>p_valueRank := 1\<rparr>" True]
    by (simp add: int_types_def range_parent_def valueName_def int32_class_def upt_rec)
qed

end
