(* ===== verification/Xml_Preprocessor.thy ===== *)
theory Xml_Preprocessor
  imports Xml_Dom Node_Id
begin

text \<open>
  open62541_XMLPreprocessor.py: before namespace files are joined, every document gets a namespace
  index of its own, and its references to other documents are rewritten to theirs.  A document is
  kept as what the preprocessor reads of its DOM and assigns to: the ids and \<open>NodeId\<close> texts of its
  nodes, the ids and texts of its references, and the texts of its aliases.  The order in which
  Python 2 walks through the keys of a dictionary is a parameter (\<open>key_order\<close>); reading and
  printing XML files is the library's.
\<close>

section \<open>Documents\<close>

record preProcessDocument =
  originXML :: string
  targetXML :: string
  nodeset :: "xnode option"
  parseOK :: bool
  containedNodes :: "(node_id \<times> string) list"
  referencedNodes :: "(node_id \<times> string) list"
  aliasTexts :: "string option list"
  namespaceOrder :: "(int \<times> string) list"
  namespaceQualifiers :: "string list"
  referencedNamesSpaceUris :: "string list"

type_synonym key_order = "int list \<Rightarrow> int list"

text \<open>The documented behaviour of the iteration over a dictionary: every key once.\<close>

definition walks_keys :: "key_order \<Rightarrow> bool" where
  "walks_keys ord \<longleftrightarrow> (\<forall>ks. distinct ks \<longrightarrow> distinct (ord ks) \<and> set (ord ks) = set ks)"

text \<open>\<open>nodeset.getElementsByTagName\<close>, on the document with its root element.\<close>

definition doc_elements :: "string \<Rightarrow> xnode option \<Rightarrow> xnode list" where
  "doc_elements n d = (case d of None \<Rightarrow> [] | Some root \<Rightarrow> elements_below n root)"

text \<open>
  The constructor: a file that cannot be parsed, and one with no or several node sets, where the
  message raises an exception that is caught.  \<open>tgt\<close> is the name of the temporary file.
\<close>

definition preProcessDocument_init :: "string \<Rightarrow> string \<Rightarrow> xnode option \<Rightarrow> preProcessDocument" where
  "preProcessDocument_init origin tgt xml =
     \<lparr>originXML = origin, targetXML = tgt, nodeset = xml,
      parseOK = (xml \<noteq> None \<and> length (doc_elements ''UANodeSet'' xml) = 1),
      containedNodes = [], referencedNodes = [],
      aliasTexts = map (\<lambda>a. case firstChild a of Some (XData s) \<Rightarrow> Some s | _ \<Rightarrow> None)
        (filter (\<lambda>a. get_attribute ''Alias'' a \<noteq> None) (doc_elements ''Alias'' xml)),
      namespaceOrder = [], namespaceQualifiers = [], referencedNamesSpaceUris = []\<rparr>"

definition getTargetXMLName :: "preProcessDocument \<Rightarrow> string option" where
  "getTargetXMLName d = (if parseOK d then Some (targetXML d) else None)"

section \<open>Reading a document\<close>

text \<open>The lines from \<open>NamespaceUris\<close> on, to the line that closes it; the first line is skipped.\<close>

fun uri_lines :: "bool \<Rightarrow> string \<Rightarrow> string list \<Rightarrow> string" where
  "uri_lines found ns [] = ns"
| "uri_lines found ns (l # ls) =
     (if contains ''<namespaceuris>'' (str_lower l) then uri_lines True (ns @ l) ls
      else if contains ''</namespaceuris>'' (str_lower l) then ns @ l
      else uri_lines found (if found then ns @ l else ns) ls)"

definition extractNamespaceURIs ::
    "(string \<Rightarrow> xnode res) \<Rightarrow> string list \<Rightarrow> preProcessDocument \<Rightarrow> preProcessDocument res" where
  "extractNamespaceURIs parseString lns d =
     (let nsline = uri_lines False [] (tl lns) in
      if nsline = [] then Inr d
      else
        rbind (parseString nsline) (\<lambda>root.
        case elements_below ''NamespaceUris'' root of
          [] \<Rightarrow> Inl IndexError
        | ns # _ \<Rightarrow>
            rbind (mapM first_data (filter is_element (child_nodes ns))) (\<lambda>uris.
              Inr (d\<lparr>referencedNamesSpaceUris := referencedNamesSpaceUris d @ uris\<rparr>))))"

text \<open>
  \<open>re.sub("[A-Za-z0-9-_\.]+\.[xXsSdD]{3}$", "", s)\<close>: a file name of letters, digits, dashes,
  underscores and dots with such an extension is taken off the end (\<open>$\<close> also matches before a
  final newline).
\<close>

definition file_char :: "char \<Rightarrow> bool" where
  "file_char c \<longleftrightarrow> c \<in> set ''ABCDEFGHIJKLMNOPQRSTUVWXYZabcdefghijklmnopqrstuvwxyz0123456789-_.''"

definition drop_file_name :: "string \<Rightarrow> string" where
  "drop_file_name s0 =
     (let nl = (s0 \<noteq> [] \<and> last s0 = char_of (10::nat));
          s = (if nl then butlast s0 else s0);
          name = takeWhile file_char (rev s)
      in if length name \<ge> 5 \<and> list_all (\<lambda>c. c \<in> set ''xXsSdD'') (take 3 name) \<and> name ! 3 = CHR ''.''
         then take (length s - length name) s @ (if nl then [char_of (10::nat)] else [])
         else s0)"

definition analyze_key :: "string \<times> string \<Rightarrow> preProcessDocument \<Rightarrow> preProcessDocument res" where
  "analyze_key a d =
     (let key = fst a;
          d1 = (if contains ''xmlns:'' key
                then d\<lparr>namespaceQualifiers := namespaceQualifiers d @ [replace_all ''xmlns:'' [] key]\<rparr>
                else d)
      in if contains ''xmlns:s'' key
         then rbind (py2_int (replace_all ''xmlns:s'' [] key)) (\<lambda>n.
                Inr (d1\<lparr>namespaceOrder := namespaceOrder d1 @ [(n, drop_file_name (snd a))]\<rparr>))
         else Inr d1)"

definition analyze_ref :: "xnode \<Rightarrow> (node_id \<times> string) res" where
  "analyze_ref ref = rbind (first_data ref) (\<lambda>s. rbind (parse_node_id s) (\<lambda>n. Inr (n, s)))"

definition analyze_node :: "xnode \<Rightarrow> preProcessDocument \<Rightarrow> preProcessDocument res" where
  "analyze_node nd d =
     (case get_attribute ''NodeId'' nd of
        None \<Rightarrow> Inr d
      | Some s \<Rightarrow>
          rbind (parse_node_id s) (\<lambda>n.
          case getElementsByTagName ''References'' nd of
            [] \<Rightarrow> Inl IndexError
          | refs # _ \<Rightarrow>
              rbind (mapM analyze_ref (filter is_element (child_nodes refs))) (\<lambda>rs.
                Inr (d\<lparr>containedNodes := containedNodes d @ [(n, s)],
                       referencedNodes := referencedNodes d @ rs\<rparr>))))"

definition analyze ::
    "(string \<Rightarrow> xnode res) \<Rightarrow> string list \<Rightarrow> preProcessDocument \<Rightarrow> preProcessDocument res" where
  "analyze parseString lns d =
     (if nodeset d = None then Inl AttributeError
      else
        rbind (extractNamespaceURIs parseString lns d) (\<lambda>d1.
        case doc_elements ''UANodeSet'' (nodeset d) of
          [] \<Rightarrow> Inl IndexError
        | ns # _ \<Rightarrow>
            rbind (foldM analyze_key (case ns of XElem t as cs \<Rightarrow> as | XData s \<Rightarrow> []) d1) (\<lambda>d2.
              foldM analyze_node (filter is_element (child_nodes ns)) d2)))"

section \<open>The namespace of a document\<close>

text \<open>The dictionary of the counts, its keys in the order of insertion.\<close>

definition ns_keys :: "preProcessDocument \<Rightarrow> int list" where
  "ns_keys d = rev (remdups (rev (map (id_ns \<circ> fst) (containedNodes d))))"

definition ns_count :: "preProcessDocument \<Rightarrow> int \<Rightarrow> nat" where
  "ns_count d k = length (filter (\<lambda>n. id_ns (fst n) = k) (containedNodes d))"

definition most_used :: "(int \<Rightarrow> nat) \<Rightarrow> int list \<Rightarrow> nat \<times> int \<Rightarrow> nat \<times> int" where
  "most_used count = fold (\<lambda>k (m, g). if count k > m then (count k, k) else (m, g))"

definition getNamespaceId :: "key_order \<Rightarrow> preProcessDocument \<Rightarrow> int" where
  "getNamespaceId ord d = snd (most_used (ns_count d) (ord (ns_keys d)) (0, 0))"

text \<open>Indexing of a list with an integer, from the end where it is negative.\<close>

definition py_index :: "'a list \<Rightarrow> int \<Rightarrow> 'a res" where
  "py_index xs k =
     (let j = (if k < 0 then k + int (length xs) else k) in
      if 0 \<le> j \<and> j < int (length xs) then Inr (xs ! nat j) else Inl IndexError)"

definition getReferencedNamespaceUri :: "int \<Rightarrow> preProcessDocument \<Rightarrow> string res" where
  "getReferencedNamespaceUri nsId d =
     (case List.find (\<lambda>el. fst el = nsId) (namespaceOrder d) of
        Some el \<Rightarrow> Inr (snd el)
      | None \<Rightarrow>
          if referencedNamesSpaceUris d \<noteq> [] \<and> int (length (referencedNamesSpaceUris d)) \<ge> nsId - 1
          then py_index (referencedNamesSpaceUris d) (nsId - 1)
          else Inr [])"

definition getNamespaceDependencies :: "preProcessDocument \<Rightarrow> int list" where
  "getNamespaceDependencies d =
     fold (\<lambda>r deps. if id_ns (fst r) \<in> set deps then deps else deps @ [id_ns (fst r)])
       (referencedNodes d) []"

text \<open>What \<open>finalize\<close> writes, given the printed XML of the document.\<close>

definition finalize_text :: "preProcessDocument \<Rightarrow> string \<Rightarrow> string" where
  "finalize_text d outline = fold (\<lambda>q s. replace_all (q @ '':'') [] s) (namespaceQualifiers d) outline"

section \<open>Moving to another namespace\<close>

definition ns_eq :: "int \<Rightarrow> string" where
  "ns_eq k = ''ns='' @ int_str k"

definition renumber :: "int \<Rightarrow> int \<Rightarrow> node_id \<times> string \<Rightarrow> node_id \<times> string" where
  "renumber cur new r = (toString ((fst r)\<lparr>id_ns := new\<rparr>), replace_all (ns_eq cur) (ns_eq new) (snd r))"

definition reassignReferencedNamespaceId :: "int \<Rightarrow> int \<Rightarrow> preProcessDocument \<Rightarrow> preProcessDocument" where
  "reassignReferencedNamespaceId cur new d =
     d\<lparr>referencedNodes :=
        map (\<lambda>r. if id_ns (fst r) = cur then renumber cur new r else r) (referencedNodes d)\<rparr>"

text \<open>One node of the loop: first the document's references to it, then the node.\<close>

definition reassign_node ::
    "int \<Rightarrow> int \<Rightarrow> node_id \<times> string \<Rightarrow> (node_id \<times> string) list \<times> (node_id \<times> string) list \<Rightarrow>
     (node_id \<times> string) list \<times> (node_id \<times> string) list" where
  "reassign_node cur new nd s =
     (if id_ns (fst nd) = cur
      then (fst s @ [renumber cur new nd],
            map (\<lambda>r. if id_ns (fst r) = cur \<and> node_id_eq (fst r) (Some (fst nd)) then renumber cur new r
                     else r) (snd s))
      else (fst s @ [nd], snd s))"

definition reassignNamespaceId :: "int \<Rightarrow> int \<Rightarrow> preProcessDocument \<Rightarrow> preProcessDocument res" where
  "reassignNamespaceId cur new d =
     rbind (mapM (\<lambda>a. case a of
                        None \<Rightarrow> Inl AttributeError
                      | Some s \<Rightarrow> Inr (Some (replace_all (ns_eq cur) (ns_eq new) s))) (aliasTexts d)) (\<lambda>as.
       let (nodes, refs) = fold (reassign_node cur new) (containedNodes d) ([], referencedNodes d) in
       Inr (d\<lparr>aliasTexts := as, containedNodes := nodes, referencedNodes := refs\<rparr>))"

section \<open>All documents\<close>

definition addDocument ::
    "string \<Rightarrow> string \<Rightarrow> xnode option \<Rightarrow> preProcessDocument list \<Rightarrow> preProcessDocument list" where
  "addDocument path tgt xml docs = docs @ [preProcessDocument_init path tgt xml]"

definition getPreProcessedFiles :: "preProcessDocument list \<Rightarrow> string option list" where
  "getPreProcessedFiles docs = map getTargetXMLName (filter parseOK docs)"

text \<open>
  How many of the references are nodes of the document.  The code divides by the number of
  references; the quotients it compares have the same denominator.
\<close>

definition congruency :: "preProcessDocument \<Rightarrow> node_id list \<Rightarrow> nat" where
  "congruency d refs =
     length (filter (\<lambda>r. list_ex (\<lambda>n. id_str r = id_str (fst n)) (containedNodes d)) refs)"

fun assign_ids :: "key_order \<Rightarrow> int \<Rightarrow> preProcessDocument list \<Rightarrow> preProcessDocument list res" where
  "assign_ids ord nsidx [] = Inr []"
| "assign_ids ord nsidx (d # ds) =
     rbind (reassignNamespaceId (getNamespaceId ord d) (nsidx + 1) d) (\<lambda>d'.
     rbind (assign_ids ord (nsidx + 1) ds) (\<lambda>ds'. Inr (d' # ds')))"

definition preprocess_assignUniqueNsIds ::
    "key_order \<Rightarrow> preProcessDocument list \<Rightarrow> preProcessDocument list res" where
  "preprocess_assignUniqueNsIds ord docs =
     rbind (assign_ids ord 1 (filter (\<lambda>d. getNamespaceId ord d \<noteq> 0) docs)) (\<lambda>ds.
       Inr (filter (\<lambda>d. getNamespaceId ord d = 0) docs @ ds))"

definition getUsedNamespaceArrayNames ::
    "key_order \<Rightarrow> preProcessDocument list \<Rightarrow> (int \<rightharpoonup> string) res" where
  "getUsedNamespaceArrayNames ord docs =
     foldM (\<lambda>d m. rbind (getReferencedNamespaceUri 1 d) (\<lambda>uri. Inr (m(getNamespaceId ord d \<mapsto> uri)))) docs
       Map.empty"

text \<open>
  Linking by name: for every namespace a document refers to, the first document that calls itself
  by the same URI; a namespace without one is left for the second stage.
\<close>

fun find_by_uri :: "string \<Rightarrow> preProcessDocument list \<Rightarrow> preProcessDocument option res" where
  "find_by_uri uri [] = Inr None"
| "find_by_uri uri (t # ts) =
     rbind (getReferencedNamespaceUri 1 t) (\<lambda>u. if u = uri then Inr (Some t) else find_by_uri uri ts)"

definition link_dependency ::
    "key_order \<Rightarrow> preProcessDocument list \<Rightarrow> int \<Rightarrow> int \<Rightarrow> preProcessDocument \<times> int list \<Rightarrow>
     (preProcessDocument \<times> int list) res" where
  "link_dependency ord docs nsid k s =
     (if k \<noteq> nsid \<and> k \<noteq> 0 then
        rbind (getReferencedNamespaceUri k (fst s)) (\<lambda>uri.
        rbind (find_by_uri uri docs) (\<lambda>tgt.
          Inr (case tgt of
                 Some t \<Rightarrow> (reassignReferencedNamespaceId k (getNamespaceId ord t) (fst s), snd s)
               | None \<Rightarrow> (fst s, snd s @ [k]))))
      else Inr s)"

text \<open>
  The targets are looked up by the fields of the documents that linking does not assign, so the
  documents as they were before the loop serve for all of it.
\<close>

definition link_document ::
    "key_order \<Rightarrow> preProcessDocument list \<Rightarrow> preProcessDocument \<Rightarrow> (preProcessDocument \<times> int list) res" where
  "link_document ord docs d =
     foldM (link_dependency ord docs (getNamespaceId ord d)) (getNamespaceDependencies d) (d, [])"

text \<open>
  The second stage compares the references with the nodes of every document; when one fits, the
  message that reports it multiplies the document with 100 and raises an exception.
\<close>

definition stochastic_refs :: "int \<Rightarrow> preProcessDocument \<Rightarrow> node_id list res" where
  "stochastic_refs k d =
     mapM (\<lambda>r. parse_node_id (id_str (fst r))) (filter (\<lambda>r. id_ns (fst r) = k) (referencedNodes d))"

definition stochastic_link ::
    "key_order \<Rightarrow> preProcessDocument list \<Rightarrow> preProcessDocument \<Rightarrow> int \<Rightarrow> unit res" where
  "stochastic_link ord docs d k =
     rbind (stochastic_refs k d) (\<lambda>refs.
       if list_ex (\<lambda>t. congruency t (map (\<lambda>r. toString (r\<lparr>id_ns := getNamespaceId ord t\<rparr>)) refs) > 0) docs
       then Inl TypeError else Inr ())"

definition preprocess_linkDependantModels ::
    "key_order \<Rightarrow> preProcessDocument list \<Rightarrow> preProcessDocument list res" where
  "preprocess_linkDependantModels ord docs =
     rbind (mapM (link_document ord docs) docs) (\<lambda>linked.
     rbind (mapM (\<lambda>(d, ks). mapM (stochastic_link ord (map fst linked) d) ks) linked) (\<lambda>_.
       Inr (map fst linked)))"

definition preprocessAll ::
    "key_order \<Rightarrow> (string \<Rightarrow> xnode res) \<Rightarrow> (string \<Rightarrow> string list) \<Rightarrow> preProcessDocument list \<Rightarrow>
     preProcessDocument list res" where
  "preprocessAll ord parseString readLines docs =
     rbind (mapM (\<lambda>d. analyze parseString (readLines (originXML d)) d) docs) (\<lambda>ds.
     rbind (preprocess_assignUniqueNsIds ord ds) (preprocess_linkDependantModels ord))"

end
