(* ===== verification/Xml_Preprocessor_Facts.thy ===== *)
theory Xml_Preprocessor_Facts
  imports Xml_Preprocessor
begin

text \<open>
  The namespace indices the preprocessor assigns are distinct and ascending; a renumbered node id
  and its text stay the same id; and where rewriting references by index is not what it means to do.
\<close>

section \<open>The most used namespace\<close>

lemma most_used_stay:
  assumes "\<And>j. j \<in> set ks \<Longrightarrow> count j \<le> m"
  shows "most_used count ks (m, g) = (m, g)"
  using assms
proof (induction ks)
  case (Cons j ks)
  then have "\<not> count j > m" by (simp add: not_less)
  with Cons show ?case by (simp add: most_used_def)
qed (simp add: most_used_def)

lemma most_used_unique:
  assumes "k \<in> set ks" and "\<And>j. j \<in> set ks \<Longrightarrow> j \<noteq> k \<Longrightarrow> count j < count k" and "m < count k"
  shows "most_used count ks (m, g) = (count k, k)"
  using assms
proof (induction ks arbitrary: m g)
  case (Cons j ks)
  have step: "most_used count (j # ks) (m, g) =
      most_used count ks (if count j > m then (count j, j) else (m, g))"
    by (simp add: most_used_def)
  show ?case
  proof (cases "j = k")
    case True
    have "most_used count ks (count k, k) = (count k, k)"
      using Cons.prems(2) by (intro most_used_stay) (metis le_refl less_imp_le list.set_intros(2))
    with True Cons.prems(3) step show ?thesis by simp
  next
    case False
    then have k: "k \<in> set ks" and j: "count j < count k" using Cons.prems by auto
    have small: "i \<in> set ks \<Longrightarrow> i \<noteq> k \<Longrightarrow> count i < count k" for i using Cons.prems(2) by simp
    have "most_used count ks (if count j > m then (count j, j) else (m, g)) = (count k, k)"
      using Cons.IH [OF k small] j Cons.prems(3) by simp
    with step show ?thesis by simp
  qed
qed simp

text \<open>The namespace that has more nodes of the document than any other.\<close>

definition main_namespace :: "preProcessDocument \<Rightarrow> int \<Rightarrow> bool" where
  "main_namespace d k \<longleftrightarrow> 0 < ns_count d k \<and> (\<forall>j. j \<noteq> k \<longrightarrow> ns_count d j < ns_count d k)"

lemma ns_keys_set: "set (ns_keys d) = {k. 0 < ns_count d k}"
proof -
  have "k \<in> set (map (id_ns \<circ> fst) ns) \<longleftrightarrow> filter (\<lambda>n. id_ns (fst n) = k) ns \<noteq> []"
    for k and ns :: "(node_id \<times> string) list"
    by (auto simp: filter_empty_conv)
  then show ?thesis by (auto simp: ns_keys_def ns_count_def)
qed

lemma getNamespaceId_main:
  assumes "walks_keys ord" and "main_namespace d k"
  shows "getNamespaceId ord d = k"
proof -
  have "distinct (ns_keys d)" by (simp add: ns_keys_def)
  then have keys: "set (ord (ns_keys d)) = {k. 0 < ns_count d k}"
    using assms(1) ns_keys_set by (simp add: walks_keys_def)
  have "most_used (ns_count d) (ord (ns_keys d)) (0, 0) = (ns_count d k, k)"
    using assms(2) keys by (intro most_used_unique) (auto simp: main_namespace_def)
  then show ?thesis by (simp add: getNamespaceId_def)
qed

section \<open>Reassigning\<close>

lemma reassign_nodes:
  "fst (fold (reassign_node cur new) nodes (acc, refs)) =
     acc @ map (\<lambda>n. if id_ns (fst n) = cur then renumber cur new n else n) nodes"
proof (induction nodes arbitrary: acc refs)
  case (Cons n nodes)
  then show ?case by (cases "id_ns (fst n) = cur") (simp_all add: reassign_node_def)
qed simp

lemma renumber_ns [simp]: "id_ns (fst (renumber cur new n)) = new"
  by (simp add: renumber_def toString_def)

lemma reassigned_nodes:
  assumes "reassignNamespaceId cur new d = Inr d'"
  shows "containedNodes d' =
    map (\<lambda>n. if id_ns (fst n) = cur then renumber cur new n else n) (containedNodes d)"
proof -
  obtain as nodes refs
    where "fold (reassign_node cur new) (containedNodes d) ([], referencedNodes d) = (nodes, refs)"
      and "d' = d\<lparr>aliasTexts := as, containedNodes := nodes, referencedNodes := refs\<rparr>"
    using assms by (cases "fold (reassign_node cur new) (containedNodes d) ([], referencedNodes d)")
      (auto simp: reassignNamespaceId_def rbind_Inr_iff)
  then show ?thesis
    using reassign_nodes [of cur new "containedNodes d" "[]" "referencedNodes d"] by simp
qed

lemma reassigned_count:
  assumes "reassignNamespaceId cur new d = Inr d'"
  shows "ns_count d' new = (if cur = new then ns_count d cur else ns_count d cur + ns_count d new)"
    and "j \<noteq> new \<Longrightarrow> ns_count d' j \<le> ns_count d j"
proof -
  let ?f = "\<lambda>n. if id_ns (fst n) = cur then renumber cur new n else n"
  have new: "length (filter (\<lambda>n. id_ns (fst n) = new) (map ?f ns)) =
      (if cur = new then length (filter (\<lambda>n. id_ns (fst n) = cur) ns)
       else length (filter (\<lambda>n. id_ns (fst n) = cur) ns) + length (filter (\<lambda>n. id_ns (fst n) = new) ns))" for ns
    by (induction ns) auto
  have other: "length (filter (\<lambda>n. id_ns (fst n) = j) (map ?f ns)) \<le>
      length (filter (\<lambda>n. id_ns (fst n) = j) ns)" if "j \<noteq> new" for j ns
    using that by (induction ns) auto
  show "ns_count d' new = (if cur = new then ns_count d cur else ns_count d cur + ns_count d new)"
    unfolding ns_count_def reassigned_nodes [OF assms] by (rule new)
  show "ns_count d' j \<le> ns_count d j" if "j \<noteq> new"
    unfolding ns_count_def reassigned_nodes [OF assms] using that by (rule other)
qed

lemma reassigned_main:
  assumes "reassignNamespaceId cur new d = Inr d'" and "main_namespace d cur"
  shows "main_namespace d' new"
  unfolding main_namespace_def
proof (intro conjI allI impI)
  note c = reassigned_count [OF assms(1)]
  show "0 < ns_count d' new" using c(1) assms(2) by (auto simp: main_namespace_def)
  fix j
  assume j: "j \<noteq> new"
  show "ns_count d' j < ns_count d' new"
  proof (cases "j = cur")
    case True
    then have "ns_count d' j = 0"
      using j unfolding ns_count_def reassigned_nodes [OF assms(1)]
      by (auto simp: filter_empty_conv)
    then show ?thesis using c(1) assms(2) by (auto simp: main_namespace_def)
  next
    case False
    then have "ns_count d j < ns_count d cur" using assms(2) by (simp add: main_namespace_def)
    then show ?thesis using c(1) c(2) [OF j] by (auto split: if_splits)
  qed
qed

lemma assign_ids_ns:
  assumes "walks_keys ord"
  shows "assign_ids ord n ds = Inr ds' \<Longrightarrow> (\<And>d. d \<in> set ds \<Longrightarrow> \<exists>k. main_namespace d k) \<Longrightarrow>
    map (getNamespaceId ord) ds' = map (\<lambda>i. n + 1 + int i) [0..<length ds]"
proof (induction ds arbitrary: n ds')
  case (Cons d ds)
  obtain k where k: "main_namespace d k" using Cons.prems(2) [of d] by auto
  obtain d1 ds1 where d1: "reassignNamespaceId (getNamespaceId ord d) (n + 1) d = Inr d1"
      and ds1: "assign_ids ord (n + 1) ds = Inr ds1" and ds': "ds' = d1 # ds1"
    using Cons.prems(1) by (auto simp: rbind_Inr_iff)
  have "main_namespace d1 (n + 1)"
    using reassigned_main [OF d1] k getNamespaceId_main [OF assms k] by simp
  then have "getNamespaceId ord d1 = n + 1" by (rule getNamespaceId_main [OF assms])
  moreover have "map (getNamespaceId ord) ds1 = map (\<lambda>i. n + 1 + 1 + int i) [0..<length ds]"
    using Cons.prems(2) by (intro Cons.IH [OF ds1]) simp
  moreover have "map (\<lambda>i. n + 1 + int i) [0..<Suc (length ds)] =
      (n + 1) # map (\<lambda>i. n + 1 + 1 + int i) [0..<length ds]"
    by (simp add: upt_conv_Cons map_Suc_upt [symmetric] del: upt_Suc)
  ultimately show ?case by (simp add: ds' del: upt_Suc)
qed simp

section \<open>Three documents\<close>

definition demo_node :: "int \<Rightarrow> int \<Rightarrow> node_id \<times> string" where
  "demo_node ns i =
     (toString (empty_id\<lparr>id_ns := ns, id_i := Some i\<rparr>), ns_eq ns @ '';i='' @ int_str i)"

definition demo_doc :: "int \<Rightarrow> int list \<Rightarrow> (int \<times> string) list \<Rightarrow> preProcessDocument" where
  "demo_doc ns refs order = (preProcessDocument_init [] [] None)\<lparr>
     containedNodes := [demo_node ns 1, demo_node ns 2],
     referencedNodes := map (\<lambda>r. demo_node r 7) refs, namespaceOrder := order\<rparr>"

definition demo_docs :: "preProcessDocument list" where
  "demo_docs = [demo_doc 2 [] [(1, ''A'')], demo_doc 3 [] [(1, ''B'')]]"

lemma walks_keys_id: "walks_keys id"
  by (simp add: walks_keys_def)

lemma demo_doc_main: "main_namespace (demo_doc ns refs order) ns"
  by (simp add: main_namespace_def ns_count_def demo_doc_def demo_node_def toString_def)

lemma demo_doc_id [simp]: "getNamespaceId id (demo_doc ns refs order) = ns"
  by (rule getNamespaceId_main [OF walks_keys_id demo_doc_main])

text \<open>C27: after \<open>preprocess_assignUniqueNsIds\<close> the documents of namespace zero come first and every
  other document has a namespace of its own, numbered 2, 3, 4 and so on in the order they were
  added, however the dictionaries are walked, provided that each document that is not of namespace
  zero has a namespace with strictly more of its nodes than any other.\<close>

theorem unique_namespace_ids:
  assumes "walks_keys ord" and "preprocess_assignUniqueNsIds ord docs = Inr docs'"
    and "\<And>d. d \<in> set docs \<Longrightarrow> getNamespaceId ord d \<noteq> 0 \<Longrightarrow> \<exists>k. main_namespace d k"
  shows "map (getNamespaceId ord) docs' =
    replicate (length (filter (\<lambda>d. getNamespaceId ord d = 0) docs)) 0 @
    map (\<lambda>i. 2 + int i) [0..<length (filter (\<lambda>d. getNamespaceId ord d \<noteq> 0) docs)]"
proof -
  obtain ds where ds: "assign_ids ord 1 (filter (\<lambda>d. getNamespaceId ord d \<noteq> 0) docs) = Inr ds"
    and docs': "docs' = filter (\<lambda>d. getNamespaceId ord d = 0) docs @ ds"
    using assms(2) by (auto simp: preprocess_assignUniqueNsIds_def rbind_Inr_iff)
  have "map (getNamespaceId ord) (filter (\<lambda>d. getNamespaceId ord d = 0) docs) =
      replicate (length (filter (\<lambda>d. getNamespaceId ord d = 0) docs)) 0"
    by (intro replicate_eqI) auto
  moreover have "map (getNamespaceId ord) ds =
      map (\<lambda>i. 1 + 1 + int i) [0..<length (filter (\<lambda>d. getNamespaceId ord d \<noteq> 0) docs)]"
    by (rule assign_ids_ns [OF assms(1) ds]) (use assms(3) in auto)
  ultimately show ?thesis by (simp add: docs')
qed

corollary unique_namespace_ids_witness:
  "\<exists>docs'. preprocess_assignUniqueNsIds id [demo_doc 1 [] [], demo_doc 0 [] [], demo_doc 1 [] []] = Inr docs' \<and>
     map (getNamespaceId id) docs' = [0, 2, 3]"
proof -
  have no_alias: "aliasTexts (demo_doc ns refs order) = []" for ns refs order
    by (simp add: demo_doc_def preProcessDocument_init_def doc_elements_def)
  obtain docs' where docs':
      "preprocess_assignUniqueNsIds id [demo_doc 1 [] [], demo_doc 0 [] [], demo_doc 1 [] []] = Inr docs'"
    by (simp add: preprocess_assignUniqueNsIds_def reassignNamespaceId_def no_alias Let_def split_beta)
  have main: "\<exists>k. main_namespace d k"
    if "d \<in> set [demo_doc 1 [] [], demo_doc 0 [] [], demo_doc 1 [] []]" for d
  proof -
    from that obtain ns where "d = demo_doc ns [] []" by auto
    then show ?thesis using demo_doc_main by blast
  qed
  let ?docs = "[demo_doc 1 [] [], demo_doc 0 [] [], demo_doc 1 [] []]"
  have zero: "filter (\<lambda>d. getNamespaceId id d = 0) ?docs = [demo_doc 0 [] []]"
    and other: "filter (\<lambda>d. getNamespaceId id d \<noteq> 0) ?docs = [demo_doc 1 [] [], demo_doc 1 [] []]"
    by simp_all
  have "map (getNamespaceId id) docs' =
      replicate (length (filter (\<lambda>d. getNamespaceId id d = 0) ?docs)) 0 @
      map (\<lambda>i. 2 + int i) [0..<length (filter (\<lambda>d. getNamespaceId id d \<noteq> 0) ?docs)]"
    by (rule unique_namespace_ids [OF walks_keys_id docs']) (erule main)
  also have "\<dots> = [0, 2, 3]" unfolding zero other by (simp add: upt_conv_Cons)
  finally have ids: "map (getNamespaceId id) docs' = [0, 2, 3]" .
  show ?thesis by (rule exI [of _ docs'], rule conjI [OF docs' ids])
qed

section \<open>Texts and ids\<close>

text \<open>A numeric node id written in the usual form, moved from one namespace to another, keeps
  its \<open>NodeId\<close> text and its parsed id in step: the new text reads as the new id and prints alike.\<close>

theorem renumbered_text_in_step:
  assumes "r = (toString (empty_id\<lparr>id_ns := cur, id_i := Some i\<rparr>), ns_eq cur @ '';i='' @ int_str i)"
    and "new \<noteq> 0"
  shows "parse_node_id (snd (renumber cur new r)) = Inr (fst (renumber cur new r)) \<and>
    id_str (fst (renumber cur new r)) = snd (renumber cur new r)"
proof -
  have "digit_char k \<noteq> CHR ''n''" if "k < 16" for k
  proof
    assume "digit_char k = CHR ''n''"
    then have "digit_val (CHR ''n'') = Some k" using digit_val_digit_char [OF that] by simp
    with that show False by (simp add: digit_val_def)
  qed
  then have no_n: "CHR ''n'' \<notin> set ('';i='' @ int_str i)"
    using int_str_no_char [of "CHR ''n''" i] by auto
  have "\<not> sublist (ns_eq cur) ('';i='' @ int_str i)"
    by (rule not_sublist_char [OF _ no_n]) (simp add: ns_eq_def)
  then have snd_r: "snd (renumber cur new r) = ns_eq new @ '';i='' @ int_str i"
    unfolding renumber_def assms(1) snd_conv by (rule replace_all_at [rotated]) (simp add: ns_eq_def)
  also have "\<dots> = ns_text new @ ''i='' @ int_str i"
    using assms(2) by (simp add: ns_eq_def ns_text_def)
  finally have snd_text: "snd (renumber cur new r) = ns_text new @ ''i='' @ int_str i" .
  have c: "CHR '';'' \<notin> set (''i='' @ int_str i)"
    using int_str_no_char [of "CHR '';''" i] digit_char_props(5) by simp
  have fst_r: "fst (renumber cur new r) = toString (empty_id\<lparr>id_ns := new, id_i := Some i\<rparr>)"
    by (simp add: renumber_def assms(1) toString_def empty_id_def)
  have "parse_node_id (snd (renumber cur new r)) = Inr (fst (renumber cur new r))"
    unfolding snd_text fst_r parse_ns_text [OF c] id_part_i by simp
  moreover have "id_str (fst (renumber cur new r)) = snd (renumber cur new r)"
    unfolding snd_text fst_r by (simp add: id_str_def toString_def empty_id_def)
  ultimately show ?thesis by blast
qed

corollary renumbered_text_in_step_witness:
  "parse_node_id (snd (renumber 1 2 (demo_node 1 5))) = Inr (fst (renumber 1 2 (demo_node 1 5)))"
  using renumbered_text_in_step [where r = "demo_node 1 5" and cur = 1 and i = 5 and new = 2]
  by (simp add: demo_node_def)

text \<open>Moving a document out of namespace \<open>cur\<close> also rewrites an alias of every namespace whose
  number merely starts with the same digits: the alias then names another namespace.\<close>

theorem alias_of_longer_namespace_rewritten:
  assumes "aliasTexts d = [Some (ns_eq cur @ rest)]" and "CHR ''n'' \<notin> set rest"
    and "reassignNamespaceId cur new d = Inr d'"
  shows "aliasTexts d' = [Some (ns_eq new @ rest)]"
proof -
  have "\<not> sublist (ns_eq cur) rest"
    by (rule not_sublist_char [OF _ assms(2)]) (simp add: ns_eq_def)
  then have "replace_all (ns_eq cur) (ns_eq new) (ns_eq cur @ rest) = ns_eq new @ rest"
    by (rule replace_all_at [rotated]) (simp add: ns_eq_def)
  with assms(1,3) show ?thesis
    by (auto simp: reassignNamespaceId_def rbind_Inr_iff Let_def split: prod.splits)
qed

corollary alias_of_longer_namespace_rewritten_witness:
  "\<exists>d'. reassignNamespaceId 1 2 ((demo_doc 1 [] [])\<lparr>aliasTexts := [Some ''ns=12;i=7'']\<rparr>) = Inr d' \<and>
     aliasTexts d' = [Some ''ns=22;i=7'']"
proof -
  let ?d = "(demo_doc 1 [] [])\<lparr>aliasTexts := [Some ''ns=12;i=7'']\<rparr>"
  obtain d' where d': "reassignNamespaceId 1 2 ?d = Inr d'"
    by (simp add: reassignNamespaceId_def Let_def split_beta)
  have ns: "ns_eq 1 = ''ns=1''" "ns_eq 2 = ''ns=2''" by code_simp+
  have "aliasTexts d' = [Some (ns_eq 2 @ ''2;i=7'')]"
    by (rule alias_of_longer_namespace_rewritten [OF _ _ d']) (simp_all add: ns)
  with d' show ?thesis by (simp add: ns)
qed

section \<open>Linking references\<close>

lemma reassign_refs_ns:
  "map (id_ns \<circ> fst) (referencedNodes (reassignReferencedNamespaceId k new d)) =
     map (\<lambda>j. if j = k then new else j) (map (id_ns \<circ> fst) (referencedNodes d))"
  by (simp add: reassignReferencedNamespaceId_def)

definition same_names :: "preProcessDocument \<Rightarrow> preProcessDocument \<Rightarrow> bool" where
  "same_names d e \<longleftrightarrow> namespaceOrder d = namespaceOrder e \<and>
     referencedNamesSpaceUris d = referencedNamesSpaceUris e"

lemma same_names_uri: "same_names d e \<Longrightarrow> getReferencedNamespaceUri k d = getReferencedNamespaceUri k e"
  by (simp add: same_names_def getReferencedNamespaceUri_def cong: option.case_cong)

text \<open>
  \<open>meant_index ord docs d k\<close>: the index the document \<open>d\<close> means by \<open>k\<close>, where one of the documents calls
  itself by that URI.
\<close>

definition meant_index :: "key_order \<Rightarrow> preProcessDocument list \<Rightarrow> preProcessDocument \<Rightarrow> int \<Rightarrow> int option" where
  "meant_index ord docs d k =
     (case rbind (getReferencedNamespaceUri k d) (\<lambda>uri. find_by_uri uri docs) of
        Inr (Some t) \<Rightarrow> Some (getNamespaceId ord t) | _ \<Rightarrow> None)"

lemma link_dependency_target:
  assumes "meant_index ord docs d k = Some m" and "k \<noteq> nsid" and "k \<noteq> 0" and "same_names e d"
  shows "link_dependency ord docs nsid k (e, ks) = Inr (reassignReferencedNamespaceId k m e, ks)"
proof -
  obtain uri t where "getReferencedNamespaceUri k d = Inr uri" and "find_by_uri uri docs = Inr (Some t)"
      and "m = getNamespaceId ord t"
    using assms(1) unfolding meant_index_def
    by (auto split: sum.split_asm option.split_asm elim!: rbind_InrE)
  then show ?thesis
    using assms(2,3) same_names_uri [OF assms(4)] by (simp add: link_dependency_def)
qed

text \<open>A reference after the steps for some indices: the document's own and that of namespace zero do nothing.\<close>

definition linked_by :: "(int \<Rightarrow> int) \<Rightarrow> int \<Rightarrow> int \<Rightarrow> node_id \<times> string \<Rightarrow> node_id \<times> string" where
  "linked_by f nsid k r = (if k = nsid \<or> k = 0 \<or> id_ns (fst r) \<noteq> k then r else renumber k (f k) r)"

lemma link_dependencies:
  assumes "\<And>k. k \<in> set ks \<Longrightarrow> k \<noteq> nsid \<and> k \<noteq> 0 \<Longrightarrow> meant_index ord docs d k = Some (f k)"
    and "same_names e d"
  shows "\<exists>e'. foldM (link_dependency ord docs nsid) ks (e, []) = Inr (e', []) \<and>
    referencedNodes e' = map (\<lambda>r. fold (linked_by f nsid) ks r) (referencedNodes e)"
  using assms
proof (induction ks arbitrary: e)
  case (Cons k ks)
  have IH: "\<exists>e'. foldM (link_dependency ord docs nsid) ks (e, []) = Inr (e', []) \<and>
      referencedNodes e' = map (\<lambda>r. fold (linked_by f nsid) ks r) (referencedNodes e)"
    if "same_names e d" for e
    using Cons.prems(1) that by (intro Cons.IH) simp_all
  show ?case
  proof (cases "k = nsid \<or> k = 0")
    case True
    have step: "link_dependency ord docs nsid k (e, []) = Inr (e, [])"
      using True by (auto simp: link_dependency_def)
    have "fold (linked_by f nsid) (k # ks) = fold (linked_by f nsid) ks"
      using True by (auto simp: linked_by_def)
    then show ?thesis using IH [OF Cons.prems(2)] by (simp only: foldM.simps step rbind.simps)
  next
    case False
    define e1 where "e1 = reassignReferencedNamespaceId k (f k) e"
    have "meant_index ord docs d k = Some (f k)" using Cons.prems(1) [of k] False by simp
    then have step: "link_dependency ord docs nsid k (e, []) = Inr (e1, [])"
      unfolding e1_def using False by (intro link_dependency_target [OF _ _ _ Cons.prems(2)]) auto
    have "same_names e1 d"
      using Cons.prems(2) by (simp add: e1_def same_names_def reassignReferencedNamespaceId_def)
    from IH [OF this] obtain e' where e': "foldM (link_dependency ord docs nsid) ks (e1, []) = Inr (e', [])"
      and refs: "referencedNodes e' = map (\<lambda>r. fold (linked_by f nsid) ks r) (referencedNodes e1)" by blast
    have "referencedNodes e1 = map (linked_by f nsid k) (referencedNodes e)"
      using False by (auto simp: e1_def reassignReferencedNamespaceId_def linked_by_def)
    then have "referencedNodes e' = map (\<lambda>r. fold (linked_by f nsid) (k # ks) r) (referencedNodes e)"
      unfolding refs by simp
    with e' show ?thesis by (simp only: foldM.simps step rbind.simps) blast
  qed
qed simp

lemma linked_by_ns:
  assumes "\<And>k. k \<in> set ks \<Longrightarrow> k = nsid \<or> k = 0 \<Longrightarrow> f k = k"
  shows "id_ns (fst (fold (linked_by f nsid) ks r)) = fold (\<lambda>k i. if i = k then f k else i) ks (id_ns (fst r))"
  using assms
proof (induction ks arbitrary: r)
  case (Cons k ks)
  have "id_ns (fst (linked_by f nsid k r)) = (if id_ns (fst r) = k then f k else id_ns (fst r))"
    using Cons.prems [of k] by (auto simp: linked_by_def)
  with Cons show ?case by simp
qed simp

lemma dependencies_props:
  "distinct (getNamespaceDependencies d) \<and>
     set (getNamespaceDependencies d) = (id_ns \<circ> fst) ` set (referencedNodes d)"
proof -
  have "distinct (fold (\<lambda>r deps. if id_ns (fst r) \<in> set deps then deps else deps @ [id_ns (fst r)]) rs acc) \<and>
      set (fold (\<lambda>r deps. if id_ns (fst r) \<in> set deps then deps else deps @ [id_ns (fst r)]) rs acc) =
        set acc \<union> (id_ns \<circ> fst) ` set rs"
    if "distinct acc" for rs :: "(node_id \<times> string) list" and acc
    using that by (induction rs arbitrary: acc) auto
  from this [of "[]" "referencedNodes d"] show ?thesis by (simp add: getNamespaceDependencies_def)
qed

lemma chain_free:
  assumes "distinct ks" and "id_ns (fst r) \<in> set ks"
    and "\<And>k. k \<in> set ks \<Longrightarrow> f k \<noteq> k \<Longrightarrow> f k \<notin> set ks"
  shows "fold (linked_by f nsid) ks r = linked_by f nsid (id_ns (fst r)) r"
proof -
  have stay: "fold (linked_by f nsid) xs q = q" if "id_ns (fst q) \<notin> set xs" for xs q
    using that by (induction xs) (auto simp: linked_by_def)
  let ?j = "id_ns (fst r)"
  obtain as bs where ks: "ks = as @ ?j # bs" using assms(2) by (meson split_list)
  have "fold (linked_by f nsid) as r = r" using assms(1) ks by (intro stay) simp
  moreover have "id_ns (fst (linked_by f nsid ?j r)) \<notin> set bs"
    using assms(1) assms(3) [OF assms(2)] ks by (cases "f ?j = ?j") (auto simp: linked_by_def)
  then have "fold (linked_by f nsid) bs (linked_by f nsid ?j r) = linked_by f nsid ?j r" by (rule stay)
  moreover have "fold (linked_by f nsid) ks r =
      fold (linked_by f nsid) bs (linked_by f nsid ?j (fold (linked_by f nsid) as r))"
    by (subst ks) simp
  ultimately show ?thesis by simp
qed

text \<open>Replacing a text by itself.\<close>

lemma replace_all_same: "old \<noteq> [] \<Longrightarrow> replace_all old old s = s"
proof (induction s rule: length_induct)
  case (1 s)
  show ?case
  proof (cases s)
    case (Cons c cs)
    show ?thesis
    proof (cases "prefix old s")
      case True
      then obtain zs where zs: "s = old @ zs" by (auto simp: prefix_def)
      with 1 have "replace_all old old zs = zs" by (cases old) auto
      with 1(2) zs Cons show ?thesis by (cases old) simp_all
    qed (use 1 Cons in auto)
  qed simp
qed

text \<open>What a reference moved to the namespace \<open>k'\<close> is, its id and its text.\<close>

definition moved_to :: "int \<Rightarrow> node_id \<times> string \<Rightarrow> node_id \<times> string \<Rightarrow> bool" where
  "moved_to k' r r' \<longleftrightarrow>
     (let k = id_ns (fst r) in
      id_ns (fst r') = k' \<and> id_i (fst r') = id_i (fst r) \<and> id_s (fst r') = id_s (fst r) \<and>
      id_g (fst r') = id_g (fst r) \<and> id_b (fst r') = id_b (fst r) \<and>
      (k' = k \<longrightarrow> snd r' = snd r) \<and>
      (\<forall>rest. snd r = ''ns='' @ int_str k @ rest \<and> \<not> sublist (''ns='' @ int_str k) rest \<longrightarrow>
         snd r' = ''ns='' @ int_str k' @ rest))"

lemma linked_by_moved:
  assumes "id_ns (fst r) = nsid \<or> id_ns (fst r) = 0 \<Longrightarrow> f (id_ns (fst r)) = id_ns (fst r)"
  shows "moved_to (f (id_ns (fst r))) r (linked_by f nsid (id_ns (fst r)) r)"
proof -
  let ?k = "id_ns (fst r)"
  have at: "replace_all (''ns='' @ int_str ?k) new ((''ns='' @ int_str ?k) @ rest) = new @ rest"
    if "\<not> sublist (''ns='' @ int_str ?k) rest" for new rest
    using that by (intro replace_all_at) simp_all
  show ?thesis
  proof (cases "?k = nsid \<or> ?k = 0")
    case True
    with assms have "f ?k = ?k" by blast
    with True show ?thesis by (auto simp: moved_to_def linked_by_def Let_def)
  next
    case False
    then have r': "linked_by f nsid ?k r = renumber ?k (f ?k) r" by (simp add: linked_by_def)
    show ?thesis
      unfolding r' moved_to_def Let_def renumber_def toString_def ns_eq_def
      using at [of _ "''ns='' @ int_str (f ?k)"] replace_all_same [of "''ns='' @ int_str ?k" "snd r"] by auto
  qed
qed

text \<open>C26: linking a document rewrites every reference to the index of the document it means, with
  nothing left for the second stage, when every namespace it refers to has a document with its
  URI and no index that is assigned is also one the document still uses for something else.  The id
  gets the new index and keeps the rest, and in a text of the form \<open>ns=k...\<close> without another
  \<open>ns=k\<close> the number is replaced; a text whose index stays is kept.\<close>

theorem link_document_rewrites_references:
  assumes "\<And>k. k \<in> set (getNamespaceDependencies d) \<Longrightarrow>
      (if k = getNamespaceId ord d \<or> k = 0 then f k = k else meant_index ord docs d k = Some (f k))"
    and "\<And>k. k \<in> set (getNamespaceDependencies d) \<Longrightarrow> f k \<noteq> k \<Longrightarrow> f k \<notin> set (getNamespaceDependencies d)"
  shows "\<exists>d'. link_document ord docs d = Inr (d', []) \<and>
    list_all2 (\<lambda>r r'. moved_to (f (id_ns (fst r))) r r') (referencedNodes d) (referencedNodes d')"
proof -
  let ?ks = "getNamespaceDependencies d" and ?own = "getNamespaceId ord d"
  obtain d' where d': "foldM (link_dependency ord docs ?own) ?ks (d, []) = Inr (d', [])"
    and refs: "referencedNodes d' = map (\<lambda>r. fold (linked_by f ?own) ?ks r) (referencedNodes d)"
    using link_dependencies [of ?ks ?own ord docs d f d] assms(1) by (auto simp: same_names_def split: if_split_asm)
  have r': "fold (linked_by f ?own) ?ks r = linked_by f ?own (id_ns (fst r)) r" "id_ns (fst r) \<in> set ?ks"
    if "r \<in> set (referencedNodes d)" for r
  proof -
    show k: "id_ns (fst r) \<in> set ?ks" using that dependencies_props [of d] by auto
    show "fold (linked_by f ?own) ?ks r = linked_by f ?own (id_ns (fst r)) r"
      by (rule chain_free [OF dependencies_props [THEN conjunct1] k assms(2)])
  qed
  show ?thesis
  proof (intro exI conjI)
    show "link_document ord docs d = Inr (d', [])" using d' by (simp add: link_document_def)
    show "list_all2 (\<lambda>r r'. moved_to (f (id_ns (fst r))) r r') (referencedNodes d) (referencedNodes d')"
      unfolding refs list_all2_map2 list_all2_same
    proof
      fix r assume "r \<in> set (referencedNodes d)"
      note r = r' [OF this]
      show "moved_to (f (id_ns (fst r))) r (fold (linked_by f ?own) ?ks r)"
        unfolding r(1) by (rule linked_by_moved) (use assms(1) [OF r(2)] in \<open>simp split: if_split_asm\<close>)
    qed
  qed
qed

corollary link_document_rewrites_references_witness:
  "\<exists>d'. link_document id demo_docs (demo_doc 4 [0, 5] [(5, ''B'')]) = Inr (d', []) \<and>
     map (id_ns \<circ> fst) (referencedNodes d') = [0, 3] \<and> map snd (referencedNodes d') = [''ns=0;i=7'', ''ns=3;i=7'']"
proof -
  let ?d = "demo_doc 4 [0, 5] [(5, ''B'')]" and ?f = "\<lambda>k::int. if k = 5 then 3 else k"
  have deps: "getNamespaceDependencies ?d = [0, 5]" by code_simp
  have tgt: "meant_index id demo_docs ?d 5 = Some 3" by code_simp
  have refs: "referencedNodes ?d = [demo_node 0 7, demo_node 5 7]" by (simp add: demo_doc_def)
  have n: "id_ns (fst (demo_node k i)) = k" for k i by (simp add: demo_node_def toString_def)
  have s: "snd (demo_node 0 7) = ''ns=0;i=7''" "snd (demo_node 5 7) = ''ns=5;i=7''"
    "int_str 3 = ''3''" "int_str 5 = ''5''" "\<not> sublist ''ns=5'' '';i=7''" by code_simp+
  have "\<exists>d'. link_document id demo_docs ?d = Inr (d', []) \<and>
      list_all2 (\<lambda>r r'. moved_to (?f (id_ns (fst r))) r r') (referencedNodes ?d) (referencedNodes d')"
  proof (rule link_document_rewrites_references)
    show "if k = getNamespaceId id ?d \<or> k = 0 then ?f k = k else meant_index id demo_docs ?d k = Some (?f k)"
      if "k \<in> set (getNamespaceDependencies ?d)" for k
      using that tgt unfolding deps demo_doc_id by (cases "k = 5") simp_all
    show "?f k \<notin> set (getNamespaceDependencies ?d)" if "k \<in> set (getNamespaceDependencies ?d)" "?f k \<noteq> k" for k
      using that unfolding deps by (cases "k = 5") simp_all
  qed
  then show ?thesis unfolding refs by (auto simp: list_all2_Cons1 moved_to_def n s Let_def)
qed

text \<open>Without that last condition references are mixed up: when a document refers to two others
  as \<open>j\<close> and \<open>k\<close>, in this order, and the first of them now has the index \<open>k\<close>, the references to
  both end at the second.\<close>

theorem link_document_merges_references:
  assumes "getNamespaceDependencies d = [j, k]"
    and "j \<noteq> 0" "k \<noteq> 0" "getNamespaceId ord d \<notin> {j, k}"
    and "meant_index ord docs d j = Some k" and "meant_index ord docs d k = Some m"
  shows "\<exists>d'. link_document ord docs d = Inr (d', []) \<and>
    (\<forall>r \<in> set (referencedNodes d'). id_ns (fst r) = m)"
proof -
  define f where "f = (\<lambda>i. if i = j then k else m)"
  have jk: "j \<noteq> k" using dependencies_props [of d] assms(1) by auto
  let ?own = "getNamespaceId ord d"
  have "\<exists>d'. foldM (link_dependency ord docs ?own) [j, k] (d, []) = Inr (d', []) \<and>
      referencedNodes d' = map (\<lambda>r. fold (linked_by f ?own) [j, k] r) (referencedNodes d)"
  proof (rule link_dependencies)
    show "meant_index ord docs d i = Some (f i)" if "i \<in> set [j, k]" "i \<noteq> ?own \<and> i \<noteq> 0" for i
      using that assms(5,6) jk by (auto simp: f_def)
    show "same_names d d" by (simp add: same_names_def)
  qed
  then obtain d' where d': "foldM (link_dependency ord docs ?own) [j, k] (d, []) = Inr (d', [])"
    and refs: "referencedNodes d' = map (\<lambda>r. fold (linked_by f ?own) [j, k] r) (referencedNodes d)" by blast
  have ns: "id_ns (fst (fold (linked_by f ?own) [j, k] r)) = fold (\<lambda>k i. if i = k then f k else i) [j, k] (id_ns (fst r))" for r
    by (rule linked_by_ns) (use assms(2-4) in auto)
  have "id_ns (fst r) = m" if "r \<in> set (referencedNodes d')" for r
  proof -
    from that obtain r0 where r0: "r0 \<in> set (referencedNodes d)" and "r = fold (linked_by f ?own) [j, k] r0"
      unfolding refs set_map by blast
    then have "id_ns (fst r) = fold (\<lambda>k i. if i = k then f k else i) [j, k] (id_ns (fst r0))" using ns by simp
    moreover have "id_ns (fst r0) \<in> {j, k}"
      using r0 dependencies_props [of d] assms(1) by auto
    ultimately show ?thesis using jk by (auto simp: f_def)
  qed
  with d' show ?thesis by (auto simp: link_document_def assms(1))
qed

corollary link_document_merges_references_witness:
  "\<exists>d'. link_document id demo_docs (demo_doc 4 [2, 3] [(2, ''B''), (3, ''A'')]) = Inr (d', []) \<and>
     (\<forall>r \<in> set (referencedNodes d'). id_ns (fst r) = 2)"
  by (rule link_document_merges_references [where j = 2 and k = 3]; (simp; fail)?; code_simp)

end
