(* ===== verification/Node_Graph.thy ===== *)
theory Node_Graph
  imports Ua_Value
begin

text \<open>
  The objects of ua_node_types.py that the namespace links into a graph: references
  (\<open>opcua_referencePointer_t\<close>) and nodes (\<open>opcua_node_t\<close> and its classes).  Nodes and references
  point at each other, so both live in a store and a Python reference is the position in it; an
  object is allocated at the end of its store and never freed.  The store is part of the namespace
  object, whose record is here because every node reaches it.

  Classes without \<open>__cmp__\<close> compare by identity, which is the position; references compare by target,
  type and direction (\<open>ref_eq\<close>).
\<close>

section \<open>References\<close>

text \<open>A target or a type is first the text of the XML file, and a node once it is linked.\<close>

datatype target = TNone | TText string | TNode nat

record opcua_referencePointer =
  r_target :: target
  r_type :: target
  r_forward :: bool
  r_hidden :: bool
  r_parent :: "nat option"

definition referencePointer_init :: "target \<Rightarrow> bool \<Rightarrow> nat option \<Rightarrow> opcua_referencePointer" where
  "referencePointer_init t hidden parent =
     \<lparr>r_target = t, r_type = TNone, r_forward = True, r_hidden = hidden, r_parent = parent\<rparr>"

definition ref_isForward :: "bool \<Rightarrow> opcua_referencePointer \<Rightarrow> opcua_referencePointer" where
  "ref_isForward b r = r\<lparr>r_forward := b\<rparr>"

definition ref_referenceType :: "target \<Rightarrow> opcua_referencePointer \<Rightarrow> opcua_referencePointer" where
  "ref_referenceType t r = (if t = TNone then r else r\<lparr>r_type := t\<rparr>)"

definition ref_target :: "target \<Rightarrow> opcua_referencePointer \<Rightarrow> opcua_referencePointer" where
  "ref_target t r = (if t = TNone then r else r\<lparr>r_target := t\<rparr>)"

text \<open>\<open>__cmp__\<close>, as \<open>==\<close> uses it.\<close>

definition ref_eq :: "opcua_referencePointer \<Rightarrow> opcua_referencePointer \<Rightarrow> bool" where
  "ref_eq r q \<longleftrightarrow> r_target q = r_target r \<and> r_type q = r_type r \<and> r_forward q = r_forward r"

fun is_node :: "target \<Rightarrow> bool" where
  "is_node (TNode a) = True"
| "is_node _ = False"

section \<open>Nodes\<close>

record referenceType_part =
  rt_isAbstract :: bool
  rt_symmetric :: bool
  rt_inverseName :: string

record variable_part =
  va_value :: "pyval option"
  va_dataType :: "nat option"
  va_valueRank :: int
  va_arrayDimensions :: pyval
  va_accessLevel :: int
  va_userAccessLevel :: int
  va_minimumSamplingInterval :: string
  va_historizing :: bool
  va_xmlValueDef :: "xnode option"

record method_part =
  me_executable :: bool
  me_userExecutable :: bool
  me_declaration :: "nat option"

record variableType_part =
  vt_dataType :: "nat option"
  vt_valueRank :: int
  vt_arrayDimensions :: int
  vt_isAbstract :: bool
  vt_xmlDefinition :: "xnode option"

text \<open>The definition a data type ends with: the values of an enumeration or the nodes of its fields.\<close>

datatype type_definition = NoDefinition | EnumDict "(string \<times> int option) list" | TypeDict "(string \<times> nat) list"

record dataType_part =
  dy_isAbstract :: bool
  dy_isEnum :: bool
  dy_xmlDefinition :: "xnode option"
  dy_baseTypeEncoding :: "enc list"
  dy_encodable :: "bool option"
  dy_encodingBuilt :: bool
  dy_definition :: type_definition

record view_part =
  vi_containsNoLoops :: bool
  vi_eventNotifier :: int

text \<open>
  What a node has besides the attributes of the base class, by its class.  The value of a variable
  is the value its \<open>opcua_value_t\<close> object holds; the XML elements are the ones the reader keeps.
\<close>

datatype node_part =
  ReferenceTypeNode referenceType_part
| ObjectNode (ob_eventNotifier: int)
| VariableNode variable_part
| MethodNode method_part
| ObjectTypeNode (ot_isAbstract: bool)
| VariableTypeNode variableType_part
| DataTypeNode dataType_part
| ViewNode view_part

record opcua_node =
  n_id :: node_id
  n_class :: int
  n_browseName :: string
  n_displayName :: string
  n_description :: string
  n_writeMask :: int
  n_userWriteMask :: int
  n_references :: "nat list"
  n_referencedBy :: "nat list"
  n_part :: node_part

text \<open>The parts of a new node, as \<open>__init_subType__\<close> and the class attributes give them.\<close>

definition new_referenceType :: node_part where
  "new_referenceType = ReferenceTypeNode \<lparr>rt_isAbstract = False, rt_symmetric = False, rt_inverseName = []\<rparr>"

definition new_object :: node_part where
  "new_object = ObjectNode 0"

definition new_variable :: node_part where
  "new_variable = VariableNode \<lparr>va_value = None, va_dataType = None, va_valueRank = -1,
     va_arrayDimensions = PList [], va_accessLevel = 3, va_userAccessLevel = 3,
     va_minimumSamplingInterval = ''0.0'', va_historizing = False, va_xmlValueDef = None\<rparr>"

definition new_method :: node_part where
  "new_method = MethodNode \<lparr>me_executable = True, me_userExecutable = True, me_declaration = None\<rparr>"

definition new_objectType :: node_part where
  "new_objectType = ObjectTypeNode False"

definition new_variableType :: node_part where
  "new_variableType = VariableTypeNode \<lparr>vt_dataType = None, vt_valueRank = -1, vt_arrayDimensions = 0,
     vt_isAbstract = False, vt_xmlDefinition = None\<rparr>"

definition new_dataType :: node_part where
  "new_dataType = DataTypeNode \<lparr>dy_isAbstract = False, dy_isEnum = False, dy_xmlDefinition = None,
     dy_baseTypeEncoding = [], dy_encodable = None, dy_encodingBuilt = False,
     dy_definition = NoDefinition\<rparr>"

definition new_view :: node_part where
  "new_view = ViewNode \<lparr>vi_containsNoLoops = True, vi_eventNotifier = 0\<rparr>"

fun part_class :: "node_part \<Rightarrow> int" where
  "part_class (ObjectNode _) = 1"
| "part_class (VariableNode _) = 2"
| "part_class (MethodNode _) = 4"
| "part_class (ObjectTypeNode _) = 8"
| "part_class (VariableTypeNode _) = 16"
| "part_class (ReferenceTypeNode _) = 32"
| "part_class (DataTypeNode _) = 64"
| "part_class (ViewNode _) = 128"

text \<open>\<open>nodeClass\<close> with an argument: the class of a node is set once.\<close>

definition nodeClass :: "int \<Rightarrow> opcua_node \<Rightarrow> opcua_node" where
  "nodeClass c n = (if n_class n = 0 \<and> c < 256 then n\<lparr>n_class := c\<rparr> else n)"

definition node_init :: "node_id \<Rightarrow> node_part \<Rightarrow> opcua_node" where
  "node_init i p = nodeClass (part_class p)
     \<lparr>n_id = i, n_class = 0, n_browseName = [], n_displayName = [], n_description = [],
      n_writeMask = 0, n_userWriteMask = 0, n_references = [], n_referencedBy = [], n_part = p\<rparr>"

section \<open>The namespace and its stores\<close>

record opcua_namespace =
  node_heap :: "opcua_node list"
  ref_heap :: "opcua_referencePointer list"
  ns_nodes :: "nat list"
  nodeids :: "string \<rightharpoonup> nat"
  aliases :: "string \<rightharpoonup> string"
  linkLater :: "nat list"
  namespaceIdentifiers :: "int \<rightharpoonup> string"

definition namespace_init :: opcua_namespace where
  "namespace_init = \<lparr>node_heap = [], ref_heap = [], ns_nodes = [], nodeids = Map.empty,
     aliases = Map.empty, linkLater = [], namespaceIdentifiers = Map.empty\<rparr>"

abbreviation node_at :: "opcua_namespace \<Rightarrow> nat \<Rightarrow> opcua_node" where
  "node_at s a \<equiv> node_heap s ! a"

abbreviation ref_at :: "opcua_namespace \<Rightarrow> nat \<Rightarrow> opcua_referencePointer" where
  "ref_at s r \<equiv> ref_heap s ! r"

definition modify_node :: "nat \<Rightarrow> (opcua_node \<Rightarrow> opcua_node) \<Rightarrow> opcua_namespace \<Rightarrow> opcua_namespace" where
  "modify_node a f s = s\<lparr>node_heap := (node_heap s)[a := f (node_at s a)]\<rparr>"

definition modify_ref ::
    "nat \<Rightarrow> (opcua_referencePointer \<Rightarrow> opcua_referencePointer) \<Rightarrow> opcua_namespace \<Rightarrow> opcua_namespace" where
  "modify_ref r f s = s\<lparr>ref_heap := (ref_heap s)[r := f (ref_at s r)]\<rparr>"

text \<open>Creating an object: its position, and the namespace with it in the store.\<close>

definition new_ref :: "opcua_referencePointer \<Rightarrow> opcua_namespace \<Rightarrow> nat \<times> opcua_namespace" where
  "new_ref r s = (length (ref_heap s), s\<lparr>ref_heap := ref_heap s @ [r]\<rparr>)"

definition new_node :: "opcua_node \<Rightarrow> opcua_namespace \<Rightarrow> nat \<times> opcua_namespace" where
  "new_node n s = (length (node_heap s), s\<lparr>node_heap := node_heap s @ [n]\<rparr>)"

definition modify_part :: "nat \<Rightarrow> (node_part \<Rightarrow> node_part) \<Rightarrow> opcua_namespace \<Rightarrow> opcua_namespace" where
  "modify_part a f = modify_node a (\<lambda>n. n\<lparr>n_part := f (n_part n)\<rparr>)"

section \<open>Operations of a node on its references\<close>

definition addReference :: "nat \<Rightarrow> nat \<Rightarrow> opcua_namespace \<Rightarrow> opcua_namespace" where
  "addReference a r s =
     (if list_ex (\<lambda>q. ref_eq (ref_at s r) (ref_at s q)) (n_references (node_at s a)) then s
      else modify_node a (\<lambda>n. n\<lparr>n_references := n_references n @ [r]\<rparr>) s)"

text \<open>\<open>list.remove\<close>: the first element that compares equal goes.\<close>

fun remove_ref :: "opcua_namespace \<Rightarrow> nat \<Rightarrow> nat list \<Rightarrow> nat list" where
  "remove_ref s r [] = []"
| "remove_ref s r (q # qs) = (if ref_eq (ref_at s r) (ref_at s q) then qs else q # remove_ref s r qs)"

definition list_remove :: "opcua_namespace \<Rightarrow> nat \<Rightarrow> nat list \<Rightarrow> nat list res" where
  "list_remove s r qs =
     (if list_ex (\<lambda>q. ref_eq (ref_at s r) (ref_at s q)) qs then Inr (remove_ref s r qs) else Inl ValueError)"

definition removeReference :: "nat \<Rightarrow> nat \<Rightarrow> opcua_namespace \<Rightarrow> opcua_namespace" where
  "removeReference a r s =
     modify_node a (\<lambda>n. n\<lparr>n_references := remove_ref s r (n_references n)\<rparr>) s"

definition hasReferenceTarget :: "opcua_namespace \<Rightarrow> nat \<Rightarrow> nat \<Rightarrow> bool" where
  "hasReferenceTarget s a b \<longleftrightarrow>
     list_ex (\<lambda>r. r_target (ref_at s r) = TNode b) (n_references (node_at s a))"

definition hasInverseReferenceTarget :: "opcua_namespace \<Rightarrow> nat \<Rightarrow> nat \<Rightarrow> bool" where
  "hasInverseReferenceTarget s a b \<longleftrightarrow>
     list_ex (\<lambda>r. r_target (ref_at s r) = TNode b) (n_referencedBy (node_at s a))"

text \<open>
  The test \<open>node in self.__node_referencedBy__\<close> compares a node with references, which are never
  equal, so only the ordinary references decide.
\<close>

definition addInverseReferenceTarget :: "nat \<Rightarrow> nat \<Rightarrow> opcua_namespace \<Rightarrow> opcua_namespace" where
  "addInverseReferenceTarget a b s =
     (if hasReferenceTarget s a b then s
      else case new_ref (referencePointer_init (TNode b) True (Some a)) s of
             (r, s') \<Rightarrow> modify_node a (\<lambda>n. n\<lparr>n_referencedBy := n_referencedBy n @ [r]\<rparr>) s')"

definition updateInverse_step :: "nat \<Rightarrow> nat \<Rightarrow> opcua_namespace \<Rightarrow> opcua_namespace" where
  "updateInverse_step a r s =
     (case r_target (ref_at s r) of
        TNode t \<Rightarrow> if hasInverseReferenceTarget s t a then s else addInverseReferenceTarget t a s
      | _ \<Rightarrow> s)"

definition updateInverseReferences :: "nat \<Rightarrow> opcua_namespace \<Rightarrow> opcua_namespace" where
  "updateInverseReferences a s = fold (updateInverse_step a) (n_references (node_at s a)) s"

text \<open>
  \<open>getFirstParentNode\<close>: the references against the arrow, those that are not hidden first; the
  first whose target has a reference back to this node wins.  Without one the last target seen is
  returned with no reference.
\<close>

definition refs_back :: "opcua_namespace \<Rightarrow> nat \<Rightarrow> nat \<Rightarrow> nat option" where
  "refs_back s p a = List.find (\<lambda>r. r_target (ref_at s r) = TNode a) (n_references (node_at s p))"

fun first_parent :: "opcua_namespace \<Rightarrow> nat \<Rightarrow> nat option \<Rightarrow> nat list \<Rightarrow> (nat option \<times> nat option) res" where
  "first_parent s a parent [] = Inr (parent, None)"
| "first_parent s a parent (r # rs) =
     (case r_target (ref_at s r) of
        TNode p \<Rightarrow> (case refs_back s p a of
                      Some q \<Rightarrow> Inr (Some p, Some q)
                    | None \<Rightarrow> first_parent s a (Some p) rs)
      | _ \<Rightarrow> Inl AttributeError)"

definition getFirstParentNode :: "opcua_namespace \<Rightarrow> nat \<Rightarrow> (nat option \<times> nat option) res" where
  "getFirstParentNode s a =
     (let back = filter (\<lambda>r. \<not> r_forward (ref_at s r)) (n_references (node_at s a)) in
      first_parent s a None (filter (\<lambda>r. \<not> r_hidden (ref_at s r)) back @ filter (\<lambda>r. r_hidden (ref_at s r)) back))"

text \<open>\<open>removeReferenceToNode\<close> reads a variable it never sets.\<close>

definition removeReferenceToNode :: "nat \<Rightarrow> nat \<Rightarrow> opcua_namespace \<Rightarrow> opcua_namespace res" where
  "removeReferenceToNode a b s = Inl NameError"

section \<open>Names of nodes\<close>

fun part_name :: "node_part \<Rightarrow> string" where
  "part_name (ObjectNode _) = ''opcua_node_object_t''"
| "part_name (VariableNode _) = ''opcua_node_variable_t''"
| "part_name (MethodNode _) = ''opcua_node_method_t''"
| "part_name (ObjectTypeNode _) = ''opcua_node_objectType_t''"
| "part_name (VariableTypeNode _) = ''opcua_node_variableType_t''"
| "part_name (ReferenceTypeNode _) = ''opcua_node_referenceType_t''"
| "part_name (DataTypeNode _) = ''opcua_node_dataType_t''"
| "part_name (ViewNode _) = ''opcua_node_view_t''"

definition node_str :: "opcua_node \<Rightarrow> string" where
  "node_str n = part_name (n_part n) @ ''('' @ id_str (n_id n) @ '')''"

definition node_getCodePrintableID :: "opcua_node \<Rightarrow> string" where
  "node_getCodePrintableID n =
     map (\<lambda>c. if c \<in> set ''abcdefghijklmnopqrstuvwxyz1234567890_'' then c else CHR ''_'')
       (str_lower (part_name (n_part n) @ ''_'' @ id_str (n_id n)))"

text \<open>
  The printable id of a reference: its alphabet has no N.  A target that is still a text has no id.
\<close>

definition end_id :: "opcua_namespace \<Rightarrow> string \<Rightarrow> target \<Rightarrow> string res" where
  "end_id s none t =
     (case t of TNone \<Rightarrow> Inr none | TText x \<Rightarrow> Inl AttributeError | TNode a \<Rightarrow> Inr (id_str (n_id (node_at s a))))"

definition ref_getCodePrintableID :: "opcua_namespace \<Rightarrow> opcua_referencePointer \<Rightarrow> string res" where
  "ref_getCodePrintableID s r =
     rbind (end_id s ''None'' (case r_parent r of None \<Rightarrow> TNone | Some a \<Rightarrow> TNode a)) (\<lambda>src.
     rbind (end_id s ''None'' (r_target r)) (\<lambda>tgt.
     rbind (end_id s ''Unknown'' (r_type r)) (\<lambda>ty.
       Inr (map (\<lambda>c. if c \<in> set ''abcdefghijklmopqrstuvwxyz0123456789'' then c else CHR ''_'')
              (str_lower (src @ ''_'' @ ty @ ''_'' @ tgt))))))"

section \<open>The stores stay well formed\<close>

text \<open>Every position names an object.\<close>

definition target_ok :: "opcua_namespace \<Rightarrow> target \<Rightarrow> bool" where
  "target_ok s t \<longleftrightarrow> (case t of TNode a \<Rightarrow> a < length (node_heap s) | _ \<Rightarrow> True)"

lemma target_ok_iff: "target_ok s t \<longleftrightarrow> (\<forall>a. t = TNode a \<longrightarrow> a < length (node_heap s))"
  by (simp add: target_ok_def split: target.split)

fun part_refs :: "node_part \<Rightarrow> nat list" where
  "part_refs (VariableNode v) = (case va_dataType v of None \<Rightarrow> [] | Some r \<Rightarrow> [r])"
| "part_refs (MethodNode m) = (case me_declaration m of None \<Rightarrow> [] | Some r \<Rightarrow> [r])"
| "part_refs (VariableTypeNode v) = (case vt_dataType v of None \<Rightarrow> [] | Some r \<Rightarrow> [r])"
| "part_refs _ = []"

definition node_refs :: "opcua_node \<Rightarrow> nat list" where
  "node_refs n = n_references n @ n_referencedBy n @ part_refs (n_part n)"

section \<open>Frame lemmas\<close>

text \<open>What the operations on the stores leave alone, and what they change.\<close>

named_theorems heap_simps \<open>reading the stores after an operation on them\<close>

lemma modify_node_simps [heap_simps]:
  "ref_heap (modify_node a f s) = ref_heap s" "ns_nodes (modify_node a f s) = ns_nodes s"
  "nodeids (modify_node a f s) = nodeids s" "aliases (modify_node a f s) = aliases s"
  "linkLater (modify_node a f s) = linkLater s"
  "length (node_heap (modify_node a f s)) = length (node_heap s)"
  by (simp_all add: modify_node_def)

lemma modify_ref_simps [heap_simps]:
  "node_heap (modify_ref r g s) = node_heap s" "ns_nodes (modify_ref r g s) = ns_nodes s"
  "nodeids (modify_ref r g s) = nodeids s" "aliases (modify_ref r g s) = aliases s"
  "linkLater (modify_ref r g s) = linkLater s"
  "length (ref_heap (modify_ref r g s)) = length (ref_heap s)"
  by (simp_all add: modify_ref_def)

lemma node_at_modify_node:
  "node_at (modify_node a f s) b = (if b = a \<and> a < length (node_heap s) then f (node_at s a) else node_at s b)"
  by (cases "a < length (node_heap s)") (auto simp: modify_node_def nth_list_update list_update_beyond)

lemma ref_at_modify_ref:
  "ref_at (modify_ref r g s) q = (if q = r \<and> r < length (ref_heap s) then g (ref_at s r) else ref_at s q)"
  by (cases "r < length (ref_heap s)") (auto simp: modify_ref_def nth_list_update list_update_beyond)

text \<open>
  \<open>extends s t\<close>: \<open>t\<close> has all objects of \<open>s\<close>, the references as they were, and the ids and parts of the nodes unchanged.
\<close>

definition extends :: "opcua_namespace \<Rightarrow> opcua_namespace \<Rightarrow> bool" where
  "extends s t \<longleftrightarrow>
     prefix (ref_heap s) (ref_heap t) \<and> map n_id (node_heap t) = map n_id (node_heap s) \<and>
     map n_part (node_heap t) = map n_part (node_heap s) \<and>
     ns_nodes t = ns_nodes s \<and> aliases t = aliases s \<and> nodeids t = nodeids s \<and> linkLater t = linkLater s"

lemma extends_refl [simp]: "extends s s"
  by (simp add: extends_def)

lemma extends_trans: "extends s t \<Longrightarrow> extends t u \<Longrightarrow> extends s u"
  by (auto simp: extends_def)

lemma extends_fold: "(\<And>x t. extends t (f x t)) \<Longrightarrow> extends s (fold f xs s)"
  by (induction xs arbitrary: s) (auto intro: extends_trans)

lemma extends_ref_at: "extends s t \<Longrightarrow> r < length (ref_heap s) \<Longrightarrow> ref_at t r = ref_at s r"
  by (auto simp: extends_def prefix_def nth_append)

lemma extends_length:
  "extends s t \<Longrightarrow> length (ref_heap s) \<le> length (ref_heap t)"
  "extends s t \<Longrightarrow> length (node_heap t) = length (node_heap s)"
  by (auto simp: extends_def dest: prefix_length_le map_eq_imp_length_eq)

lemma extends_n_id: "extends s t \<Longrightarrow> a < length (node_heap s) \<Longrightarrow> n_id (node_at t a) = n_id (node_at s a)"
  using extends_length(2) [of s t] nth_map [of a "node_heap s" n_id] nth_map [of a "node_heap t" n_id]
  by (simp add: extends_def)

lemma extends_modify_node:
  assumes "\<And>n. n_id (f n) = n_id n" and "\<And>n. n_part (f n) = n_part n"
  shows "extends s (modify_node a f s)"
proof -
  have "map n_id (node_heap (modify_node a f s)) = map n_id (node_heap s)"
    and "map n_part (node_heap (modify_node a f s)) = map n_part (node_heap s)"
    by (rule nth_equalityI; simp add: heap_simps node_at_modify_node assms)+
  then show ?thesis by (simp add: extends_def heap_simps)
qed

lemma extends_new_ref: "extends s (snd (new_ref r s))"
  by (simp add: extends_def new_ref_def)

lemma extends_addReference: "extends s (addReference a r s)"
  by (simp add: addReference_def extends_modify_node)

lemma extends_addInverse: "extends s (addInverseReferenceTarget a b s)"
proof (cases "hasReferenceTarget s a b")
  case True
  then show ?thesis by (simp add: addInverseReferenceTarget_def)
next
  case False
  obtain r s' where r: "new_ref (referencePointer_init (TNode b) True (Some a)) s = (r, s')" by fastforce
  then have "extends s s'" using extends_new_ref by (metis snd_conv)
  moreover have "extends s' (modify_node a (\<lambda>n. n\<lparr>n_referencedBy := n_referencedBy n @ [r]\<rparr>) s')"
    by (rule extends_modify_node) simp_all
  ultimately show ?thesis using False r by (auto simp: addInverseReferenceTarget_def intro: extends_trans)
qed

lemma extends_updateInverse: "extends s (updateInverseReferences a s)"
  unfolding updateInverseReferences_def
  by (rule extends_fold) (simp add: updateInverse_step_def extends_addInverse split: target.split)

end
