(* ===== verification/Node_Parse.thy ===== *)
theory Node_Parse
  imports Node_Graph
begin

text \<open>
  Reading a node from its XML element: \<open>opcua_node_t.parseXML\<close> for what all classes have,
  \<open>parseXMLSubType\<close> of every class for the rest, and \<open>initiateDummyXMLReferences\<close>.  The order in
  which Python 2 walks the attributes of an element is a parameter (\<open>attr_order\<close>).  A setter that
  checks \<open>isinstance(data, str)\<close> ignores the \<open>unicode\<close> text of a child element.
\<close>

type_synonym attr_order = "(string \<times> string) list \<Rightarrow> (string \<times> string) list"

definition is_false :: "string \<Rightarrow> bool" where
  "is_false v \<longleftrightarrow> contains ''false'' (str_lower v)"

definition is_true :: "string \<Rightarrow> bool" where
  "is_true v \<longleftrightarrow> contains ''true'' (str_lower v)"

text \<open>\<open>isinstance(n, int)\<close> of a number \<open>int()\<close> returned: not a \<open>long\<close>.\<close>

definition small_int :: "int \<Rightarrow> bool" where
  "small_int n \<longleftrightarrow> - (2 ^ 63) \<le> n \<and> n < 2 ^ 63"

definition py_float :: "py_env \<Rightarrow> string \<Rightarrow> string res" where
  "py_float env s = (case env_float env s of None \<Rightarrow> Inl ValueError | Some f \<Rightarrow> Inr f)"

section \<open>References\<close>

text \<open>A pointer to a text, registered for linking.\<close>

definition link_later :: "nat \<Rightarrow> opcua_namespace \<Rightarrow> opcua_namespace" where
  "link_later r s = s\<lparr>linkLater := linkLater s @ [r]\<rparr>"

definition new_pointer :: "nat \<Rightarrow> string \<Rightarrow> opcua_namespace \<Rightarrow> nat \<times> opcua_namespace" where
  "new_pointer a t s = new_ref (referencePointer_init (TText t) False (Some a)) s"

definition dummy_attr :: "string \<times> string \<Rightarrow> opcua_referencePointer \<Rightarrow> opcua_referencePointer" where
  "dummy_attr av r =
     (if fst av = ''ReferenceType'' then ref_referenceType (TText (snd av)) r
      else if fst av = ''IsForward'' \<and> is_false (snd av) then ref_isForward False r
      else r)"

definition dummy_reference :: "attr_order \<Rightarrow> nat \<Rightarrow> xnode \<Rightarrow> opcua_namespace \<Rightarrow> opcua_namespace res" where
  "dummy_reference ord a x s =
     rbind (first_data x) (\<lambda>t.
       case new_pointer a t s of
         (r, s') \<Rightarrow> Inr (modify_ref r (fold dummy_attr (ord (attributes x))) (link_later r (addReference a r s'))))"

definition initiateDummyXMLReferences ::
    "attr_order \<Rightarrow> nat \<Rightarrow> xnode \<Rightarrow> opcua_namespace \<Rightarrow> opcua_namespace res" where
  "initiateDummyXMLReferences ord a x s =
     (if tagName x \<noteq> ''References'' then Inr s
      else foldM (dummy_reference ord a) (filter is_element (childNodes x)) s)"

section \<open>Attributes and elements of the base class\<close>

definition browseName :: "nat \<Rightarrow> string \<Rightarrow> opcua_namespace \<Rightarrow> opcua_namespace" where
  "browseName a v = modify_node a (\<lambda>n. n\<lparr>n_browseName := v\<rparr>)"

definition displayName :: "nat \<Rightarrow> string \<Rightarrow> opcua_namespace \<Rightarrow> opcua_namespace" where
  "displayName a v = modify_node a (\<lambda>n. n\<lparr>n_displayName := v\<rparr>)"

definition node_description :: "nat \<Rightarrow> string \<Rightarrow> opcua_namespace \<Rightarrow> opcua_namespace" where
  "node_description a v = modify_node a (\<lambda>n. n\<lparr>n_description := v\<rparr>)"

definition writeMask :: "nat \<Rightarrow> int \<Rightarrow> opcua_namespace \<Rightarrow> opcua_namespace" where
  "writeMask a v = modify_node a (\<lambda>n. n\<lparr>n_writeMask := v\<rparr>)"

definition userWriteMask :: "nat \<Rightarrow> int \<Rightarrow> opcua_namespace \<Rightarrow> opcua_namespace" where
  "userWriteMask a v = modify_node a (\<lambda>n. n\<lparr>n_userWriteMask := v\<rparr>)"

text \<open>
  \<open>eventNotifier(int(v))\<close>: only objects and views have the method, and that of an object compares
  where it should assign.
\<close>

definition eventNotifier :: "string \<Rightarrow> node_part \<Rightarrow> node_part res" where
  "eventNotifier v p =
     (case p of
        ObjectNode e \<Rightarrow> rbind (py2_int v) (\<lambda>n. Inr p)
      | ViewNode w \<Rightarrow> rbind (py2_int v) (\<lambda>n.
          Inr (if small_int n then ViewNode (w\<lparr>vi_eventNotifier := n\<rparr>) else p))
      | _ \<Rightarrow> Inl AttributeError)"

definition base_attr_names :: "string list" where
  "base_attr_names = [''NodeId'', ''BrowseName'', ''DisplayName'', ''Description'', ''WriteMask'',
     ''UserWriteMask'', ''EventNotifier'', ''ParentNodeId'']"

definition base_attr :: "nat \<Rightarrow> string \<times> string \<Rightarrow> opcua_namespace \<Rightarrow> opcua_namespace res" where
  "base_attr a av s =
     (let (at, v) = av in
      if at = ''BrowseName'' then Inr (browseName a v s)
      else if at = ''DisplayName'' then Inr (displayName a v s)
      else if at = ''Description'' then Inr (node_description a v s)
      else if at = ''WriteMask'' then rbind (py2_int v) (\<lambda>n. Inr (writeMask a n s))
      else if at = ''UserWriteMask'' then rbind (py2_int v) (\<lambda>n. Inr (userWriteMask a n s))
      else if at = ''EventNotifier'' then
        rbind (eventNotifier v (n_part (node_at s a))) (\<lambda>p. Inr (modify_part a (\<lambda>_. p) s))
      else Inr s)"

text \<open>
  A child element; the boolean says whether it was removed.  The browse name of a child element is
  \<open>unicode\<close> and not set.
\<close>

definition base_child ::
    "attr_order \<Rightarrow> nat \<Rightarrow> xnode \<Rightarrow> opcua_namespace \<Rightarrow> (opcua_namespace \<times> bool) res" where
  "base_child ord a x s =
     (if tagName x = ''References'' then
        rbind (initiateDummyXMLReferences ord a x s) (\<lambda>s'. Inr (s', True))
      else if childNodes x = [] then Inr (s, False)
      else if tagName x = ''BrowseName'' then rbind (first_data x) (\<lambda>v. Inr (s, True))
      else if tagName x = ''DisplayName'' then
        rbind (first_data x) (\<lambda>v. Inr (displayName a v s, True))
      else if tagName x = ''Description'' then
        rbind (first_data x) (\<lambda>v. Inr (node_description a v s, True))
      else if tagName x = ''WriteMask'' then
        rbind (first_data x) (\<lambda>v. rbind (py2_int v) (\<lambda>n. Inr (writeMask a n s, True)))
      else if tagName x = ''UserWriteMask'' then
        rbind (first_data x) (\<lambda>v. rbind (py2_int v) (\<lambda>n. Inr (userWriteMask a n s, True)))
      else Inr (s, False))"

text \<open>
  The loop over the children removes from the list it walks, so the child after a removed one is
  skipped and stays.
\<close>

fun base_children ::
    "attr_order \<Rightarrow> nat \<Rightarrow> xnode list \<Rightarrow> opcua_namespace \<Rightarrow> (opcua_namespace \<times> xnode list) res" where
  "base_children ord a [] s = Inr (s, [])"
| "base_children ord a [x] s =
     (if is_element x then
        rbind (base_child ord a x s) (\<lambda>(s', gone). Inr (s', if gone then [] else [x]))
      else Inr (s, [x]))"
| "base_children ord a (x # y # ys) s =
     (if is_element x then
        rbind (base_child ord a x s) (\<lambda>(s', gone).
          if gone then rbind (base_children ord a ys s') (\<lambda>(t, rest). Inr (t, y # rest))
          else rbind (base_children ord a (y # ys) s') (\<lambda>(t, rest). Inr (t, x # rest)))
      else rbind (base_children ord a (y # ys) s) (\<lambda>(t, rest). Inr (t, x # rest)))"

section \<open>Attributes and elements of the classes\<close>

text \<open>The value a boolean attribute stands for, where anything but \<open>false\<close> is true.\<close>

definition rt_attr :: "string \<times> string \<Rightarrow> referenceType_part \<Rightarrow> referenceType_part" where
  "rt_attr av w =
     (let (at, v) = av in
      if at = ''Symmetric'' then w\<lparr>rt_symmetric := \<not> is_false v\<rparr>
      else if at = ''InverseName'' then w\<lparr>rt_inverseName := v\<rparr>
      else if at = ''IsAbstract'' then w\<lparr>rt_isAbstract := \<not> is_false v\<rparr>
      else w)"

definition rt_child :: "xnode \<Rightarrow> referenceType_part \<Rightarrow> referenceType_part res" where
  "rt_child x w =
     (if tagName x = ''InverseName'' \<and> childNodes x \<noteq> []
      then rbind (first_data x) (\<lambda>v. Inr (w\<lparr>rt_inverseName := v\<rparr>))
      else Inr w)"

definition ob_attr :: "string \<times> string \<Rightarrow> node_part \<Rightarrow> node_part res" where
  "ob_attr av p = (if fst av = ''EventNotifier'' then eventNotifier (snd av) p else Inr p)"

text \<open>A pointer to a data type or a method declaration, registered for linking.\<close>

definition part_pointer ::
    "nat \<Rightarrow> string \<Rightarrow> (nat \<Rightarrow> node_part) \<Rightarrow> opcua_namespace \<Rightarrow> opcua_namespace" where
  "part_pointer a v f s =
     (case new_pointer a v s of (r, s') \<Rightarrow> link_later r (modify_part a (\<lambda>_. f r) s'))"

definition set_dataType :: "nat \<Rightarrow> variable_part \<Rightarrow> string \<Rightarrow> opcua_namespace \<Rightarrow> opcua_namespace" where
  "set_dataType a w v = part_pointer a v (\<lambda>r. VariableNode (w\<lparr>va_dataType := Some r\<rparr>))"

definition va_attr ::
    "py_env \<Rightarrow> nat \<Rightarrow> string \<times> string \<Rightarrow> opcua_namespace \<Rightarrow> opcua_namespace res" where
  "va_attr env a av s =
     (case (av, n_part (node_at s a)) of
        ((at, v), VariableNode w) \<Rightarrow>
          (let set = (\<lambda>w'. Inr (modify_part a (\<lambda>_. VariableNode w') s)) in
           if at = ''ValueRank'' then
             rbind (py2_int v) (\<lambda>n. set (if small_int n then w\<lparr>va_valueRank := n\<rparr> else w))
           else if at = ''AccessLevel'' then rbind (py2_int v) (\<lambda>n. set (w\<lparr>va_accessLevel := n\<rparr>))
           else if at = ''UserAccessLevel'' then
             rbind (py2_int v) (\<lambda>n. set (w\<lparr>va_userAccessLevel := n\<rparr>))
           else if at = ''MinimumSamplingInterval'' then
             rbind (py_float env v) (\<lambda>f. set (w\<lparr>va_minimumSamplingInterval := f\<rparr>))
           else if at = ''DataType'' then Inr (set_dataType a w v s)
           else Inr s)
      | _ \<Rightarrow> Inr s)"

text \<open>
  \<open>av\<close> is the value the loop over the attributes left in its variable: a \<open>DataType\<close> element takes it
  instead of its own text.
\<close>

definition va_child ::
    "py_env \<Rightarrow> string option \<Rightarrow> nat \<Rightarrow> xnode \<Rightarrow> opcua_namespace \<Rightarrow> opcua_namespace res" where
  "va_child env av a x s =
     (case n_part (node_at s a) of
        VariableNode w \<Rightarrow>
          (let set = (\<lambda>w'. Inr (modify_part a (\<lambda>_. VariableNode w') s));
               num = (\<lambda>f. rbind (first_data x) (\<lambda>v. rbind (py2_int v) (\<lambda>n. set (f n)))) in
           if tagName x = ''Value'' then set (w\<lparr>va_xmlValueDef := Some x\<rparr>)
           else if tagName x = ''DataType'' then
             (case av of None \<Rightarrow> Inl NameError | Some v \<Rightarrow> Inr (set_dataType a w v s))
           else if tagName x = ''ValueRank'' then
             num (\<lambda>n. if small_int n then w\<lparr>va_valueRank := n\<rparr> else w)
           else if tagName x = ''ArrayDimensions'' then num (\<lambda>n. w\<lparr>va_arrayDimensions := PInt n\<rparr>)
           else if tagName x = ''AccessLevel'' then num (\<lambda>n. w\<lparr>va_accessLevel := n\<rparr>)
           else if tagName x = ''UserAccessLevel'' then num (\<lambda>n. w\<lparr>va_userAccessLevel := n\<rparr>)
           else if tagName x = ''MinimumSamplingInterval'' then
             rbind (first_data x) (\<lambda>v. rbind (py_float env v) (\<lambda>f.
               set (w\<lparr>va_minimumSamplingInterval := f\<rparr>)))
           else if tagName x = ''Historizing'' then
             rbind (first_data x) (\<lambda>v. set (if is_true v then w\<lparr>va_historizing := True\<rparr> else w))
           else Inr s)
      | _ \<Rightarrow> Inr s)"

definition last_value :: "(string \<times> string) list \<Rightarrow> string option" where
  "last_value avs = (if avs = [] then None else Some (snd (last avs)))"

definition me_attr :: "nat \<Rightarrow> string \<times> string \<Rightarrow> opcua_namespace \<Rightarrow> opcua_namespace" where
  "me_attr a av s =
     (case n_part (node_at s a) of
        MethodNode w \<Rightarrow>
          if fst av = ''MethodDeclarationId''
          then part_pointer a (snd av) (\<lambda>r. MethodNode (w\<lparr>me_declaration := Some r\<rparr>)) s
          else s
      | _ \<Rightarrow> s)"

text \<open>An object type is never made abstract, only concrete, which it is from the start.\<close>

definition ot_attr :: "string \<times> string \<Rightarrow> node_part \<Rightarrow> node_part" where
  "ot_attr av p =
     (case p of
        ObjectTypeNode b \<Rightarrow> ObjectTypeNode (if fst av = ''IsAbstract'' \<and> is_false (snd av) then False else b)
      | _ \<Rightarrow> p)"

definition vt_attr :: "nat \<Rightarrow> string \<times> string \<Rightarrow> opcua_namespace \<Rightarrow> opcua_namespace res" where
  "vt_attr a av s =
     (case (av, n_part (node_at s a)) of
        ((at, v), VariableTypeNode w) \<Rightarrow>
          (let set = (\<lambda>w'. Inr (modify_part a (\<lambda>_. VariableTypeNode w') s)) in
           if at = ''IsAbstract'' then set (w\<lparr>vt_isAbstract := \<not> is_false v\<rparr>)
           else if at = ''ValueRank'' then
             rbind (py2_int v) (\<lambda>n. set (if small_int n then w\<lparr>vt_valueRank := n\<rparr> else w))
           else if at = ''DataType'' then
             Inr (part_pointer a v (\<lambda>r. VariableTypeNode (w\<lparr>vt_dataType := Some r\<rparr>)) s)
           else Inr s)
      | _ \<Rightarrow> Inr s)"

definition vt_child :: "xnode \<Rightarrow> node_part \<Rightarrow> node_part" where
  "vt_child x p =
     (case p of
        VariableTypeNode w \<Rightarrow>
          if tagName x = ''Definition'' then VariableTypeNode (w\<lparr>vt_xmlDefinition := Some x\<rparr>) else p
      | _ \<Rightarrow> p)"

definition dy_attr :: "string \<times> string \<Rightarrow> node_part \<Rightarrow> node_part" where
  "dy_attr av p =
     (case p of
        DataTypeNode w \<Rightarrow>
          if fst av = ''IsAbstract'' then DataTypeNode (w\<lparr>dy_isAbstract := is_true (snd av)\<rparr>) else p
      | _ \<Rightarrow> p)"

definition dy_child :: "xnode \<Rightarrow> node_part \<Rightarrow> node_part" where
  "dy_child x p =
     (case p of
        DataTypeNode w \<Rightarrow>
          if tagName x = ''Definition'' then DataTypeNode (w\<lparr>dy_xmlDefinition := Some x\<rparr>) else p
      | _ \<Rightarrow> p)"

definition rt_parse :: "(string \<times> string) list \<Rightarrow> xnode list \<Rightarrow> node_part \<Rightarrow> node_part res" where
  "rt_parse avs xs p =
     (case p of
        ReferenceTypeNode w \<Rightarrow> rbind (foldM rt_child xs (fold rt_attr avs w)) (\<lambda>w'. Inr (ReferenceTypeNode w'))
      | _ \<Rightarrow> Inr p)"

text \<open>
  \<open>parseXMLSubType\<close>, with the attributes and child nodes the base class left.  The class for views
  misspells the name of the method and inherits the empty one.
\<close>

definition parseXMLSubType ::
    "py_env \<Rightarrow> nat \<Rightarrow> (string \<times> string) list \<Rightarrow> xnode list \<Rightarrow> opcua_namespace \<Rightarrow> opcua_namespace res" where
  "parseXMLSubType env a avs rest s =
     (let p = n_part (node_at s a); xs = filter is_element rest;
          set = (\<lambda>p'. modify_part a (\<lambda>_. p') s) in
      case p of
        ReferenceTypeNode w \<Rightarrow> rbind (rt_parse avs xs p) (\<lambda>p'. Inr (set p'))
      | ObjectNode e \<Rightarrow> rbind (foldM ob_attr avs p) (\<lambda>p'. Inr (set p'))
      | VariableNode w \<Rightarrow> rbind (foldM (va_attr env a) avs s) (foldM (va_child env (last_value avs) a) xs)
      | MethodNode w \<Rightarrow> Inr (fold (me_attr a) avs s)
      | ObjectTypeNode b \<Rightarrow> Inr (set (fold ot_attr avs p))
      | VariableTypeNode w \<Rightarrow>
          rbind (foldM (vt_attr a) avs s) (\<lambda>s'. Inr (modify_part a (fold vt_child xs) s'))
      | DataTypeNode w \<Rightarrow> Inr (set (fold dy_child xs (fold dy_attr avs p)))
      | ViewNode w \<Rightarrow> Inr s)"

definition node_parseXML ::
    "attr_order \<Rightarrow> py_env \<Rightarrow> nat \<Rightarrow> xnode \<Rightarrow> opcua_namespace \<Rightarrow> opcua_namespace res" where
  "node_parseXML ord env a x s =
     rbind (foldM (base_attr a) (ord (attributes x)) s) (\<lambda>s1.
     rbind (base_children ord a (childNodes x) s1) (\<lambda>(s2, rest).
       parseXMLSubType env a (ord (filter (\<lambda>av. fst av \<notin> set base_attr_names) (attributes x))) rest s2))"

end
