(* ===== verification/Namespace.thy ===== *)
theory Namespace
  imports Node_Parse
begin

text \<open>
  \<open>opcua_namespace\<close> of ua_namespace.py: reading node sets into nodes, aliases and open pointers,
  linking the pointers, and checking the graph.  Looking up the value of every variable along its
  data type is the end of the construction.
\<close>

section \<open>Aliases and lookup\<close>

definition addNamespace :: "int \<Rightarrow> string \<Rightarrow> opcua_namespace \<Rightarrow> opcua_namespace" where
  "addNamespace k url s = s\<lparr>namespaceIdentifiers := (namespaceIdentifiers s)(k \<mapsto> url)\<rparr>"

definition unlinkedItemCount :: "opcua_namespace \<Rightarrow> nat" where
  "unlinkedItemCount s = length (linkLater s)"

text \<open>The first definition of an alias stays.\<close>

definition add_alias :: "xnode \<Rightarrow> opcua_namespace \<Rightarrow> opcua_namespace res" where
  "add_alias x s =
     (case get_attribute ''Alias'' x of
        None \<Rightarrow> Inr s
      | Some n \<Rightarrow> rbind (first_data x) (\<lambda>v.
          Inr (if n \<in> dom (aliases s) then s else s\<lparr>aliases := (aliases s)(n \<mapsto> v)\<rparr>)))"

definition buildAliasList :: "xnode \<Rightarrow> opcua_namespace \<Rightarrow> opcua_namespace res" where
  "buildAliasList x s =
     (if tagName x \<noteq> ''Aliases'' then Inr s
      else foldM add_alias (filter is_element (childNodes x)) s)"

definition getNodeByBrowseName :: "opcua_namespace \<Rightarrow> string \<Rightarrow> nat option" where
  "getNodeByBrowseName s t = List.find (\<lambda>a. n_browseName (node_at s a) = t) (ns_nodes s)"

definition ns_getNodeByIDString :: "opcua_namespace \<Rightarrow> string \<Rightarrow> nat option" where
  "ns_getNodeByIDString s t = List.find (\<lambda>a. id_str (n_id (node_at s a)) = t) (ns_nodes s)"

definition getRoot :: "opcua_namespace \<Rightarrow> nat option" where
  "getRoot s = getNodeByBrowseName s ''Root''"

section \<open>Creating nodes\<close>

text \<open>The last of the three spellings that is present gives the id.\<close>

definition id_attribute :: "xnode \<Rightarrow> string option" where
  "id_attribute x =
     fold (\<lambda>n i. case get_attribute n x of None \<Rightarrow> i | Some v \<Rightarrow> Some v) [''NodeId'', ''NodeID'', ''nodeid''] None"

text \<open>
  The class of a node type.  The class for method types does not exist; other names give no node,
  and registering none raises an exception as well.
\<close>

definition node_constructor :: "string \<Rightarrow> node_part res" where
  "node_constructor t =
     (if t = ''variable'' then Inr new_variable
      else if t = ''object'' then Inr new_object
      else if t = ''method'' then Inr new_method
      else if t = ''objecttype'' then Inr new_objectType
      else if t = ''variabletype'' then Inr new_variableType
      else if t = ''methodtype'' then Inl NameError
      else if t = ''datatype'' then Inr new_dataType
      else if t = ''referencetype'' then Inr new_referenceType
      else Inl AttributeError)"

text \<open>A node that is defined again is replaced.\<close>

definition drop_duplicate :: "string \<Rightarrow> opcua_namespace \<Rightarrow> opcua_namespace res" where
  "drop_duplicate t s =
     (if t \<in> dom (nodeids s) then
        (case ns_getNodeByIDString s t of
           None \<Rightarrow> Inl ValueError
         | Some a \<Rightarrow> Inr (s\<lparr>ns_nodes := remove1 a (ns_nodes s),
                            nodeids := (nodeids s)(id_str (n_id (node_at s a)) := None)\<rparr>))
      else Inr s)"

definition register_node :: "nat \<Rightarrow> opcua_namespace \<Rightarrow> opcua_namespace" where
  "register_node a s =
     s\<lparr>ns_nodes := ns_nodes s @ [a], nodeids := (nodeids s)(id_str (n_id (node_at s a)) \<mapsto> a)\<rparr>"

definition createNode ::
    "attr_order \<Rightarrow> py_env \<Rightarrow> string \<Rightarrow> xnode \<Rightarrow> opcua_namespace \<Rightarrow> opcua_namespace res" where
  "createNode ord env ndtype x s =
     (if \<not> is_element x then Inr s
      else if ndtype = ''aliases'' then buildAliasList x s
      else case id_attribute x of
        None \<Rightarrow> Inr s
      | Some t \<Rightarrow>
          rbind (parse_node_id t) (\<lambda>i.
          rbind (drop_duplicate (id_str i) s) (\<lambda>s1.
          rbind (node_constructor ndtype) (\<lambda>p.
          case new_node (node_init i p) s1 of
            (a, s2) \<Rightarrow> rbind (node_parseXML ord env a x s2) (\<lambda>s3. Inr (register_node a s3))))))"

definition knownNodeTypes :: "string list" where
  "knownNodeTypes = [''variable'', ''object'', ''method'', ''referencetype'', ''objecttype'',
     ''variabletype'', ''methodtype'', ''datatype'', ''referencetype'', ''aliases'']"

text \<open>The node type an element stands for.\<close>

definition element_type :: "xnode \<Rightarrow> string option" where
  "element_type x =
     (let t = str_lower (tagName x) in
      if take 2 t = ''ua'' then Some (drop 2 t)
      else if t \<in> set knownNodeTypes then Some t else None)"

definition parse_element ::
    "attr_order \<Rightarrow> py_env \<Rightarrow> xnode \<Rightarrow> opcua_namespace \<Rightarrow> opcua_namespace res" where
  "parse_element ord env x s =
     (case element_type x of None \<Rightarrow> Inr s | Some t \<Rightarrow> createNode ord env t x s)"

text \<open>\<open>parseXML\<close>, on the root element of the document.\<close>

definition ns_parseXML :: "attr_order \<Rightarrow> py_env \<Rightarrow> xnode \<Rightarrow> opcua_namespace \<Rightarrow> opcua_namespace res" where
  "ns_parseXML ord env root s =
     (case elements_below ''UANodeSet'' root of
        [] \<Rightarrow> Inr s
      | u # _ \<Rightarrow> foldM (parse_element ord env) (filter is_element (childNodes u)) s)"

text \<open>
  Removing a node tells the nodes that refer to it, which raises an exception; the id stays
  registered.
\<close>

definition removeNodeById :: "string \<Rightarrow> opcua_namespace \<Rightarrow> (opcua_namespace \<times> bool) res" where
  "removeNodeById t s =
     (case ns_getNodeByIDString s t of
        None \<Rightarrow> Inr (s, False)
      | Some a \<Rightarrow>
          (let s1 = s\<lparr>ns_nodes := remove1 a (ns_nodes s)\<rparr> in
           rbind (foldM (\<lambda>r s. case r_target (ref_at s r) of
                                 TNode b \<Rightarrow> removeReferenceToNode b a s
                               | _ \<Rightarrow> Inl AttributeError) (n_referencedBy (node_at s1 a)) s1)
             (\<lambda>s2. Inr (s2, True))))"

section \<open>Linking\<close>

definition is_id_text :: "string \<Rightarrow> bool" where
  "is_id_text t \<longleftrightarrow> take 2 t \<in> {''i='', ''g='', ''b='', ''s=''} \<or> take 3 t = ''ns=''"

definition resolve_alias :: "opcua_namespace \<Rightarrow> string \<Rightarrow> string" where
  "resolve_alias s t = (case aliases s t of None \<Rightarrow> t | Some u \<Rightarrow> u)"

text \<open>The target of a pointer, and whether it was linked now.\<close>

definition link_target :: "nat \<Rightarrow> opcua_namespace \<Rightarrow> opcua_namespace \<times> bool" where
  "link_target r s =
     (case r_target (ref_at s r) of
        TText t \<Rightarrow>
          (let u = resolve_alias s t; s1 = modify_ref r (ref_target (TText u)) s in
           if is_id_text u then
             (case ns_getNodeByIDString s1 u of
                None \<Rightarrow> (s1, False)
              | Some a \<Rightarrow> (modify_ref r (ref_target (TNode a)) s1, True))
           else (s1, False))
      | _ \<Rightarrow> (s, False))"

text \<open>
  The type of a pointer, and whether it has none or was linked now.  The message about one that
  already is a node raises an exception.
\<close>

definition link_type :: "nat \<Rightarrow> opcua_namespace \<Rightarrow> (opcua_namespace \<times> bool) res" where
  "link_type r s =
     (case r_type (ref_at s r) of
        TNone \<Rightarrow> Inr (s, True)
      | TNode a \<Rightarrow>
          (case ns_getNodeByIDString s (node_str (node_at s a)) of
             None \<Rightarrow> Inl TypeError
           | Some b \<Rightarrow> Inr (modify_ref r (ref_referenceType (TNode b)) s, True))
      | TText t \<Rightarrow>
          (let u = resolve_alias s t; s1 = modify_ref r (ref_referenceType (TText u)) s in
           case ns_getNodeByIDString s1 u of
             None \<Rightarrow> Inr (s1, False)
           | Some b \<Rightarrow> Inr (modify_ref r (ref_referenceType (TNode b)) s1, True)))"

definition link_pointer ::
    "nat \<Rightarrow> opcua_namespace \<times> nat list \<Rightarrow> (opcua_namespace \<times> nat list) res" where
  "link_pointer r st =
     (case st of (s, linked) \<Rightarrow>
        (case link_target r s of
           (s1, t) \<Rightarrow> rbind (link_type r s1) (\<lambda>(s2, ty). Inr (s2, if ty \<and> t then linked @ [r] else linked))))"

text \<open>
  A reference against the arrow gives its target a reference with the arrow.  The list that is
  walked may grow, by references with the arrow, which are passed over.
\<close>

definition invert_reference :: "nat \<Rightarrow> nat \<Rightarrow> opcua_namespace \<Rightarrow> opcua_namespace" where
  "invert_reference a r s =
     (if r_forward (ref_at s r) then s
      else case r_target (ref_at s r) of
        TNode t \<Rightarrow>
          (case new_ref (ref_referenceType (r_type (ref_at s r)) (referencePointer_init (TNode a) False (Some t))) s of
             (q, s') \<Rightarrow> addReference t q s')
      | _ \<Rightarrow> s)"

definition invert_references :: "nat \<Rightarrow> opcua_namespace \<Rightarrow> opcua_namespace" where
  "invert_references a s = fold (invert_reference a) (n_references (node_at s a)) s"

definition link_all_targets :: "opcua_namespace \<Rightarrow> (opcua_namespace \<times> nat list) res" where
  "link_all_targets s = foldM link_pointer (linkLater s) (s, [])"

definition linkOpenPointers :: "opcua_namespace \<Rightarrow> opcua_namespace res" where
  "linkOpenPointers s =
     rbind (link_all_targets s) (\<lambda>(s1, linked).
       let s2 = fold invert_references (ns_nodes s1) s1;
           s3 = fold updateInverseReferences (ns_nodes s2) s2
       in rbind (foldM (list_remove s3) linked (linkLater s3)) (\<lambda>rest. Inr (s3\<lparr>linkLater := rest\<rparr>)))"

section \<open>Checking the nodes\<close>

text \<open>
  \<open>sanitizeSubType\<close>: a reference type never has the pointer that is asked for, and every variable
  type fails one of the two tests.  \<open>None\<close> is the result of the classes without a check.
\<close>

definition pointer_is_linked :: "opcua_namespace \<Rightarrow> nat option \<Rightarrow> bool" where
  "pointer_is_linked s r = (case r of None \<Rightarrow> False | Some q \<Rightarrow> is_node (r_target (ref_at s q)))"

definition sanitizeSubType :: "opcua_namespace \<Rightarrow> node_part \<Rightarrow> node_part \<times> bool option" where
  "sanitizeSubType s p =
     (case p of
        ReferenceTypeNode w \<Rightarrow> (p, Some False)
      | VariableNode w \<Rightarrow>
          if pointer_is_linked s (va_dataType w) then (p, Some True)
          else (VariableNode (w\<lparr>va_dataType := None\<rparr>), Some False)
      | MethodNode w \<Rightarrow>
          (p, if me_declaration w = None \<or> pointer_is_linked s (me_declaration w) then None else Some False)
      | VariableTypeNode w \<Rightarrow> (p, Some False)
      | _ \<Rightarrow> (p, None))"

definition sanitize_references :: "nat \<Rightarrow> opcua_namespace \<Rightarrow> opcua_namespace" where
  "sanitize_references a s =
     modify_node a (\<lambda>n. n\<lparr>n_references :=
       filter (\<lambda>r. is_node (r_type (ref_at s r)) \<and> is_node (r_target (ref_at s r))) (n_references n)\<rparr>) s"

definition really_referenced :: "opcua_namespace \<Rightarrow> nat \<Rightarrow> nat \<Rightarrow> bool" where
  "really_referenced s a r =
     (case r_target (ref_at s r) of TNode t \<Rightarrow> hasReferenceTarget s t a | _ \<Rightarrow> False)"

definition reached_regularly :: "opcua_namespace \<Rightarrow> nat \<Rightarrow> nat \<Rightarrow> bool" where
  "reached_regularly s a r =
     (case r_target (ref_at s r) of TNode t \<Rightarrow> hasReferenceTarget s a t | _ \<Rightarrow> False)"

text \<open>The message about an inverse reference that is not needed raises an exception.\<close>

definition sanitize_inverse :: "nat \<Rightarrow> opcua_namespace \<Rightarrow> opcua_namespace res" where
  "sanitize_inverse a s =
     (let s1 = modify_node a (\<lambda>n. n\<lparr>n_referencedBy := filter (really_referenced s a) (n_referencedBy n)\<rparr>) s in
      if list_ex (reached_regularly s1 a) (n_referencedBy (node_at s1 a)) then Inl AttributeError
      else Inr s1)"

definition node_sanitize :: "nat \<Rightarrow> opcua_namespace \<Rightarrow> (opcua_namespace \<times> bool option) res" where
  "node_sanitize a s =
     rbind (sanitize_inverse a (sanitize_references a s)) (\<lambda>s1.
       case sanitizeSubType s1 (n_part (node_at s1 a)) of
         (p, ok) \<Rightarrow> Inr (modify_part a (\<lambda>_. p) s1, ok))"

text \<open>\<open>sanitize\<close> counts the nodes that fail and removes none.\<close>

definition ns_sanitize :: "opcua_namespace \<Rightarrow> (opcua_namespace \<times> nat list) res" where
  "ns_sanitize s =
     foldM (\<lambda>a (s, failed). rbind (node_sanitize a s) (\<lambda>(s', ok).
              Inr (s', if ok = Some False then failed @ [a] else failed))) (ns_nodes s) (s, [])"

end
