(* ===== verification/Macro_Helper.thy ===== *)
theory Macro_Helper
  imports Namespace
begin

text \<open>
  \<open>open62541_MacroHelper\<close>: the macros that name a node in C code, the names defined for node ids in
  the header, the calls that add references, and the code that creates a node in the node store.
  What prints a node with \<open>UA_Server_add...Node\<close> needs the printers of the node classes and is in
  Node_Print.
\<close>

section \<open>Macros for node ids\<close>

definition id_macro :: "string \<Rightarrow> node_id \<Rightarrow> string" where
  "id_macro macro i =
     (case id_i i of
        Some k \<Rightarrow> macro @ ''_NUMERIC('' @ int_str (id_ns i) @ '', '' @ int_str k @ '')''
      | None \<Rightarrow>
          (case id_s i of
             Some t \<Rightarrow> macro @ ''_STRING('' @ int_str (id_ns i) @ '', '' @ t @ '')''
           | None \<Rightarrow> ''''))"

text \<open>The argument is a node; a text that was not linked and \<open>None\<close> have no id.\<close>

definition getCreateNodeIDMacro :: "opcua_namespace \<Rightarrow> target \<Rightarrow> string res" where
  "getCreateNodeIDMacro s t =
     (case t of TNode a \<Rightarrow> Inr (id_macro ''UA_NODEID'' (n_id (node_at s a))) | _ \<Rightarrow> Inl AttributeError)"

definition getCreateExpandedNodeIDMacro :: "opcua_namespace \<Rightarrow> target \<Rightarrow> string res" where
  "getCreateExpandedNodeIDMacro s t =
     (case t of TNode a \<Rightarrow> Inr (id_macro ''UA_EXPANDEDNODEID'' (n_id (node_at s a))) | _ \<Rightarrow> Inl AttributeError)"

definition getCreateStandaloneReference :: "opcua_namespace \<Rightarrow> nat \<Rightarrow> nat \<Rightarrow> string list res" where
  "getCreateStandaloneReference s a r =
     rbind (getCreateNodeIDMacro s (TNode a)) (\<lambda>source.
     rbind (getCreateNodeIDMacro s (r_type (ref_at s r))) (\<lambda>ty.
     rbind (getCreateExpandedNodeIDMacro s (r_target (ref_at s r))) (\<lambda>tgt.
       Inr [''UA_Server_addReference(server, '' @ source @ '', '' @ ty @ '', '' @ tgt @
            (if r_forward (ref_at s r) then '', true);'' else '', false);'')])))"

section \<open>Names for the header\<close>

text \<open>\<open>string.punctuation\<close>\<close>

definition punctuation :: string where
  "punctuation = map char_of ([33..<48] @ [58..<65] @ [91..<97] @ [123..<127])"

definition substitutePunctuationCharacters :: "string \<Rightarrow> string" where
  "substitutePunctuationCharacters t =
     fold (\<lambda>c t. if c = CHR ''_'' then t else replace_all [c] ''_'' t) punctuation t"

text \<open>The name without the number of the namespace in front of the colon.\<close>

definition name_of_browseName :: "string \<Rightarrow> string" where
  "name_of_browseName t = (let extrNs = split_on (CHR '':'') t in if length extrNs > 1 then extrNs ! 1 else extrNs ! 0)"

text \<open>The loop that looks for a number that makes the name new.\<close>

function extended_number :: "string list \<Rightarrow> string \<Rightarrow> nat \<Rightarrow> nat" where
  "extended_number names name k =
     (if numbered name k \<in> set names then extended_number names name (Suc k) else k)"
  by pat_completeness auto
termination
proof (relation "measure (\<lambda>(names, name, k). card {j. k \<le> j \<and> numbered name j \<in> set names})")
  fix names name k
  assume "numbered name k \<in> set names"
  then have "k \<in> {j. k \<le> j \<and> numbered name j \<in> set names}" "k \<notin> {j. Suc k \<le> j \<and> numbered name j \<in> set names}"
    by simp_all
  moreover have "{j. Suc k \<le> j \<and> numbered name j \<in> set names} \<subseteq> {j. k \<le> j \<and> numbered name j \<in> set names}"
    by auto
  ultimately have "{j. Suc k \<le> j \<and> numbered name j \<in> set names} \<subset> {j. k \<le> j \<and> numbered name j \<in> set names}"
    by blast
  then have "card {j. Suc k \<le> j \<and> numbered name j \<in> set names} < card {j. k \<le> j \<and> numbered name j \<in> set names}"
    by (rule psubset_card_mono [OF finite_numbered])
  then show "((names, name, Suc k), (names, name, k)) \<in>
      measure (\<lambda>(names, name, k). card {j. k \<le> j \<and> numbered name j \<in> set names})" by simp
qed simp

declare extended_number.simps [simp del]

text \<open>
  The names given so far, a variable of the module, are a second argument and result.
\<close>

definition symbolic_name :: "string list \<Rightarrow> string \<Rightarrow> string" where
  "symbolic_name names t =
     (let name = substitutePunctuationCharacters (name_of_browseName t) in
      if name \<in> set names then numbered name (extended_number names name 1) else name)"

definition getNodeIdDefineString :: "opcua_node \<Rightarrow> string list \<Rightarrow> string list \<times> string list" where
  "getNodeIdDefineString n names =
     (let name = symbolic_name names (n_browseName n) in
      ([''#define UA_NS'' @ int_str (id_ns (n_id n)) @ ''ID_'' @ str_upper name @ '' '' @ opt_int_str (id_i (n_id n))],
       names @ [name]))"

section \<open>Creating a node in the node store\<close>

definition nodetype :: "int \<Rightarrow> string option" where
  "nodetype c =
     (if c = 1 then Some ''Object'' else if c = 2 then Some ''Variable'' else if c = 4 then Some ''Method''
      else if c = 8 then Some ''ObjectType'' else if c = 32 then Some ''ReferenceType''
      else if c = 16 then Some ''VariableType'' else if c = 64 then Some ''DataType''
      else if c = 128 then Some ''View'' else None)"

definition node_comment :: "opcua_node \<Rightarrow> string" where
  "node_comment n = ''// Node: '' @ node_str n @ '', '' @ n_browseName n"

text \<open>The arguments of the macros for qualified names.\<close>

definition qualified_name :: "string \<Rightarrow> string" where
  "qualified_name t =
     (let extrNs = split_on (CHR '':'') t in
      if length extrNs > 1 then extrNs ! 0 @ '', \"'' @ extrNs ! 1 @ ''\"'' else ''0, \"'' @ t @ ''\"'')"

text \<open>The attributes, each unless its name is among the suppressed ones.\<close>

definition bootstrap_attributes :: "string list \<Rightarrow> opcua_node \<Rightarrow> string list" where
  "bootstrap_attributes suppressed n =
     (let var = node_getCodePrintableID n in
      (if ''browsename'' \<in> set suppressed then []
       else [var @ ''->browseName = UA_QUALIFIEDNAME_ALLOC('' @ qualified_name (n_browseName n) @ '');'']) @
      (if ''displayname'' \<in> set suppressed then []
       else [var @ ''->displayName = UA_LOCALIZEDTEXT_ALLOC(\"en_US\", \"'' @ n_displayName n @ ''\");'']) @
      (if ''description'' \<in> set suppressed then []
       else [var @ ''->description = UA_LOCALIZEDTEXT_ALLOC(\"en_US\", \"'' @ n_description n @ ''\");'']) @
      (if ''writemask'' \<in> set suppressed \<or> n_writeMask n = 0 then []
       else [var @ ''->writeMask = (UA_Int32) '' @ int_str (n_writeMask n) @ '';'']) @
      (if ''userwritemask'' \<in> set suppressed \<or> n_userWriteMask n = 0 then []
       else [var @ ''->userWriteMask = (UA_Int32) '' @ int_str (n_userWriteMask n) @ '';'']))"

text \<open>
  The node id.  For an id that is neither a number nor a string all code of the node is dropped; for
  a string the text that is printed is that of the missing number.
\<close>

definition bootstrap_id :: "opcua_node \<Rightarrow> string list option" where
  "bootstrap_id n =
     (let var = node_getCodePrintableID n; i = n_id n;
          ns = (if id_ns i = 0 then [] else [var @ ''->nodeId.namespaceIndex = '' @ int_str (id_ns i) @ '';'']) in
      case id_i i of
        Some k \<Rightarrow> Some (ns @ [var @ ''->nodeId.identifier.numeric = '' @ int_str k @ '';''])
      | None \<Rightarrow>
          if id_b i \<noteq> None \<or> id_g i \<noteq> None \<or> id_s i = None then None
          else Some (ns @ [var @ ''->nodeId.identifierType = UA_NODEIDTYPE_STRING;'',
                           var @ ''->nodeId.identifier.numeric = UA_STRING_ALLOC(\"'' @ opt_int_str (id_i i) @ ''\");'']))"

text \<open>The result is \<open>None\<close> for a class that is not known.\<close>

definition getCreateNodeBootstrap :: "string list \<Rightarrow> opcua_node \<Rightarrow> string list option" where
  "getCreateNodeBootstrap suppressed n =
     (case nodetype (n_class n) of
        None \<Rightarrow> None
      | Some ty \<Rightarrow>
          (let code = [node_comment n,
                 ''UA_'' @ ty @ ''Node *'' @ node_getCodePrintableID n @ '' = UA_NodeStore_new'' @ ty @ ''Node();''] @
                 bootstrap_attributes suppressed n in
           if ''nodeid'' \<in> set suppressed then Some code
           else case bootstrap_id n of None \<Rightarrow> Some [] | Some ids \<Rightarrow> Some (code @ ids)))"

end
