(* ===== verification/Type_Encoding.thy ===== *)
theory Type_Encoding
  imports Namespace
begin

text \<open>
  \<open>buildEncoding\<close> of \<open>opcua_node_dataType_t\<close>: how the values of a data type are encoded, from its
  fields or its supertypes.  The function calls itself on other nodes of the graph and marks a node
  before it does, so a run is given fuel and \<open>None\<close> says that it did not suffice;
  \<open>build_terminates\<close> shows that one more than the number of nodes always does.
\<close>

section \<open>Runs\<close>

type_synonym 'a run = "'a res option"

definition run_return :: "'a \<Rightarrow> 'a run" where
  "run_return x = Some (Inr x)"

definition run_raise :: "py_error \<Rightarrow> 'a run" where
  "run_raise e = Some (Inl e)"

definition run_bind :: "'a run \<Rightarrow> ('a \<Rightarrow> 'b run) \<Rightarrow> 'b run" where
  "run_bind m f = (case m of None \<Rightarrow> None | Some (Inl e) \<Rightarrow> Some (Inl e) | Some (Inr x) \<Rightarrow> f x)"

section \<open>The encoding of a node\<close>

definition dataType_at :: "opcua_namespace \<Rightarrow> nat \<Rightarrow> dataType_part option" where
  "dataType_at s a = (case n_part (node_at s a) of DataTypeNode w \<Rightarrow> Some w | _ \<Rightarrow> None)"

definition modify_dataType ::
    "nat \<Rightarrow> (dataType_part \<Rightarrow> dataType_part) \<Rightarrow> opcua_namespace \<Rightarrow> opcua_namespace" where
  "modify_dataType a f = modify_part a (\<lambda>p. case p of DataTypeNode w \<Rightarrow> DataTypeNode (f w) | _ \<Rightarrow> p)"

definition isEncodable :: "opcua_namespace \<Rightarrow> nat \<Rightarrow> bool" where
  "isEncodable s a = (case dataType_at s a of None \<Rightarrow> False | Some w \<Rightarrow> dy_encodable w = Some True)"

definition set_unencodable :: "nat \<Rightarrow> opcua_namespace \<Rightarrow> opcua_namespace" where
  "set_unencodable a = modify_dataType a (\<lambda>w. w\<lparr>dy_encodable := Some False\<rparr>)"

definition append_encoding :: "nat \<Rightarrow> enc list \<Rightarrow> opcua_namespace \<Rightarrow> opcua_namespace" where
  "append_encoding a es = modify_dataType a (\<lambda>w. w\<lparr>dy_baseTypeEncoding := dy_baseTypeEncoding w @ es\<rparr>)"

definition encoding_of :: "opcua_namespace \<Rightarrow> nat \<Rightarrow> enc list" where
  "encoding_of s a = (case dataType_at s a of None \<Rightarrow> [] | Some w \<Rightarrow> dy_baseTypeEncoding w)"

text \<open>
  Loops that may break: the boolean says whether to go on.  \<open>sub\<close> is the recursive call.
\<close>

definition supertype_step ::
    "(nat \<Rightarrow> opcua_namespace \<Rightarrow> opcua_namespace run) \<Rightarrow> nat \<Rightarrow> nat \<Rightarrow> opcua_namespace \<Rightarrow>
     (opcua_namespace \<times> bool) run" where
  "supertype_step sub a r s =
     (case r_type (ref_at s r) of
        TNode ty \<Rightarrow>
          (if contains ''hassubtype'' (str_lower (n_browseName (node_at s ty))) \<and> \<not> r_forward (ref_at s r) then
             (case r_target (ref_at s r) of
                TNode t \<Rightarrow>
                  (if dataType_at s t = None then run_return (s, True)
                   else run_bind (sub t s) (\<lambda>s'.
                     if isEncodable s' t then
                       run_return (append_encoding a
                         [EncStr (n_browseName (node_at s' a)), EncList (encoding_of s' t), EncInt 0] s', True)
                     else run_return (set_unencodable a s', False)))
              | _ \<Rightarrow> run_return (s, True))
           else run_return (s, True))
      | _ \<Rightarrow> run_raise AttributeError)"

fun supertype_loop ::
    "(nat \<Rightarrow> opcua_namespace \<Rightarrow> opcua_namespace run) \<Rightarrow> nat \<Rightarrow> nat list \<Rightarrow> opcua_namespace \<Rightarrow> opcua_namespace run" where
  "supertype_loop sub a [] s = run_return s"
| "supertype_loop sub a (r # rs) s =
     run_bind (supertype_step sub a r s) (\<lambda>(s', go). if go then supertype_loop sub a rs s' else run_return s')"

text \<open>The attributes of a field.\<close>

record field_attrs =
  fname :: string
  fdtype :: string
  enumVal :: "int option"
  hasValueRank :: int
  isEnum :: bool
  isSubType :: bool

definition field_attr :: "string \<times> string \<Rightarrow> field_attrs \<Rightarrow> field_attrs res" where
  "field_attr av f =
     (let (at, v) = av in
      if at = ''DataType'' then Inr (f\<lparr>fdtype := v, isEnum := False\<rparr>)
      else if at = ''Name'' then Inr (f\<lparr>fname := v\<rparr>)
      else if at = ''Value'' then rbind (py2_int v) (\<lambda>n. Inr (f\<lparr>enumVal := Some n, isSubType := False\<rparr>))
      else if at = ''ValueRank'' then rbind (py2_int v) (\<lambda>n. Inr (f\<lparr>hasValueRank := n\<rparr>))
      else Inr f)"

definition read_field :: "attr_order \<Rightarrow> bool \<Rightarrow> bool \<Rightarrow> xnode \<Rightarrow> field_attrs res" where
  "read_field ord en st x =
     foldM field_attr (ord (attributes x))
       \<lparr>fname = [], fdtype = [], enumVal = None, hasValueRank = 0, isEnum = en, isSubType = st\<rparr>"

text \<open>What the loop over the fields has found so far.\<close>

record definition_state =
  st_isEnum :: bool
  st_isSubType :: bool
  st_enumDict :: "(string \<times> int option) list"
  st_typeDict :: "(string \<times> nat) list"

definition follow_field ::
    "(nat \<Rightarrow> opcua_namespace \<Rightarrow> opcua_namespace run) \<Rightarrow> nat \<Rightarrow> field_attrs \<Rightarrow> nat \<Rightarrow> definition_state \<Rightarrow>
     opcua_namespace \<Rightarrow> (definition_state \<times> opcua_namespace \<times> bool) run" where
  "follow_field sub a f t d s =
     (if dataType_at s t = None then run_raise AttributeError
      else run_bind (sub t s) (\<lambda>s'.
        let d' = d\<lparr>st_typeDict := st_typeDict d @ [(fname f, t)]\<rparr>;
            rank = max 0 (hasValueRank f);
            s2 = append_encoding a [EncList [EncStr (fname f), EncList (encoding_of s' t), EncInt rank]] s'
        in run_return (d', if isEncodable s' t then s2 else set_unencodable a s2, isEncodable s' t)))"

definition field_step ::
    "(nat \<Rightarrow> opcua_namespace \<Rightarrow> opcua_namespace run) \<Rightarrow> attr_order \<Rightarrow> nat \<Rightarrow> xnode \<Rightarrow> definition_state \<Rightarrow>
     opcua_namespace \<Rightarrow> (definition_state \<times> opcua_namespace \<times> bool) run" where
  "field_step sub ord a x d s =
     run_bind (Some (read_field ord (st_isEnum d) (st_isSubType d) x)) (\<lambda>f.
       let d' = d\<lparr>st_isEnum := isEnum f, st_isSubType := isSubType f\<rparr> in
       if isEnum f = isSubType f then run_return (d', set_unencodable a s, False)
       else if isEnum f then
         run_return (d'\<lparr>st_enumDict := st_enumDict d @ [(fname f, enumVal f)]\<rparr>, s, True)
       else
         (case ns_getNodeByIDString s (fdtype f) of
            None \<Rightarrow> run_return (d', set_unencodable a s, True)
          | Some t \<Rightarrow> follow_field sub a f t d' s))"

fun field_loop ::
    "(nat \<Rightarrow> opcua_namespace \<Rightarrow> opcua_namespace run) \<Rightarrow> attr_order \<Rightarrow> nat \<Rightarrow> xnode list \<Rightarrow>
     definition_state \<Rightarrow> opcua_namespace \<Rightarrow> (definition_state \<times> opcua_namespace) run" where
  "field_loop sub ord a [] d s = run_return (d, s)"
| "field_loop sub ord a (x # xs) d s =
     run_bind (field_step sub ord a x d s) (\<lambda>(d', s', go).
       if go then field_loop sub ord a xs d' s' else run_return (d', s'))"

text \<open>Enclosing lists of one list are taken off.\<close>

fun unnest :: "enc list \<Rightarrow> enc list" where
  "unnest [EncList es] = unnest es"
| "unnest es = es"

definition set_encoding :: "nat \<Rightarrow> enc list \<Rightarrow> opcua_namespace \<Rightarrow> opcua_namespace" where
  "set_encoding a es = modify_dataType a (\<lambda>w. w\<lparr>dy_baseTypeEncoding := es\<rparr>)"

definition finish_definition :: "bool \<Rightarrow> nat \<Rightarrow> definition_state \<times> opcua_namespace \<Rightarrow> opcua_namespace" where
  "finish_definition outer a ds =
     (let (d, s) = ds; es = unnest (encoding_of s a) in
      if st_isEnum d then
        modify_dataType a (\<lambda>w. w\<lparr>dy_isEnum := True, dy_definition := EnumDict (st_enumDict d)\<rparr>)
          (set_encoding a (es @ [EncStr ''Int32'']) s)
      else if outer \<and> isEncodable s a then
        modify_dataType a (\<lambda>w. w\<lparr>dy_isEnum := False, dy_definition := TypeDict (st_typeDict d)\<rparr>) (set_encoding a es s)
      else set_encoding a es s)"

definition finish_supertypes :: "nat \<Rightarrow> opcua_namespace \<Rightarrow> opcua_namespace" where
  "finish_supertypes a s = (if encoding_of s a = [] then set_unencodable a s else s)"

text \<open>One call; the result is in the node.\<close>

definition build_step ::
    "(nat \<Rightarrow> opcua_namespace \<Rightarrow> opcua_namespace run) \<Rightarrow> attr_order \<Rightarrow> bool \<Rightarrow> nat \<Rightarrow> opcua_namespace \<Rightarrow>
     opcua_namespace run" where
  "build_step sub ord outer a s =
     (case dataType_at s a of
        None \<Rightarrow> run_raise AttributeError
      | Some w \<Rightarrow>
          (if dy_encodingBuilt w then run_return s
           else
             let s1 = modify_dataType a (\<lambda>w. w\<lparr>dy_encodingBuilt := True, dy_encodable := Some True\<rparr>) s in
             if isBuiltinByString (n_browseName (node_at s a)) then
               run_return (set_encoding a [EncStr (n_browseName (node_at s a))] s1)
             else
               (case dy_xmlDefinition w of
                  None \<Rightarrow>
                    run_bind (supertype_loop sub a (n_references (node_at s a)) s1) (\<lambda>s2.
                      run_return (finish_supertypes a s2))
                | Some x \<Rightarrow>
                    run_bind (field_loop sub ord a (filter is_element (childNodes x))
                        \<lparr>st_isEnum = True, st_isSubType = True, st_enumDict = [], st_typeDict = []\<rparr> s1) (\<lambda>ds.
                      run_return (finish_definition outer a ds)))))"

fun build :: "nat \<Rightarrow> attr_order \<Rightarrow> bool \<Rightarrow> nat \<Rightarrow> opcua_namespace \<Rightarrow> opcua_namespace run" where
  "build 0 ord outer a s = None"
| "build (Suc k) ord outer a s = build_step (build k ord False) ord outer a s"

definition buildEncoding :: "attr_order \<Rightarrow> nat \<Rightarrow> opcua_namespace \<Rightarrow> opcua_namespace run" where
  "buildEncoding ord a s = build (Suc (length (node_heap s))) ord True a s"

text \<open>\<open>buildEncodingRules\<close>: all data types of the namespace, in its order.\<close>

fun buildEncodingRules :: "attr_order \<Rightarrow> nat list \<Rightarrow> opcua_namespace \<Rightarrow> opcua_namespace run" where
  "buildEncodingRules ord [] s = run_return s"
| "buildEncodingRules ord (a # as) s =
     (if dataType_at s a = None then buildEncodingRules ord as s
      else run_bind (buildEncoding ord a s) (buildEncodingRules ord as))"

section \<open>Values of variables\<close>

text \<open>\<open>getEncoding\<close>, of a node whose encoding was built or was never asked for.\<close>

definition getEncoding :: "attr_order \<Rightarrow> nat \<Rightarrow> opcua_namespace \<Rightarrow> (opcua_namespace \<times> enc list) run" where
  "getEncoding ord a s =
     (case dataType_at s a of
        None \<Rightarrow> run_raise AttributeError
      | Some w \<Rightarrow>
          if dy_encodable w = Some False then
            (if dy_encodingBuilt w then run_return (s, [])
             else run_bind (buildEncoding ord a s) (\<lambda>s'. run_return (s', encoding_of s' a)))
          else run_return (s, dy_baseTypeEncoding w))"

text \<open>What a value object reads through the variable it belongs to.\<close>

definition data_type_view_of :: "opcua_namespace \<Rightarrow> nat \<Rightarrow> data_type_view" where
  "data_type_view_of s t =
     \<lparr>dt_encoding = EncList (encoding_of s t), dt_browseName = n_browseName (node_at s t), dt_id = n_id (node_at s t)\<rparr>"

definition value_parent_of :: "opcua_namespace \<Rightarrow> nat \<Rightarrow> nat \<Rightarrow> variable_part \<Rightarrow> value_parent" where
  "value_parent_of s a t w =
     \<lparr>p_printable = node_getCodePrintableID (node_at s a), p_valueRank = va_valueRank w,
      p_dataType = Some (data_type_view_of s t), p_nodes = map (\<lambda>b. n_id (node_at s b)) (ns_nodes s)\<rparr>"

text \<open>The data type node a variable points to, where it is encodable and has a value element.\<close>

definition encodable_type :: "opcua_namespace \<Rightarrow> variable_part \<Rightarrow> nat option" where
  "encodable_type s w =
     (case va_dataType w of
        None \<Rightarrow> None
      | Some r \<Rightarrow>
          (case r_target (ref_at s r) of
             TNode t \<Rightarrow> if isEncodable s t then Some t else None
           | _ \<Rightarrow> None))"

text \<open>
  \<open>allocateValue\<close>: an element the reader takes no value from leaves \<open>None\<close>, whose length raises an
  exception.
\<close>

definition allocateValue :: "py_env \<Rightarrow> nat \<Rightarrow> opcua_namespace \<Rightarrow> (opcua_namespace \<times> bool) res" where
  "allocateValue env a s =
     (case n_part (node_at s a) of
        VariableNode w \<Rightarrow>
          (case (encodable_type s w, va_xmlValueDef w) of
             (Some t, Some x) \<Rightarrow>
               rbind (value_parseXML env (value_parent_of s a t w) x PNone) (\<lambda>v.
                 case v of
                   PList vs \<Rightarrow>
                     Inr (modify_part a (\<lambda>_. VariableNode (w\<lparr>va_value := Some v,
                            va_arrayDimensions := PList (if vs = [] then [] else [PInt (int (length vs))])\<rparr>)) s, True)
                 | _ \<Rightarrow> Inl TypeError)
           | _ \<Rightarrow> Inr (s, False))
      | _ \<Rightarrow> Inl AttributeError)"

definition is_variable :: "opcua_node \<Rightarrow> bool" where
  "is_variable n = (case n_part n of VariableNode w \<Rightarrow> True | _ \<Rightarrow> False)"

definition allocateVariables :: "py_env \<Rightarrow> opcua_namespace \<Rightarrow> opcua_namespace res" where
  "allocateVariables env s =
     foldM (\<lambda>a s. if is_variable (node_at s a) then rbind (allocateValue env a s) (\<lambda>(s', done). Inr s') else Inr s)
       (ns_nodes s) s"

end
