(* ===== verification/Node_Order.thy ===== *)
theory Node_Order
  imports Namespace
begin

text \<open>
  The order in which the nodes are printed: \<open>getSubTypesOf\<close>, \<open>__reorder_getMinWeightNode__\<close> and
  \<open>reorderNodesMinDependencies\<close> of ua_namespace.py, with the matrix of weights as the code keeps it.
\<close>

section \<open>Type references\<close>

text \<open>
  \<open>getSubTypesOf\<close>; without a node it starts from the reference type \<open>HasTypeDefinition\<close>.  The ids of
  two nodes always compare equal, so any reference with the arrow is taken for a subtype, and then
  a method that does not exist is called.
\<close>

definition is_subtype_ref :: "opcua_namespace \<Rightarrow> nat \<Rightarrow> nat \<Rightarrow> bool" where
  "is_subtype_ref s h r \<longleftrightarrow> r_forward (ref_at s r) \<and>
     (case r_type (ref_at s r) of
        TNode ty \<Rightarrow> node_id_eq (n_id (node_at s ty)) (Some (n_id (node_at s h)))
      | _ \<Rightarrow> True)"

definition getSubTypesOf :: "opcua_namespace \<Rightarrow> nat option \<Rightarrow> target list res" where
  "getSubTypesOf s currentNode =
     (let node = (\<lambda>n. case n of None \<Rightarrow> TNone | Some a \<Rightarrow> TNode a);
          default = getNodeByBrowseName s ''HasTypeDefinition'';
          (td, current) = (case currentNode of None \<Rightarrow> ([node default], default) | Some a \<Rightarrow> ([], Some a))
      in case getNodeByBrowseName s ''HasSubtype'' of
           None \<Rightarrow> Inr td
         | Some h \<Rightarrow>
             (case current of
                None \<Rightarrow> Inl AttributeError
              | Some a \<Rightarrow> if list_ex (is_subtype_ref s h) (n_references (node_at s a)) then Inl AttributeError else Inr td))"

definition reference_types :: "opcua_namespace \<Rightarrow> string \<Rightarrow> target list res" where
  "reference_types s name =
     (case getNodeByBrowseName s name of
        None \<Rightarrow> Inr []
      | Some tn \<Rightarrow> rbind (getSubTypesOf s (Some tn)) (\<lambda>ts. Inr (TNode tn # ts)))"

section \<open>The matrix of weights\<close>

text \<open>A row holds its node until the node is placed, and a weight for every node.\<close>

type_synonym matrix = "(nat option \<times> int list) list"

definition index_of :: "nat \<Rightarrow> nat list \<Rightarrow> nat res" where
  "index_of a nodes =
     (case List.find (\<lambda>i. nodes ! i = a) [0..<length nodes] of None \<Rightarrow> Inl ValueError | Some i \<Rightarrow> Inr i)"

definition add_weight :: "nat \<Rightarrow> nat \<Rightarrow> int \<Rightarrow> matrix \<Rightarrow> matrix" where
  "add_weight i j d m = m[i := (fst (m ! i), (snd (m ! i))[j := snd (m ! i) ! j + d])]"

definition set_node :: "nat \<Rightarrow> nat option \<Rightarrow> matrix \<Rightarrow> matrix" where
  "set_node i n m = m[i := (n, snd (m ! i))]"

text \<open>
  What one reference of the node in row \<open>i\<close> weighs; it is added (\<open>k = 1\<close>) to the matrix and taken
  away (\<open>k = -1\<close>) when the node is placed.
\<close>

definition weigh_reference ::
    "opcua_namespace \<Rightarrow> target list \<Rightarrow> target list \<Rightarrow> int \<Rightarrow> nat \<Rightarrow> nat \<Rightarrow> matrix \<Rightarrow> matrix res" where
  "weigh_reference s typeRefs subTypeRefs k i r m =
     (let q = ref_at s r in
      case r_target q of
        TNode t \<Rightarrow>
          rbind (index_of t (ns_nodes s)) (\<lambda>j.
            Inr (if r_type q \<in> set typeRefs \<and> r_forward q then add_weight i j (k * 200) m
                 else if r_type q \<in> set subTypeRefs \<and> \<not> r_forward q then add_weight i j (k * 100) m
                 else if r_forward q then add_weight j i k m
                 else m))
      | _ \<Rightarrow> Inr m)"

definition weigh_node ::
    "opcua_namespace \<Rightarrow> target list \<Rightarrow> target list \<Rightarrow> int \<Rightarrow> nat \<Rightarrow> nat \<Rightarrow> matrix \<Rightarrow> matrix res" where
  "weigh_node s typeRefs subTypeRefs k i a m =
     foldM (weigh_reference s typeRefs subTypeRefs k i) (n_references (node_at s a)) m"

definition empty_matrix :: "nat list \<Rightarrow> matrix" where
  "empty_matrix nodes = replicate (length nodes) (None, replicate (length nodes) 0)"

definition place_nodes :: "nat list \<Rightarrow> matrix \<Rightarrow> matrix res" where
  "place_nodes nodes m =
     foldM (\<lambda>a m. rbind (index_of a nodes) (\<lambda>i. Inr (set_node i (Some a) m))) nodes m"

definition connectivity_matrix ::
    "opcua_namespace \<Rightarrow> target list \<Rightarrow> target list \<Rightarrow> matrix res" where
  "connectivity_matrix s typeRefs subTypeRefs =
     rbind (place_nodes (ns_nodes s) (empty_matrix (ns_nodes s)))
       (foldM (\<lambda>a m. rbind (index_of a (ns_nodes s)) (\<lambda>i. weigh_node s typeRefs subTypeRefs 1 i a m)) (ns_nodes s))"

text \<open>
  \<open>__reorder_getMinWeightNode__\<close>: the row number, the node and the weight found so far; a negative
  weight stands for nothing found.
\<close>

definition min_step :: "nat option \<times> int list \<Rightarrow> nat \<times> nat \<times> nat option \<times> int \<Rightarrow> nat \<times> nat \<times> nat option \<times> int" where
  "min_step row st =
     (case st of (rcind, rind, minnd, minweight) \<Rightarrow>
        (case fst row of
           None \<Rightarrow> (Suc rcind, rind, minnd, minweight)
         | Some a \<Rightarrow>
             (let w = sum_list (snd row) in
              if minweight < 0 \<or> w < minweight then (Suc rcind, rcind, Some a, w)
              else (Suc rcind, rind, minnd, minweight))))"

definition getMinWeightNode :: "matrix \<Rightarrow> nat \<times> nat option \<times> int" where
  "getMinWeightNode m = snd (fold min_step m (0, 0, None, -1))"

text \<open>The loop that places one node after the other.\<close>

definition place_next ::
    "opcua_namespace \<Rightarrow> target list \<Rightarrow> target list \<Rightarrow> matrix \<Rightarrow> (matrix \<times> nat) res" where
  "place_next s typeRefs subTypeRefs m =
     (case getMinWeightNode m of
        (i, None, w) \<Rightarrow> Inl AttributeError
      | (i, Some a, w) \<Rightarrow>
          rbind (weigh_node s typeRefs subTypeRefs (-1) i a m) (\<lambda>m'. Inr (set_node i None m', a)))"

function reorder_loop ::
    "opcua_namespace \<Rightarrow> target list \<Rightarrow> target list \<Rightarrow> matrix \<Rightarrow> nat list \<Rightarrow> nat list res" where
  "reorder_loop s typeRefs subTypeRefs m reorder =
     (if length reorder < length (ns_nodes s) then
        (case place_next s typeRefs subTypeRefs m of
           Inl e \<Rightarrow> Inl e
         | Inr (m', a) \<Rightarrow> reorder_loop s typeRefs subTypeRefs m' (reorder @ [a]))
      else Inr reorder)"
  by pat_completeness auto
termination
  by (relation "measure (\<lambda>(s, typeRefs, subTypeRefs, m, reorder). length (ns_nodes s) - length reorder)") auto

declare reorder_loop.simps [simp del]

definition reorderNodesMinDependencies :: "opcua_namespace \<Rightarrow> opcua_namespace res" where
  "reorderNodesMinDependencies s =
     rbind (reference_types s ''HasTypeDefinition'') (\<lambda>typeRefs.
     rbind (reference_types s ''HasSubtype'') (\<lambda>subTypeRefs.
     rbind (connectivity_matrix s typeRefs subTypeRefs) (\<lambda>m.
     rbind (reorder_loop s typeRefs subTypeRefs m []) (\<lambda>order.
       Inr (s\<lparr>ns_nodes := order\<rparr>)))))"

end
