(* ===== verification/Class_Print.thy ===== *)
theory Class_Print
  imports Macro_Helper Type_Encoding Node_Order
begin

text \<open>
  What the node classes add to the C code of a node: \<open>printOpen62541CCode_SubtypeEarly\<close> and
  \<open>printOpen62541CCode_Subtype\<close>.  The list of the references not printed yet is shared by all calls;
  it is an argument and a result here, as is the namespace, whose values get names when they are
  printed.
\<close>

section \<open>Texts of values and references\<close>

text \<open>
  \<open>str\<close> of a value.  That of a list, a time or an object is what Python prints, with addresses of
  objects in it: a parameter.
\<close>

type_synonym py_str = "pyval \<Rightarrow> string"

definition value_text :: "py_str \<Rightarrow> pyval \<Rightarrow> string" where
  "value_text rep v = (case scalar_str v of Inl e \<Rightarrow> rep v | Inr t \<Rightarrow> t)"

text \<open>\<open>v[k]\<close>\<close>

definition value_at :: "pyval \<Rightarrow> nat \<Rightarrow> pyval res" where
  "value_at v k =
     (case v of
        PList vs \<Rightarrow> if k < length vs then Inr (vs ! k) else Inl IndexError
      | PStr t \<Rightarrow> if k < length t then Inr (PStr [t ! k]) else Inl IndexError
      | PTime ts \<Rightarrow> if k < length ts then Inr (PInt (int (ts ! k))) else Inl IndexError
      | PNode i \<Rightarrow> Inl AttributeError
      | PObj u \<Rightarrow> Inl AttributeError
      | _ \<Rightarrow> Inl TypeError)"

definition ref_str :: "opcua_namespace \<Rightarrow> nat \<Rightarrow> string" where
  "ref_str s r =
     (let q = ref_at s r in
      (case r_parent q of Some a \<Rightarrow> id_str (n_id (node_at s a)) @ ''--['' | None \<Rightarrow> ''(?) --['') @
      (case r_type q of TNode a \<Rightarrow> n_browseName (node_at s a) @ '']-->'' | _ \<Rightarrow> ''?]-->'') @
      (case r_target q of TNode a \<Rightarrow> id_str (n_id (node_at s a)) | _ \<Rightarrow> ''(?) '') @
      (if r_forward q \<or> r_hidden q
       then '' <'' @ (if r_forward q then ''F'' else '''') @ (if r_hidden q then ''H'' else '''') @ ''>'' else ''''))"

text \<open>\<open>while r in L: L.remove(r)\<close>\<close>

definition remove_all_refs :: "opcua_namespace \<Rightarrow> nat \<Rightarrow> nat list \<Rightarrow> nat list" where
  "remove_all_refs s r = filter (\<lambda>q. \<not> ref_eq (ref_at s r) (ref_at s q))"

definition ref_in :: "opcua_namespace \<Rightarrow> nat \<Rightarrow> nat list \<Rightarrow> bool" where
  "ref_in s r qs \<longleftrightarrow> list_ex (\<lambda>q. ref_eq (ref_at s r) (ref_at s q)) qs"

section \<open>What precedes the node\<close>

definition variant_code :: "opcua_node \<Rightarrow> string list" where
  "variant_code n =
     [''UA_Variant *'' @ node_getCodePrintableID n @ ''_variant = UA_alloca(sizeof(UA_Variant));'',
      ''UA_Variant_init('' @ node_getCodePrintableID n @ ''_variant);'']"

definition variable_SubtypeEarly ::
    "bool \<Rightarrow> nat \<Rightarrow> variable_part \<Rightarrow> opcua_namespace \<Rightarrow> (string list \<times> opcua_namespace) res" where
  "variable_SubtypeEarly bootstrapping a w s =
     (case (encodable_type s w, va_value w) of
        (Some t, Some v) \<Rightarrow>
          rbind (value_printOpen62541CCode (value_parent_of s a t w) bootstrapping v) (\<lambda>(code, v').
            Inr (code, modify_part a (\<lambda>_. VariableNode (w\<lparr>va_value := Some v'\<rparr>)) s))
      | _ \<Rightarrow> Inr (if bootstrapping then variant_code (node_at s a) else [], s))"

text \<open>The value of a variable type is never set.\<close>

definition variableType_SubtypeEarly :: "bool \<Rightarrow> nat \<Rightarrow> opcua_namespace \<Rightarrow> string list" where
  "variableType_SubtypeEarly bootstrapping a s = (if bootstrapping then variant_code (node_at s a) else [])"

definition node_SubtypeEarly :: "bool \<Rightarrow> nat \<Rightarrow> opcua_namespace \<Rightarrow> (string list \<times> opcua_namespace) res" where
  "node_SubtypeEarly bootstrapping a s =
     (case n_part (node_at s a) of
        VariableNode w \<Rightarrow> variable_SubtypeEarly bootstrapping a w s
      | VariableTypeNode w \<Rightarrow> Inr (variableType_SubtypeEarly bootstrapping a s, s)
      | _ \<Rightarrow> Inr ([], s))"

section \<open>What follows the node\<close>

text \<open>
  Outside of bootstrapping, the reference to the node's type: the first with a type that defines
  types, and if there is none the first to a supertype.
\<close>

fun supertype_ref :: "opcua_namespace \<Rightarrow> nat list \<Rightarrow> nat option res" where
  "supertype_ref s [] = Inr None"
| "supertype_ref s (r # rs) =
     (case r_type (ref_at s r) of
        TNode ty \<Rightarrow>
          if n_browseName (node_at s ty) = ''HasSubtype'' \<and> \<not> r_forward (ref_at s r) then Inr (Some r)
          else supertype_ref s rs
      | _ \<Rightarrow> Inl AttributeError)"

definition my_type_ref :: "opcua_namespace \<Rightarrow> nat \<Rightarrow> nat option res" where
  "my_type_ref s a =
     rbind (getSubTypesOf s None) (\<lambda>typeDefs.
       case List.find (\<lambda>r. r_type (ref_at s r) \<in> set typeDefs) (n_references (node_at s a)) of
         Some r \<Rightarrow> Inr (Some r)
       | None \<Rightarrow> supertype_ref s (n_references (node_at s a)))"

text \<open>Its line, and the lists of unprinted references before and after.\<close>

definition type_lines ::
    "string list \<Rightarrow> (nat \<Rightarrow> string list) \<Rightarrow> nat \<Rightarrow> opcua_namespace \<Rightarrow> nat list \<Rightarrow> (string list \<times> nat list) res" where
  "type_lines fallback removed a s unprinted =
     rbind (my_type_ref s a) (\<lambda>m.
       case m of
         None \<Rightarrow> Inr (fallback, unprinted)
       | Some r \<Rightarrow>
           rbind (getCreateExpandedNodeIDMacro s (r_target (ref_at s r))) (\<lambda>tgt.
             Inr ([''       '' @ tgt @ '',''] @
                    concat (map (\<lambda>q. if ref_eq (ref_at s r) (ref_at s q) then removed r else []) unprinted),
                  remove_all_refs s r unprinted)))"

definition bool_line :: "bool \<Rightarrow> string" where
  "bool_line b = (if b then ''       true,'' else ''       false,'')"

definition default_type :: "string \<Rightarrow> string \<Rightarrow> string list" where
  "default_type name macro =
     [''       // No valid typeDefinition found; assuming '' @ name, ''       '' @ macro @ '','']"

definition referenceType_Subtype ::
    "bool \<Rightarrow> nat \<Rightarrow> referenceType_part \<Rightarrow> opcua_namespace \<Rightarrow> nat list \<Rightarrow> (string list \<times> nat list) res" where
  "referenceType_Subtype bootstrapping a w s unprinted =
     (let var = node_getCodePrintableID (node_at s a) in
      if \<not> bootstrapping then
        rbind (type_lines (default_type ''BaseDataType'' ''UA_NS0EXID(BASEDATATYPE)'') (\<lambda>_. []) a s unprinted) (\<lambda>(code, rs).
          Inr (code @ [''       UA_LOCALIZEDTEXT(\"\",\"'' @ rt_inverseName w @ ''\"),'',
                       ''       // FIXME: Missing, isAbstract'', ''       // FIXME: Missing, symmetric''], rs))
      else
        Inr ((if rt_isAbstract w then [var @ ''->isAbstract = true;''] else []) @
             (if rt_symmetric w then [var @ ''->symmetric  = true;''] else []) @
             (if rt_inverseName w \<noteq> '''' then
                [var @ ''->inverseName  = UA_LOCALIZEDTEXT_ALLOC(\"en_US\", \"'' @ rt_inverseName w @ ''\");''] else []),
             unprinted))"

definition object_Subtype ::
    "bool \<Rightarrow> nat \<Rightarrow> int \<Rightarrow> opcua_namespace \<Rightarrow> nat list \<Rightarrow> (string list \<times> nat list) res" where
  "object_Subtype bootstrapping a e s unprinted =
     (if \<not> bootstrapping then
        type_lines (default_type ''BaseObjectType'' ''UA_NS0EXID(BASEOBJECTTYPE)'') (\<lambda>_. []) a s unprinted
      else
        Inr ([node_getCodePrintableID (node_at s a) @ ''->eventNotifier = (UA_Byte) '' @ int_str e @ '';''], unprinted))"

definition variable_Subtype ::
    "bool \<Rightarrow> nat \<Rightarrow> variable_part \<Rightarrow> opcua_namespace \<Rightarrow> nat list \<Rightarrow> (string list \<times> nat list) res" where
  "variable_Subtype bootstrapping a w s unprinted =
     (let var = node_getCodePrintableID (node_at s a) in
      if \<not> bootstrapping then
        Inr ([''       '' @ var @ ''_variant, '', ''       // FIXME: missing minimumSamplingInterval'',
              ''       // FIXME: missing accessLevel'', ''       // FIXME: missing userAccessLevel'',
              ''       // FIXME: missing valueRank''], unprinted)
      else
        Inr ((if va_historizing w then [var @ ''->historizing = true;''] else []) @
             [var @ ''->minimumSamplingInterval = (UA_Double) '' @ va_minimumSamplingInterval w @ '';'',
              var @ ''->userAccessLevel = (UA_Int32) '' @ int_str (va_userAccessLevel w) @ '';'',
              var @ ''->accessLevel = (UA_Int32) '' @ int_str (va_accessLevel w) @ '';'',
              var @ ''->valueRank = (UA_Int32) '' @ int_str (va_valueRank w) @ '';'',
              ''UA_Variant_copy('' @ var @ ''_variant, &'' @ var @ ''->value.data.value.value );'',
              var @ ''->valueSource = UA_VALUESOURCE_DATA;''], unprinted))"

definition method_Subtype ::
    "bool \<Rightarrow> nat \<Rightarrow> method_part \<Rightarrow> opcua_namespace \<Rightarrow> nat list \<Rightarrow> (string list \<times> nat list) res" where
  "method_Subtype bootstrapping a w s unprinted =
     (let var = node_getCodePrintableID (node_at s a) in
      if \<not> bootstrapping then
        Inr ([''       // Note: in/outputArguments are added by attaching the variable nodes,'',
              ''       //       not by including the in the addMethodNode() call.'',
              ''       NULL,'', ''       NULL,'', ''       0, NULL,'', ''       0, NULL,'',
              ''       // FIXME: Missing executable'', ''       // FIXME: Missing userExecutable''], unprinted)
      else
        Inr ((if me_executable w then [var @ ''->executable = true;''] else []) @
             (if me_userExecutable w then [var @ ''->userExecutable = true;''] else []), unprinted))"

definition objectType_Subtype ::
    "bool \<Rightarrow> nat \<Rightarrow> bool \<Rightarrow> opcua_namespace \<Rightarrow> nat list \<Rightarrow> (string list \<times> nat list) res" where
  "objectType_Subtype bootstrapping a abstract s unprinted =
     rbind (if \<not> bootstrapping then
              rbind (type_lines (default_type ''BaseObjectType'' ''UA_EXPANDEDNODEID_NUMERIC(0, UA_NS0ID_BASEOBJECTTYPE)'')
                       (\<lambda>r. [''       // removed '' @ ref_str s r]) a s unprinted) (\<lambda>(code, rs).
                Inr (code @ [bool_line abstract], rs))
            else Inr ([], unprinted)) (\<lambda>(code, rs).
       Inr (code @ (if abstract then [node_getCodePrintableID (node_at s a) @ ''->isAbstract = true;''] else []), rs))"

definition variableType_Subtype ::
    "bool \<Rightarrow> nat \<Rightarrow> variableType_part \<Rightarrow> opcua_namespace \<Rightarrow> nat list \<Rightarrow> (string list \<times> nat list) res" where
  "variableType_Subtype bootstrapping a w s unprinted =
     (let var = node_getCodePrintableID (node_at s a) in
      if \<not> bootstrapping then
        Inr ([''       '' @ var @ ''_variant, '', ''       '' @ int_str (vt_valueRank w) @ '','', bool_line (vt_isAbstract w)],
             unprinted)
      else
        Inr ([var @ (if vt_isAbstract w then ''->isAbstract = true;'' else ''->isAbstract = false;''),
              ''UA_Variant_copy('' @ var @ ''_variant, &'' @ var @ ''->value.data.value.value );'',
              var @ ''->valueSource = UA_VALUESOURCE_DATA;''], unprinted))"

definition dataType_Subtype ::
    "bool \<Rightarrow> nat \<Rightarrow> dataType_part \<Rightarrow> opcua_namespace \<Rightarrow> nat list \<Rightarrow> (string list \<times> nat list) res" where
  "dataType_Subtype bootstrapping a w s unprinted =
     (if \<not> bootstrapping then
        rbind (type_lines (default_type ''BaseDataType'' ''UA_EXPANDEDNODEID_NUMERIC(0, UA_NS0ID_BASEDATATYPE)'') (\<lambda>_. [])
                 a s unprinted) (\<lambda>(code, rs). Inr (code @ [bool_line (dy_isAbstract w)], rs))
      else
        Inr ([node_getCodePrintableID (node_at s a) @
               (if dy_isAbstract w then ''->isAbstract = true;'' else ''->isAbstract = false;'')], unprinted))"

definition view_Subtype ::
    "bool \<Rightarrow> nat \<Rightarrow> view_part \<Rightarrow> opcua_namespace \<Rightarrow> nat list \<Rightarrow> (string list \<times> nat list) res" where
  "view_Subtype bootstrapping a w s unprinted =
     (let var = node_getCodePrintableID (node_at s a) in
      if \<not> bootstrapping then
        rbind (type_lines (default_type ''BaseViewType'' ''UA_EXPANDEDNODEID_NUMERIC(0, UA_NS0ID_BASEViewTYPE)'') (\<lambda>_. [])
                 a s unprinted) (\<lambda>(code, rs).
          Inr (code @ [''       // FIXME: Missing eventNotifier'', ''       // FIXME: Missing containsNoLoops''], rs))
      else
        Inr ([var @ (if vi_containsNoLoops w then ''->containsNoLoops = true;'' else ''->containsNoLoops = false;''),
              var @ ''->eventNotifier = (UA_Byte) '' @ int_str (vi_eventNotifier w) @ '';''], unprinted))"

definition node_Subtype ::
    "bool \<Rightarrow> nat \<Rightarrow> opcua_namespace \<Rightarrow> nat list \<Rightarrow> (string list \<times> nat list) res" where
  "node_Subtype bootstrapping a s unprinted =
     (case n_part (node_at s a) of
        ReferenceTypeNode w \<Rightarrow> referenceType_Subtype bootstrapping a w s unprinted
      | ObjectNode e \<Rightarrow> object_Subtype bootstrapping a e s unprinted
      | VariableNode w \<Rightarrow> variable_Subtype bootstrapping a w s unprinted
      | MethodNode w \<Rightarrow> method_Subtype bootstrapping a w s unprinted
      | ObjectTypeNode b \<Rightarrow> objectType_Subtype bootstrapping a b s unprinted
      | VariableTypeNode w \<Rightarrow> variableType_Subtype bootstrapping a w s unprinted
      | DataTypeNode w \<Rightarrow> dataType_Subtype bootstrapping a w s unprinted
      | ViewNode w \<Rightarrow> view_Subtype bootstrapping a w s unprinted)"

end
