(* ===== verification/Node_Print.thy ===== *)
theory Node_Print
  imports Class_Print
begin

text \<open>
  The C code of a node: \<open>getCreateNodeNoBootstrap\<close> of the macro helper, which creates it below its
  parent, and \<open>printOpen62541CCode\<close>, which chooses between that and the node store and then prints
  the references whose both ends exist.
\<close>

section \<open>Arguments of methods\<close>

text \<open>\<open>value()\<close> of a node of class variable\<close>

definition node_value :: "opcua_node \<Rightarrow> pyval option res" where
  "node_value n =
     (case n_part n of
        VariableNode w \<Rightarrow> Inr (va_value w)
      | VariableTypeNode w \<Rightarrow> Inr None
      | _ \<Rightarrow> Inl AttributeError)"

text \<open>
  One reference of a method.  An argument node is taken off the list of unprinted nodes; its value
  becomes the list of the arguments.
\<close>

definition argument_step ::
    "opcua_namespace \<Rightarrow> nat \<Rightarrow> pyval \<times> pyval \<times> nat list \<Rightarrow> (pyval \<times> pyval \<times> nat list) res" where
  "argument_step s r st =
     (case st of (inArgVal, outArgVal, nodes) \<Rightarrow>
        if \<not> r_forward (ref_at s r) then Inr st
        else case r_target (ref_at s r) of
          TNone \<Rightarrow> Inr st
        | TText t \<Rightarrow> Inl AttributeError
        | TNode t \<Rightarrow>
            (let n = node_at s t; rest = filter (\<lambda>b. b \<noteq> t) nodes in
             if n_class n = 2 \<and> n_browseName n = ''InputArguments'' then
               rbind (node_value n) (\<lambda>v. Inr (case v of None \<Rightarrow> inArgVal | Some w \<Rightarrow> w, outArgVal, rest))
             else if n_class n = 2 \<and> n_browseName n = ''OutputArguments'' then
               rbind (node_value n) (\<lambda>v. Inr (inArgVal, case v of None \<Rightarrow> outArgVal | Some w \<Rightarrow> w, rest))
             else Inr st))"

definition method_arguments ::
    "opcua_namespace \<Rightarrow> nat \<Rightarrow> nat list \<Rightarrow> (pyval list \<times> pyval list \<times> nat list) res" where
  "method_arguments s a nodes =
     rbind (foldM (argument_step s) (n_references (node_at s a)) (PList [], PList [], nodes)) (\<lambda>(i, out, nodes').
     rbind (value_items i) (\<lambda>is. rbind (value_items out) (\<lambda>os. Inr (is, os, nodes'))))"

text \<open>A field of an argument: a line if it has a value.\<close>

definition argument_field :: "opcua_value \<Rightarrow> string \<Rightarrow> (pyval \<Rightarrow> string res) \<Rightarrow> string list res" where
  "argument_field u name line =
     rbind (getValueFieldByAlias name (u_value u)) (\<lambda>v.
       if v = PNone then Inr [] else rbind (line v) (\<lambda>t. Inr [t]))"

definition data_type_macro :: "pyval \<Rightarrow> string res" where
  "data_type_macro v = (case v of PNode i \<Rightarrow> Inr (id_macro ''UA_NODEID'' i) | _ \<Rightarrow> Inl AttributeError)"

definition argument_code :: "py_str \<Rightarrow> string \<Rightarrow> nat \<Rightarrow> pyval \<Rightarrow> string list res" where
  "argument_code rep args k v =
     (case v of
        PObj u \<Rightarrow>
          (let arg = args @ ''['' @ nat_str 10 k @ '']'' in
           rbind (argument_field u ''Description'' (\<lambda>d.
             rbind (value_at d 0) (\<lambda>loc. rbind (value_at d 1) (\<lambda>txt.
               Inr (arg @ ''.description = UA_LOCALIZEDTEXT(\"'' @ value_text rep loc @ ''\",\"'' @ value_text rep txt @ ''\");'')))))
             (\<lambda>d.
           rbind (argument_field u ''Name'' (\<lambda>n. Inr (arg @ ''.name = UA_STRING(\"'' @ value_text rep n @ ''\");''))) (\<lambda>n.
           rbind (argument_field u ''ValueRank'' (\<lambda>x. Inr (arg @ ''.valueRank = '' @ value_text rep x @ '';''))) (\<lambda>x.
           rbind (argument_field u ''DataType'' (\<lambda>t.
             rbind (data_type_macro t) (\<lambda>m. Inr (arg @ ''.dataType = '' @ m @ '';'')))) (\<lambda>t.
             Inr (d @ n @ x @ t))))))
      | _ \<Rightarrow> Inl AttributeError)"

text \<open>The code for the input or output arguments: \<open>''input''\<close> and \<open>''output''\<close> make the names.\<close>

definition arguments_code :: "py_str \<Rightarrow> string \<Rightarrow> pyval list \<Rightarrow> string list res" where
  "arguments_code rep dir vs =
     (if vs = [] then Inr []
      else
        (let args = dir @ ''Arguments''; cnt = dir @ ''ArgumentCnt''; n = nat_str 10 (length vs) in
         rbind (mapM (\<lambda>(k, v). argument_code rep args k v) (enum vs)) (\<lambda>codes.
           Inr ([[], args @ '' = (UA_Argument *) malloc(sizeof(UA_Argument) * '' @ n @ '');'',
                 ''int '' @ cnt @ '';'',
                 ''for ('' @ cnt @ ''=0; '' @ cnt @ ''<'' @ n @ ''; ++'' @ cnt @ '') UA_Argument_init(&'' @ args @ ''['' @ cnt @ '']); ''] @
                concat codes))))"

section \<open>Creating a node below its parent\<close>

text \<open>The target of the last forward reference with the type \<open>ns=0;i=40\<close>.\<close>

definition type_definition_step :: "opcua_namespace \<Rightarrow> nat \<Rightarrow> target \<Rightarrow> target res" where
  "type_definition_step s r typeDefinition =
     (if \<not> r_forward (ref_at s r) then Inr typeDefinition
      else case r_type (ref_at s r) of
        TNode ty \<Rightarrow>
          (let i = n_id (node_at s ty) in
           Inr (if id_ns i = 0 \<and> id_i i = Some 40 then r_target (ref_at s r) else typeDefinition))
      | _ \<Rightarrow> Inl AttributeError)"

definition typeDefinition_code :: "opcua_namespace \<Rightarrow> nat \<Rightarrow> string list res" where
  "typeDefinition_code s a =
     rbind (foldM (type_definition_step s) (n_references (node_at s a)) TNone) (\<lambda>t.
       if t = TNone then Inr [''UA_NodeId typeDefinition = UA_NS0ID(BASEDATAVARIABLETYPE);'']
       else rbind (getCreateNodeIDMacro s t) (\<lambda>m. Inr [''UA_NodeId typeDefinition = '' @ m @ '';'']))"

text \<open>The attributes that follow the names.\<close>

definition attribute_code :: "opcua_node \<Rightarrow> string list" where
  "attribute_code n =
     (case n_part n of
        VariableNode w \<Rightarrow>
          [''attr.accessLevel = '' @ int_str (va_accessLevel w) @ '';'',
           ''attr.userAccessLevel = '' @ int_str (va_userAccessLevel w) @ '';'',
           ''attr.valueRank = '' @ int_str (va_valueRank w) @ '';'']
      | VariableTypeNode w \<Rightarrow> [''attr.valueRank = '' @ int_str (vt_valueRank w) @ '';'']
      | MethodNode w \<Rightarrow>
          (if me_executable w then [''attr.executable = true;''] else []) @
          (if me_userExecutable w then [''attr.userExecutable = true;''] else [])
      | _ \<Rightarrow> [])"

definition deletes_type :: "string \<Rightarrow> string list" where
  "deletes_type ty =
     (if ty = ''Object'' then
        [''UA_Server_deleteReference(server, nodeId, UA_NODEID_NUMERIC(0, 40), true, UA_EXPANDEDNODEID_NUMERIC(0, 58), true); //remove HasTypeDefinition refs generated by addObjectNode'']
      else if ty = ''Variable'' then
        [''UA_Server_deleteReference(server, nodeId, UA_NODEID_NUMERIC(0, 40), true, UA_EXPANDEDNODEID_NUMERIC(0, 62), true); //remove HasTypeDefinition refs generated by addVariableNode'']
      else [])"

text \<open>The code, the namespace and the unprinted nodes.\<close>

definition getCreateNodeNoBootstrap ::
    "py_str \<Rightarrow> nat \<Rightarrow> nat \<Rightarrow> nat \<Rightarrow> opcua_namespace \<Rightarrow> nat list \<Rightarrow> (string list \<times> opcua_namespace \<times> nat list) res" where
  "getCreateNodeNoBootstrap rep a parent parentRef s nodes =
     (let n = node_at s a in
      case nodetype (n_class n) of
        None \<Rightarrow> Inr ([node_comment n, ''/* undefined nodeclass */''], s, nodes)
      | Some ty \<Rightarrow>
          (let typed = ty \<in> {''Object'', ''Variable'', ''VariableType''}; method = (ty = ''Method'') in
           rbind (if method then method_arguments s a nodes else Inr ([], [], nodes)) (\<lambda>(ins, outs, nodes').
           rbind (arguments_code rep ''input'' ins) (\<lambda>inCode.
           rbind (arguments_code rep ''output'' outs) (\<lambda>outCode.
           rbind (node_SubtypeEarly False a s) (\<lambda>(early, s').
           rbind (getCreateNodeIDMacro s (TNode a)) (\<lambda>nodeId.
           rbind (if typed then typeDefinition_code s a else Inr []) (\<lambda>typeDefinition.
           rbind (getCreateNodeIDMacro s (TNode parent)) (\<lambda>parentId.
           rbind (getCreateNodeIDMacro s (r_type (ref_at s parentRef))) (\<lambda>refId.
             Inr ([node_comment n] @
                  (if method then [''UA_Argument *inputArguments = NULL;'', ''UA_Argument *outputArguments = NULL;''] else []) @
                  inCode @ outCode @
                  [''UA_'' @ ty @ ''Attributes attr;'', ''UA_'' @ ty @ ''Attributes_init(&attr);'',
                   ''attr.displayName = UA_LOCALIZEDTEXT(\"\", \"'' @ n_displayName n @ ''\");'',
                   ''attr.description = UA_LOCALIZEDTEXT(\"\", \"'' @ n_description n @ ''\");''] @
                  attribute_code n @ early @
                  [''UA_NodeId nodeId = '' @ nodeId @ '';''] @ typeDefinition @
                  [''UA_NodeId parentNodeId = '' @ parentId @ '';'',
                   ''UA_NodeId parentReferenceNodeId = '' @ refId @ '';'',
                   ''UA_QualifiedName nodeName = UA_QUALIFIEDNAME('' @ qualified_name (n_browseName n) @ '');'',
                   ''UA_Server_add'' @ ty @ ''Node(server, nodeId, parentNodeId, parentReferenceNodeId, nodeName''] @
                  (if typed then [''       , typeDefinition''] else []) @
                  [if method then ''       , attr, (UA_MethodCallback) NULL, NULL, '' @ nat_str 10 (length ins) @
                                  '', inputArguments,  '' @ nat_str 10 (length outs) @ '', outputArguments, NULL);''
                   else ''       , attr, NULL, NULL);''] @
                  deletes_type ty, s', nodes')))))))))))"

section \<open>Printing a node\<close>

text \<open>The namespace, and the nodes and references not printed yet.\<close>

record printer =
  pr_ns :: opcua_namespace
  pr_nodes :: "nat list"
  pr_refs :: "nat list"

definition target_unprinted :: "target \<Rightarrow> nat list \<Rightarrow> bool" where
  "target_unprinted t nodes = (case t of TNode b \<Rightarrow> b \<in> set nodes | _ \<Rightarrow> False)"

definition parent_unprinted :: "opcua_namespace \<Rightarrow> nat \<Rightarrow> nat list \<Rightarrow> bool" where
  "parent_unprinted s r nodes = (case r_parent (ref_at s r) of Some b \<Rightarrow> b \<in> set nodes | None \<Rightarrow> False)"

text \<open>Below a parent: the server adds the reference to the node, so it is not printed again.\<close>

definition attach_node ::
    "py_str \<Rightarrow> nat \<Rightarrow> nat \<Rightarrow> nat \<Rightarrow> printer \<Rightarrow> (string list \<times> printer) res" where
  "attach_node rep a parent q st =
     (let s = pr_ns st; p = node_at s parent in
      case r_type (ref_at s q) of
        TNode ty \<Rightarrow>
          rbind (getCreateNodeNoBootstrap rep a parent q s (pr_nodes st)) (\<lambda>(code, s', nodes).
            let refs1 = (if ref_in s q (pr_refs st) then remove_ref s q (pr_refs st) else pr_refs st);
                refs2 = fold (\<lambda>r rs. if r_target (ref_at s r) = TNode parent \<and> r_type (ref_at s r) = TNode ty \<and>
                                        \<not> r_forward (ref_at s r) then remove_all_refs s r rs else rs)
                          (n_references (node_at s a)) refs1
            in Inr ([''// Referencing node found and declared as parent: '' @ id_str (n_id p) @ ''/'' @ n_browseName p @
                     '' using '' @ id_str (n_id (node_at s ty)) @ ''/'' @ n_browseName (node_at s ty)] @ code,
                    \<lparr>pr_ns = s', pr_nodes = nodes, pr_refs = refs2\<rparr>))
      | _ \<Rightarrow> Inl AttributeError)"

definition bootstrap_node :: "string list \<Rightarrow> nat \<Rightarrow> printer \<Rightarrow> (string list \<times> printer) res" where
  "bootstrap_node suppressed a st =
     rbind (node_SubtypeEarly True a (pr_ns st)) (\<lambda>(early, s).
     case getCreateNodeBootstrap suppressed (node_at s a) of
       None \<Rightarrow> Inl TypeError
     | Some code \<Rightarrow>
         rbind (node_Subtype True a s (pr_refs st)) (\<lambda>(late, refs).
           Inr (early @ code @ late @
                [''// Parent node does not exist yet. This node will be bootstrapped and linked later.'',
                 ''UA_RCU_LOCK();'',
                 ''UA_NodeStore_insert(server->nodestore, (UA_Node*) '' @ node_getCodePrintableID (node_at s a) @ '');'',
                 ''UA_RCU_UNLOCK();''], \<lparr>pr_ns = s, pr_nodes = pr_nodes st, pr_refs = refs\<rparr>)))"

definition create_node :: "py_str \<Rightarrow> string list \<Rightarrow> nat \<Rightarrow> printer \<Rightarrow> (string list \<times> printer) res" where
  "create_node rep suppressed a st =
     rbind (getFirstParentNode (pr_ns st) a) (\<lambda>(parent, parentRef).
       case parent of
         None \<Rightarrow> bootstrap_node suppressed a st
       | Some p \<Rightarrow>
           if p \<in> set (pr_nodes st) then bootstrap_node suppressed a st
           else case parentRef of
             None \<Rightarrow> Inl AttributeError
           | Some q \<Rightarrow>
               if r_type (ref_at (pr_ns st) q) = TNone then bootstrap_node suppressed a st
               else attach_node rep a p q st)"

text \<open>The references that can be printed now, under a comment if there are any.\<close>

definition print_references ::
    "string \<Rightarrow> (nat \<Rightarrow> nat) \<Rightarrow> nat list \<Rightarrow> printer \<Rightarrow> (string list \<times> printer) res" where
  "print_references comment source rs st =
     rbind (mapM (\<lambda>r. getCreateStandaloneReference (pr_ns st) (source r) r) rs) (\<lambda>codes.
     rbind (foldM (list_remove (pr_ns st)) rs (pr_refs st)) (\<lambda>refs.
       Inr ((if rs = [] then [] else [comment]) @ concat codes, st\<lparr>pr_refs := refs\<rparr>)))"

text \<open>Those of the node itself, and those of other nodes that waited for it.\<close>

definition own_references :: "nat \<Rightarrow> printer \<Rightarrow> (string list \<times> printer) res" where
  "own_references a st =
     (let s = pr_ns st in
      print_references ''// This node has the following references that can be created:'' (\<lambda>_. a)
        (filter (\<lambda>r. \<not> target_unprinted (r_target (ref_at s r)) (pr_nodes st) \<and> ref_in s r (pr_refs st))
           (n_references (node_at s a))) st)"

definition open_references :: "nat \<Rightarrow> printer \<Rightarrow> (string list \<times> printer) res" where
  "open_references a st =
     (let s = pr_ns st in
      print_references ''//  Creating this node has resolved the following open references:'' (\<lambda>r. the (r_parent (ref_at s r)))
        (filter (\<lambda>r. r_target (ref_at s r) = TNode a \<and> \<not> parent_unprinted s r (pr_nodes st) \<and> r_parent (ref_at s r) \<noteq> None)
           (pr_refs st)) st)"

definition node_printOpen62541CCode ::
    "py_str \<Rightarrow> string list \<Rightarrow> nat \<Rightarrow> printer \<Rightarrow> (string list \<times> printer) res" where
  "node_printOpen62541CCode rep suppressed a st =
     (if a \<notin> set (pr_nodes st) then Inr ([], st)
      else
        rbind (create_node rep suppressed a st) (\<lambda>(code, st1).
        rbind (own_references a st1) (\<lambda>(own, st2).
        rbind (open_references a st2) (\<lambda>(others, st3).
          Inr ([[], ''do {''] @ code @ own @ others @ [''} while(0);''], st3\<lparr>pr_nodes := remove1 a (pr_nodes st3)\<rparr>)))))"

end
