(* ===== verification/Namespace_Read.thy ===== *)
theory Namespace_Read
  imports Namespace
begin

text \<open>
  What reading node sets guarantees: every pointer created is registered for linking once and is
  still a text, no node has inverse references, and the ids of the nodes are registered.
\<close>

section \<open>The state while reading\<close>

definition unlinked_ref :: "opcua_namespace \<Rightarrow> opcua_referencePointer \<Rightarrow> bool" where
  "unlinked_ref s r \<longleftrightarrow> (\<exists>t. r_target r = TText t) \<and> \<not> is_node (r_type r) \<and> \<not> r_hidden r \<and>
     (\<exists>a < length (node_heap s). r_parent r = Some a)"

text \<open>Whether a data type was built, and what it is encoded as.\<close>

fun part_encoding :: "node_part \<Rightarrow> bool \<times> enc list" where
  "part_encoding (DataTypeNode w) = (dy_encodingBuilt w, dy_baseTypeEncoding w)"
| "part_encoding _ = (False, [])"

definition unlinked_node :: "opcua_namespace \<Rightarrow> nat \<Rightarrow> opcua_node \<Rightarrow> bool" where
  "unlinked_node s a n \<longleftrightarrow> (\<forall>r \<in> set (node_refs n). r < length (ref_heap s)) \<and>
     (\<forall>r \<in> set (n_references n). r_parent (ref_at s r) = Some a) \<and>
     n_class n = part_class (n_part n) \<and> n_referencedBy n = [] \<and> part_encoding (n_part n) = (False, [])"

definition reading :: "opcua_namespace \<Rightarrow> bool" where
  "reading s \<longleftrightarrow> linkLater s = [0..<length (ref_heap s)] \<and>
     (\<forall>r \<in> set (ref_heap s). unlinked_ref s r) \<and> (\<forall>a < length (node_heap s). unlinked_node s a (node_at s a))"

text \<open>The registration of ids, in step with the list of nodes.\<close>

definition id_text :: "opcua_namespace \<Rightarrow> nat \<Rightarrow> string" where
  "id_text s a = id_str (n_id (node_at s a))"

definition registered :: "opcua_namespace \<Rightarrow> bool" where
  "registered s \<longleftrightarrow> (\<forall>a \<in> set (ns_nodes s). a < length (node_heap s)) \<and>
     distinct (map (id_text s) (ns_nodes s)) \<and> (\<forall>t. nodeids s t = ns_getNodeByIDString s t)"

lemma reading_node: "reading s \<Longrightarrow> a < length (node_heap s) \<Longrightarrow> unlinked_node s a (node_at s a)"
  by (simp add: reading_def)

text \<open>A step of the reader of node \<open>a\<close>.\<close>

definition parse_step :: "nat \<Rightarrow> opcua_namespace \<Rightarrow> opcua_namespace \<Rightarrow> bool" where
  "parse_step a s t \<longleftrightarrow> (a < length (node_heap s) \<longrightarrow>
     ns_nodes t = ns_nodes s \<and> nodeids t = nodeids s \<and> aliases t = aliases s \<and>
     map n_id (node_heap t) = map n_id (node_heap s) \<and> (reading s \<longrightarrow> reading t))"

lemma parse_step_refl [simp]: "parse_step a s s"
  by (simp add: parse_step_def)

lemma parse_step_trans:
  assumes "parse_step a s t" and "parse_step a t u"
  shows "parse_step a s u"
proof -
  have "length (node_heap t) = length (node_heap s)" if "a < length (node_heap s)"
    using assms(1) that by (auto simp: parse_step_def dest: map_eq_imp_length_eq)
  with assms show ?thesis by (auto simp: parse_step_def)
qed

lemma parse_step_foldM:
  assumes "foldM f xs s = Inr t" and "\<And>x s t. f x s = Inr t \<Longrightarrow> parse_step a s t"
  shows "parse_step a s t"
  using assms(1)
proof (induction xs arbitrary: s)
  case (Cons x xs)
  then obtain u where "f x s = Inr u" and "foldM f xs u = Inr t" by (auto simp: rbind_Inr_iff)
  with assms(2) Cons.IH show ?case by (blast intro: parse_step_trans)
qed simp

lemma parse_step_fold:
  assumes "\<And>x s. parse_step a s (f x s)"
  shows "parse_step a s (fold f xs s)"
  by (induction xs arbitrary: s) (auto intro: parse_step_trans assms)

lemma unlinked_node_mono:
  "unlinked_node s a n \<Longrightarrow> ref_heap t = ref_heap s @ qs \<Longrightarrow> unlinked_node t a n"
  by (auto simp: unlinked_node_def node_refs_def nth_append intro: trans_less_add1)

lemma parse_step_modify:
  assumes "n_id (f (node_at s a)) = n_id (node_at s a)"
    and "unlinked_node s a (node_at s a) \<Longrightarrow> unlinked_node s a (f (node_at s a))"
  shows "parse_step a s (modify_node a f s)"
proof -
  have "map n_id (node_heap (modify_node a f s)) = map n_id (node_heap s)"
    using assms(1) by (intro nth_equalityI) (simp_all add: heap_simps node_at_modify_node)
  moreover have "reading (modify_node a f s)" if "reading s" "a < length (node_heap s)"
  proof -
    have "unlinked_node s a (f (node_at s a))" using assms(2) reading_node that by blast
    then have "unlinked_node s b (node_at (modify_node a f s) b)" if "b < length (node_heap s)" for b
      using that \<open>reading s\<close> by (simp add: node_at_modify_node reading_def)
    moreover have "unlinked_node (modify_node a f s) b n \<longleftrightarrow> unlinked_node s b n"
      and "unlinked_ref (modify_node a f s) q \<longleftrightarrow> unlinked_ref s q" for b n q
      by (simp_all add: unlinked_node_def unlinked_ref_def heap_simps)
    ultimately show ?thesis using that by (auto simp: reading_def heap_simps)
  qed
  ultimately show ?thesis by (simp add: parse_step_def heap_simps)
qed

text \<open>A new pointer of node \<open>a\<close>, registered at once.\<close>

lemma parse_step_pointer:
  assumes "new_pointer a t s = (r, s')"
  shows "parse_step a s (link_later r s')" and "r = length (ref_heap s)"
    and "length (ref_heap s') = Suc r" and "node_heap s' = node_heap s" and "r_parent (ref_at s' r) = Some a"
proof -
  have r: "r = length (ref_heap s)" and
    s': "s' = s\<lparr>ref_heap := ref_heap s @ [referencePointer_init (TText t) False (Some a)]\<rparr>"
    using assms by (auto simp: new_pointer_def new_ref_def)
  show "parse_step a s (link_later r s')"
    unfolding parse_step_def link_later_def s' r
    by (auto simp: reading_def unlinked_ref_def referencePointer_init_def intro: unlinked_node_mono)
  show "r = length (ref_heap s)" by (rule r)
  show "length (ref_heap s') = Suc r" and "node_heap s' = node_heap s" and "r_parent (ref_at s' r) = Some a"
    by (simp_all add: r s' referencePointer_init_def)
qed

text \<open>Assigning to a reference that stays a text.\<close>

lemma parse_step_modify_ref:
  assumes "\<And>q. unlinked_ref s q \<Longrightarrow> unlinked_ref s (g q)" and "\<And>q. r_parent (g q) = r_parent q"
  shows "parse_step a s (modify_ref r g s)"
proof -
  have "set (ref_heap (modify_ref r g s)) \<subseteq> insert (g (ref_at s r)) (set (ref_heap s))"
    unfolding modify_ref_def by (simp add: set_update_subset_insert)
  moreover have "unlinked_ref s (g (ref_at s r))" if "reading s" "r < length (ref_heap s)"
    using that assms by (simp add: reading_def)
  moreover have "modify_ref r g s = s" if "\<not> r < length (ref_heap s)"
    using that by (simp add: modify_ref_def list_update_beyond)
  moreover have "r_parent (ref_at (modify_ref r g s) q) = r_parent (ref_at s q)" for q
    by (simp add: ref_at_modify_ref assms(2))
  then have "unlinked_node (modify_ref r g s) b n \<longleftrightarrow> unlinked_node s b n"
    and "unlinked_ref (modify_ref r g s) q \<longleftrightarrow> unlinked_ref s q" for b n q
    by (simp_all add: unlinked_node_def unlinked_ref_def heap_simps)
  ultimately have "reading s \<longrightarrow> reading (modify_ref r g s)"
    by (cases "r < length (ref_heap s)") (auto simp: reading_def heap_simps)
  then show ?thesis by (simp add: parse_step_def heap_simps)
qed

section \<open>Every reader takes such steps\<close>

named_theorems steps \<open>the steps of the readers\<close>

lemma addReference_step [steps]:
  "r < length (ref_heap s) \<Longrightarrow> r_parent (ref_at s r) = Some a \<Longrightarrow> parse_step a s (addReference a r s)"
  unfolding addReference_def
  by (auto intro!: parse_step_modify simp: unlinked_node_def node_refs_def)

lemma modify_part_step:
  assumes "part_class (f (n_part (node_at s a))) = part_class (n_part (node_at s a))"
    and "set (part_refs (f (n_part (node_at s a)))) \<subseteq> set (part_refs (n_part (node_at s a))) \<union> {..<length (ref_heap s)}"
    and "part_encoding (f (n_part (node_at s a))) = part_encoding (n_part (node_at s a))"
  shows "parse_step a s (modify_part a f s)"
  unfolding modify_part_def
  by (rule parse_step_modify) (use assms in \<open>auto simp: unlinked_node_def node_refs_def\<close>)

lemma part_pointer_step:
  assumes "part_class (f (length (ref_heap s))) = part_class (n_part (node_at s a))"
    and "set (part_refs (f (length (ref_heap s)))) \<subseteq> {..length (ref_heap s)}"
    and "part_encoding (f (length (ref_heap s))) = part_encoding (n_part (node_at s a))"
  shows "parse_step a s (part_pointer a v f s)"
proof -
  obtain r s' where r: "new_pointer a v s = (r, s')" by fastforce
  note p = parse_step_pointer [OF r]
  have "part_pointer a v f s = modify_part a (\<lambda>_. f r) (link_later r s')"
    by (simp add: part_pointer_def r link_later_def modify_part_def modify_node_def)
  moreover have "parse_step a (link_later r s') (modify_part a (\<lambda>_. f r) (link_later r s'))"
    using p assms by (intro modify_part_step) (auto simp: link_later_def less_Suc_eq_le)
  ultimately show ?thesis using p(1) parse_step_trans by metis
qed

lemma dummy_attrs_unlinked: "unlinked_ref s q \<Longrightarrow> unlinked_ref s (fold dummy_attr avs q)"
  by (induction avs arbitrary: q)
     (auto simp: dummy_attr_def unlinked_ref_def ref_referenceType_def ref_isForward_def split: if_splits)

lemma dummy_attrs_parent: "r_parent (fold dummy_attr avs q) = r_parent q"
  by (induction avs arbitrary: q) (auto simp: dummy_attr_def ref_referenceType_def ref_isForward_def)

lemma dummy_reference_step:
  assumes "dummy_reference ord a x s = Inr t"
  shows "parse_step a s t"
proof -
  obtain v r s' where v: "first_data x = Inr v" and r: "new_pointer a v s = (r, s')"
    using assms by (fastforce simp: dummy_reference_def rbind_Inr_iff)
  note p = parse_step_pointer [OF r]
  let ?u = "addReference a r (link_later r s')"
  have "link_later r (addReference a r s') = ?u"
    by (simp add: link_later_def addReference_def modify_node_def)
  then have t: "t = modify_ref r (fold dummy_attr (ord (attributes x))) ?u"
    using assms v r by (simp add: dummy_reference_def)
  have "parse_step a (link_later r s') ?u"
    using p by (intro addReference_step) (simp_all add: link_later_def)
  moreover have "parse_step a ?u t"
    unfolding t by (rule parse_step_modify_ref) (simp_all add: dummy_attrs_unlinked dummy_attrs_parent)
  ultimately show ?thesis using p(1) by (blast intro: parse_step_trans)
qed

lemma initiateDummy_step: "initiateDummyXMLReferences ord a x s = Inr t \<Longrightarrow> parse_step a s t"
  by (auto simp: initiateDummyXMLReferences_def dest: parse_step_foldM dummy_reference_step split: if_splits)

lemma attribute_steps [steps]:
  "parse_step a s (browseName a v s)" "parse_step a s (displayName a v s)"
  "parse_step a s (node_description a v s)" "parse_step a s (writeMask a m s)"
  "parse_step a s (userWriteMask a m s)"
  unfolding browseName_def displayName_def node_description_def writeMask_def userWriteMask_def
  by (rule parse_step_modify; simp add: unlinked_node_def node_refs_def)+

lemma eventNotifier_part:
  "eventNotifier v p = Inr q \<Longrightarrow> part_class q = part_class p \<and> part_refs q = part_refs p \<and> part_encoding q = part_encoding p"
  by (auto simp: eventNotifier_def rbind_Inr_iff split: node_part.splits if_splits)

lemma base_attr_step: "base_attr a av s = Inr t \<Longrightarrow> parse_step a s t"
  by (auto simp: base_attr_def rbind_Inr_iff steps Let_def dest: eventNotifier_part
      intro!: modify_part_step split: prod.splits if_splits)

lemma base_child_step: "base_child ord a x s = Inr (t, gone) \<Longrightarrow> parse_step a s t"
  by (auto simp: base_child_def rbind_Inr_iff steps dest: initiateDummy_step split: if_splits)

lemma base_children_step: "base_children ord a xs s = Inr (t, rest) \<Longrightarrow> parse_step a s t"
proof (induction xs arbitrary: s t rest rule: length_induct)
  case (1 xs)
  show ?case
  proof (cases xs)
    case Nil
    with 1(2) show ?thesis by simp
  next
    case (Cons x ys)
    show ?thesis
    proof (cases "is_element x")
      case False
      then have "s = t \<or> (\<exists>r. base_children ord a ys s = Inr (t, r))"
        using 1(2) Cons by (cases ys) (auto simp: rbind_Inr_iff)
      moreover have "length ys < length xs" using Cons by simp
      ultimately show ?thesis using 1(1) by auto
    next
      case True
      with 1(2) Cons obtain s' gone where c: "base_child ord a x s = Inr (s', gone)"
        by (cases ys) (auto simp: rbind_Inr_iff)
      have "s' = t \<or> (\<exists>r zs. length zs < length xs \<and> base_children ord a zs s' = Inr (t, r))"
        using 1(2) Cons True c by (cases ys) (force simp: rbind_Inr_iff split: if_splits)+
      then have "parse_step a s' t" using 1(1) by auto
      with base_child_step [OF c] show ?thesis by (rule parse_step_trans)
    qed
  qed
qed

lemma va_attr_step: "va_attr env a av s = Inr t \<Longrightarrow> parse_step a s t"
  by (auto simp: va_attr_def rbind_Inr_iff Let_def set_dataType_def
      intro!: modify_part_step part_pointer_step split: prod.splits node_part.splits if_splits)

lemma va_child_step: "va_child env av a x s = Inr t \<Longrightarrow> parse_step a s t"
  by (auto simp: va_child_def rbind_Inr_iff Let_def set_dataType_def
      intro!: modify_part_step part_pointer_step split: option.splits node_part.splits if_splits)

lemma me_attr_step [steps]: "parse_step a s (me_attr a av s)"
  by (auto simp: me_attr_def intro!: part_pointer_step split: node_part.splits)

lemma vt_attr_step: "vt_attr a av s = Inr t \<Longrightarrow> parse_step a s t"
  by (auto simp: vt_attr_def rbind_Inr_iff Let_def
      intro!: modify_part_step part_pointer_step split: prod.splits node_part.splits if_splits)

lemma rt_parse_part: "rt_parse avs xs p = Inr q \<Longrightarrow> part_class q = part_class p \<and> part_refs q = part_refs p \<and> part_encoding q = part_encoding p"
  by (auto simp: rt_parse_def rbind_Inr_iff split: node_part.splits)

lemma ob_attrs_part:
  "foldM ob_attr avs p = Inr q \<Longrightarrow> part_class q = part_class p \<and> part_refs q = part_refs p \<and> part_encoding q = part_encoding p"
  by (erule foldM_invariant [where P = "\<lambda>q. part_class q = part_class p \<and> part_refs q = part_refs p \<and> part_encoding q = part_encoding p"])
     (auto simp: ob_attr_def dest: eventNotifier_part split: if_splits)

lemma part_folds:
  "part_class (fold ot_attr avs p) = part_class p" "part_refs (fold ot_attr avs p) = part_refs p"
  "part_encoding (fold ot_attr avs p) = part_encoding p"
  "part_class (fold dy_attr avs p) = part_class p" "part_refs (fold dy_attr avs p) = part_refs p"
  "part_encoding (fold dy_attr avs p) = part_encoding p"
  "part_class (fold dy_child xs p) = part_class p" "part_refs (fold dy_child xs p) = part_refs p"
  "part_encoding (fold dy_child xs p) = part_encoding p"
  "part_class (fold vt_child xs p) = part_class p" "part_refs (fold vt_child xs p) = part_refs p"
  "part_encoding (fold vt_child xs p) = part_encoding p"
  by (induction avs arbitrary: p; simp add: ot_attr_def dy_attr_def split: node_part.split)+
     (induction xs arbitrary: p; simp add: dy_child_def vt_child_def split: node_part.split)+

lemma parseXMLSubType_step:
  assumes "parseXMLSubType env a avs rest s = Inr t"
  shows "parse_step a s t"
proof (cases "n_part (node_at s a)")
  case (VariableNode w)
  then obtain u where u: "foldM (va_attr env a) avs s = Inr u"
    and t: "foldM (va_child env (last_value avs) a) (filter is_element rest) u = Inr t"
    using assms by (auto simp: parseXMLSubType_def Let_def rbind_Inr_iff)
  show ?thesis
    by (rule parse_step_trans) (rule parse_step_foldM [OF u], erule va_attr_step,
        rule parse_step_foldM [OF t], erule va_child_step)
next
  case (VariableTypeNode w)
  then obtain u where u: "foldM (vt_attr a) avs s = Inr u"
    and t: "t = modify_part a (fold vt_child (filter is_element rest)) u"
    using assms by (auto simp: parseXMLSubType_def Let_def rbind_Inr_iff)
  have "parse_step a s u" by (rule parse_step_foldM [OF u]) (erule vt_attr_step)
  moreover have "parse_step a u t"
    unfolding t by (rule modify_part_step) (simp_all add: part_folds)
  ultimately show ?thesis by (rule parse_step_trans)
qed (use assms in \<open>auto simp: parseXMLSubType_def Let_def rbind_Inr_iff part_folds
       intro!: modify_part_step parse_step_fold me_attr_step dest: rt_parse_part ob_attrs_part\<close>)

lemma node_parseXML_step:
  assumes "node_parseXML ord env a x s = Inr t"
  shows "parse_step a s t"
proof -
  obtain s1 s2 rest where "foldM (base_attr a) (ord (attributes x)) s = Inr s1"
    and "base_children ord a (childNodes x) s1 = Inr (s2, rest)"
    and "\<exists>avs. parseXMLSubType env a avs rest s2 = Inr t"
    using assms by (fastforce simp: node_parseXML_def rbind_Inr_iff)
  then show ?thesis
    by (meson base_attr_step base_children_step parseXMLSubType_step parse_step_foldM parse_step_trans)
qed

section \<open>Nodes and their ids\<close>

lemma find_distinct:
  "distinct (map f xs) \<Longrightarrow> List.find (\<lambda>a. f a = t) xs = Some a \<longleftrightarrow> a \<in> set xs \<and> f a = t"
  by (induction xs) auto

lemma find_none: "List.find P xs = None \<longleftrightarrow> (\<forall>x \<in> set xs. \<not> P x)"
  by (induction xs) auto

lemma ns_getNodeByIDString_text: "ns_getNodeByIDString s t = List.find (\<lambda>a. id_text s a = t) (ns_nodes s)"
  by (simp add: ns_getNodeByIDString_def id_text_def)

lemma option_eq_iff: "x = y \<longleftrightarrow> (\<forall>a. x = Some a \<longleftrightarrow> y = Some a)"
  by (cases x; cases y) auto

text \<open>\<open>registered\<close> without the search.\<close>

lemma registered_iff:
  "registered s \<longleftrightarrow> (\<forall>a \<in> set (ns_nodes s). a < length (node_heap s)) \<and>
     distinct (map (id_text s) (ns_nodes s)) \<and>
     (\<forall>t a. nodeids s t = Some a \<longleftrightarrow> a \<in> set (ns_nodes s) \<and> id_text s a = t)"
proof -
  have "nodeids s t = ns_getNodeByIDString s t \<longleftrightarrow>
      (\<forall>a. nodeids s t = Some a \<longleftrightarrow> a \<in> set (ns_nodes s) \<and> id_text s a = t)"
    if d: "distinct (map (id_text s) (ns_nodes s))" for t
  proof -
    have "nodeids s t = ns_getNodeByIDString s t \<longleftrightarrow>
        (\<forall>a. nodeids s t = Some a \<longleftrightarrow> ns_getNodeByIDString s t = Some a)"
      by (rule option_eq_iff)
    then show ?thesis by (simp only: ns_getNodeByIDString_text find_distinct [OF d])
  qed
  then show ?thesis by (auto simp: registered_def)
qed

lemma id_text_heap:
  assumes "map n_id (node_heap t) = map n_id (node_heap s)" and "a < length (node_heap s)"
  shows "id_text t a = id_text s a"
  using assms map_eq_imp_length_eq [OF assms(1)] nth_map [of a "node_heap s" n_id]
    nth_map [of a "node_heap t" n_id]
  by (simp add: id_text_def)

lemma registered_cong:
  assumes "map n_id (node_heap t) = map n_id (node_heap s)" and "ns_nodes t = ns_nodes s"
    and "nodeids t = nodeids s" and "registered s"
  shows "registered t"
proof -
  have len: "length (node_heap t) = length (node_heap s)" using map_eq_imp_length_eq [OF assms(1)] .
  have ids: "id_text t a = id_text s a" if "a \<in> set (ns_nodes s)" for a
    using assms(4) that id_text_heap [OF assms(1)] by (simp add: registered_iff)
  then have "map (id_text t) (ns_nodes s) = map (id_text s) (ns_nodes s)" by simp
  then have "distinct (map (id_text t) (ns_nodes t))"
    using assms(2,4) by (simp add: registered_iff del: map_eq_conv)
  with assms len ids show ?thesis by (auto simp: registered_iff)
qed

lemma drop_duplicate_ok:
  assumes "registered s" and "reading s"
  obtains u where "drop_duplicate t s = Inr u" and "registered u" and "reading u"
    and "t \<notin> id_text u ` set (ns_nodes u)" and "node_heap u = node_heap s"
    and "\<And>t'. t' \<noteq> t \<Longrightarrow> nodeids u t' = nodeids s t'"
proof (cases "nodeids s t")
  case None
  moreover from None assms(1) have "t \<notin> id_text s ` set (ns_nodes s)"
    by (metis imageE option.distinct(1) registered_iff)
  moreover from None have "drop_duplicate t s = Inr s" by (simp add: drop_duplicate_def domIff)
  ultimately show ?thesis using that [of s] assms by blast
next
  case (Some a)
  with assms(1) have a: "a \<in> set (ns_nodes s)" "id_text s a = t" by (auto simp: registered_iff)
  let ?u = "s\<lparr>ns_nodes := remove1 a (ns_nodes s), nodeids := (nodeids s)(t := None)\<rparr>"
  from assms(1) have dist: "distinct (map (id_text s) (ns_nodes s))" by (simp add: registered_iff)
  then have "distinct (ns_nodes s)" and inj: "inj_on (id_text s) (set (ns_nodes s))"
    by (auto simp: distinct_map)
  then have set: "set (ns_nodes ?u) = set (ns_nodes s) - {a}" by simp
  have same: "id_text ?u = id_text s" by (simp add: id_text_def fun_eq_iff)
  have ok: "drop_duplicate t s = Inr ?u"
    using Some assms(1) a by (simp add: drop_duplicate_def registered_def id_text_def domIff)
  have "t \<notin> id_text ?u ` set (ns_nodes ?u)"
    using inj a unfolding set same by (auto dest: inj_onD)
  moreover have "registered ?u"
    unfolding registered_iff same set
    using assms(1) a inj \<open>distinct (ns_nodes s)\<close>
    by (auto simp: registered_iff distinct_map fun_upd_apply dest: inj_onD intro: inj_on_subset)
  moreover have "reading ?u"
    using assms(2) by (auto simp: reading_def unlinked_ref_def unlinked_node_def)
  ultimately show ?thesis using that [of ?u] ok by simp
qed

lemma buildAliasList_keeps:
  assumes "buildAliasList x s = Inr t"
  shows "\<exists>al. t = s\<lparr>aliases := al\<rparr>"
proof (cases "tagName x = ''Aliases''")
  case True
  with assms have "foldM add_alias (filter is_element (childNodes x)) s = Inr t"
    by (simp add: buildAliasList_def)
  moreover have "\<exists>al. s = s\<lparr>aliases := al\<rparr>" by (metis opcua_namespace.surjective opcua_namespace.update_convs(5))
  ultimately show ?thesis
    by (rule foldM_invariant [where P = "\<lambda>u. \<exists>al. u = s\<lparr>aliases := al\<rparr>"])
       (auto simp: add_alias_def rbind_Inr_iff split: option.splits if_splits)
qed (use assms in \<open>auto simp: buildAliasList_def intro: exI [of _ "aliases s"]\<close>)

lemma id_text_upd [simp]:
  "id_text (s\<lparr>aliases := al\<rparr>) = id_text s" "id_text (s\<lparr>linkLater := ll\<rparr>) = id_text s"
  "id_text (s\<lparr>ref_heap := rh\<rparr>) = id_text s" "id_text (register_node a s) = id_text s"
  by (simp_all add: id_text_def fun_eq_iff register_node_def)

lemma aliases_keep [simp]:
  "reading (s\<lparr>aliases := al\<rparr>) = reading s" "registered (s\<lparr>aliases := al\<rparr>) = registered s"
  by (simp_all add: reading_def registered_iff unlinked_ref_def unlinked_node_def)

lemma new_node_reading:
  assumes "reading s" and "part_refs p = [] \<and> part_encoding p = (False, [])"
  shows "reading (snd (new_node (node_init i p) s))"
proof -
  have "unlinked_node s (length (node_heap s)) (node_init i p)"
    using assms(2) by (cases p) (simp_all add: unlinked_node_def node_init_def nodeClass_def node_refs_def)
  with assms(1) show ?thesis
    by (auto simp: new_node_def reading_def unlinked_ref_def unlinked_node_def less_Suc_eq nth_append)
qed

lemma new_node_registered: "registered s \<Longrightarrow> registered (snd (new_node n s))"
proof -
  assume reg: "registered s"
  then have "id_text (snd (new_node n s)) a = id_text s a" if "a \<in> set (ns_nodes s)" for a
    using that by (auto simp: registered_iff id_text_def new_node_def nth_append)
  moreover from this have "map (id_text (snd (new_node n s))) (ns_nodes s) = map (id_text s) (ns_nodes s)" by simp
  ultimately show ?thesis
    using reg unfolding registered_iff by (auto simp: new_node_def simp del: map_eq_conv)
qed

lemma register_node_ok:
  assumes "registered s" and "a < length (node_heap s)" and "id_text s a \<notin> id_text s ` set (ns_nodes s)"
  shows "registered (register_node a s)"
  unfolding registered_iff id_text_upd
  using assms by (auto simp: registered_iff register_node_def id_text_def [symmetric] image_iff)

lemma node_constructor_part: "node_constructor t = Inr p \<Longrightarrow> part_refs p = [] \<and> part_encoding p = (False, [])"
  by (auto simp: node_constructor_def new_variable_def new_object_def new_method_def new_objectType_def
      new_variableType_def new_dataType_def new_referenceType_def split: if_splits)

text \<open>What creating a node does to the registered ids.\<close>

lemma createNode_new:
  assumes "createNode ord env ty x s = Inr t" and "registered s" and "reading s"
    and hyps: "is_element x" "ty \<noteq> ''aliases''" "id_attribute x = Some v" "parse_node_id v = Inr i"
  shows "registered t" and "reading t" and "ns_getNodeByIDString t (id_str i) = Some (length (node_heap s))"
    and "t' \<noteq> id_str i \<Longrightarrow> ns_getNodeByIDString t t' = ns_getNodeByIDString s t'"
proof -
  obtain s1 where s1: "drop_duplicate (id_str i) s = Inr s1" "registered s1" "reading s1"
      "id_str i \<notin> id_text s1 ` set (ns_nodes s1)" "node_heap s1 = node_heap s"
      "\<And>t'. t' \<noteq> id_str i \<Longrightarrow> nodeids s1 t' = nodeids s t'"
    using drop_duplicate_ok [OF assms(2,3)] by metis
  let ?a = "length (node_heap s)"
  obtain p s3 where p: "node_constructor ty = Inr p"
    and s3: "node_parseXML ord env ?a x (snd (new_node (node_init i p) s1)) = Inr s3"
    and t: "t = register_node ?a s3"
    using assms(1) hyps s1(1,5) by (auto simp: createNode_def new_node_def rbind_Inr_iff)
  let ?s2 = "snd (new_node (node_init i p) s1)"
  have s2: "registered ?s2" "reading ?s2" "length (node_heap ?s2) = Suc ?a" "ns_nodes ?s2 = ns_nodes s1"
      "nodeids ?s2 = nodeids s1" "id_text ?s2 ?a = id_str i"
    using new_node_registered [OF s1(2)] new_node_reading [OF s1(3) node_constructor_part [OF p]] s1(5)
    by (simp_all add: new_node_def id_text_def node_init_def nodeClass_def)
  have old: "id_text ?s2 b = id_text s1 b" if "b \<in> set (ns_nodes s1)" for b
    using that s1(2) by (simp add: id_text_def new_node_def nth_append registered_iff)
  from node_parseXML_step [OF s3] s2 have frame: "ns_nodes s3 = ns_nodes s1" "nodeids s3 = nodeids s1"
      "map n_id (node_heap s3) = map n_id (node_heap ?s2)" "reading s3"
    by (simp_all add: parse_step_def)
  have len: "length (node_heap s3) = Suc ?a" using map_eq_imp_length_eq [OF frame(3)] s2(3) by simp
  have a: "id_text s3 ?a = id_str i" using id_text_heap [OF frame(3)] s2 by simp
  have reg3: "registered s3" using registered_cong [OF frame(3)] frame s2 by simp
  have "id_text s3 b = id_text s1 b" if "b \<in> set (ns_nodes s1)" for b
    using that old id_text_heap [OF frame(3), of b] s2(1,3,4) by (simp add: registered_iff)
  with s1(4) have "id_text s3 ?a \<notin> id_text s3 ` set (ns_nodes s3)"
    unfolding a frame(1) by (auto simp: image_iff)
  show reg: "registered t"
    using register_node_ok [OF reg3] len \<open>id_text s3 ?a \<notin> id_text s3 ` set (ns_nodes s3)\<close> by (simp add: t)
  show "reading t"
    using frame(4) by (auto simp: t register_node_def reading_def unlinked_ref_def unlinked_node_def)
  show "ns_getNodeByIDString t (id_str i) = Some ?a"
  proof -
    have "nodeids t (id_str i) = Some ?a"
      using a by (simp add: t register_node_def id_text_def)
    then show ?thesis using reg by (simp add: registered_def)
  qed
  show "ns_getNodeByIDString t t' = ns_getNodeByIDString s t'" if "t' \<noteq> id_str i"
  proof -
    have "nodeids t t' = nodeids s t'"
      using a s1(6) that frame(2) by (simp add: t register_node_def id_text_def)
    then show ?thesis using reg assms(2) by (simp add: registered_def)
  qed
qed

lemma createNode_ok:
  assumes "createNode ord env ty x s = Inr t" and "registered s" and "reading s"
  shows "registered t \<and> reading t"
proof -
  consider "t = s" | al where "t = s\<lparr>aliases := al\<rparr>"
    | v i where "is_element x" "ty \<noteq> ''aliases''" "id_attribute x = Some v" "parse_node_id v = Inr i"
    using assms(1) buildAliasList_keeps
    by (fastforce simp: createNode_def rbind_Inr_iff split: if_splits option.splits)
  then show ?thesis
  proof cases
    case 3
    then show ?thesis using createNode_new(1,2) [OF assms] by blast
  qed (use assms(2,3) in simp_all)
qed

lemma parse_element_ok:
  assumes "parse_element ord env x s = Inr t" and "registered s \<and> reading s"
  shows "registered t \<and> reading t"
proof (cases "element_type x")
  case (Some ty)
  with assms(1) have "createNode ord env ty x s = Inr t" by (simp add: parse_element_def)
  from createNode_ok [OF this] assms(2) show ?thesis by simp
qed (use assms in \<open>simp add: parse_element_def\<close>)

lemma namespace_init_ok: "registered namespace_init" "reading namespace_init"
  by (simp_all add: registered_def reading_def namespace_init_def ns_getNodeByIDString_def)

end
