(* ===== verification/Namespace_Link.thy ===== *)
theory Namespace_Link
  imports Namespace_Read "HOL-Library.Multiset"
begin

text \<open>
  What \<open>linkOpenPointers\<close> does to the pointers a reader left: the abstract result of one pointer
  (\<open>linked_ref\<close>), and that the loop gives exactly that to every pointer and keeps the rest for later.
\<close>

section \<open>The result of linking one pointer\<close>

definition target_result :: "opcua_namespace \<Rightarrow> target \<Rightarrow> target \<times> bool" where
  "target_result s t =
     (case t of
        TText x \<Rightarrow>
          (let u = resolve_alias s x in
           if is_id_text u then
             (case ns_getNodeByIDString s u of None \<Rightarrow> (TText u, False) | Some a \<Rightarrow> (TNode a, True))
           else (TText u, False))
      | _ \<Rightarrow> (t, False))"

definition type_result :: "opcua_namespace \<Rightarrow> target \<Rightarrow> target \<times> bool" where
  "type_result s t =
     (case t of
        TText x \<Rightarrow>
          (let u = resolve_alias s x in
           case ns_getNodeByIDString s u of None \<Rightarrow> (TText u, False) | Some a \<Rightarrow> (TNode a, True))
      | _ \<Rightarrow> (t, True))"

definition linked_ref :: "opcua_namespace \<Rightarrow> opcua_referencePointer \<Rightarrow> opcua_referencePointer" where
  "linked_ref s q = q\<lparr>r_target := fst (target_result s (r_target q)), r_type := fst (type_result s (r_type q))\<rparr>"

definition is_linked :: "opcua_namespace \<Rightarrow> opcua_referencePointer \<Rightarrow> bool" where
  "is_linked s q \<longleftrightarrow> snd (target_result s (r_target q)) \<and> snd (type_result s (r_type q))"

text \<open>Looking up an id or an alias does not depend on the store of references.\<close>

lemma lookup_ref_heap [simp]:
  "ns_getNodeByIDString (s\<lparr>ref_heap := h\<rparr>) = ns_getNodeByIDString s"
  "resolve_alias (s\<lparr>ref_heap := h\<rparr>) = resolve_alias s"
  by (simp_all add: ns_getNodeByIDString_def resolve_alias_def fun_eq_iff)

lemma lookup_modify_ref [heap_simps]:
  "ns_getNodeByIDString (modify_ref r g s) = ns_getNodeByIDString s"
  "resolve_alias (modify_ref r g s) = resolve_alias s"
  by (simp_all add: modify_ref_def)

lemma result_ref_heap [simp]:
  "target_result (s\<lparr>ref_heap := h\<rparr>) = target_result s" "type_result (s\<lparr>ref_heap := h\<rparr>) = type_result s"
  by (simp_all add: target_result_def type_result_def Let_def fun_eq_iff split: target.split)

lemma linked_ref_heap [simp]:
  "linked_ref (s\<lparr>ref_heap := h\<rparr>) = linked_ref s" "is_linked (s\<lparr>ref_heap := h\<rparr>) = is_linked s"
  by (simp_all add: linked_ref_def is_linked_def fun_eq_iff)

lemma modify_ref_modify_ref: "modify_ref r g (modify_ref r f s) = modify_ref r (g \<circ> f) s"
  by (cases "r < length (ref_heap s)") (simp_all add: modify_ref_def list_update_beyond)

lemma modify_ref_cong:
  "g (ref_at s r) = f (ref_at s r) \<Longrightarrow> modify_ref r g s = modify_ref r f s"
  by (simp add: modify_ref_def)

lemma modify_ref_id: "g (ref_at s r) = ref_at s r \<Longrightarrow> modify_ref r g s = s"
  by (simp add: modify_ref_def)

lemma link_target_result:
  assumes "\<exists>t. r_target (ref_at s r) = TText t"
  shows "link_target r s =
    (modify_ref r (\<lambda>q. q\<lparr>r_target := fst (target_result s (r_target q))\<rparr>) s, snd (target_result s (r_target (ref_at s r))))"
  using assms
  by (auto simp: link_target_def target_result_def Let_def heap_simps modify_ref_modify_ref ref_target_def
      split: option.split intro!: modify_ref_cong)

lemma link_type_result:
  assumes "\<not> is_node (r_type (ref_at s r))"
  shows "link_type r s =
    Inr (modify_ref r (\<lambda>q. q\<lparr>r_type := fst (type_result s (r_type q))\<rparr>) s, snd (type_result s (r_type (ref_at s r))))"
  using assms
  by (cases "r_type (ref_at s r)")
     (auto simp: link_type_def type_result_def Let_def heap_simps modify_ref_modify_ref ref_referenceType_def
      split: option.split intro!: modify_ref_cong modify_ref_id [symmetric])

lemma link_pointer_result:
  assumes "r < length (ref_heap s)" and "unlinked_ref s (ref_at s r)"
  shows "link_pointer r (s, l) =
    Inr (modify_ref r (linked_ref s) s, if is_linked s (ref_at s r) then l @ [r] else l)"
proof -
  let ?s1 = "modify_ref r (\<lambda>q. q\<lparr>r_target := fst (target_result s (r_target q))\<rparr>) s"
  have t: "link_target r s = (?s1, snd (target_result s (r_target (ref_at s r))))"
    using assms(2) by (intro link_target_result) (simp add: unlinked_ref_def)
  have ty: "r_type (ref_at ?s1 r) = r_type (ref_at s r)" using assms(1) by (simp add: ref_at_modify_ref)
  moreover have "type_result ?s1 = type_result s"
    by (simp add: modify_ref_def)
  ultimately have "link_type r ?s1 =
      Inr (modify_ref r (\<lambda>q. q\<lparr>r_type := fst (type_result s (r_type q))\<rparr>) ?s1, snd (type_result s (r_type (ref_at s r))))"
    using assms(2) link_type_result [of ?s1 r] by (simp add: unlinked_ref_def)
  moreover have "modify_ref r (\<lambda>q. q\<lparr>r_type := fst (type_result s (r_type q))\<rparr>) ?s1 = modify_ref r (linked_ref s) s"
    unfolding modify_ref_modify_ref by (rule modify_ref_cong) (simp add: linked_ref_def)
  ultimately show ?thesis using t by (auto simp: link_pointer_def is_linked_def)
qed

section \<open>The loop over all pointers\<close>

lemma link_upto:
  assumes "reading s" and "k \<le> length (ref_heap s)"
  shows "foldM link_pointer [0..<k] (s, []) =
    Inr (s\<lparr>ref_heap := map (linked_ref s) (take k (ref_heap s)) @ drop k (ref_heap s)\<rparr>,
         filter (\<lambda>r. is_linked s (ref_at s r)) [0..<k])"
  using assms(2)
proof (induction k)
  case (Suc k)
  let ?s = "s\<lparr>ref_heap := map (linked_ref s) (take k (ref_heap s)) @ drop k (ref_heap s)\<rparr>"
  have k: "k < length (ref_heap s)" using Suc.prems by simp
  have same: "linked_ref ?s = linked_ref s" "is_linked ?s = is_linked s"
    by simp_all
  have at: "ref_at ?s k = ref_at s k" using k by (simp add: nth_append min_def)
  have "unlinked_ref ?s (ref_at ?s k)"
    using assms(1) k unfolding at by (simp add: reading_def unlinked_ref_def)
  then have "link_pointer k (?s, l) = Inr (modify_ref k (linked_ref s) ?s, if is_linked s (ref_at s k) then l @ [k] else l)" for l
    using link_pointer_result [of k ?s l] k unfolding same at by simp
  moreover have "modify_ref k (linked_ref s) ?s =
      s\<lparr>ref_heap := map (linked_ref s) (take (Suc k) (ref_heap s)) @ drop (Suc k) (ref_heap s)\<rparr>"
    unfolding modify_ref_def at using k
    by (simp add: take_Suc_conv_app_nth list_update_append upd_conv_take_nth_drop Cons_nth_drop_Suc [symmetric])
  ultimately show ?case using Suc by (simp add: foldM_append)
qed simp

lemma link_all_targets_result:
  assumes "reading s"
  shows "link_all_targets s = Inr (s\<lparr>ref_heap := map (linked_ref s) (ref_heap s)\<rparr>,
      filter (\<lambda>r. is_linked s (ref_at s r)) (linkLater s))"
  using link_upto [OF assms, of "length (ref_heap s)"] assms
  by (simp add: link_all_targets_def reading_def)

section \<open>Taking the linked pointers off the list\<close>

definition ref_key :: "opcua_namespace \<Rightarrow> nat \<Rightarrow> target \<times> target \<times> bool" where
  "ref_key s r = (r_target (ref_at s r), r_type (ref_at s r), r_forward (ref_at s r))"

lemma ref_eq_key: "ref_eq (ref_at s r) (ref_at s q) \<longleftrightarrow> ref_key s q = ref_key s r"
  by (auto simp: ref_eq_def ref_key_def)

lemma remove_ref_key:
  assumes "\<And>q q'. P q \<Longrightarrow> ref_key s q' = ref_key s q \<Longrightarrow> P q'" and "P r" and "ref_key s r \<in> ref_key s ` set qs"
  shows "filter (\<lambda>q. \<not> P q) (remove_ref s r qs) = filter (\<lambda>q. \<not> P q) qs"
    and "add_mset (ref_key s r) (image_mset (ref_key s) (mset (filter P (remove_ref s r qs)))) =
      image_mset (ref_key s) (mset (filter P qs))"
  using assms(3) by (induction qs) (use assms(1,2) in \<open>auto simp: ref_eq_key\<close>)

lemma foldM_list_remove:
  assumes "\<And>q q'. P q \<Longrightarrow> ref_key s q' = ref_key s q \<Longrightarrow> P q'"
    and "image_mset (ref_key s) (mset rs) = image_mset (ref_key s) (mset (filter P qs))"
    and "\<forall>r \<in> set rs. P r"
  shows "foldM (list_remove s) rs qs = Inr (filter (\<lambda>q. \<not> P q) qs)"
  using assms(2,3)
proof (induction rs arbitrary: qs)
  case Nil
  then show ?case by (simp add: filter_id_conv filter_empty_conv)
next
  case (Cons r rs)
  have "ref_key s r \<in># image_mset (ref_key s) (mset (filter P qs))"
    unfolding Cons.prems(1) [symmetric] by simp
  then have r: "ref_key s r \<in> ref_key s ` set qs" by auto
  have closed: "\<And>q q'. P q \<Longrightarrow> ref_key s q' = ref_key s q \<Longrightarrow> P q'" by (rule assms(1))
  have "P r" using Cons.prems(2) by simp
  have rm: "filter (\<lambda>q. \<not> P q) (remove_ref s r qs) = filter (\<lambda>q. \<not> P q) qs"
    "add_mset (ref_key s r) (image_mset (ref_key s) (mset (filter P (remove_ref s r qs)))) =
      image_mset (ref_key s) (mset (filter P qs))"
    by (rule remove_ref_key [where P = P, OF _ \<open>P r\<close> r], erule (1) closed)+
  have "list_remove s r qs = Inr (remove_ref s r qs)"
    using r by (auto simp: list_remove_def list_ex_iff ref_eq_key)
  moreover have "image_mset (ref_key s) (mset rs) = image_mset (ref_key s) (mset (filter P (remove_ref s r qs)))"
    using trans [OF rm(2) Cons.prems(1) [symmetric]] by simp
  ultimately show ?case using Cons.IH [of "remove_ref s r qs"] Cons.prems(2) rm(1) by simp
qed

section \<open>Linking as a whole\<close>

lemma extends_invert_reference: "extends s (invert_reference a r s)"
proof (cases "r_forward (ref_at s r) \<or> \<not> is_node (r_target (ref_at s r))")
  case True
  then show ?thesis by (auto simp: invert_reference_def split: target.split)
next
  case False
  then obtain t where t: "r_target (ref_at s r) = TNode t" by (cases "r_target (ref_at s r)") auto
  let ?r = "ref_referenceType (r_type (ref_at s r)) (referencePointer_init (TNode a) False (Some t))"
  have "extends s (snd (new_ref ?r s))" by (rule extends_new_ref)
  moreover have "extends (snd (new_ref ?r s)) (addReference t q (snd (new_ref ?r s)))" for q
    by (rule extends_addReference)
  ultimately show ?thesis using False t by (auto simp: invert_reference_def new_ref_def intro: extends_trans)
qed

lemma extends_invert_references: "extends s (invert_references a s)"
  unfolding invert_references_def by (rule extends_fold) (rule extends_invert_reference)

text \<open>The graph after the two loops over the nodes.\<close>

definition close_graph :: "opcua_namespace \<Rightarrow> opcua_namespace" where
  "close_graph s =
     (let s2 = fold invert_references (ns_nodes s) s in fold updateInverseReferences (ns_nodes s2) s2)"

lemma extends_close_graph: "extends s (close_graph s)"
  unfolding close_graph_def Let_def
  by (rule extends_trans; rule extends_fold; rule extends_invert_references extends_updateInverse)

lemma linked_ref_unlinked:
  assumes "unlinked_ref s q"
  shows "is_linked s q \<longleftrightarrow> is_node (r_target (linked_ref s q)) \<and> (r_type (linked_ref s q) = TNone \<or> is_node (r_type (linked_ref s q)))"
  using assms
  by (auto simp: unlinked_ref_def is_linked_def linked_ref_def target_result_def type_result_def Let_def
      split: target.splits option.splits)

text \<open>
  The linked namespace: \<open>linkOpenPointers\<close> never fails on what the reader built, and is the linked
  store of references, closed, with the pointers that could not be linked left on the list.
\<close>

lemma linkOpenPointers_result:
  assumes "reading s"
  shows "linkOpenPointers s = Inr ((close_graph (s\<lparr>ref_heap := map (linked_ref s) (ref_heap s)\<rparr>))
    \<lparr>linkLater := filter (\<lambda>r. \<not> is_linked s (ref_at s r)) (linkLater s)\<rparr>)"
proof -
  let ?s1 = "s\<lparr>ref_heap := map (linked_ref s) (ref_heap s)\<rparr>"
  let ?s3 = "close_graph ?s1"
  let ?l = "filter (\<lambda>r. is_linked s (ref_at s r)) (linkLater s)"
  let ?P = "\<lambda>r. case ref_key ?s3 r of (t, ty, f) \<Rightarrow> is_node t \<and> (ty = TNone \<or> is_node ty)"
  have ext: "extends ?s1 ?s3" by (rule extends_close_graph)
  then have ll: "linkLater ?s3 = linkLater s" by (simp add: extends_def)
  have P: "?P r \<longleftrightarrow> is_linked s (ref_at s r)" if "r \<in> set (linkLater s)" for r
  proof -
    have r: "r < length (ref_heap s)" using that assms by (auto simp: reading_def)
    then have "ref_at ?s3 r = linked_ref s (ref_at s r)" using extends_ref_at [OF ext, of r] by simp
    then show ?thesis
      using linked_ref_unlinked [of s "ref_at s r"] assms r by (simp add: reading_def ref_key_def)
  qed
  have l: "?l = filter ?P (linkLater s)" by (rule filter_cong [OF refl]) (rule P [symmetric])
  have "foldM (list_remove ?s3) ?l (linkLater ?s3) = Inr (filter (\<lambda>r. \<not> ?P r) (linkLater s))"
    unfolding ll l by (rule foldM_list_remove) auto
  also have "filter (\<lambda>r. \<not> ?P r) (linkLater s) = filter (\<lambda>r. \<not> is_linked s (ref_at s r)) (linkLater s)"
    by (rule filter_cong [OF refl]) (simp only: P)
  finally show ?thesis
    unfolding linkOpenPointers_def link_all_targets_result [OF assms] close_graph_def Let_def by simp
qed

end
