(* ===== verification/Namespace_Closure.thy ===== *)
theory Namespace_Closure
  imports Namespace_Link
begin

text \<open>
  The graph \<open>linkOpenPointers\<close> leaves: every reference against the arrow has its mirror image, every
  reference can be found from its target, and no inverse reference repeats an ordinary one, so that
  \<open>sanitize\<close> never fails on it.
\<close>

section \<open>Loops that only add\<close>

text \<open>
  A loop whose body moves up in a preorder; what the body establishes for its element is kept by
  what follows.
\<close>

locale growth =
  fixes le :: "'s \<Rightarrow> 's \<Rightarrow> bool"
  assumes le_refl: "le s s"
    and le_trans: "le s t \<Longrightarrow> le t u \<Longrightarrow> le s u"
begin

lemma fold_le:
  assumes "\<And>x t. x \<in> set xs \<Longrightarrow> le s t \<Longrightarrow> le t (f x t)"
  shows "le s (fold f xs s)"
  using assms
proof (induction xs rule: rev_induct)
  case (snoc x xs)
  then have "le s (fold f xs s)" by simp
  moreover from snoc.prems [of x, OF _ this] have "le (fold f xs s) (f x (fold f xs s))" by simp
  ultimately show ?case by (auto intro: le_trans)
qed (simp add: le_refl)

lemma fold_establish:
  assumes step: "\<And>x t. x \<in> set xs \<Longrightarrow> le s t \<Longrightarrow> le t (f x t) \<and> Q x (f x t)"
    and keep: "\<And>x t u. x \<in> set xs \<Longrightarrow> Q x t \<Longrightarrow> le s t \<Longrightarrow> le t u \<Longrightarrow> Q x u"
  shows "\<forall>x \<in> set xs. Q x (fold f xs s)"
  using assms
proof (induction xs rule: rev_induct)
  case (snoc x xs)
  have le: "le s (fold f xs s)" by (rule fold_le) (use snoc.prems(1) in auto)
  have "\<forall>y \<in> set xs. Q y (fold f xs s)"
  proof (rule snoc.IH)
    show "le t (f y t) \<and> Q y (f y t)" if "y \<in> set xs" "le s t" for y t
      using that by (intro snoc.prems(1)) auto
    show "Q y u" if "y \<in> set xs" "Q y t" "le s t" "le t u" for y t u
      by (rule snoc.prems(2)) (use that in auto)
  qed
  moreover have x: "le (fold f xs s) (f x (fold f xs s))" "Q x (f x (fold f xs s))"
    using snoc.prems(1) [of x "fold f xs s"] le by simp_all
  moreover have "Q y (f x (fold f xs s))" if "y \<in> set xs" for y
    by (rule snoc.prems(2)) (use calculation that le in auto)
  ultimately show ?case by simp
qed simp

end

section \<open>Well formed graphs\<close>

abbreviation refs :: "opcua_namespace \<Rightarrow> nat \<Rightarrow> nat list" where
  "refs s a \<equiv> n_references (node_at s a)"

abbreviation inverse_refs :: "opcua_namespace \<Rightarrow> nat \<Rightarrow> nat list" where
  "inverse_refs s a \<equiv> n_referencedBy (node_at s a)"

definition graph_ok :: "opcua_namespace \<Rightarrow> bool" where
  "graph_ok s \<longleftrightarrow>
     (\<forall>a < length (node_heap s). \<forall>r \<in> set (refs s a) \<union> set (inverse_refs s a). r < length (ref_heap s)) \<and>
     (\<forall>r < length (ref_heap s). target_ok s (r_target (ref_at s r)))"

lemma graph_ok_ref:
  "graph_ok s \<Longrightarrow> a < length (node_heap s) \<Longrightarrow> r \<in> set (refs s a) \<Longrightarrow> r < length (ref_heap s)"
  by (simp add: graph_ok_def)

lemma graph_ok_target:
  "graph_ok s \<Longrightarrow> r < length (ref_heap s) \<Longrightarrow> r_target (ref_at s r) = TNode t \<Longrightarrow> t < length (node_heap s)"
  by (simp add: graph_ok_def target_ok_iff)

text \<open>Adding a reference, and adding an inverse reference.\<close>

lemma new_ref_graph_ok:
  assumes "graph_ok s" and "target_ok s (r_target q)"
  shows "graph_ok (snd (new_ref q s))"
  using assms by (auto simp: graph_ok_def new_ref_def nth_append less_Suc_eq target_ok_iff)

lemma modify_node_graph_ok:
  assumes "graph_ok s"
    and "a < length (node_heap s) \<Longrightarrow> \<forall>r \<in> set (n_references (f (node_at s a))) \<union> set (n_referencedBy (f (node_at s a))).
        r < length (ref_heap s)"
  shows "graph_ok (modify_node a f s)"
proof -
  have "\<forall>r \<in> set (refs (modify_node a f s) b) \<union> set (inverse_refs (modify_node a f s) b). r < length (ref_heap s)"
    if b: "b < length (node_heap s)" for b
  proof (cases "b = a")
    case True
    with b have "node_at (modify_node a f s) b = f (node_at s a)" by (simp add: node_at_modify_node)
    with True b assms(2) show ?thesis by metis
  next
    case False
    then have "node_at (modify_node a f s) b = node_at s b" by (simp add: node_at_modify_node)
    with b assms(1) show ?thesis unfolding graph_ok_def by metis
  qed
  then show ?thesis using assms(1) unfolding graph_ok_def heap_simps target_ok_iff by blast
qed

lemma addReference_graph_ok:
  assumes "graph_ok s" and "q < length (ref_heap s)"
  shows "graph_ok (addReference a q s)"
proof -
  have "graph_ok (modify_node a (\<lambda>n. n\<lparr>n_references := n_references n @ [q]\<rparr>) s)"
  proof (rule modify_node_graph_ok [OF assms(1)])
    assume "a < length (node_heap s)"
    with assms have "\<forall>r \<in> set (refs s a) \<union> set (inverse_refs s a). r < length (ref_heap s)"
      unfolding graph_ok_def by blast
    with assms(2) show "\<forall>r \<in> set (n_references (node_at s a\<lparr>n_references := refs s a @ [q]\<rparr>)) \<union>
        set (n_referencedBy (node_at s a\<lparr>n_references := refs s a @ [q]\<rparr>)). r < length (ref_heap s)"
      by auto
  qed
  with assms(1) show ?thesis by (simp add: addReference_def)
qed

section \<open>Mirror images\<close>

text \<open>The first loop only adds references with the arrow.\<close>

definition gains :: "opcua_namespace \<Rightarrow> opcua_namespace \<Rightarrow> bool" where
  "gains s t \<longleftrightarrow> (graph_ok s \<longrightarrow> graph_ok t \<and> extends s t \<and>
     (\<forall>a < length (node_heap s). inverse_refs t a = inverse_refs s a \<and> set (refs s a) \<subseteq> set (refs t a) \<and>
        (\<forall>r \<in> set (refs t a) - set (refs s a). r_forward (ref_at t r))))"

lemma gainsD:
  assumes "gains s t" and "graph_ok s"
  shows "graph_ok t" and "extends s t"
    and "a < length (node_heap s) \<Longrightarrow> inverse_refs t a = inverse_refs s a"
    and "a < length (node_heap s) \<Longrightarrow> r \<in> set (refs s a) \<Longrightarrow> r \<in> set (refs t a)"
    and "a < length (node_heap s) \<Longrightarrow> r \<in> set (refs t a) \<Longrightarrow> r \<in> set (refs s a) \<or> r_forward (ref_at t r)"
  using assms unfolding gains_def by blast+

lemma gains_trans:
  assumes "gains s t" and "gains t u"
  shows "gains s u"
  unfolding gains_def
proof (intro impI conjI allI)
  assume s: "graph_ok s"
  note t = gainsD [OF assms(1) s]
  note u = gainsD [OF assms(2) t(1)]
  show "graph_ok u" and "extends s u" using t u by (auto intro: extends_trans)
  fix a assume a: "a < length (node_heap s)"
  with t(2) have a': "a < length (node_heap t)" by (simp add: extends_length)
  show "inverse_refs u a = inverse_refs s a" using t(3) u(3) a a' by simp
  show "set (refs s a) \<subseteq> set (refs u a)" using t(4) u(4) a a' by blast
  have "r_forward (ref_at u r)" if "r \<in> set (refs t a)" "r_forward (ref_at t r)" for r
    using that graph_ok_ref [OF t(1) a'] extends_ref_at [OF u(2)] by simp
  then show "\<forall>r \<in> set (refs u a) - set (refs s a). r_forward (ref_at u r)"
    using t(5) [OF a] u(5) [OF a'] by blast
qed

interpretation gain: growth gains
  by unfold_locales (simp add: gains_def, rule gains_trans)

definition mirrored :: "opcua_namespace \<Rightarrow> nat \<Rightarrow> nat \<Rightarrow> bool" where
  "mirrored s a r \<longleftrightarrow>
     (case r_target (ref_at s r) of
        TNode t \<Rightarrow> list_ex (\<lambda>q. r_target (ref_at s q) = TNode a \<and> r_forward (ref_at s q) \<and>
                      r_type (ref_at s q) = r_type (ref_at s r)) (refs s t)
      | _ \<Rightarrow> True)"

lemma mirrored_mono:
  assumes "mirrored s a r" and ext: "extends s t" and "graph_ok s" and "r < length (ref_heap s)"
    and more: "\<And>b q. b < length (node_heap s) \<Longrightarrow> q \<in> set (refs s b) \<Longrightarrow> q \<in> set (refs t b)"
  shows "mirrored t a r"
proof (cases "r_target (ref_at s r)")
  case (TNode b)
  have b: "b < length (node_heap s)" using graph_ok_target [OF assms(3,4) TNode] .
  obtain q where q: "q \<in> set (refs s b)" "r_target (ref_at s q) = TNode a" "r_forward (ref_at s q)"
      "r_type (ref_at s q) = r_type (ref_at s r)"
    using assms(1) TNode by (auto simp: mirrored_def list_ex_iff)
  have "ref_at t r = ref_at s r" "ref_at t q = ref_at s q"
    using extends_ref_at [OF ext] assms(4) graph_ok_ref [OF assms(3) b q(1)] by auto
  with TNode q(2-4) more [OF b q(1)] show ?thesis
    unfolding mirrored_def list_ex_iff by (simp) (rule bexI [of _ q]; simp)
qed (use extends_ref_at [OF ext assms(4)] in \<open>simp_all add: mirrored_def\<close>)

lemma mirrored_gains:
  assumes "mirrored s a r" and "gains s t" and "graph_ok s" and "r < length (ref_heap s)"
  shows "mirrored t a r"
  using mirrored_mono [OF assms(1) gainsD(2) [OF assms(2,3)] assms(3,4)] gainsD(4) [OF assms(2,3)] by blast

lemma invert_reference_forward: "r_forward (ref_at s r) \<Longrightarrow> invert_reference a r s = s"
  by (simp add: invert_reference_def)

lemma invert_reference_gains:
  assumes "a < length (node_heap s)" and "r < length (ref_heap s)" and "graph_ok s"
  shows "gains s (invert_reference a r s)" and "\<not> r_forward (ref_at s r) \<Longrightarrow> mirrored (invert_reference a r s) a r"
proof -
  have both: "gains s (invert_reference a r s) \<and> (\<not> r_forward (ref_at s r) \<longrightarrow> mirrored (invert_reference a r s) a r)"
  proof (cases "\<not> r_forward (ref_at s r) \<and> is_node (r_target (ref_at s r))")
    case False
    then have "invert_reference a r s = s" by (auto simp: invert_reference_def split: target.split)
    with False show ?thesis by (cases "r_target (ref_at s r)") (auto simp: mirrored_def gain.le_refl)
  next
    case True
    then obtain t where t: "r_target (ref_at s r) = TNode t" by (cases "r_target (ref_at s r)") auto
    have t_ok: "t < length (node_heap s)" using graph_ok_target [OF assms(3,2) t] .
    let ?q = "ref_referenceType (r_type (ref_at s r)) (referencePointer_init (TNode a) False (Some t))"
    let ?u = "snd (new_ref ?q s)" and ?n = "length (ref_heap s)"
    have q: "r_target ?q = TNode a" "r_forward ?q" "r_type ?q = r_type (ref_at s r)"
      by (auto simp: ref_referenceType_def referencePointer_init_def)
    have res: "invert_reference a r s = addReference t ?n ?u"
      using True t by (simp add: invert_reference_def new_ref_def)
    have u: "graph_ok ?u" using assms(1,3) q(1) by (intro new_ref_graph_ok) (simp_all add: target_ok_def)
    have at: "ref_at ?u r = ref_at s r" "ref_at ?u ?n = ?q" "node_heap ?u = node_heap s"
      using assms(2) by (simp_all add: new_ref_def nth_append)
    have ok: "graph_ok (addReference t ?n ?u)"
      using u by (rule addReference_graph_ok) (simp add: new_ref_def)
    have ext: "extends s (addReference t ?n ?u)"
      using extends_new_ref extends_addReference by (rule extends_trans)
    have heap: "ref_heap (addReference t ?n ?u) = ref_heap ?u"
      by (simp add: addReference_def heap_simps)
    have "gains s (addReference t ?n ?u)"
      unfolding gains_def using ok ext at q(2)
      by (auto simp: addReference_def node_at_modify_node heap_simps)
    moreover have "\<exists>p \<in> set (refs (addReference t ?n ?u) t). ref_eq ?q (ref_at ?u p)"
      using t_ok at by (auto simp: addReference_def node_at_modify_node heap_simps list_ex_iff ref_eq_def)
    then have "mirrored (addReference t ?n ?u) a r"
      using t at q heap by (auto simp: mirrored_def list_ex_iff ref_eq_def)
    ultimately show ?thesis unfolding res by blast
  qed
  then show "gains s (invert_reference a r s)" and "\<not> r_forward (ref_at s r) \<Longrightarrow> mirrored (invert_reference a r s) a r"
    by blast+
qed

definition mirror_kept :: "opcua_namespace \<Rightarrow> nat \<Rightarrow> nat \<Rightarrow> bool" where
  "mirror_kept s a r \<longleftrightarrow> r < length (ref_heap s) \<and> (r_forward (ref_at s r) \<or> mirrored s a r)"

lemma mirror_kept_gains:
  assumes "mirror_kept s a r" and "gains s t" and "graph_ok s"
  shows "mirror_kept t a r"
proof -
  note t = gainsD [OF assms(2,3)]
  have r: "r < length (ref_heap s)" using assms(1) by (simp add: mirror_kept_def)
  then have "r < length (ref_heap t)" and "ref_at t r = ref_at s r"
    using extends_length(1) [OF t(2)] extends_ref_at [OF t(2)] by simp_all
  then show ?thesis using assms(1) mirrored_gains [OF _ assms(2,3) r] by (auto simp: mirror_kept_def)
qed

lemma invert_references_gains:
  assumes "a < length (node_heap s)" and "graph_ok s"
  shows "gains s (invert_references a s)"
    and "\<forall>r \<in> set (refs s a). mirror_kept (invert_references a s) a r"
proof -
  have step: "gains t (invert_reference a r t) \<and> mirror_kept (invert_reference a r t) a r"
    if "r \<in> set (refs s a)" "gains s t" for r t
  proof -
    note t = gainsD [OF that(2) assms(2)]
    have a: "a < length (node_heap t)" and r: "r < length (ref_heap t)"
      using assms that(1) extends_length [OF t(2)] graph_ok_ref [OF assms(2,1) that(1)] by simp_all
    note inv = invert_reference_gains [OF a r t(1)]
    note u = gainsD [OF inv(1) t(1)]
    have "r < length (ref_heap (invert_reference a r t))" and "ref_at (invert_reference a r t) r = ref_at t r"
      using extends_length(1) [OF u(2)] extends_ref_at [OF u(2)] r by simp_all
    then show ?thesis using inv by (auto simp: mirror_kept_def)
  qed
  show "gains s (invert_references a s)"
    unfolding invert_references_def by (rule gain.fold_le) (use step in blast)
  show "\<forall>r \<in> set (refs s a). mirror_kept (invert_references a s) a r"
    unfolding invert_references_def
  proof (rule gain.fold_establish)
    show "mirror_kept u a r" if "mirror_kept t a r" "gains s t" "gains t u" for r t u
      using that assms(2) gainsD(1) mirror_kept_gains by blast
  qed (use step in blast)
qed

text \<open>The first loop over the nodes.\<close>

definition mirror_all :: "opcua_namespace \<Rightarrow> opcua_namespace" where
  "mirror_all s = fold invert_references (ns_nodes s) s"

lemma mirror_all_gains:
  assumes "graph_ok s" and "\<forall>a \<in> set (ns_nodes s). a < length (node_heap s)"
  shows "gains s (mirror_all s)"
    and "\<forall>a \<in> set (ns_nodes s). \<forall>r \<in> set (refs (mirror_all s) a). mirror_kept (mirror_all s) a r"
proof -
  have step: "gains t (invert_references a t) \<and> (\<forall>r \<in> set (refs s a). mirror_kept (invert_references a t) a r)"
    if "a \<in> set (ns_nodes s)" "gains s t" for a t
  proof -
    note t = gainsD [OF that(2) assms(1)]
    have a: "a < length (node_heap s)" "a < length (node_heap t)"
      using assms(2) that(1) extends_length [OF t(2)] by simp_all
    show ?thesis using invert_references_gains [OF a(2) t(1)] t(4) [OF a(1)] by blast
  qed
  show gains: "gains s (mirror_all s)"
    unfolding mirror_all_def by (rule gain.fold_le) (use step in blast)
  have old: "\<forall>a \<in> set (ns_nodes s). \<forall>r \<in> set (refs s a). mirror_kept (mirror_all s) a r"
    unfolding mirror_all_def
  proof (rule gain.fold_establish)
    show "\<forall>r \<in> set (refs s a). mirror_kept u a r"
      if "\<forall>r \<in> set (refs s a). mirror_kept t a r" "gains s t" "gains t u" for a t u
      using that assms(1) gainsD(1) mirror_kept_gains by blast
  qed (use step in blast)
  note t = gainsD [OF gains assms(1)]
  show "\<forall>a \<in> set (ns_nodes s). \<forall>r \<in> set (refs (mirror_all s) a). mirror_kept (mirror_all s) a r"
  proof (intro ballI)
    fix a r assume a: "a \<in> set (ns_nodes s)" and r: "r \<in> set (refs (mirror_all s) a)"
    then have len: "a < length (node_heap s)" "a < length (node_heap (mirror_all s))"
      using assms(2) extends_length [OF t(2)] by simp_all
    from t(5) [OF len(1) r] show "mirror_kept (mirror_all s) a r"
      using old a graph_ok_ref [OF t(1) len(2) r] by (auto simp: mirror_kept_def)
  qed
qed

section \<open>Inverse references\<close>

text \<open>
  An inverse reference leads to a node that has a reference to this one and that this one has no
  ordinary reference to.
\<close>

definition inverse_ok :: "opcua_namespace \<Rightarrow> bool" where
  "inverse_ok s \<longleftrightarrow> (\<forall>a < length (node_heap s). \<forall>r \<in> set (inverse_refs s a).
     \<exists>b < length (node_heap s). r_target (ref_at s r) = TNode b \<and> hasReferenceTarget s b a \<and>
       \<not> hasReferenceTarget s a b)"

text \<open>The second loop keeps the references and adds inverse ones.\<close>

definition registers :: "opcua_namespace \<Rightarrow> opcua_namespace \<Rightarrow> bool" where
  "registers s t \<longleftrightarrow> (graph_ok s \<longrightarrow> graph_ok t \<and> extends s t \<and> (inverse_ok s \<longrightarrow> inverse_ok t) \<and>
     (\<forall>a < length (node_heap s). refs t a = refs s a \<and> set (inverse_refs s a) \<subseteq> set (inverse_refs t a)))"

lemma registersD:
  assumes "registers s t" and "graph_ok s"
  shows "graph_ok t" and "extends s t" and "inverse_ok s \<Longrightarrow> inverse_ok t"
    and "a < length (node_heap s) \<Longrightarrow> refs t a = refs s a"
    and "a < length (node_heap s) \<Longrightarrow> r \<in> set (inverse_refs s a) \<Longrightarrow> r \<in> set (inverse_refs t a)"
  using assms unfolding registers_def by blast+

interpretation register: growth registers
proof
  show "registers s s" for s by (simp add: registers_def)
  show "registers s u" if "registers s t" and "registers t u" for s t u
    unfolding registers_def
  proof (intro impI conjI allI)
    assume s: "graph_ok s"
    note t = registersD [OF that(1) s]
    note u = registersD [OF that(2) t(1)]
    show "graph_ok u" "extends s u" using t u by (auto intro: extends_trans)
    show "inverse_ok u" if "inverse_ok s" using t(3) u(3) that by blast
    fix a assume a: "a < length (node_heap s)"
    with t(2) have "a < length (node_heap t)" by (simp add: extends_length)
    with a t(4,5) u(4,5) show "refs u a = refs s a" "set (inverse_refs s a) \<subseteq> set (inverse_refs u a)"
      by auto
  qed
qed

lemma hasReferenceTarget_same:
  assumes "extends s t" and "refs t a = refs s a" and "graph_ok s" and "a < length (node_heap s)"
  shows "hasReferenceTarget t a b = hasReferenceTarget s a b"
  using assms graph_ok_ref [OF assms(3,4)] extends_ref_at [OF assms(1)]
  by (auto simp: hasReferenceTarget_def list_ex_iff)

definition found :: "opcua_namespace \<Rightarrow> nat \<Rightarrow> nat \<Rightarrow> bool" where
  "found s a r \<longleftrightarrow>
     (case r_target (ref_at s r) of
        TNode t \<Rightarrow> hasInverseReferenceTarget s t a \<or> hasReferenceTarget s t a
      | _ \<Rightarrow> True)"

lemma found_registers:
  assumes "found s a r" and "registers s t" and "graph_ok s" and "r < length (ref_heap s)"
  shows "found t a r"
proof (cases "r_target (ref_at s r)")
  case (TNode b)
  note t = registersD [OF assms(2,3)]
  have b: "b < length (node_heap s)" using graph_ok_target [OF assms(3,4) TNode] .
  have "hasInverseReferenceTarget t b a" if "hasInverseReferenceTarget s b a"
  proof -
    obtain q where q: "q \<in> set (inverse_refs s b)" "r_target (ref_at s q) = TNode a"
      using \<open>hasInverseReferenceTarget s b a\<close> by (auto simp: hasInverseReferenceTarget_def list_ex_iff)
    moreover from this b assms(3) have "q < length (ref_heap s)" unfolding graph_ok_def by blast
    ultimately show ?thesis
      using q(2) t(5) [OF b q(1)] extends_ref_at [OF t(2)]
      unfolding hasInverseReferenceTarget_def list_ex_iff by (intro bexI [of _ q]) simp_all
  qed
  then show ?thesis
    using assms(1) TNode extends_ref_at [OF t(2) assms(4)] hasReferenceTarget_same [OF t(2,4) assms(3) b] b
    by (auto simp: found_def)
qed (use extends_ref_at [OF registersD(2) [OF assms(2,3)] assms(4)] in \<open>simp_all add: found_def\<close>)

lemma addInverse_registers:
  assumes "graph_ok s" and "a < length (node_heap s)" and "b < length (node_heap s)" and "hasReferenceTarget s b a"
  shows "registers s (addInverseReferenceTarget a b s)"
    and "hasReferenceTarget s a b \<or> hasInverseReferenceTarget (addInverseReferenceTarget a b s) a b"
proof -
  have both: "registers s (addInverseReferenceTarget a b s) \<and>
      (hasReferenceTarget s a b \<or> hasInverseReferenceTarget (addInverseReferenceTarget a b s) a b)"
  proof (cases "hasReferenceTarget s a b")
    case True
    then show ?thesis by (simp add: addInverseReferenceTarget_def register.le_refl)
  next
    case False
    let ?q = "referencePointer_init (TNode b) True (Some a)" and ?n = "length (ref_heap s)"
    let ?u = "snd (new_ref ?q s)"
    let ?t = "modify_node a (\<lambda>n. n\<lparr>n_referencedBy := n_referencedBy n @ [?n]\<rparr>) ?u"
    have res: "addInverseReferenceTarget a b s = ?t"
      using False by (simp add: addInverseReferenceTarget_def new_ref_def)
    have u: "graph_ok ?u"
      using assms(1,3) by (intro new_ref_graph_ok) (simp_all add: target_ok_def referencePointer_init_def)
    have heap: "node_heap ?u = node_heap s" "ref_heap ?u = ref_heap s @ [?q]" by (simp_all add: new_ref_def)
    have t: "graph_ok ?t"
    proof (rule modify_node_graph_ok [OF u])
      assume "a < length (node_heap ?u)"
      with u have "\<forall>r \<in> set (refs ?u a) \<union> set (inverse_refs ?u a). r < length (ref_heap ?u)"
        unfolding graph_ok_def by blast
      then show "\<forall>r \<in> set (n_references (node_at ?u a\<lparr>n_referencedBy := inverse_refs ?u a @ [?n]\<rparr>)) \<union>
          set (n_referencedBy (node_at ?u a\<lparr>n_referencedBy := inverse_refs ?u a @ [?n]\<rparr>)). r < length (ref_heap ?u)"
        using heap by auto
    qed
    have ext: "extends s ?t"
      by (rule extends_trans [OF extends_new_ref [of s ?q]]) (simp add: extends_modify_node)
    have refs: "refs ?t c = refs s c" for c using heap by (simp add: node_at_modify_node)
    have inv: "inverse_refs ?t c = inverse_refs s c @ (if c = a then [?n] else [])" if "c < length (node_heap s)" for c
      using that heap by (simp add: node_at_modify_node)
    have has: "hasReferenceTarget ?t c d = hasReferenceTarget s c d" if "c < length (node_heap s)" for c d
      using hasReferenceTarget_same [OF ext refs assms(1) that] .
    have at: "ref_at ?t r = ref_at s r" if "r < ?n" for r using extends_ref_at [OF ext that] .
    have new: "ref_at ?t ?n = ?q" using heap by (simp add: modify_node_simps)
    have "inverse_ok ?t" if ok: "inverse_ok s"
      unfolding inverse_ok_def
    proof (intro allI impI ballI)
      fix c r assume c: "c < length (node_heap ?t)" and r: "r \<in> set (inverse_refs ?t c)"
      have len: "length (node_heap ?t) = length (node_heap s)" using heap by (simp add: modify_node_simps)
      show "\<exists>d < length (node_heap ?t). r_target (ref_at ?t r) = TNode d \<and> hasReferenceTarget ?t d c \<and>
          \<not> hasReferenceTarget ?t c d"
      proof (cases "r \<in> set (inverse_refs s c)")
        case True
        have r': "r < ?n" using assms(1) c True unfolding graph_ok_def len by blast
        obtain d where "d < length (node_heap s)" "r_target (ref_at s r) = TNode d"
            "hasReferenceTarget s d c" "\<not> hasReferenceTarget s c d"
          using ok c True unfolding inverse_ok_def len by blast
        then show ?thesis using at [OF r'] has c len by (intro exI [of _ d]) simp
      next
        case new_one: False
        with r inv c len have "c = a" "r = ?n" by (auto split: if_splits)
        with new assms False has c len show ?thesis
          by (intro exI [of _ b]) (simp add: referencePointer_init_def)
      qed
    qed
    moreover have "hasInverseReferenceTarget ?t a b"
      using inv [OF assms(2)] new by (simp add: hasInverseReferenceTarget_def referencePointer_init_def)
    ultimately show ?thesis unfolding res registers_def using t ext refs inv by auto
  qed
  then show "registers s (addInverseReferenceTarget a b s)"
    and "hasReferenceTarget s a b \<or> hasInverseReferenceTarget (addInverseReferenceTarget a b s) a b" by blast+
qed

lemma updateInverse_step_registers:
  assumes "graph_ok s" and "a < length (node_heap s)" and "r \<in> set (refs s a)"
  shows "registers s (updateInverse_step a r s)" and "found (updateInverse_step a r s) a r"
proof -
  have r: "r < length (ref_heap s)" by (rule graph_ok_ref [OF assms])
  have both: "registers s (updateInverse_step a r s) \<and> found (updateInverse_step a r s) a r"
  proof (cases "r_target (ref_at s r)")
    case (TNode t)
    show ?thesis
    proof (cases "hasInverseReferenceTarget s t a")
      case True
      then show ?thesis using TNode by (simp add: updateInverse_step_def found_def register.le_refl)
    next
      case False
      then have res: "updateInverse_step a r s = addInverseReferenceTarget t a s"
        using TNode by (simp add: updateInverse_step_def)
      have t: "t < length (node_heap s)" by (rule graph_ok_target [OF assms(1) r TNode])
      have "hasReferenceTarget s a t" using assms(3) TNode by (auto simp: hasReferenceTarget_def list_ex_iff)
      note add = addInverse_registers [OF assms(1) t assms(2) this]
      note u = registersD [OF add(1) assms(1)]
      have "found (addInverseReferenceTarget t a s) a r"
        using add(2) extends_ref_at [OF u(2) r] TNode hasReferenceTarget_same [OF u(2) u(4) assms(1) t] t
        by (auto simp: found_def)
      with add(1) show ?thesis unfolding res by blast
    qed
  qed (simp_all add: updateInverse_step_def found_def register.le_refl)
  then show "registers s (updateInverse_step a r s)" and "found (updateInverse_step a r s) a r" by blast+
qed

lemma updateInverse_registers:
  assumes "graph_ok s" and "a < length (node_heap s)"
  shows "registers s (updateInverseReferences a s)"
    and "\<forall>r \<in> set (refs s a). found (updateInverseReferences a s) a r"
proof -
  have step: "registers t (updateInverse_step a r t) \<and> found (updateInverse_step a r t) a r"
    if "r \<in> set (refs s a)" "registers s t" for r t
  proof -
    note t = registersD [OF that(2) assms(1)]
    have "a < length (node_heap t)" "r \<in> set (refs t a)"
      using assms(2) that(1) extends_length [OF t(2)] t(4) by simp_all
    then show ?thesis using updateInverse_step_registers t(1) by blast
  qed
  show "registers s (updateInverseReferences a s)"
    unfolding updateInverseReferences_def by (rule register.fold_le) (use step in blast)
  show "\<forall>r \<in> set (refs s a). found (updateInverseReferences a s) a r"
    unfolding updateInverseReferences_def
  proof (rule register.fold_establish)
    fix r t u assume hyps: "r \<in> set (refs s a)" "found t a r" "registers s t" "registers t u"
    note t = registersD [OF hyps(3) assms(1)]
    have "r < length (ref_heap t)"
      using graph_ok_ref [OF assms hyps(1)] extends_length(1) [OF t(2)] by simp
    with hyps t(1) show "found u a r" using found_registers by blast
  qed (use step in blast)
qed

definition register_all :: "opcua_namespace \<Rightarrow> opcua_namespace" where
  "register_all s = fold updateInverseReferences (ns_nodes s) s"

lemma register_all_registers:
  assumes "graph_ok s" and "\<forall>a \<in> set (ns_nodes s). a < length (node_heap s)"
  shows "registers s (register_all s)"
    and "\<forall>a \<in> set (ns_nodes s). \<forall>r \<in> set (refs (register_all s) a). found (register_all s) a r"
proof -
  have step: "registers t (updateInverseReferences a t) \<and> (\<forall>r \<in> set (refs s a). found (updateInverseReferences a t) a r)"
    if "a \<in> set (ns_nodes s)" "registers s t" for a t
  proof -
    note t = registersD [OF that(2) assms(1)]
    have "a < length (node_heap t)" "refs t a = refs s a"
      using assms(2) that(1) extends_length [OF t(2)] t(4) by simp_all
    then show ?thesis using updateInverse_registers [OF t(1)] by metis
  qed
  show reg: "registers s (register_all s)"
    unfolding register_all_def by (rule register.fold_le) (use step in blast)
  have "\<forall>a \<in> set (ns_nodes s). \<forall>r \<in> set (refs s a). found (register_all s) a r"
    unfolding register_all_def
  proof (rule register.fold_establish)
    fix a t u assume hyps: "a \<in> set (ns_nodes s)" "\<forall>r \<in> set (refs s a). found t a r" "registers s t" "registers t u"
    note t = registersD [OF hyps(3) assms(1)]
    have "r < length (ref_heap t)" if "r \<in> set (refs s a)" for r
      using graph_ok_ref [OF assms(1) _ that] hyps(1) assms(2) extends_length(1) [OF t(2)] by auto
    with hyps t(1) show "\<forall>r \<in> set (refs s a). found u a r" using found_registers by blast
  qed (use step in blast)
  then show "\<forall>a \<in> set (ns_nodes s). \<forall>r \<in> set (refs (register_all s) a). found (register_all s) a r"
    using registersD(4) [OF reg assms(1)] assms(2) by simp
qed

section \<open>The linked namespace\<close>

lemma close_graph_steps: "close_graph s = register_all (mirror_all s)"
  by (simp add: close_graph_def register_all_def mirror_all_def Let_def)

lemma resolve_in_range:
  assumes "registered s" and "ns_getNodeByIDString s u = Some a"
  shows "a < length (node_heap s)"
  using assms by (auto simp: registered_def ns_getNodeByIDString_def find_Some_iff)

lemma linked_graph_ok:
  assumes "reading s" and "registered s"
  shows "graph_ok (s\<lparr>ref_heap := map (linked_ref s) (ref_heap s)\<rparr>)"
proof -
  have "target_ok s (r_target (linked_ref s q))" if "q \<in> set (ref_heap s)" for q
    using assms that resolve_in_range [OF assms(2)]
    by (auto simp: linked_ref_def target_result_def target_ok_iff Let_def reading_def unlinked_ref_def
        split: option.splits if_splits target.splits)
  then have "target_ok s (r_target (linked_ref s (ref_at s r)))" if "r < length (ref_heap s)" for r
    using that by simp
  moreover have "r < length (ref_heap s)"
    if "a < length (node_heap s)" "r \<in> set (refs s a) \<union> set (inverse_refs s a)" for a r
    using reading_node [OF assms(1) that(1)] that(2) by (auto simp: unlinked_node_def node_refs_def)
  ultimately show ?thesis by (auto simp: graph_ok_def target_ok_iff)
qed

text \<open>What is known of the graph after linking.\<close>

lemma close_graph_facts:
  assumes "reading s" and "registered s"
  defines "s1 \<equiv> s\<lparr>ref_heap := map (linked_ref s) (ref_heap s)\<rparr>"
  shows "graph_ok (close_graph s1)" and "inverse_ok (close_graph s1)"
    and "a \<in> set (ns_nodes s) \<Longrightarrow> r \<in> set (refs (close_graph s1) a) \<Longrightarrow> found (close_graph s1) a r"
    and "a \<in> set (ns_nodes s) \<Longrightarrow> r \<in> set (refs (close_graph s1) a) \<Longrightarrow>
      r_forward (ref_at (close_graph s1) r) \<or> mirrored (close_graph s1) a r"
proof -
  have ok: "graph_ok s1" unfolding s1_def by (rule linked_graph_ok [OF assms(1,2)])
  have range: "\<forall>a \<in> set (ns_nodes s1). a < length (node_heap s1)"
    using assms(2) by (simp add: s1_def registered_def)
  note m = mirror_all_gains [OF ok range]
  note m' = gainsD [OF m(1) ok]
  let ?s2 = "mirror_all s1"
  have nodes2: "ns_nodes ?s2 = ns_nodes s" "length (node_heap ?s2) = length (node_heap s)"
    using m'(2) extends_length [OF m'(2)] by (simp_all add: extends_def s1_def)
  have range2: "\<forall>a \<in> set (ns_nodes ?s2). a < length (node_heap ?s2)"
    using range nodes2 by (simp add: s1_def)
  have "inverse_refs ?s2 a = []" if "a < length (node_heap ?s2)" for a
    using m'(3) [of a] that nodes2 reading_node [OF assms(1)] by (simp add: s1_def unlinked_node_def)
  then have inv2: "inverse_ok ?s2" by (simp add: inverse_ok_def)
  note g = register_all_registers [OF m'(1) range2]
  note g' = registersD [OF g(1) m'(1)]
  show "graph_ok (close_graph s1)" "inverse_ok (close_graph s1)"
    using g'(1,3) inv2 by (simp_all add: close_graph_steps)
  assume a: "a \<in> set (ns_nodes s)" and r: "r \<in> set (refs (close_graph s1) a)"
  then show "found (close_graph s1) a r" using g(2) nodes2 by (simp add: close_graph_steps)
  have a2: "a < length (node_heap ?s2)" using a range2 nodes2 by simp
  then have r2: "r \<in> set (refs ?s2 a)" using r g'(4) by (simp add: close_graph_steps)
  then have len: "r < length (ref_heap ?s2)" using graph_ok_ref [OF m'(1) a2] by simp
  have "r_forward (ref_at ?s2 r) \<or> mirrored ?s2 a r"
    using m(2) a r2 by (auto simp: mirror_kept_def s1_def)
  moreover have "mirrored (register_all ?s2) a r" if "mirrored ?s2 a r"
    by (rule mirrored_mono [OF that g'(2) m'(1) len]) (simp add: g'(4))
  ultimately show "r_forward (ref_at (close_graph s1) r) \<or> mirrored (close_graph s1) a r"
    using extends_ref_at [OF g'(2) len] by (auto simp: close_graph_steps)
qed

end
