(* ===== verification/Namespace_Facts.thy ===== *)
theory Namespace_Facts
  imports Namespace_Closure
begin

text \<open>
  The properties of reading, linking and checking a namespace, stated for whatever a sequence of
  node set files gives.
\<close>

section \<open>Checking the linked graph\<close>

text \<open>What makes checking safe: no inverse reference leads where an ordinary one does.\<close>

definition inverse_apart :: "opcua_namespace \<Rightarrow> bool" where
  "inverse_apart s \<longleftrightarrow> (\<forall>a < length (node_heap s). \<forall>r \<in> set (inverse_refs s a). \<forall>b.
     r_target (ref_at s r) = TNode b \<longrightarrow> \<not> hasReferenceTarget s a b)"

lemma inverse_ok_apart: "inverse_ok s \<Longrightarrow> inverse_apart s"
  by (force simp: inverse_ok_def inverse_apart_def)

definition both_linked :: "opcua_namespace \<Rightarrow> nat \<Rightarrow> bool" where
  "both_linked s r \<longleftrightarrow> is_node (r_type (ref_at s r)) \<and> is_node (r_target (ref_at s r))"

definition fails_check :: "opcua_namespace \<Rightarrow> nat \<Rightarrow> bool" where
  "fails_check s a \<longleftrightarrow> snd (sanitizeSubType s (n_part (node_at s a))) = Some False"

text \<open>A check of node \<open>a\<close> changes that node only.\<close>

lemma node_sanitize_result:
  assumes "inverse_apart s" and a: "a < length (node_heap s)"
  obtains t ok where "node_sanitize a s = Inr (t, ok)" and "ok = Some False \<longleftrightarrow> fails_check s a"
    and "ref_heap t = ref_heap s" and "ns_nodes t = ns_nodes s" and "length (node_heap t) = length (node_heap s)"
    and "\<And>b. b \<noteq> a \<Longrightarrow> node_at t b = node_at s b"
    and "refs t a = filter (both_linked s) (refs s a)" and "inverse_apart t"
    and "set (inverse_refs t a) \<subseteq> set (inverse_refs s a)"
proof -
  let ?s1 = "sanitize_references a s"
  let ?s2 = "modify_node a (\<lambda>n. n\<lparr>n_referencedBy := filter (really_referenced ?s1 a) (n_referencedBy n)\<rparr>) ?s1"
  let ?p = "sanitizeSubType ?s2 (n_part (node_at ?s2 a))"
  let ?t = "modify_part a (\<lambda>_. fst ?p) ?s2"
  have heap: "ref_heap ?s1 = ref_heap s" "length (node_heap ?s1) = length (node_heap s)"
      "ref_heap ?s2 = ref_heap s" "length (node_heap ?s2) = length (node_heap s)"
    by (simp_all add: sanitize_references_def heap_simps)
  have n1: "refs ?s1 a = filter (both_linked s) (refs s a)" "inverse_refs ?s1 a = inverse_refs s a"
      "n_part (node_at ?s1 a) = n_part (node_at s a)"
    using a by (simp_all add: sanitize_references_def node_at_modify_node both_linked_def [abs_def])
  have n2: "refs ?s2 a = refs ?s1 a" "n_part (node_at ?s2 a) = n_part (node_at s a)"
      "set (inverse_refs ?s2 a) \<subseteq> set (inverse_refs s a)"
    using a heap n1 by (auto simp: node_at_modify_node)
  have fewer: "hasReferenceTarget ?s2 a b \<Longrightarrow> hasReferenceTarget s a b" for b
    using n1 n2 heap by (auto simp: hasReferenceTarget_def list_ex_iff)
  have "\<not> reached_regularly ?s2 a r" if r: "r \<in> set (inverse_refs ?s2 a)" for r
  proof -
    have "\<not> hasReferenceTarget ?s2 a b" if "r_target (ref_at s r) = TNode b" for b
      using that assms r n2(3) fewer unfolding inverse_apart_def by blast
    then show ?thesis unfolding reached_regularly_def heap by (simp split: target.split)
  qed
  then have "sanitize_inverse a ?s1 = Inr ?s2" by (auto simp: sanitize_inverse_def list_ex_iff Let_def)
  then have res: "node_sanitize a s = Inr (?t, snd ?p)"
    by (simp add: node_sanitize_def split: prod.split)
  have ptr: "pointer_is_linked ?s2 = pointer_is_linked s"
    using heap by (auto simp: pointer_is_linked_def fun_eq_iff split: option.split)
  then have fails: "snd ?p = Some False \<longleftrightarrow> fails_check s a"
    unfolding n2 by (simp add: fails_check_def sanitizeSubType_def split: node_part.split)
  have other: "node_at ?t b = node_at s b" if "b \<noteq> a" for b
    using that by (simp add: modify_part_def node_at_modify_node sanitize_references_def)
  have ta: "refs ?t a = filter (both_linked s) (refs s a)" "set (inverse_refs ?t a) \<subseteq> set (inverse_refs s a)"
    using n1 n2 a heap by (simp_all add: modify_part_def node_at_modify_node)
  have th: "ref_heap ?t = ref_heap s" "ns_nodes ?t = ns_nodes s" "length (node_heap ?t) = length (node_heap s)"
    using heap by (simp_all add: modify_part_def heap_simps sanitize_references_def)
  have "inverse_apart ?t"
    unfolding inverse_apart_def
  proof (intro allI impI ballI)
    fix c r b assume c: "c < length (node_heap ?t)" and r: "r \<in> set (inverse_refs ?t c)"
      and b: "r_target (ref_at ?t r) = TNode b"
    show "\<not> hasReferenceTarget ?t c b"
    proof (cases "c = a")
      case True
      with assms a r b ta th show ?thesis by (auto simp: inverse_apart_def hasReferenceTarget_def list_ex_iff)
    next
      case False
      with assms c r b other [OF False] th show ?thesis by (simp add: inverse_apart_def hasReferenceTarget_def)
    qed
  qed
  with that [of ?t "snd ?p"] res fails th other ta show ?thesis by blast
qed

definition sanitize_step ::
    "nat \<Rightarrow> opcua_namespace \<times> nat list \<Rightarrow> (opcua_namespace \<times> nat list) res" where
  "sanitize_step a st =
     (case st of (s, failed) \<Rightarrow> rbind (node_sanitize a s) (\<lambda>(s', ok).
        Inr (s', if ok = Some False then failed @ [a] else failed)))"

lemma ns_sanitize_steps: "ns_sanitize s = foldM sanitize_step (ns_nodes s) (s, [])"
  by (simp add: ns_sanitize_def sanitize_step_def [abs_def])

lemma sanitize_steps_result:
  assumes "inverse_apart s" and "distinct xs" and "\<forall>a \<in> set xs. a < length (node_heap s)"
  shows "\<exists>t. foldM sanitize_step xs (s, l) = Inr (t, l @ filter (fails_check s) xs) \<and>
    ref_heap t = ref_heap s \<and> ns_nodes t = ns_nodes s \<and> (\<forall>a. a \<notin> set xs \<longrightarrow> node_at t a = node_at s a) \<and>
    (\<forall>a \<in> set xs. refs t a = filter (both_linked s) (refs s a))"
  using assms
proof (induction xs arbitrary: s l)
  case (Cons a xs)
  from Cons.prems(3) have "a < length (node_heap s)" by simp
  from node_sanitize_result [OF Cons.prems(1) this] obtain u ok where
    u: "node_sanitize a s = Inr (u, ok)" "ok = Some False \<longleftrightarrow> fails_check s a" "ref_heap u = ref_heap s"
      "ns_nodes u = ns_nodes s" "length (node_heap u) = length (node_heap s)" "\<And>b. b \<noteq> a \<Longrightarrow> node_at u b = node_at s b"
      "refs u a = filter (both_linked s) (refs s a)" "inverse_apart u" by metis
  have ptr: "pointer_is_linked u = pointer_is_linked s"
    using u(3) by (auto simp: pointer_is_linked_def fun_eq_iff split: option.split)
  have "fails_check u b = fails_check s b" if "b \<noteq> a" for b
    using u(6) [OF that] ptr by (simp add: fails_check_def sanitizeSubType_def split: node_part.split)
  then have fails: "filter (fails_check u) xs = filter (fails_check s) xs"
    using Cons.prems(2) by (intro filter_cong refl) (metis distinct.simps(2))
  have linked: "both_linked u = both_linked s" using u(3) by (simp add: both_linked_def [abs_def])
  have step: "sanitize_step a (s, l) = Inr (u, if fails_check s a then l @ [a] else l)"
    using u(1,2) by (simp add: sanitize_step_def)
  have "distinct xs" "\<forall>b \<in> set xs. b < length (node_heap u)" using Cons.prems u(5) by simp_all
  from Cons.IH [OF u(8) this, of "if fails_check s a then l @ [a] else l"] obtain t where
    t: "foldM sanitize_step xs (u, if fails_check s a then l @ [a] else l) =
        Inr (t, (if fails_check s a then l @ [a] else l) @ filter (fails_check s) xs)"
      "ref_heap t = ref_heap u" "ns_nodes t = ns_nodes u" "\<And>b. b \<notin> set xs \<Longrightarrow> node_at t b = node_at u b"
      "\<And>b. b \<in> set xs \<Longrightarrow> refs t b = filter (both_linked s) (refs u b)"
    unfolding fails linked by blast
  have rest: "refs t b = filter (both_linked s) (refs s b)" if "b \<in> set xs" for b
    using t(5) [OF that] u(6) [of b] that Cons.prems(2) by (metis distinct.simps(2))
  have "foldM sanitize_step (a # xs) (s, l) = Inr (t, l @ filter (fails_check s) (a # xs))"
    using step t(1) by simp
  moreover have "node_at t b = node_at s b" if "b \<notin> set (a # xs)" for b
    using t(4) u(6) that by simp
  moreover have "refs t a = filter (both_linked s) (refs s a)"
    using t(4) u(7) Cons.prems(2) by simp
  ultimately show ?case using t(2,3) u(3,4) rest by (intro exI [of _ t]) simp
qed (simp add: exI)

section \<open>From the files\<close>

text \<open>The node set files of a run, read in their order.\<close>

definition read_files :: "attr_order \<Rightarrow> py_env \<Rightarrow> xnode list \<Rightarrow> opcua_namespace res" where
  "read_files ord env roots = foldM (ns_parseXML ord env) roots namespace_init"

lemma ns_parseXML_ok:
  assumes "ns_parseXML ord env root s = Inr t" and "registered s \<and> reading s"
  shows "registered t \<and> reading t"
proof (cases "elements_below ''UANodeSet'' root")
  case (Cons u us)
  with assms(1) have f: "foldM (parse_element ord env) (filter is_element (childNodes u)) s = Inr t"
    by (simp add: ns_parseXML_def)
  show ?thesis
    by (rule foldM_invariant [OF f, where P = "\<lambda>s. registered s \<and> reading s"])
       (use assms(2) in simp, rule parse_element_ok)
qed (use assms in \<open>simp add: ns_parseXML_def\<close>)

lemma read_files_ok:
  assumes "read_files ord env roots = Inr s"
  shows "registered s" and "reading s"
proof -
  have "registered s \<and> reading s"
    by (rule foldM_invariant [OF assms [unfolded read_files_def], where P = "\<lambda>s. registered s \<and> reading s"])
       (use namespace_init_ok in simp, rule ns_parseXML_ok)
  then show "registered s" and "reading s" by blast+
qed

section \<open>A small node set\<close>

text \<open>A reference type with an alias, an object, and a second object below it.\<close>

definition demo_object :: xnode where
  "demo_object = XElem ''UAObject'' [(''NodeId'', ''i=85''), (''BrowseName'', ''Objects'')] []"

definition demo_set :: xnode where
  "demo_set = XElem ''UANodeSet'' []
     [XElem ''Aliases'' [] [XElem ''Alias'' [(''Alias'', ''Organizes'')] [XData ''i=35'']],
      XElem ''UAReferenceType'' [(''NodeId'', ''i=35''), (''BrowseName'', ''Organizes'')] [],
      demo_object,
      XElem ''UAObject'' [(''NodeId'', ''ns=2;i=1''), (''BrowseName'', ''2:Pump'')]
        [XElem ''References'' []
           [XElem ''Reference'' [(''ReferenceType'', ''Organizes''), (''IsForward'', ''false'')] [XData ''i=85'']]]]"

definition demo_check :: "(opcua_namespace \<Rightarrow> opcua_namespace \<Rightarrow> bool) \<Rightarrow> bool" where
  "demo_check P =
     (case read_files id demo_env [demo_set] of
        Inl _ \<Rightarrow> False
      | Inr s \<Rightarrow> (case linkOpenPointers s of Inl _ \<Rightarrow> False | Inr t \<Rightarrow> P s t))"

lemma demo_run:
  obtains s t where "read_files id demo_env [demo_set] = Inr s" and "linkOpenPointers s = Inr t"
    and "ns_nodes t = [0, 1, 2]" and "n_references (node_at t 2) = [0]" and "r_target (ref_at t 0) = TNode 1"
    and "\<not> r_forward (ref_at t 0)" and "linkLater s = [0]" and "linkLater t = []"
    and "\<not> isl (createNode id demo_env ''object'' demo_object s)"
proof -
  have "demo_check (\<lambda>s t. ns_nodes t = [0, 1, 2] \<and> n_references (node_at t 2) = [0] \<and>
      r_target (ref_at t 0) = TNode 1 \<and> \<not> r_forward (ref_at t 0) \<and> linkLater s = [0] \<and> linkLater t = [] \<and>
      \<not> isl (createNode id demo_env ''object'' demo_object s))"
    by code_simp
  then show ?thesis using that by (auto simp: demo_check_def split: sum.splits)
qed

text \<open>C9: whatever is read, every pointer that a node got is registered for linking exactly once and
  still names its target by a text; every node knows references of its own only; and the
  table of ids names exactly the nodes of the namespace, no two of which have the same id.\<close>

theorem files_read_invariant:
  assumes "read_files ord env roots = Inr s"
  shows "distinct (linkLater s) \<and> set (linkLater s) = {..<length (ref_heap s)} \<and>
    (\<forall>q \<in> set (ref_heap s). \<exists>t. r_target q = TText t) \<and>
    (\<forall>a < length (node_heap s). n_referencedBy (node_at s a) = [] \<and>
       (\<forall>r \<in> set (n_references (node_at s a)). r \<in> set (linkLater s) \<and> r_parent (ref_at s r) = Some a)) \<and>
    distinct (map (id_text s) (ns_nodes s)) \<and>
    (\<forall>t a. nodeids s t = Some a \<longleftrightarrow> a \<in> set (ns_nodes s) \<and> id_text s a = t)"
  using read_files_ok [OF assms]
  by (auto simp: reading_def registered_iff unlinked_ref_def unlinked_node_def node_refs_def)


corollary files_read_invariant_witness:
  "\<exists>s. read_files id demo_env [demo_set] = Inr s \<and> linkLater s = [0] \<and> {..<length (ref_heap s)} = {0}"
proof -
  obtain s where s: "read_files id demo_env [demo_set] = Inr s" "linkLater s = [0]" using demo_run by metis
  with files_read_invariant [OF s(1)] show ?thesis by auto
qed

text \<open>C8: linking what was read never fails.  Every pointer whose text, after looking it up in the
  aliases, is the id of a node of the namespace is set to that node, and no other; the pointers left
  on the list are exactly those whose target or type could not be linked.\<close>

theorem pointers_linked:
  assumes "read_files ord env roots = Inr s"
  shows "\<exists>t. linkOpenPointers s = Inr t \<and> ns_nodes t = ns_nodes s \<and>
    (\<forall>r < length (ref_heap s). \<forall>x. r_target (ref_at s r) = TText x \<longrightarrow>
       (let u = resolve_alias s x in
        r_target (ref_at t r) = (case (if is_id_text u then nodeids s u else None) of Some a \<Rightarrow> TNode a | None \<Rightarrow> TText u))) \<and>
    (\<forall>r < length (ref_heap s). \<forall>x. r_type (ref_at s r) = TText x \<longrightarrow>
       (let u = resolve_alias s x in
        r_type (ref_at t r) = (case nodeids s u of Some a \<Rightarrow> TNode a | None \<Rightarrow> TText u))) \<and>
    linkLater t = filter (\<lambda>r. \<not> (is_node (r_target (ref_at t r)) \<and>
      (r_type (ref_at t r) = TNone \<or> is_node (r_type (ref_at t r))))) (linkLater s)"
proof -
  note ok = read_files_ok [OF assms]
  let ?s1 = "s\<lparr>ref_heap := map (linked_ref s) (ref_heap s)\<rparr>"
  let ?t = "(close_graph ?s1)\<lparr>linkLater := filter (\<lambda>r. \<not> is_linked s (ref_at s r)) (linkLater s)\<rparr>"
  have ext: "extends ?s1 (close_graph ?s1)" by (rule extends_close_graph)
  have at: "ref_at ?t r = linked_ref s (ref_at s r)" if "r < length (ref_heap s)" for r
    using extends_ref_at [OF ext, of r] that by simp
  have ids: "ns_getNodeByIDString s = nodeids s" using ok(1) by (auto simp: registered_def)
  have "filter (\<lambda>r. \<not> is_linked s (ref_at s r)) (linkLater s) =
      filter (\<lambda>r. \<not> (is_node (r_target (ref_at ?t r)) \<and> (r_type (ref_at ?t r) = TNone \<or> is_node (r_type (ref_at ?t r)))))
        (linkLater s)"
    by (rule filter_cong [OF refl])
       (use ok(2) at linked_ref_unlinked in \<open>auto simp: reading_def simp del: linked_ref_heap\<close>)
  moreover have "ns_nodes ?t = ns_nodes s" using ext by (simp add: extends_def)
  ultimately show ?thesis
    using linkOpenPointers_result [OF ok(2)] at
    by (intro exI [of _ ?t]) (simp add: linked_ref_def target_result_def type_result_def ids Let_def split: option.split)
qed

lemma linkLater_upd [simp]:
  "graph_ok (s\<lparr>linkLater := l\<rparr>) = graph_ok s" "inverse_ok (s\<lparr>linkLater := l\<rparr>) = inverse_ok s"
  "found (s\<lparr>linkLater := l\<rparr>) a r = found s a r" "mirrored (s\<lparr>linkLater := l\<rparr>) a r = mirrored s a r"
  by (simp_all add: graph_ok_def inverse_ok_def target_ok_iff hasReferenceTarget_def found_def mirrored_def
      hasInverseReferenceTarget_def split: target.split)

text \<open>The linked namespace, as the later theorems use it.\<close>

lemma linked_graph:
  assumes "read_files ord env roots = Inr s" and "linkOpenPointers s = Inr t"
  shows "graph_ok t" and "inverse_ok t" and "registered t" and "map n_part (node_heap t) = map n_part (node_heap s)"
    and "a \<in> set (ns_nodes t) \<Longrightarrow> r \<in> set (refs t a) \<Longrightarrow> found t a r"
    and "a \<in> set (ns_nodes t) \<Longrightarrow> r \<in> set (refs t a) \<Longrightarrow> r_forward (ref_at t r) \<or> mirrored t a r"
proof -
  note ok = read_files_ok [OF assms(1)]
  let ?c = "close_graph (s\<lparr>ref_heap := map (linked_ref s) (ref_heap s)\<rparr>)"
  obtain l where t: "t = ?c\<lparr>linkLater := l\<rparr>"
    using linkOpenPointers_result [OF ok(2)] assms(2) by auto
  have c: "ns_nodes ?c = ns_nodes s" "nodeids ?c = nodeids s" "map n_id (node_heap ?c) = map n_id (node_heap s)"
    and parts: "map n_part (node_heap ?c) = map n_part (node_heap s)"
    using extends_close_graph [of "s\<lparr>ref_heap := map (linked_ref s) (ref_heap s)\<rparr>"] by (simp_all add: extends_def)
  note facts = close_graph_facts [OF ok(2,1)]
  show "graph_ok t" "inverse_ok t"
    using facts(1,2) by (simp_all add: t)
  show "registered t" by (rule registered_cong [OF _ _ _ ok(1)]) (simp_all add: t c)
  show "map n_part (node_heap t) = map n_part (node_heap s)" using parts by (simp add: t)
  show "found t a r" if "a \<in> set (ns_nodes t)" "r \<in> set (refs t a)"
    using facts(3) that c by (simp add: t)
  show "r_forward (ref_at t r) \<or> mirrored t a r" if "a \<in> set (ns_nodes t)" "r \<in> set (refs t a)"
    using facts(4) that c by (simp add: t)
qed


corollary pointers_linked_witness:
  "\<exists>s t. read_files id demo_env [demo_set] = Inr s \<and> linkOpenPointers s = Inr t \<and> ns_nodes t = ns_nodes s \<and> linkLater t = []"
proof -
  obtain s t where s: "read_files id demo_env [demo_set] = Inr s" "linkOpenPointers s = Inr t" "linkLater t = []"
    by (rule demo_run)
  with pointers_linked [OF s(1)] show ?thesis by auto
qed

text \<open>C1: in the linked namespace every reference can be followed back: its target has a reference or
  an inverse reference to the node it comes from, and a reference against the arrow has a mirror
  image of the same type with the arrow.\<close>

theorem linked_graph_closed:
  assumes "read_files ord env roots = Inr s" and "linkOpenPointers s = Inr t"
    and "a \<in> set (ns_nodes t)" and "r \<in> set (n_references (node_at t a))" and "r_target (ref_at t r) = TNode b"
  shows "(hasReferenceTarget t b a \<or> hasInverseReferenceTarget t b a) \<and>
    (\<not> r_forward (ref_at t r) \<longrightarrow>
       (\<exists>q \<in> set (n_references (node_at t b)). r_target (ref_at t q) = TNode a \<and> r_forward (ref_at t q) \<and>
          r_type (ref_at t q) = r_type (ref_at t r)))"
  using linked_graph(5,6) [OF assms(1-4)] assms(5) by (auto simp: found_def mirrored_def list_ex_iff)


corollary linked_graph_closed_witness:
  "\<exists>s t. read_files id demo_env [demo_set] = Inr s \<and> linkOpenPointers s = Inr t \<and>
     (\<exists>q \<in> set (n_references (node_at t 1)). r_target (ref_at t q) = TNode 2 \<and> r_forward (ref_at t q))"
proof -
  obtain s t where st: "read_files id demo_env [demo_set] = Inr s" "linkOpenPointers s = Inr t"
    and g: "ns_nodes t = [0, 1, 2]" "n_references (node_at t 2) = [0]" "r_target (ref_at t 0) = TNode 1"
      "\<not> r_forward (ref_at t 0)" by (rule demo_run)
  from linked_graph_closed [OF st, of 2 0 1] st g show ?thesis by auto
qed

text \<open>C10: checking the linked namespace never fails.  It reports exactly the nodes with a failing
  check of their class, and afterwards every reference of a node has both ends linked; the other
  references are gone.\<close>

theorem sanitize_linked_namespace:
  assumes "read_files ord env roots = Inr s" and "linkOpenPointers s = Inr t"
  shows "\<exists>u. ns_sanitize t = Inr (u, filter (fails_check t) (ns_nodes t)) \<and> ns_nodes u = ns_nodes t \<and>
    (\<forall>a \<in> set (ns_nodes u). n_references (node_at u a) =
       filter (\<lambda>r. is_node (r_type (ref_at t r)) \<and> is_node (r_target (ref_at t r))) (n_references (node_at t a)))"
proof -
  note ok = linked_graph [OF assms]
  have "distinct (ns_nodes t)" and "\<forall>a \<in> set (ns_nodes t). a < length (node_heap t)"
    using ok(3) by (auto simp: registered_def distinct_map)
  from sanitize_steps_result [OF inverse_ok_apart [OF ok(2)] this, of "[]"] obtain u where
    "ns_sanitize t = Inr (u, filter (fails_check t) (ns_nodes t))" "ns_nodes u = ns_nodes t"
    "\<forall>a \<in> set (ns_nodes t). refs u a = filter (both_linked t) (refs t a)"
    by (auto simp: ns_sanitize_steps)
  then show ?thesis by (intro exI [of _ u]) (simp add: both_linked_def [abs_def])
qed


corollary sanitize_linked_namespace_witness:
  "\<exists>s t u. read_files id demo_env [demo_set] = Inr s \<and> linkOpenPointers s = Inr t \<and>
     ns_sanitize t = Inr (u, filter (fails_check t) [0, 1, 2])"
proof -
  obtain s t where st: "read_files id demo_env [demo_set] = Inr s" "linkOpenPointers s = Inr t"
    and g: "ns_nodes t = [0, 1, 2]" by (rule demo_run)
  from sanitize_linked_namespace [OF st] st g show ?thesis by metis
qed

text \<open>C11: a node all of whose references against the arrow are linked, and that has one, gets a
  parent: the target of such a reference, together with a reference of the parent back to it.\<close>

theorem first_parent_found:
  assumes "read_files ord env roots = Inr s" and "linkOpenPointers s = Inr t" and "a \<in> set (ns_nodes t)"
    and "\<forall>r \<in> set (n_references (node_at t a)). r_forward (ref_at t r) \<or> is_node (r_target (ref_at t r))"
    and "\<exists>r \<in> set (n_references (node_at t a)). \<not> r_forward (ref_at t r)"
  shows "\<exists>p q. getFirstParentNode t a = Inr (Some p, Some q) \<and>
    (\<exists>r \<in> set (n_references (node_at t a)). \<not> r_forward (ref_at t r) \<and> r_target (ref_at t r) = TNode p) \<and>
    q \<in> set (n_references (node_at t p)) \<and> r_target (ref_at t q) = TNode a"
proof -
  let ?rev = "filter (\<lambda>r. \<not> r_forward (ref_at t r)) (refs t a)"
  let ?l = "filter (\<lambda>r. \<not> r_hidden (ref_at t r)) ?rev @ filter (\<lambda>r. r_hidden (ref_at t r)) ?rev"
  have set: "set ?l = set ?rev" by auto
  have "set ?rev \<noteq> {}" using assms(5) by (simp add: set_empty [symmetric] del: set_empty) blast
  then have "?l \<noteq> []" using set by (metis set_empty)
  then obtain r rs where l: "?l = r # rs" by (cases ?l) blast+
  then have "r \<in> set ?l" by simp
  then have r: "r \<in> set (refs t a)" "\<not> r_forward (ref_at t r)" unfolding set by simp_all
  with assms(4) obtain p where p: "r_target (ref_at t r) = TNode p" by (cases "r_target (ref_at t r)") auto
  have "mirrored t a r" using linked_graph(6) [OF assms(1,2,3) r(1)] r(2) by simp
  then obtain q' where "q' \<in> set (refs t p)" "r_target (ref_at t q') = TNode a"
    using p by (auto simp: mirrored_def list_ex_iff)
  then obtain q where q: "refs_back t p a = Some q"
    by (cases "refs_back t p a") (auto simp: refs_back_def find_none)
  then have "q \<in> set (refs t p)" "r_target (ref_at t q) = TNode a"
    by (auto simp: refs_back_def find_Some_iff)
  moreover have "getFirstParentNode t a = first_parent t a None ?l"
    by (simp add: getFirstParentNode_def Let_def)
  then have "getFirstParentNode t a = Inr (Some p, Some q)" unfolding l using p q by simp
  ultimately show ?thesis using r p by blast
qed


corollary first_parent_found_witness:
  "\<exists>s t q. read_files id demo_env [demo_set] = Inr s \<and> linkOpenPointers s = Inr t \<and>
     getFirstParentNode t 2 = Inr (Some 1, Some q)"
proof -
  obtain s t where st: "read_files id demo_env [demo_set] = Inr s" "linkOpenPointers s = Inr t"
    and g: "ns_nodes t = [0, 1, 2]" "n_references (node_at t 2) = [0]" "r_target (ref_at t 0) = TNode 1"
      "\<not> r_forward (ref_at t 0)" by (rule demo_run)
  from first_parent_found [OF st, of 2] st g show ?thesis by auto
qed

text \<open>A node that is defined again replaces the first definition: afterwards its id names the new
  node, every other id what it named before.\<close>

theorem redefined_node_replaces:
  assumes "read_files ord env roots = Inr s" and "createNode ord env ty x s = Inr t"
    and "is_element x" and "ty \<noteq> ''aliases''" and "id_attribute x = Some v" and "parse_node_id v = Inr i"
  shows "ns_getNodeByIDString t (id_str i) = Some (length (node_heap s)) \<and>
    (\<forall>t'. t' \<noteq> id_str i \<longrightarrow> ns_getNodeByIDString t t' = ns_getNodeByIDString s t')"
  using createNode_new(3,4) [OF assms(2) read_files_ok [OF assms(1)] assms(3-6)] by blast


corollary redefined_node_replaces_witness:
  "\<exists>s t. read_files id demo_env [demo_set] = Inr s \<and> createNode id demo_env ''object'' demo_object s = Inr t \<and>
     ns_getNodeByIDString t ''i=85'' = Some (length (node_heap s))"
proof -
  obtain s where s: "read_files id demo_env [demo_set] = Inr s"
    and "\<not> isl (createNode id demo_env ''object'' demo_object s)" by (rule demo_run)
  then obtain t where t: "createNode id demo_env ''object'' demo_object s = Inr t"
    by (cases "createNode id demo_env ''object'' demo_object s") auto
  have id: "is_element demo_object" "id_attribute demo_object = Some ''i=85''"
    "parse_node_id ''i=85'' = Inr \<lparr>id_i = Some 85, id_b = None, id_g = None, id_s = None, id_ns = 0, mystrname = ''i=85''\<rparr>"
    by code_simp+
  from redefined_node_replaces [OF s t id(1) _ id(2,3)] s t show ?thesis by (auto simp: id_str_def)
qed

end
