(* ===== verification/Namespace_Print.thy ===== *)
theory Namespace_Print
  imports Node_Print Namespace_Facts
begin

text \<open>
  \<open>printOpen62541Header\<close> of ua_namespace.py, which prints all nodes in their order, and the script
  generate_open62541CCode.py, which takes the namespace from the files to the code.
\<close>

section \<open>The header\<close>

definition newline :: string where
  "newline = [char_of (10::nat)]"

definition warning_text :: string where
  "warning_text = ''/* WARNING: This is a generated file.'' @ newline @
     '' * Any manual changes will be overwritten.'' @ newline @ newline @ '' */''"

definition header_start :: "string \<Rightarrow> string list" where
  "header_start out =
     [warning_text, ''#ifndef '' @ str_upper out @ ''_H_'', ''#define '' @ str_upper out @ ''_H_'',
      ''#ifdef UA_NO_AMALGAMATION'',
      ''#include \"server/ua_server_internal.h\"'', ''#include \"server/ua_nodes.h\"'',
      ''  #include \"ua_util.h\"'', ''  #include \"ua_types.h\"'', ''  #include \"ua_types_encoding_binary.h\"'',
      ''  #include \"ua_types_generated_encoding_binary.h\"'',
      ''  #include \"ua_transport_generated_encoding_binary.h\"'',
      ''#else'', ''  #include \"open62541.h\"'', ''#endif'', '''',
      ''/* Definition that (in userspace models) may be '',
      '' * - not included in the amalgamated header or'',
      '' * - not part of public headers or'',
      '' * - not exported in the shared object in combination with any of the above'',
      '' * but are required for value encoding.'',
      '' * NOTE: Userspace UA_(decode|encode)Binary /wo amalgamations requires UA_EXPORT to be appended to the appropriate definitions. */'',
      ''#ifndef UA_ENCODINGOFFSET_BINARY'', ''#  define UA_ENCODINGOFFSET_BINARY 2'', ''#endif'',
      ''#ifndef NULL'', ''  #define NULL ((void *)0)'', ''#endif'',
      ''#ifndef UA_malloc'', ''  #define UA_malloc(_p_size) malloc(_p_size)'', ''#endif'',
      ''#ifndef UA_free'', ''  #define UA_free(_p_ptr) free(_p_ptr)'', ''#endif'']"

definition header_end :: "string \<Rightarrow> string list" where
  "header_end out =
     [''extern UA_StatusCode '' @ out @ ''(UA_Server *server);'' @ newline, ''#endif /* '' @ str_upper out @ ''_H_ */'']"

definition code_start :: "string \<Rightarrow> string list" where
  "code_start out =
     [warning_text, ''#include \"'' @ out @ ''.h\"'', ''UA_INLINE UA_StatusCode '' @ out @ ''(UA_Server *server) {'',
      ''UA_StatusCode retval = UA_STATUSCODE_GOOD; '',
      ''if(retval == UA_STATUSCODE_GOOD){retval = UA_STATUSCODE_GOOD;} //ensure that retval is used'']"

text \<open>
  The namespaces the server has to add, in the order in which Python 2 walks the dictionary of the
  namespaces, which is a parameter.
\<close>

type_synonym walk_order = "(int \<rightharpoonup> string) \<Rightarrow> int list"

definition addNamespace_code :: "(int \<rightharpoonup> string) \<Rightarrow> int \<Rightarrow> string list" where
  "addNamespace_code names k =
     (if k = 0 \<or> k = 1 then []
      else [''if (UA_Server_addNamespace(server, \"'' @
              replace_all [char_of (34::nat)] [char_of (92::nat), char_of (34::nat)] (case names k of None \<Rightarrow> '''' | Some n \<Rightarrow> n) @
              ''\") != '' @ int_str k @ '')'' @ newline @ ''    return UA_STATUSCODE_BADUNEXPECTEDERROR;''])"

text \<open>The reference types of namespace 0 that are used, in the order of their first use.\<close>

definition use_reference_type :: "opcua_namespace \<Rightarrow> nat \<Rightarrow> nat list \<Rightarrow> nat list res" where
  "use_reference_type s r used =
     (case r_type (ref_at s r) of
        TNone \<Rightarrow> Inr used
      | TText t \<Rightarrow> Inl AttributeError
      | TNode ty \<Rightarrow> Inr (if ty \<notin> set used \<and> id_ns (n_id (node_at s ty)) = 0 then used @ [ty] else used))"

definition reference_types_used :: "opcua_namespace \<Rightarrow> nat list \<Rightarrow> nat list res" where
  "reference_types_used s nodes =
     foldM (\<lambda>a. foldM (use_reference_type s) (n_references (node_at s a))) nodes []"

text \<open>The names defined for the ids of the nodes of other namespaces.\<close>

definition define_node :: "opcua_node \<Rightarrow> string list \<times> string list \<Rightarrow> string list \<times> string list" where
  "define_node n st =
     (case st of (header, names) \<Rightarrow>
        if id_ns (n_id n) \<noteq> 0 \<and> n_class n \<notin> {1, 2, 128}
        then (case getNodeIdDefineString n names of (code, names') \<Rightarrow> (header @ code, names'))
        else st)"

definition node_defines :: "opcua_namespace \<Rightarrow> nat list \<Rightarrow> string list \<Rightarrow> string list \<times> string list" where
  "node_defines s nodes names = fold (\<lambda>a. define_node (node_at s a)) nodes ([], names)"

text \<open>The references of the nodes that are to be printed.\<close>

definition list_reference :: "opcua_namespace \<Rightarrow> nat \<Rightarrow> nat list \<Rightarrow> nat list res" where
  "list_reference s r rs =
     (case r_target (ref_at s r) of
        TNone \<Rightarrow> Inr rs
      | TText t \<Rightarrow> Inl AttributeError
      | TNode t \<Rightarrow> Inr (if r_parent (ref_at s r) = None then rs else rs @ [r]))"

definition unprinted_references :: "opcua_namespace \<Rightarrow> nat list \<Rightarrow> nat list res" where
  "unprinted_references s nodes = foldM (\<lambda>a. foldM (list_reference s) (n_references (node_at s a))) nodes []"

definition print_nodes :: "py_str \<Rightarrow> string list \<Rightarrow> nat list \<Rightarrow> string list \<times> printer \<Rightarrow> (string list \<times> printer) res" where
  "print_nodes rep suppressed =
     foldM (\<lambda>a (code, st). rbind (node_printOpen62541CCode rep suppressed a st) (\<lambda>(c, st'). Inr (code @ c, st')))"

text \<open>What is left at the end: references to a node that is not printed from one that is.\<close>

definition leftover_references :: "printer \<Rightarrow> nat list" where
  "leftover_references st =
     (let s = pr_ns st in
      filter (\<lambda>r. target_unprinted (r_target (ref_at s r)) (pr_nodes st) \<and> \<not> parent_unprinted s r (pr_nodes st) \<and>
                  r_parent (ref_at s r) \<noteq> None) (pr_refs st))"

definition print_leftovers :: "printer \<Rightarrow> (string list \<times> printer) res" where
  "print_leftovers st =
     (let s = pr_ns st; rs = leftover_references st in
      rbind (mapM (\<lambda>r. rbind (getCreateStandaloneReference s (the (r_parent (ref_at s r))) r) (\<lambda>c. Inr (c @ [[]]))) rs) (\<lambda>codes.
      rbind (foldM (list_remove s) rs (pr_refs st)) (\<lambda>refs.
        Inr ((if rs = [] then [] else [''//  Creating leftover references:'']) @ concat codes, st\<lparr>pr_refs := refs\<rparr>))))"

text \<open>All that is printed, from the lists of the nodes and references to print.\<close>

definition print_all :: "py_str \<Rightarrow> string list \<Rightarrow> opcua_namespace \<Rightarrow> printer \<Rightarrow> (string list \<times> printer) res" where
  "print_all rep suppressed s st =
     rbind (reference_types_used s (ns_nodes s)) (\<lambda>used.
     rbind (print_nodes rep [] used ([], st)) (\<lambda>(code1, st1).
     rbind (print_nodes rep suppressed (ns_nodes s) (code1, st1)) (\<lambda>(code2, st2).
     rbind (print_leftovers st2) (\<lambda>(code3, st3). Inr (code2 @ code3, st3)))))"

definition initial_printer :: "nat list \<Rightarrow> opcua_namespace \<Rightarrow> printer res" where
  "initial_printer printedExternally s =
     (let nodes = filter (\<lambda>a. a \<notin> set printedExternally) (ns_nodes s) in
      rbind (unprinted_references s nodes) (\<lambda>refs. Inr \<lparr>pr_ns = s, pr_nodes = nodes, pr_refs = refs\<rparr>))"

text \<open>The lines of the header and of the C file, and what remained unprinted.\<close>

definition printOpen62541Header ::
    "py_str \<Rightarrow> walk_order \<Rightarrow> nat list \<Rightarrow> string list \<Rightarrow> string \<Rightarrow> opcua_namespace \<Rightarrow>
     (string list \<times> string list \<times> printer) res" where
  "printOpen62541Header rep walk printedExternally suppressed outfilename s0 =
     rbind (reorderNodesMinDependencies s0) (\<lambda>s.
     rbind (initial_printer printedExternally s) (\<lambda>st.
     rbind (print_all rep suppressed s st) (\<lambda>(code, st').
       Inr (header_start outfilename @ fst (node_defines s (ns_nodes s) []) @ header_end outfilename,
            code_start outfilename @
              concat (map (addNamespace_code (namespaceIdentifiers s)) (walk (namespaceIdentifiers s))) @
              code @ [''return UA_STATUSCODE_GOOD;'', ''}''],
            st'))))"

section \<open>The script\<close>

definition no_spaces :: "string \<Rightarrow> string" where
  "no_spaces = replace_all '' '' ''''"

definition no_newline :: "string \<Rightarrow> string" where
  "no_newline = replace_all newline ''''"

text \<open>A line of a blacklist: the id is looked up without the newline and removed with it.\<close>

definition blacklist_line :: "string \<Rightarrow> opcua_namespace \<Rightarrow> opcua_namespace res" where
  "blacklist_line line s =
     (case ns_getNodeByIDString s (no_newline (no_spaces line)) of
        None \<Rightarrow> Inr s
      | Some a \<Rightarrow> rbind (removeNodeById (no_spaces line) s) (\<lambda>(s', b). Inr s'))"

definition ignore_line :: "opcua_namespace \<Rightarrow> string \<Rightarrow> nat list \<Rightarrow> nat list" where
  "ignore_line s line ignored =
     (case ns_getNodeByIDString s (no_newline (no_spaces line)) of None \<Rightarrow> ignored | Some a \<Rightarrow> ignored @ [a])"

definition ignored_nodes :: "opcua_namespace \<Rightarrow> string list \<Rightarrow> nat list" where
  "ignored_nodes s lines = fold (ignore_line s) lines []"

text \<open>
  From the preprocessed files to the lines of the header and of the C file.  The names of the
  namespaces come from the preprocessor, in the order its dictionary is walked.
\<close>

definition generate ::
    "py_str \<Rightarrow> walk_order \<Rightarrow> attr_order \<Rightarrow> py_env \<Rightarrow> xnode list \<Rightarrow> (int \<times> string) list \<Rightarrow> string list \<Rightarrow>
     string list \<Rightarrow> string list \<Rightarrow> string \<Rightarrow> (string list \<times> string list \<times> printer) run" where
  "generate rep walk ord env files names blacklist ignore suppressed outputFile =
     run_bind (Some (read_files ord env files)) (\<lambda>s.
     run_bind (Some (foldM blacklist_line blacklist (fold (\<lambda>(k, url). addNamespace k url) names s))) (\<lambda>s.
     run_bind (Some (linkOpenPointers s)) (\<lambda>s.
     run_bind (Some (ns_sanitize s)) (\<lambda>(s, failed).
     run_bind (buildEncodingRules ord (ns_nodes s) s) (\<lambda>s.
     run_bind (Some (allocateVariables env s)) (\<lambda>s.
       Some (printOpen62541Header rep walk (ignored_nodes s ignore) suppressed outputFile s)))))))"

end
