(* ===== verification/Type_Encoding_Facts.thy ===== *)
theory Type_Encoding_Facts
  imports Type_Encoding Namespace_Facts
begin

text \<open>
  \<open>buildEncoding\<close> always ends, changes no data type that was built before, and leaves encodings of a
  fixed form; a type it calls encodable has only fields of encodable types.
\<close>

section \<open>Runs that succeed or raise\<close>

definition run_ok :: "('a \<Rightarrow> bool) \<Rightarrow> 'a run \<Rightarrow> bool" where
  "run_ok P m \<longleftrightarrow> (\<exists>r. m = Some r \<and> (\<forall>x. r = Inr x \<longrightarrow> P x))"

lemma run_ok_return [simp]: "run_ok P (run_return x) \<longleftrightarrow> P x"
  by (simp add: run_ok_def run_return_def)

lemma run_ok_raise [simp]: "run_ok P (run_raise e)"
  by (simp add: run_ok_def run_raise_def)

lemma run_ok_res [simp]: "run_ok P (Some r) \<longleftrightarrow> (\<forall>x. r = Inr x \<longrightarrow> P x)"
  by (simp add: run_ok_def)

lemma run_ok_bind:
  assumes "run_ok P m" and "\<And>x. P x \<Longrightarrow> run_ok Q (f x)"
  shows "run_ok Q (run_bind m f)"
  using assms by (cases "the m") (auto simp: run_ok_def run_bind_def)

lemma run_ok_mono: "run_ok P m \<Longrightarrow> (\<And>x. P x \<Longrightarrow> Q x) \<Longrightarrow> run_ok Q m"
  by (auto simp: run_ok_def)

lemma run_bind_Inr:
  "run_bind m f = Some (Inr y) \<longleftrightarrow> (\<exists>x. m = Some (Inr x) \<and> f x = Some (Inr y))"
  by (auto simp: run_bind_def split: option.splits sum.splits)

section \<open>Progress\<close>

definition is_built :: "opcua_namespace \<Rightarrow> nat \<Rightarrow> bool" where
  "is_built s a \<longleftrightarrow> (\<exists>w. dataType_at s a = Some w \<and> dy_encodingBuilt w)"

text \<open>The definition element of a data type; \<open>None\<close> for a node of another class.\<close>

definition xml_definition :: "opcua_namespace \<Rightarrow> nat \<Rightarrow> xnode option option" where
  "xml_definition s a = map_option dy_xmlDefinition (dataType_at s a)"

lemma xml_definition_None [simp]: "xml_definition s a = None \<longleftrightarrow> dataType_at s a = None"
  by (simp add: xml_definition_def)

text \<open>
  The steps of building: only data types change, those that were built stay as they are, except the
  ones in \<open>X\<close>, which are being built.
\<close>

definition progress_at :: "nat set \<Rightarrow> opcua_namespace \<Rightarrow> opcua_namespace \<Rightarrow> nat \<Rightarrow> bool" where
  "progress_at X s t a \<longleftrightarrow> node_at t a = (node_at s a)\<lparr>n_part := n_part (node_at t a)\<rparr> \<and>
     xml_definition t a = xml_definition s a \<and> (dataType_at s a = None \<longrightarrow> node_at t a = node_at s a) \<and>
     (is_built s a \<longrightarrow> is_built t a \<and> (a \<notin> X \<longrightarrow> node_at t a = node_at s a))"

definition progress :: "nat set \<Rightarrow> opcua_namespace \<Rightarrow> opcua_namespace \<Rightarrow> bool" where
  "progress X s t \<longleftrightarrow> (\<exists>h. t = s\<lparr>node_heap := h\<rparr>) \<and> length (node_heap t) = length (node_heap s) \<and>
     (\<forall>a < length (node_heap s). progress_at X s t a)"

lemma progressD:
  assumes "progress X s t"
  shows "ref_heap t = ref_heap s" and "ns_nodes t = ns_nodes s" and "length (node_heap t) = length (node_heap s)"
    and "a < length (node_heap s) \<Longrightarrow> n_references (node_at t a) = n_references (node_at s a)"
    and "a < length (node_heap s) \<Longrightarrow> n_referencedBy (node_at t a) = n_referencedBy (node_at s a)"
    and "a < length (node_heap s) \<Longrightarrow> n_id (node_at t a) = n_id (node_at s a)"
    and "a < length (node_heap s) \<Longrightarrow> n_browseName (node_at t a) = n_browseName (node_at s a)"
    and "a < length (node_heap s) \<Longrightarrow> dataType_at t a = None \<longleftrightarrow> dataType_at s a = None"
    and "a < length (node_heap s) \<Longrightarrow> is_built s a \<Longrightarrow> is_built t a"
    and "a < length (node_heap s) \<Longrightarrow> is_built s a \<Longrightarrow> a \<notin> X \<Longrightarrow> node_at t a = node_at s a"
    and "a < length (node_heap s) \<Longrightarrow> xml_definition t a = xml_definition s a"
    and "nodeids t = nodeids s" and "aliases t = aliases s"
proof -
  show "ref_heap t = ref_heap s" and "ns_nodes t = ns_nodes s" and "length (node_heap t) = length (node_heap s)"
    and "nodeids t = nodeids s" and "aliases t = aliases s"
    using assms by (auto simp: progress_def)
  assume a: "a < length (node_heap s)"
  have all: "node_at t a = (node_at s a)\<lparr>n_part := n_part (node_at t a)\<rparr>"
    "xml_definition t a = xml_definition s a" "dataType_at s a = None \<longrightarrow> node_at t a = node_at s a"
    "is_built s a \<longrightarrow> is_built t a \<and> (a \<notin> X \<longrightarrow> node_at t a = node_at s a)"
    using assms a unfolding progress_def progress_at_def [symmetric] by (simp_all add: progress_at_def)
  show "n_references (node_at t a) = n_references (node_at s a)"
    and "n_referencedBy (node_at t a) = n_referencedBy (node_at s a)"
    and "n_id (node_at t a) = n_id (node_at s a)" and "n_browseName (node_at t a) = n_browseName (node_at s a)"
    by (subst all(1), simp)+
  show "dataType_at t a = None \<longleftrightarrow> dataType_at s a = None"
    using all(2) by (metis xml_definition_None)
  show "xml_definition t a = xml_definition s a"
    and "is_built s a \<Longrightarrow> is_built t a" and "is_built s a \<Longrightarrow> a \<notin> X \<Longrightarrow> node_at t a = node_at s a"
    using all by simp_all
qed

lemma progress_refl [simp]: "progress X s s"
  unfolding progress_def progress_at_def by (auto intro: exI [of _ "node_heap s"])

lemma progress_trans:
  assumes "progress X s t" and "progress X t u"
  shows "progress X s u"
  unfolding progress_def
proof (intro conjI allI impI)
  note t = progressD [OF assms(1)] and u = progressD [OF assms(2)]
  show "\<exists>h. u = s\<lparr>node_heap := h\<rparr>" using assms by (auto simp: progress_def)
  show "length (node_heap u) = length (node_heap s)" using t(3) u(3) by simp
  fix a assume a: "a < length (node_heap s)"
  then have a': "a < length (node_heap t)" using t(3) by simp
  have "progress_at X s t a" and "progress_at X t u a" using assms a a' by (simp_all add: progress_def)
  moreover from this obtain p q where "node_at t a = (node_at s a)\<lparr>n_part := p\<rparr>"
      and "node_at u a = (node_at t a)\<lparr>n_part := q\<rparr>" unfolding progress_at_def by blast
  then have "node_at u a = (node_at s a)\<lparr>n_part := n_part (node_at u a)\<rparr>" by simp
  ultimately show "progress_at X s u a" unfolding progress_at_def by (metis xml_definition_None)
qed

lemma progress_subset: "progress X s t \<Longrightarrow> X \<subseteq> Y \<Longrightarrow> progress Y s t"
proof -
  have "progress_at X s t a \<Longrightarrow> X \<subseteq> Y \<Longrightarrow> progress_at Y s t a" for a
    unfolding progress_at_def by (meson subsetD)
  then show "progress X s t \<Longrightarrow> X \<subseteq> Y \<Longrightarrow> progress Y s t" by (simp add: progress_def)
qed

interpretation progression: growth "progress X" for X
  by unfold_locales (simp, rule progress_trans)

lemma dataType_at_modify:
  "dataType_at (modify_dataType a f s) b =
     (if b = a \<and> a < length (node_heap s) then map_option f (dataType_at s a) else dataType_at s b)"
  by (auto simp: dataType_at_def modify_dataType_def modify_part_def node_at_modify_node split: node_part.split)

lemma progress_modify:
  assumes "a \<in> X \<or> \<not> is_built s a" and "\<And>w. dataType_at s a = Some w \<Longrightarrow> dy_encodingBuilt w \<Longrightarrow> dy_encodingBuilt (f w)"
    and "\<And>w. dy_xmlDefinition (f w) = dy_xmlDefinition w"
  shows "progress X s (modify_dataType a f s)"
proof -
  have dt: "xml_definition (modify_dataType a f s) b = xml_definition s b" for b
    using assms(3) by (auto simp: dataType_at_modify xml_definition_def option.map_comp comp_def)
  let ?g = "\<lambda>p. case p of DataTypeNode w \<Rightarrow> DataTypeNode (f w) | _ \<Rightarrow> p"
  have at: "node_at (modify_dataType a f s) b = (if b = a \<and> a < length (node_heap s) then
      (node_at s a)\<lparr>n_part := ?g (n_part (node_at s a))\<rparr> else node_at s b)" for b
    by (simp add: modify_dataType_def modify_part_def node_at_modify_node)
  have "\<exists>h. modify_dataType a f s = s\<lparr>node_heap := h\<rparr>"
    unfolding modify_dataType_def modify_part_def modify_node_def by blast
  moreover have "node_at (modify_dataType a f s) b = (node_at s b)\<lparr>n_part := n_part (node_at (modify_dataType a f s) b)\<rparr>" for b
    unfolding at by simp
  moreover have "node_at (modify_dataType a f s) b = node_at s b" if "dataType_at s b = None" for b
    using that unfolding at by (auto simp: dataType_at_def split: node_part.splits)
  moreover have "is_built (modify_dataType a f s) b" if "is_built s b" for b
    using that assms(2) by (auto simp: is_built_def dataType_at_modify)
  moreover have "node_at (modify_dataType a f s) b = node_at s b" if "is_built s b" "b \<notin> X" for b
    using that assms(1) unfolding at by auto
  moreover have "length (node_heap (modify_dataType a f s)) = length (node_heap s)"
    by (simp add: modify_dataType_def modify_part_def heap_simps)
  ultimately show ?thesis unfolding progress_def progress_at_def using dt by blast
qed

lemma progress_unbuilt: "progress {a} s t \<Longrightarrow> \<not> is_built s a \<Longrightarrow> progress {} s t"
proof -
  have "progress_at {a} s t b \<Longrightarrow> \<not> is_built s a \<Longrightarrow> progress_at {} s t b" for b
    unfolding progress_at_def by (metis singletonD)
  then show "progress {a} s t \<Longrightarrow> \<not> is_built s a \<Longrightarrow> progress {} s t" by (simp add: progress_def)
qed

lemma progress_own:
  "progress {a} s t \<Longrightarrow> progress {a} s (append_encoding a es t)"
  "progress {a} s t \<Longrightarrow> progress {a} s (set_unencodable a t)"
  "progress {a} s t \<Longrightarrow> progress {a} s (set_encoding a es t)"
  unfolding append_encoding_def set_unencodable_def set_encoding_def
  by (erule progress_trans, rule progress_modify; simp)+

section \<open>Building always ends\<close>

definition types_ok :: "opcua_namespace \<Rightarrow> bool" where
  "types_ok s \<longleftrightarrow> graph_ok s \<and> (\<forall>a \<in> set (ns_nodes s). a < length (node_heap s))"

lemma types_ok_progress:
  assumes "types_ok s" and "progress X s t"
  shows "types_ok t"
  using assms(1) progressD(1-5) [OF assms(2)] by (auto simp: types_ok_def graph_ok_def target_ok_iff)

definition unbuilt :: "opcua_namespace \<Rightarrow> nat set" where
  "unbuilt s = {a. a < length (node_heap s) \<and> dataType_at s a \<noteq> None \<and> \<not> is_built s a}"

lemma finite_unbuilt [simp]: "finite (unbuilt s)"
  by (simp add: unbuilt_def)

lemma unbuilt_progress: "progress X s t \<Longrightarrow> unbuilt t \<subseteq> unbuilt s"
  using progressD(3,8,9) by (fastforce simp: unbuilt_def)

text \<open>One round of a loop, and the loop; \<open>sub\<close> is taken to end and to progress.\<close>

lemma supertype_step_ok:
  assumes sub: "\<And>t u. t < length (node_heap s) \<Longrightarrow> progress {a} s u \<Longrightarrow> run_ok (progress {} u) (sub t u)"
    and "\<forall>t. r_target (ref_at s r) = TNode t \<longrightarrow> t < length (node_heap s)" and "progress {a} s u"
  shows "run_ok (\<lambda>(t, go). progress {a} s t) (supertype_step sub a r u)"
proof -
  have "run_ok (\<lambda>(t, go). progress {a} s t) (run_bind (sub t u) (\<lambda>s'.
      if isEncodable s' t then run_return (append_encoding a
        [EncStr (n_browseName (node_at s' a)), EncList (encoding_of s' t), EncInt 0] s', True)
      else run_return (set_unencodable a s', False)))" if "r_target (ref_at u r) = TNode t" for t
  proof (rule run_ok_bind)
    have "t < length (node_heap s)" using assms(2,3) that progressD(1) [OF assms(3)] by simp
    then show "run_ok (progress {} u) (sub t u)" using sub assms(3) by blast
    fix v assume "progress {} u v"
    then have "progress {a} s v" using assms(3) by (blast intro: progress_trans progress_subset)
    then show "run_ok (\<lambda>(t, go). progress {a} s t) (if isEncodable v t then run_return (append_encoding a
        [EncStr (n_browseName (node_at v a)), EncList (encoding_of v t), EncInt 0] v, True)
      else run_return (set_unencodable a v, False))"
      using progress_own by simp
  qed
  then show ?thesis using assms(3) by (simp add: supertype_step_def split: target.split)
qed

lemma supertype_loop_ok:
  assumes sub: "\<And>t u. t < length (node_heap s) \<Longrightarrow> progress {a} s u \<Longrightarrow> run_ok (progress {} u) (sub t u)"
    and "\<forall>r \<in> set rs. \<forall>t. r_target (ref_at s r) = TNode t \<longrightarrow> t < length (node_heap s)"
    and "progress {a} s u"
  shows "run_ok (progress {a} s) (supertype_loop sub a rs u)"
  using assms(2,3)
proof (induction rs arbitrary: u)
  case (Cons r rs)
  then have "run_ok (\<lambda>(t, go). progress {a} s t) (supertype_step sub a r u)"
    by (intro supertype_step_ok [OF sub]) auto
  then show ?case
    by (simp, rule run_ok_bind) (use Cons in auto)
qed simp

lemma lookup_in_range:
  "types_ok s \<Longrightarrow> progress X s u \<Longrightarrow> ns_getNodeByIDString u x = Some t \<Longrightarrow> t < length (node_heap s)"
  using progressD(2) by (auto simp: types_ok_def ns_getNodeByIDString_def find_Some_iff)

lemma follow_field_ok:
  assumes "run_ok (progress {} u) (sub t u)" and "progress {a} s u"
  shows "run_ok (\<lambda>(d, t, go). progress {a} s t) (follow_field sub a f t d u)"
proof -
  have "run_ok (\<lambda>(d, t, go). progress {a} s t) (run_bind (sub t u) (\<lambda>s'.
      let d' = d\<lparr>st_typeDict := st_typeDict d @ [(fname f, t)]\<rparr>; rank = max 0 (hasValueRank f);
          s2 = append_encoding a [EncList [EncStr (fname f), EncList (encoding_of s' t), EncInt rank]] s'
      in run_return (d', if isEncodable s' t then s2 else set_unencodable a s2, isEncodable s' t)))"
  proof (rule run_ok_bind [OF assms(1)])
    fix v assume "progress {} u v"
    then have "progress {a} s v" using assms(2) by (blast intro: progress_trans progress_subset)
    then show "run_ok (\<lambda>(d, t, go). progress {a} s t)
       (let d' = d\<lparr>st_typeDict := st_typeDict d @ [(fname f, t)]\<rparr>; rank = max 0 (hasValueRank f);
            s2 = append_encoding a [EncList [EncStr (fname f), EncList (encoding_of v t), EncInt rank]] v
        in run_return (d', if isEncodable v t then s2 else set_unencodable a s2, isEncodable v t))"
      using progress_own by (simp add: Let_def)
  qed
  then show ?thesis by (simp add: follow_field_def)
qed

lemma field_step_ok:
  assumes sub: "\<And>t u. t < length (node_heap s) \<Longrightarrow> progress {a} s u \<Longrightarrow> run_ok (progress {} u) (sub t u)"
    and "types_ok s" and u: "progress {a} s u"
  shows "run_ok (\<lambda>(d, t, go). progress {a} s t) (field_step sub ord a x d u)"
proof -
  have "run_ok (\<lambda>(d, t, go). progress {a} s t) (follow_field sub a f t d' u)"
    if "ns_getNodeByIDString u (fdtype f) = Some t" for t f d'
    using sub lookup_in_range [OF assms(2) u that] u by (intro follow_field_ok) auto
  then show ?thesis
    unfolding field_step_def
    by (intro run_ok_bind [where P = "\<lambda>_. True"]) (use u progress_own in \<open>simp_all add: Let_def split: option.split\<close>)
qed

lemma field_loop_ok:
  assumes sub: "\<And>t u. t < length (node_heap s) \<Longrightarrow> progress {a} s u \<Longrightarrow> run_ok (progress {} u) (sub t u)"
    and "types_ok s" and "progress {a} s u"
  shows "run_ok (\<lambda>(d, t). progress {a} s t) (field_loop sub ord a xs d u)"
  using assms(3)
proof (induction xs arbitrary: d u)
  case (Cons x xs)
  have "run_ok (\<lambda>(d, t, go). progress {a} s t) (field_step sub ord a x d u)"
    by (rule field_step_ok [OF sub assms(2) Cons.prems])
  then show ?case
    by (simp, rule run_ok_bind) (use Cons.IH in auto)
qed simp

text \<open>The mark a call sets first: it keeps the calls it makes from coming back.\<close>

definition mark :: "nat \<Rightarrow> opcua_namespace \<Rightarrow> opcua_namespace" where
  "mark a = modify_dataType a (\<lambda>w. w\<lparr>dy_encodingBuilt := True, dy_encodable := Some True\<rparr>)"

lemma mark_progress: "\<not> is_built s a \<Longrightarrow> progress {} s (mark a s)"
  unfolding mark_def by (rule progress_modify) auto

lemma mark_built: "dataType_at s a \<noteq> None \<Longrightarrow> a < length (node_heap s) \<Longrightarrow> is_built (mark a s) a"
  by (auto simp: mark_def is_built_def dataType_at_modify)

lemma mark_unbuilt:
  assumes "dataType_at s a \<noteq> None" and "a < length (node_heap s)" and "\<not> is_built s a"
  shows "unbuilt (mark a s) \<subset> unbuilt s"
proof -
  have "a \<in> unbuilt s" using assms by (simp add: unbuilt_def)
  moreover have "a \<notin> unbuilt (mark a s)" using mark_built assms by (simp add: unbuilt_def)
  ultimately show ?thesis using unbuilt_progress [OF mark_progress] assms(3) by blast
qed

lemma finish_definition_progress: "progress {a} s u \<Longrightarrow> progress {a} s (finish_definition outer a (d, u))"
  unfolding finish_definition_def Let_def prod.case
  by (auto intro!: progress_trans [OF _ progress_modify] progress_own)

lemma finish_supertypes_progress: "progress {a} s u \<Longrightarrow> progress {a} s (finish_supertypes a u)"
  by (simp add: finish_supertypes_def progress_own)

lemma build_step_ok:
  assumes "types_ok s" and a: "a < length (node_heap s)"
    and sub: "\<And>t u. a \<in> unbuilt s \<Longrightarrow> t < length (node_heap s) \<Longrightarrow> progress {a} (mark a s) u \<Longrightarrow>
      run_ok (progress {} u) (sub t u)"
  shows "run_ok (\<lambda>t. progress {} s t \<and> is_built t a) (build_step sub ord outer a s)"
proof (cases "dataType_at s a")
  case None
  then show ?thesis by (simp add: build_step_def)
next
  case (Some w)
  show ?thesis
  proof (cases "dy_encodingBuilt w")
    case True
    then show ?thesis using Some by (simp add: build_step_def is_built_def)
  next
    case False
    then have nb: "\<not> is_built s a" using Some by (simp add: is_built_def)
    note m = mark_progress [OF nb]
    have len: "length (node_heap (mark a s)) = length (node_heap s)" using progressD(3) [OF m] .
    have refs: "n_references (node_at (mark a s) a) = n_references (node_at s a)" using progressD(4) [OF m] a .
    have sub': "run_ok (progress {} u) (sub t u)"
      if "t < length (node_heap (mark a s))" "progress {a} (mark a s) u" for t u
      using sub nb that len a Some by (simp add: unbuilt_def)
    have ok: "types_ok (mark a s)" using types_ok_progress [OF assms(1) m] .
    then have graph: "graph_ok (mark a s)" by (simp add: types_ok_def)
    have targets: "\<forall>r \<in> set (n_references (node_at s a)). \<forall>t. r_target (ref_at (mark a s) r) = TNode t
        \<longrightarrow> t < length (node_heap (mark a s))"
      using graph_ok_target [OF graph] graph_ok_ref [OF graph, of a] a unfolding len refs by blast
    have fin: "progress {} s u \<and> is_built u a" if "progress {a} (mark a s) u" for u
    proof
      have "progress {a} s u" by (rule progress_trans [OF progress_subset [OF m] that]) simp
      then show "progress {} s u" using nb by (rule progress_unbuilt)
      have "is_built (mark a s) a" using mark_built Some a by simp
      then show "is_built u a" using progressD(9) [OF that] a len by simp
    qed
    have "run_ok (progress {a} (mark a s)) (run_bind (supertype_loop sub a (n_references (node_at s a)) (mark a s))
        (\<lambda>s2. run_return (finish_supertypes a s2)))"
      by (rule run_ok_bind [OF supertype_loop_ok [OF sub' targets]]) (simp_all add: finish_supertypes_progress)
    moreover have "run_ok (progress {a} (mark a s)) (run_bind (field_loop sub ord a xs d (mark a s))
        (\<lambda>ds. run_return (finish_definition outer a ds)))" for xs d
      by (rule run_ok_bind [OF field_loop_ok [OF sub' ok]]) (auto simp: finish_definition_progress)
    moreover have "progress {a} (mark a s) (set_encoding a es (mark a s))" for es
      by (rule progress_own) simp
    moreover have "run_ok (\<lambda>t. progress {} s t \<and> is_built t a) m" if "run_ok (progress {a} (mark a s)) m" for m
      using that fin by (rule run_ok_mono)
    ultimately show ?thesis
      using Some False fin by (simp add: build_step_def Let_def mark_def [symmetric] split: option.split)
  qed
qed

lemma build_ok:
  "types_ok s \<Longrightarrow> a < length (node_heap s) \<Longrightarrow> card (unbuilt s) < k \<Longrightarrow>
     run_ok (\<lambda>t. progress {} s t \<and> is_built t a) (build k ord outer a s)"
proof (induction k arbitrary: outer a s)
  case (Suc k)
  show ?case unfolding build.simps
  proof (rule build_step_ok [OF Suc.prems(1,2)])
    fix t u
    assume in_s: "a \<in> unbuilt s" and t: "t < length (node_heap s)" and u: "progress {a} (mark a s) u"
    then have nb: "\<not> is_built s a" by (simp add: unbuilt_def)
    have "types_ok (mark a s)" using types_ok_progress [OF Suc.prems(1) mark_progress [OF nb]] .
    then have ok: "types_ok u" using u by (rule types_ok_progress)
    have tu: "t < length (node_heap u)"
      using t progressD(3) [OF u] progressD(3) [OF mark_progress [OF nb]] by simp
    have "card (unbuilt u) \<le> card (unbuilt (mark a s))"
      using unbuilt_progress [OF u] by (simp add: card_mono)
    also have "\<dots> < card (unbuilt s)"
      using mark_unbuilt in_s by (intro psubset_card_mono) (simp_all add: unbuilt_def)
    finally have "card (unbuilt u) < k" using Suc.prems(3) by simp
    then show "run_ok (progress {} u) (build k ord False t u)"
      using Suc.IH [OF ok tu] by (blast intro: run_ok_mono)
  qed
qed simp

section \<open>All data types\<close>

lemma buildEncoding_ok:
  assumes "types_ok s" and "a < length (node_heap s)"
  shows "run_ok (\<lambda>t. progress {} s t \<and> is_built t a) (buildEncoding ord a s)"
proof -
  have "unbuilt s \<subseteq> {..<length (node_heap s)}" by (auto simp: unbuilt_def)
  from card_mono [OF _ this] have "card (unbuilt s) < Suc (length (node_heap s))" by simp
  then show ?thesis unfolding buildEncoding_def using build_ok assms by blast
qed

lemma buildEncodingRules_ok:
  assumes "types_ok s" and "\<forall>a \<in> set as. a < length (node_heap s)"
  shows "run_ok (\<lambda>t. progress {} s t \<and> (\<forall>a \<in> set as. dataType_at s a \<noteq> None \<longrightarrow> is_built t a))
    (buildEncodingRules ord as s)"
  using assms
proof (induction as arbitrary: s)
  case (Cons a as)
  have a: "a < length (node_heap s)" and as: "\<forall>a \<in> set as. a < length (node_heap s)" using Cons.prems(2) by simp_all
  show ?case
  proof (cases "dataType_at s a = None")
    case True
    then show ?thesis using Cons.IH [OF Cons.prems(1) as] by simp
  next
    case False
    have "run_ok (\<lambda>t. progress {} s t \<and> (\<forall>b \<in> set (a # as). dataType_at s b \<noteq> None \<longrightarrow> is_built t b))
        (buildEncodingRules ord as u)" if u: "progress {} s u \<and> is_built u a" for u
    proof -
      note p = progressD [OF conjunct1 [OF u]]
      have "\<forall>b \<in> set as. b < length (node_heap u)" using as p(3) by simp
      with Cons.IH types_ok_progress [OF Cons.prems(1) conjunct1 [OF u]]
      have "run_ok (\<lambda>t. progress {} u t \<and> (\<forall>b \<in> set as. dataType_at u b \<noteq> None \<longrightarrow> is_built t b)) (buildEncodingRules ord as u)"
        by blast
      then show ?thesis
      proof (rule run_ok_mono)
        fix t assume t: "progress {} u t \<and> (\<forall>b \<in> set as. dataType_at u b \<noteq> None \<longrightarrow> is_built t b)"
        then have "is_built t a" using progressD(9) [OF conjunct1 [OF t], of a] u a p(3) by simp
        moreover have "progress {} s t" using u t by (blast intro: progress_trans)
        ultimately show "progress {} s t \<and> (\<forall>b \<in> set (a # as). dataType_at s b \<noteq> None \<longrightarrow> is_built t b)"
          using t p(8) as by auto
      qed
    qed
    then have "run_ok (\<lambda>t. progress {} s t \<and> (\<forall>b \<in> set (a # as). dataType_at s b \<noteq> None \<longrightarrow> is_built t b))
        (run_bind (buildEncoding ord a s) (buildEncodingRules ord as))"
      by (rule run_ok_bind [OF buildEncoding_ok [OF Cons.prems(1) a]])
    then show ?thesis using False unfolding buildEncodingRules.simps by (simp only: if_False)
  qed
qed simp

text \<open>Checking the nodes takes references away and leaves data types alone.\<close>

definition shrinks :: "opcua_namespace \<Rightarrow> opcua_namespace \<Rightarrow> bool" where
  "shrinks s t \<longleftrightarrow> ref_heap t = ref_heap s \<and> ns_nodes t = ns_nodes s \<and> nodeids t = nodeids s \<and>
     length (node_heap t) = length (node_heap s) \<and>
     (\<forall>a. set (refs t a) \<subseteq> set (refs s a) \<and> set (inverse_refs t a) \<subseteq> set (inverse_refs s a) \<and>
        n_id (node_at t a) = n_id (node_at s a) \<and> n_browseName (node_at t a) = n_browseName (node_at s a) \<and>
        dataType_at t a = dataType_at s a)"

lemma shrinks_refl: "shrinks s s"
  by (simp add: shrinks_def)

lemma shrinks_trans: "shrinks s t \<Longrightarrow> shrinks t u \<Longrightarrow> shrinks s u"
  unfolding shrinks_def by (metis subset_trans)

interpretation shrinking: growth shrinks
  by unfold_locales (rule shrinks_refl, rule shrinks_trans)

lemma shrinks_modify_node:
  assumes "set (n_references (f (node_at s a))) \<subseteq> set (refs s a)"
    and "set (n_referencedBy (f (node_at s a))) \<subseteq> set (inverse_refs s a)"
    and "n_id (f (node_at s a)) = n_id (node_at s a)" and "n_browseName (f (node_at s a)) = n_browseName (node_at s a)"
    and "(case n_part (f (node_at s a)) of DataTypeNode w \<Rightarrow> Some w | _ \<Rightarrow> None) = dataType_at s a"
  shows "shrinks s (modify_node a f s)"
  using assms by (simp add: shrinks_def heap_simps node_at_modify_node dataType_at_def)

lemma sanitizeSubType_dataType:
  "(case fst (sanitizeSubType s p) of DataTypeNode w \<Rightarrow> Some w | _ \<Rightarrow> None) = (case p of DataTypeNode w \<Rightarrow> Some w | _ \<Rightarrow> None)"
  by (simp add: sanitizeSubType_def split: node_part.split)

lemma node_sanitize_shrinks:
  assumes "node_sanitize a s = Inr (t, ok)"
  shows "shrinks s t"
proof -
  let ?s1 = "sanitize_references a s"
  let ?s2 = "modify_node a (\<lambda>n. n\<lparr>n_referencedBy := filter (really_referenced ?s1 a) (n_referencedBy n)\<rparr>) ?s1"
  let ?p = "fst (sanitizeSubType ?s2 (n_part (node_at ?s2 a)))"
  have t: "t = modify_part a (\<lambda>_. ?p) ?s2"
    using assms by (auto simp: node_sanitize_def sanitize_inverse_def Let_def rbind_Inr_iff split: if_splits prod.splits)
  have 1: "shrinks s ?s1"
    unfolding sanitize_references_def by (rule shrinks_modify_node) (auto simp: dataType_at_def)
  have 2: "shrinks ?s1 ?s2"
    by (rule shrinks_modify_node) (auto simp: dataType_at_def)
  have 3: "shrinks ?s2 (modify_part a (\<lambda>_. ?p) ?s2)"
    unfolding modify_part_def
    by (rule shrinks_modify_node) (simp_all add: sanitizeSubType_dataType, simp add: dataType_at_def)
  show ?thesis unfolding t by (rule shrinks_trans [OF shrinks_trans [OF 1 2] 3])
qed

lemma ns_sanitize_shrinks:
  assumes "ns_sanitize s = Inr (t, l)"
  shows "shrinks s t"
proof -
  have "shrinks s (fst (t, l))"
    by (rule foldM_invariant [OF assms [unfolded ns_sanitize_steps], where P = "\<lambda>st. shrinks s (fst st)"])
       (auto simp: sanitize_step_def rbind_Inr_iff shrinks_refl, metis shrinks_trans node_sanitize_shrinks)
  then show ?thesis by simp
qed

lemma types_ok_shrinks:
  assumes "types_ok s" and "shrinks s t"
  shows "types_ok t"
proof -
  have "r < length (ref_heap t)"
    if "a < length (node_heap t)" "r \<in> set (refs t a) \<union> set (inverse_refs t a)" for a r
  proof -
    have "a < length (node_heap s)" "r \<in> set (refs s a) \<union> set (inverse_refs s a)" "ref_heap t = ref_heap s"
      using assms(2) that by (auto simp: shrinks_def)
    then show ?thesis using assms(1) by (simp add: types_ok_def graph_ok_def)
  qed
  moreover have "target_ok t (r_target (ref_at t r))" if "r < length (ref_heap t)" for r
    using assms that by (simp add: types_ok_def graph_ok_def shrinks_def target_ok_iff)
  moreover have "\<forall>a \<in> set (ns_nodes t). a < length (node_heap t)"
    using assms by (simp add: types_ok_def shrinks_def)
  ultimately show ?thesis unfolding types_ok_def graph_ok_def by blast
qed

lemma linked_types_ok:
  assumes "read_files ord env roots = Inr s" and "linkOpenPointers s = Inr t"
  shows "types_ok t"
  using linked_graph(1,3) [OF assms] by (auto simp: types_ok_def registered_def)

end
