(* ===== verification/Type_Convergence.thy ===== *)
theory Type_Convergence
  imports Type_Encoding_Facts
begin

text \<open>
  What an encodable data type promises: its encoding leads to builtin types only.  It holds where no
  data type is made of itself.
\<close>

section \<open>Encodings that lead to builtin types\<close>

inductive converges :: "enc list \<Rightarrow> bool" and aliased :: "enc list \<Rightarrow> bool" where
  builtin_name: "isBuiltinByString b \<Longrightarrow> converges [EncStr b]"
| aliases: "aliased es \<Longrightarrow> converges es"
| fields: "2 \<le> length es \<Longrightarrow> \<forall>e \<in> set es. \<exists>n sub k. e = EncList [EncStr n, EncList sub, EncInt k] \<and> converges sub \<Longrightarrow>
    converges es"
| one_alias: "converges sub \<Longrightarrow> aliased [EncStr n, EncList sub, EncInt k]"
| more_aliases: "aliased es \<Longrightarrow> converges sub \<Longrightarrow> aliased (es @ [EncStr n, EncList sub, EncInt k])"

definition field_enc :: "enc \<Rightarrow> bool" where
  "field_enc e \<longleftrightarrow> (\<exists>n sub k. e = EncList [EncStr n, EncList sub, EncInt k] \<and> converges sub)"

lemma unnest_converges:
  assumes "es \<noteq> []" and "\<forall>e \<in> set es. field_enc e"
  shows "converges (unnest es)"
proof (cases "\<exists>e. es = [e]")
  case True
  then obtain n sub k where "es = [EncList [EncStr n, EncList sub, EncInt k]]" "converges sub"
    using assms(2) by (auto simp: field_enc_def)
  then show ?thesis by (simp add: aliases one_alias)
next
  case False
  then obtain e f fs where es: "es = e # f # fs" using assms(1) by (metis list.exhaust)
  then have "unnest es = es" by (cases e) simp_all
  moreover have "2 \<le> length es" using es by simp
  ultimately show ?thesis using fields assms(2) by (simp add: field_enc_def)
qed

lemma aliased_length: "aliased es \<Longrightarrow> 3 \<le> length es"
  by (induction rule: converges_aliased.inducts(2) [where ?P1.0 = "\<lambda>_. True"]) simp_all

lemma converges_not_empty: "\<not> converges []"
proof
  assume "converges []"
  then show False by (rule converges.cases) (auto dest: aliased_length)
qed

lemma one_alias_iff: "converges [EncStr n, EncList sub, EncInt k] \<longleftrightarrow> converges sub"
proof
  assume "converges [EncStr n, EncList sub, EncInt k]"
  then have "aliased [EncStr n, EncList sub, EncInt k]" by (rule converges.cases) auto
  then show "converges sub" by (rule aliased.cases) (auto dest: aliased_length)
qed (blast intro: aliases one_alias)

section \<open>Reading the encoding back\<close>

lemma dataType_at_other:
  "b \<noteq> a \<Longrightarrow> dataType_at (modify_dataType a f s) b = dataType_at s b"
  by (simp add: dataType_at_modify)

lemma encodable_simps [simp]:
  "isEncodable (append_encoding a es s) b = isEncodable s b"
  "isEncodable (set_encoding a es s) b = isEncodable s b"
  "a < length (node_heap s) \<Longrightarrow> \<not> isEncodable (set_unencodable a s) a"
  "encoding_of (set_unencodable a s) b = encoding_of s b"
  "a < length (node_heap s) \<Longrightarrow> dataType_at s a \<noteq> None \<Longrightarrow> encoding_of (append_encoding a es s) a = encoding_of s a @ es"
  "a < length (node_heap s) \<Longrightarrow> dataType_at s a \<noteq> None \<Longrightarrow> encoding_of (set_encoding a es s) a = es"
  by (auto simp: isEncodable_def encoding_of_def append_encoding_def set_encoding_def set_unencodable_def
      dataType_at_modify split: option.split)

text \<open>Data types outside of \<open>S\<close> are finished or untouched.\<close>

definition settled :: "nat set \<Rightarrow> opcua_namespace \<Rightarrow> bool" where
  "settled S s \<longleftrightarrow> (\<forall>b < length (node_heap s).
     (b \<notin> S \<longrightarrow> is_built s b \<longrightarrow> isEncodable s b \<longrightarrow> converges (encoding_of s b)) \<and>
     (\<not> is_built s b \<longrightarrow> encoding_of s b = []))"

lemma settled_own:
  assumes "settled S s" and "a \<in> S" and "is_built (modify_dataType a f s) a"
  shows "settled S (modify_dataType a f s)"
proof -
  let ?t = "modify_dataType a f s"
  have "length (node_heap ?t) = length (node_heap s)"
    by (simp add: modify_dataType_def modify_part_def heap_simps)
  moreover have "dataType_at ?t b = dataType_at s b" if "b \<noteq> a" for b
    using that by (intro dataType_at_other) blast
  then have "is_built ?t b = is_built s b" "isEncodable ?t b = isEncodable s b" "encoding_of ?t b = encoding_of s b"
    if "b \<noteq> a" for b using that by (simp_all add: is_built_def isEncodable_def encoding_of_def)
  ultimately show ?thesis
    using assms unfolding settled_def by metis
qed

lemma settled_steps:
  assumes "settled S s" and "a \<in> S" and "is_built s a"
  shows "settled S (append_encoding a es s)" and "settled S (set_unencodable a s)" and "settled S (set_encoding a es s)"
  unfolding append_encoding_def set_encoding_def set_unencodable_def
  by (rule settled_own [OF assms(1,2)], use assms(3) in \<open>auto simp: is_built_def dataType_at_modify\<close>)+

lemma run_ok_conj: "run_ok P m \<Longrightarrow> run_ok Q m \<Longrightarrow> run_ok (\<lambda>x. P x \<and> Q x) m"
  by (auto simp: run_ok_def)

section \<open>What a data type is made of\<close>

definition uses :: "attr_order \<Rightarrow> opcua_namespace \<Rightarrow> nat \<Rightarrow> nat set" where
  "uses ord s a = {t. t < length (node_heap s) \<and> dataType_at s t \<noteq> None \<and>
     (case xml_definition s a of
        None \<Rightarrow> False
      | Some None \<Rightarrow> \<exists>r \<in> set (refs s a). \<not> r_forward (ref_at s r) \<and> r_target (ref_at s r) = TNode t
      | Some (Some x) \<Rightarrow> \<exists>y \<in> set (filter is_element (childNodes x)). \<exists>en st f.
          read_field ord en st y = Inr f \<and> ns_getNodeByIDString s (fdtype f) = Some t)}"

definition type_deps :: "attr_order \<Rightarrow> opcua_namespace \<Rightarrow> (nat \<times> nat) set" where
  "type_deps ord s = {(t, a). a < length (node_heap s) \<and> t \<in> uses ord s a}"

lemma find_cong: "\<forall>x \<in> set xs. P x = Q x \<Longrightarrow> List.find P xs = List.find Q xs"
  by (induction xs) auto

lemma lookup_progress:
  assumes "types_ok s" and "progress X s u"
  shows "ns_getNodeByIDString u x = ns_getNodeByIDString s x"
  using assms progressD(2,6) [OF assms(2)] unfolding ns_getNodeByIDString_def types_ok_def
  by (simp add: find_cong)

lemma uses_progress:
  assumes "types_ok s" and "progress X s u" and "a < length (node_heap s)"
  shows "uses ord u a = uses ord s a"
proof -
  note p = progressD [OF assms(2)]
  have "ns_getNodeByIDString u = ns_getNodeByIDString s" using lookup_progress [OF assms(1,2)] by blast
  then show ?thesis
    unfolding uses_def p(1,3) p(4) [OF assms(3)] p(11) [OF assms(3)]
    by (intro Collect_cong conj_cong refl) (simp_all only: p(8) simp_thms)
qed

lemma type_deps_progress:
  assumes "types_ok s" and "progress X s u"
  shows "type_deps ord u = type_deps ord s"
  using uses_progress [OF assms] progressD(3) [OF assms(2)] by (auto simp: type_deps_def)

section \<open>Building keeps the promise\<close>

text \<open>
  A call for \<open>a\<close>, in progress together with the calls for \<open>S\<close>: what holds around its loops.
\<close>

definition building :: "nat set \<Rightarrow> nat \<Rightarrow> opcua_namespace \<Rightarrow> opcua_namespace \<Rightarrow> bool" where
  "building S a m u \<longleftrightarrow> types_ok m \<and> a < length (node_heap m) \<and> is_built m a \<and> a \<in> S \<and> progress {a} m u \<and> settled S u"

lemma buildingD:
  assumes "building S a m u"
  shows "a < length (node_heap u)" and "dataType_at u a \<noteq> None" and "is_built u a"
    and "uses ord u a = uses ord m a"
proof -
  have p: "types_ok m" "progress {a} m u" "a < length (node_heap m)" "is_built m a"
    using assms by (simp_all add: building_def)
  show "a < length (node_heap u)" using p(3) progressD(3) [OF p(2)] by simp
  show "is_built u a" using progressD(9) [OF p(2)] p by blast
  then show "dataType_at u a \<noteq> None" by (auto simp: is_built_def)
  show "uses ord u a = uses ord m a" by (rule uses_progress [OF p(1-3)])
qed

lemma building_steps:
  assumes "building S a m u"
  shows "building S a m (append_encoding a es u)" and "building S a m (set_unencodable a u)"
    and "building S a m (set_encoding a es u)"
  using assms buildingD(3) [OF assms] by (simp_all add: building_def progress_own settled_steps)

text \<open>What is asked of the calls a call makes.\<close>

definition served :: "nat set \<Rightarrow> nat \<Rightarrow> opcua_namespace \<Rightarrow> nat \<Rightarrow> opcua_namespace \<Rightarrow> opcua_namespace \<Rightarrow> bool" where
  "served S a m t u v \<longleftrightarrow> building S a m v \<and> node_at v a = node_at u a \<and>
     (isEncodable v t \<longrightarrow> converges (encoding_of v t))"

definition has_aliases :: "nat \<Rightarrow> opcua_namespace \<Rightarrow> bool" where
  "has_aliases a u \<longleftrightarrow> isEncodable u a \<longrightarrow> encoding_of u a = [] \<or> aliased (encoding_of u a)"

lemma servedD:
  assumes "served S a m t u v"
  shows "building S a m v" and "isEncodable v t \<Longrightarrow> converges (encoding_of v t)"
    and "isEncodable v a = isEncodable u a" and "encoding_of v a = encoding_of u a"
  using assms by (simp_all add: served_def isEncodable_def encoding_of_def dataType_at_def)

lemma supertype_step_good:
  assumes sub: "\<And>t u. t \<in> uses ord m a \<Longrightarrow> building S a m u \<Longrightarrow> run_ok (served S a m t u) (sub t u)"
    and x: "xml_definition m a = Some None" and r: "r \<in> set (refs m a)"
    and u: "building S a m u" "has_aliases a u"
  shows "run_ok (\<lambda>(v, go). building S a m v \<and> has_aliases a v) (supertype_step sub a r u)"
proof -
  let ?P = "\<lambda>(v, go). building S a m v \<and> has_aliases a v"
  have p: "progress {a} m u" "types_ok m" "a < length (node_heap m)" using u(1) by (simp_all add: building_def)
  have "run_ok ?P (run_bind (sub t u) (\<lambda>s'.
      if isEncodable s' t then run_return (append_encoding a
        [EncStr (n_browseName (node_at s' a)), EncList (encoding_of s' t), EncInt 0] s', True)
      else run_return (set_unencodable a s', False)))"
    if t: "r_target (ref_at u r) = TNode t" "\<not> r_forward (ref_at u r)" "dataType_at u t \<noteq> None" for t
  proof (rule run_ok_bind)
    have graph: "graph_ok m" using p(2) by (simp add: types_ok_def)
    have m: "r_target (ref_at m r) = TNode t" "\<not> r_forward (ref_at m r)" using t progressD(1) [OF p(1)] by simp_all
    have "t < length (node_heap m)"
      by (rule graph_ok_target [OF graph graph_ok_ref [OF graph p(3) r] m(1)])
    moreover from this have "dataType_at m t \<noteq> None" using t(3) progressD(8) [OF p(1)] by simp
    ultimately have "t \<in> uses ord m a"
      unfolding uses_def mem_Collect_eq x option.case using m r by blast
    then show "run_ok (served S a m t u) (sub t u)" using sub u(1) by blast
    fix v assume v: "served S a m t u v"
    note same = servedD(3,4) [OF v] and b = servedD(1) [OF v]
    note bv = buildingD [OF b] and bs = building_steps [OF b]
    have "has_aliases a v" using u(2) by (simp add: has_aliases_def same)
    then have "has_aliases a (append_encoding a
        [EncStr (n_browseName (node_at v a)), EncList (encoding_of v t), EncInt 0] v)" if "isEncodable v t"
      using servedD(2) [OF v that] bv(1,2) by (auto simp: has_aliases_def intro: one_alias more_aliases)
    moreover have "has_aliases a (set_unencodable a v)" using bv(1) by (simp add: has_aliases_def)
    ultimately show "run_ok ?P (if isEncodable v t then run_return (append_encoding a
        [EncStr (n_browseName (node_at v a)), EncList (encoding_of v t), EncInt 0] v, True)
      else run_return (set_unencodable a v, False))"
      using bs by simp
  qed
  then show ?thesis using u by (simp add: supertype_step_def split: target.split)
qed

lemma supertype_loop_good:
  assumes sub: "\<And>t u. t \<in> uses ord m a \<Longrightarrow> building S a m u \<Longrightarrow> run_ok (served S a m t u) (sub t u)"
    and "xml_definition m a = Some None" and "set rs \<subseteq> set (refs m a)" and "building S a m u" "has_aliases a u"
  shows "run_ok (\<lambda>v. building S a m v \<and> has_aliases a v) (supertype_loop sub a rs u)"
  using assms(3-)
proof (induction rs arbitrary: u)
  case (Cons r rs)
  then have "run_ok (\<lambda>(v, go). building S a m v \<and> has_aliases a v) (supertype_step sub a r u)"
    by (intro supertype_step_good [OF sub assms(2)]) auto
  then show ?case
    by (simp, rule run_ok_bind) (use Cons in auto)
qed simp

text \<open>The loop over the fields: an enumeration so far has no encoding, a structure has one per field.\<close>

definition has_fields :: "nat \<Rightarrow> definition_state \<Rightarrow> opcua_namespace \<Rightarrow> bool" where
  "has_fields a d u \<longleftrightarrow> isEncodable u a \<longrightarrow>
     (\<forall>e \<in> set (encoding_of u a). field_enc e) \<and> (st_isEnum d \<longleftrightarrow> encoding_of u a = [])"

lemma read_field_isEnum:
  assumes "read_field ord en st x = Inr f" and "isEnum f"
  shows en
proof -
  have "isEnum f \<longrightarrow> en"
    by (rule foldM_invariant [OF assms(1) [unfolded read_field_def], where P = "\<lambda>f. isEnum f \<longrightarrow> en"])
       (auto simp: field_attr_def rbind_Inr_iff Let_def split: if_splits)
  then show en using assms(2) by blast
qed

lemma follow_field_good:
  assumes sub: "run_ok (served S a m t u) (sub t u)"
    and u: "has_fields a d u" and d: "\<not> st_isEnum d'" and "isEncodable u a \<longrightarrow> (\<forall>e \<in> set (encoding_of u a). field_enc e)"
  shows "run_ok (\<lambda>(d, v, go). building S a m v \<and> has_fields a d v) (follow_field sub a f t d' u)"
proof -
  have "run_ok (\<lambda>(d, v, go). building S a m v \<and> has_fields a d v) (run_bind (sub t u) (\<lambda>s'.
      let d'' = d'\<lparr>st_typeDict := st_typeDict d' @ [(fname f, t)]\<rparr>; rank = max 0 (hasValueRank f);
          s2 = append_encoding a [EncList [EncStr (fname f), EncList (encoding_of s' t), EncInt rank]] s'
      in run_return (d'', if isEncodable s' t then s2 else set_unencodable a s2, isEncodable s' t)))"
  proof (rule run_ok_bind [OF sub])
    fix v assume v: "served S a m t u v"
    note same = servedD(3,4) [OF v] and b = servedD(1) [OF v]
    let ?d = "d'\<lparr>st_typeDict := st_typeDict d' @ [(fname f, t)]\<rparr>"
    let ?s = "append_encoding a [EncList [EncStr (fname f), EncList (encoding_of v t), EncInt (max 0 (hasValueRank f))]] v"
    note bs = building_steps(1) [OF b, of "[EncList [EncStr (fname f), EncList (encoding_of v t), EncInt (max 0 (hasValueRank f))]]"]
    have "has_fields a ?d ?s" if "isEncodable v t"
      using servedD(2) [OF v that] assms(4) d buildingD(1,2) [OF b]
      by (auto simp: has_fields_def same field_enc_def)
    moreover have "has_fields a ?d (set_unencodable a ?s)"
      using buildingD(1) [OF bs] by (simp add: has_fields_def)
    ultimately show "run_ok (\<lambda>(d, v, go). building S a m v \<and> has_fields a d v)
       (let d'' = ?d; rank = max 0 (hasValueRank f);
            s2 = append_encoding a [EncList [EncStr (fname f), EncList (encoding_of v t), EncInt rank]] v
        in run_return (d'', if isEncodable v t then s2 else set_unencodable a s2, isEncodable v t))"
      using bs building_steps(2) [OF bs] by (simp add: Let_def)
  qed
  then show ?thesis by (simp add: follow_field_def)
qed

lemma field_step_good:
  assumes sub: "\<And>t u. t \<in> uses ord m a \<Longrightarrow> building S a m u \<Longrightarrow> run_ok (served S a m t u) (sub t u)"
    and x: "xml_definition m a = Some (Some x)" "y \<in> set (filter is_element (childNodes x))"
    and u: "building S a m u" "has_fields a d u"
  shows "run_ok (\<lambda>(d, v, go). building S a m v \<and> has_fields a d v) (field_step sub ord a y d u)"
  unfolding field_step_def
proof (rule run_ok_bind [where P = "\<lambda>f. read_field ord (st_isEnum d) (st_isSubType d) y = Inr f"])
  fix f assume f: "read_field ord (st_isEnum d) (st_isSubType d) y = Inr f"
  let ?d = "d\<lparr>st_isEnum := isEnum f, st_isSubType := isSubType f\<rparr>"
  let ?P = "\<lambda>(d, v, go). building S a m v \<and> has_fields a d v"
  have p: "types_ok m" "progress {a} m u" using u(1) by (simp_all add: building_def)
  have un: "building S a m (set_unencodable a u) \<and> has_fields a d' (set_unencodable a u)" for d'
    using building_steps(2) [OF u(1)] buildingD(1) [OF u(1)] by (simp add: has_fields_def)
  have en: "has_fields a (?d\<lparr>st_enumDict := e\<rparr>) u" if "isEnum f" for e
    using u(2) read_field_isEnum [OF f that] that by (simp add: has_fields_def)
  have follow: "run_ok ?P (follow_field sub a f t ?d u)"
    if "\<not> isEnum f" and t: "ns_getNodeByIDString u (fdtype f) = Some t" for t
  proof (cases "dataType_at u t = None")
    case True
    then show ?thesis by (simp add: follow_field_def)
  next
    case False
    have l: "ns_getNodeByIDString m (fdtype f) = Some t" using t lookup_progress [OF p] by simp
    then have tm: "t < length (node_heap m)" by (rule lookup_in_range [OF p(1) progress_refl])
    then have "dataType_at m t \<noteq> None" using False progressD(8) [OF p(2)] by simp
    then have "t \<in> uses ord m a" using l f x tm unfolding uses_def by auto
    then have "run_ok (served S a m t u) (sub t u)" using sub u(1) by blast
    then show ?thesis by (rule follow_field_good [OF _ u(2)]) (use that u(2) in \<open>simp_all add: has_fields_def\<close>)
  qed
  show "run_ok ?P (let d' = ?d in
       if isEnum f = isSubType f then run_return (d', set_unencodable a u, False)
       else if isEnum f then run_return (d'\<lparr>st_enumDict := st_enumDict d @ [(fname f, enumVal f)]\<rparr>, u, True)
       else case ns_getNodeByIDString u (fdtype f) of
          None \<Rightarrow> run_return (d', set_unencodable a u, True)
        | Some t \<Rightarrow> follow_field sub a f t d' u)"
    using un en u(1) follow
    by (cases "isEnum f"; cases "isSubType f") (simp_all add: Let_def split: option.split)
qed simp

lemma field_loop_good:
  assumes sub: "\<And>t u. t \<in> uses ord m a \<Longrightarrow> building S a m u \<Longrightarrow> run_ok (served S a m t u) (sub t u)"
    and "xml_definition m a = Some (Some x)" and "set ys \<subseteq> set (filter is_element (childNodes x))"
    and "building S a m u" "has_fields a d u"
  shows "run_ok (\<lambda>(d, v). building S a m v \<and> has_fields a d v) (field_loop sub ord a ys d u)"
  using assms(3-)
proof (induction ys arbitrary: d u)
  case (Cons y ys)
  have "run_ok (\<lambda>(d, v, go). building S a m v \<and> has_fields a d v) (field_step sub ord a y d u)"
    by (rule field_step_good [OF sub assms(2)]) (use Cons.prems in auto)
  then show ?case
    by (simp, rule run_ok_bind) (use Cons in auto)
qed simp

text \<open>After the loops: the result of a call.\<close>

definition finished :: "nat set \<Rightarrow> nat \<Rightarrow> opcua_namespace \<Rightarrow> bool" where
  "finished S a v \<longleftrightarrow> settled S v \<and> (isEncodable v a \<longrightarrow> converges (encoding_of v a))"

lemma finish_supertypes_good:
  assumes "building S a m v" and "has_aliases a v"
  shows "finished S a (finish_supertypes a v)"
  using assms building_steps(2) [OF assms(1)] buildingD(1) [OF assms(1)]
  by (auto simp: finished_def finish_supertypes_def has_aliases_def building_def intro: aliases)

lemma finish_definition_good:
  assumes "building S a m v" and "has_fields a d v"
  shows "finished S a (finish_definition outer a (d, v))"
proof -
  note b = buildingD [OF assms(1)] and set = building_steps(3) [OF assms(1)]
  have rest: "settled S (modify_dataType a (\<lambda>w. w\<lparr>dy_isEnum := e, dy_definition := df\<rparr>) (set_encoding a es v))"
    "isEncodable (modify_dataType a (\<lambda>w. w\<lparr>dy_isEnum := e, dy_definition := df\<rparr>) (set_encoding a es v)) a = isEncodable v a"
    "encoding_of (modify_dataType a (\<lambda>w. w\<lparr>dy_isEnum := e, dy_definition := df\<rparr>) (set_encoding a es v)) a = es" for e df es
  proof -
    have built: "is_built (set_encoding a es v) a" by (rule buildingD(3) [OF set])
    show "settled S (modify_dataType a (\<lambda>w. w\<lparr>dy_isEnum := e, dy_definition := df\<rparr>) (set_encoding a es v))"
      by (rule settled_own) (use set [of es] built in \<open>auto simp: building_def is_built_def dataType_at_modify\<close>)
    show "isEncodable (modify_dataType a (\<lambda>w. w\<lparr>dy_isEnum := e, dy_definition := df\<rparr>) (set_encoding a es v)) a = isEncodable v a"
      using encodable_simps(2) [of a es v a] by (auto simp: isEncodable_def dataType_at_modify split: option.splits)
    show "encoding_of (modify_dataType a (\<lambda>w. w\<lparr>dy_isEnum := e, dy_definition := df\<rparr>) (set_encoding a es v)) a = es"
      using encodable_simps(6) [OF b(1,2), of es] by (simp add: encoding_of_def dataType_at_modify split: option.splits)
  qed
  have "converges [EncStr ''Int32'']" by (rule builtin_name) code_simp
  then have conv: "converges (if st_isEnum d then unnest (encoding_of v a) @ [EncStr ''Int32''] else unnest (encoding_of v a))"
    if "isEncodable v a"
    using assms(2) that unnest_converges by (simp add: has_fields_def)
  show ?thesis
    unfolding finish_definition_def Let_def prod.case finished_def
    using conv rest set b(1,2) by (cases "isEncodable v a"; cases "st_isEnum d") (simp_all add: building_def)
qed

lemma build_step_good:
  assumes "types_ok s" and a: "a < length (node_heap s)" "a \<notin> S" and "settled S s"
    and sub: "\<And>m t u. m = mark a s \<Longrightarrow> a \<in> unbuilt s \<Longrightarrow> t \<in> uses ord m a \<Longrightarrow> building (insert a S) a m u \<Longrightarrow>
      run_ok (served (insert a S) a m t u) (sub t u)"
  shows "run_ok (settled S) (build_step sub ord outer a s)"
proof (cases "is_built s a \<or> dataType_at s a = None")
  case True
  then show ?thesis using assms(4) by (auto simp: build_step_def is_built_def)
next
  case False
  then obtain w where w: "dataType_at s a = Some w" "\<not> dy_encodingBuilt w" by (auto simp: is_built_def)
  let ?m = "mark a s" and ?S = "insert a S"
  have prog: "progress {} s ?m" using False by (intro mark_progress) blast
  have un: "a \<in> unbuilt s" using False a by (simp add: unbuilt_def)
  note m = progressD [OF prog]
  have xm: "xml_definition ?m a = Some (dy_xmlDefinition w)" using m(11) a w by (simp add: xml_definition_def)
  have "settled ?S s" using assms(4) by (auto simp: settled_def)
  then have "settled ?S ?m"
    unfolding mark_def by (rule settled_own) (use mark_built [of s a] False a in \<open>simp_all add: mark_def\<close>)
  then have b: "building ?S a ?m ?m"
    using types_ok_progress [OF assms(1) prog] a m(3) mark_built [of s a] False by (simp add: building_def)
  have empty: "encoding_of ?m a = []"
    using assms(4) a False w unfolding settled_def
    by (auto simp: encoding_of_def mark_def dataType_at_modify)
  have sub': "run_ok (served ?S a ?m t u) (sub t u)" if "t \<in> uses ord ?m a" "building ?S a ?m u" for t u
    using sub [OF refl un that] .
  have out: "run_ok (settled S) r" if "run_ok (finished ?S a) r" for r
    using that by (rule run_ok_mono) (auto simp: finished_def settled_def)
  have "converges [EncStr n]" if "isBuiltinByString n" for n by (rule builtin_name [OF that])
  then have 1: "run_ok (settled S) (run_return (set_encoding a [EncStr n] ?m))" if "isBuiltinByString n" for n
    using building_steps(3) [OF b] buildingD(1,2) [OF b] that by (intro out) (simp add: finished_def building_def)
  have 2: "run_ok (settled S) (run_bind (supertype_loop sub a (refs s a) ?m) (\<lambda>s2. run_return (finish_supertypes a s2)))"
    if "dy_xmlDefinition w = None"
  proof (intro out run_ok_bind [OF supertype_loop_good [OF sub' _ _ b]])
    show "has_aliases a ?m" using empty by (simp add: has_aliases_def)
  qed (use that xm m(4) a in \<open>auto simp: finish_supertypes_good\<close>)
  have 3: "run_ok (settled S) (run_bind (field_loop sub ord a (filter is_element (childNodes x))
      \<lparr>st_isEnum = True, st_isSubType = True, st_enumDict = [], st_typeDict = []\<rparr> ?m)
      (\<lambda>ds. run_return (finish_definition outer a ds)))" if "dy_xmlDefinition w = Some x" for x
    by (intro out run_ok_bind [OF field_loop_good [OF sub' _ _ b]])
       (use that xm empty in \<open>auto simp: has_fields_def finish_definition_good\<close>)
  show ?thesis
    using w 1 2 3 by (simp add: build_step_def Let_def mark_def [symmetric] split: option.split)
qed

lemma build_good:
  "types_ok s \<Longrightarrow> a < length (node_heap s) \<Longrightarrow> card (unbuilt s) < k \<Longrightarrow> settled S s \<Longrightarrow>
     acyclic (type_deps ord s) \<Longrightarrow> \<forall>b \<in> S. (a, b) \<in> (type_deps ord s)\<^sup>+ \<Longrightarrow>
     run_ok (settled S) (build k ord outer a s)"
proof (induction k arbitrary: outer a s S)
  case (Suc k)
  let ?D = "type_deps ord s"
  have "a \<notin> S" using Suc.prems(5,6) unfolding acyclic_def by blast
  then show ?case unfolding build.simps
  proof (rule build_step_good [OF Suc.prems(1,2) _ Suc.prems(4)])
    fix m t u
    assume m: "m = mark a s" and un: "a \<in> unbuilt s" and t: "t \<in> uses ord m a" and u: "building (insert a S) a m u"
    have nb: "\<not> is_built s a" "dataType_at s a \<noteq> None" using un by (simp_all add: unbuilt_def)
    have sm: "progress {} s m" unfolding m by (rule mark_progress [OF nb(1)])
    have mu: "progress {a} m u" "types_ok m" "settled (insert a S) u" using u by (simp_all add: building_def)
    have ok: "types_ok u" by (rule types_ok_progress [OF mu(2,1)])
    have deps: "type_deps ord u = ?D"
      using type_deps_progress [OF mu(2,1)] type_deps_progress [OF Suc.prems(1) sm] by simp
    have "t \<in> uses ord s a" using t uses_progress [OF Suc.prems(1) sm Suc.prems(2)] by simp
    then have ta: "(t, a) \<in> ?D" using Suc.prems(2) by (simp add: type_deps_def)
    have tu: "t < length (node_heap u)" using t progressD(3) [OF mu(1)] by (simp add: uses_def)
    have reach: "\<forall>b \<in> insert a S. (t, b) \<in> ?D\<^sup>+" using ta Suc.prems(6) by (auto intro: trancl_into_trancl2)
    then have tn: "t \<notin> insert a S" using Suc.prems(5) unfolding acyclic_def by blast
    have "card (unbuilt u) \<le> card (unbuilt m)" using unbuilt_progress [OF mu(1)] by (simp add: card_mono)
    also have "\<dots> < card (unbuilt s)"
      unfolding m using mark_unbuilt [OF nb(2) Suc.prems(2) nb(1)] by (simp add: psubset_card_mono)
    finally have fuel: "card (unbuilt u) < k" using Suc.prems(3) by simp
    have "run_ok (\<lambda>v. (progress {} u v \<and> is_built v t) \<and> settled (insert a S) v) (build k ord False t u)"
      by (rule run_ok_conj [OF build_ok [OF ok tu fuel] Suc.IH [OF ok tu fuel mu(3)]])
         (use reach Suc.prems(5) deps in auto)
    then show "run_ok (served (insert a S) a m t u) (build k ord False t u)"
    proof (rule run_ok_mono)
      fix v assume v: "(progress {} u v \<and> is_built v t) \<and> settled (insert a S) v"
      then have uv: "progress {} u v" by blast
      have au: "node_at v a = node_at u a"
        using progressD(10) [OF uv buildingD(1,3) [OF u]] by simp
      have "progress {a} m v" by (rule progress_trans [OF mu(1) progress_subset [OF uv]]) simp
      then have b: "building (insert a S) a m v" using u v by (simp add: building_def)
      have "t < length (node_heap v)" using tu progressD(3) [OF uv] by simp
      then have "isEncodable v t \<longrightarrow> converges (encoding_of v t)" using v tn unfolding settled_def by blast
      then show "served (insert a S) a m t u v" using b au by (simp add: served_def)
    qed
  qed
qed simp

lemma buildEncodingRules_good:
  assumes "types_ok s" and "\<forall>a \<in> set as. a < length (node_heap s)" and "settled {} s" and "acyclic (type_deps ord s)"
  shows "run_ok (settled {}) (buildEncodingRules ord as s)"
  using assms
proof (induction as arbitrary: s)
  case (Cons a as)
  have a: "a < length (node_heap s)" using Cons.prems(2) by simp
  have "unbuilt s \<subseteq> {..<length (node_heap s)}" by (auto simp: unbuilt_def)
  from card_mono [OF _ this] have fuel: "card (unbuilt s) < Suc (length (node_heap s))" by simp
  have "run_ok (\<lambda>t. (progress {} s t \<and> is_built t a) \<and> settled {} t) (buildEncoding ord a s)"
    unfolding buildEncoding_def
    by (rule run_ok_conj [OF build_ok [OF Cons.prems(1) a fuel] build_good [OF Cons.prems(1) a fuel Cons.prems(3,4)]]) simp
  then have "run_ok (settled {}) (run_bind (buildEncoding ord a s) (buildEncodingRules ord as))"
  proof (rule run_ok_bind)
    fix u assume u: "(progress {} s u \<and> is_built u a) \<and> settled {} u"
    then have p: "progress {} s u" by blast
    show "run_ok (settled {}) (buildEncodingRules ord as u)"
      by (rule Cons.IH [OF types_ok_progress [OF Cons.prems(1) p]])
         (use u Cons.prems(2,4) progressD(3) [OF p] type_deps_progress [OF Cons.prems(1) p] in auto)
  qed
  moreover have "run_ok (settled {}) (buildEncodingRules ord as s)"
    by (rule Cons.IH) (use Cons.prems in auto)
  ultimately show ?case by simp
qed simp

section \<open>The namespace after linking\<close>

lemma linked_settled:
  assumes "read_files ord env roots = Inr s" and "linkOpenPointers s = Inr t"
  shows "settled {} t"
proof -
  have parts: "map n_part (node_heap t) = map n_part (node_heap s)" using linked_graph(4) [OF assms] .
  have "encoding_of t a = [] \<and> \<not> is_built t a" if a: "a < length (node_heap t)" for a
  proof -
    have len: "length (node_heap s) = length (node_heap t)" using parts by (rule map_eq_imp_length_eq [symmetric])
    have "n_part (node_at t a) = n_part (node_at s a)" using parts a len by (metis nth_map)
    moreover have "part_encoding (n_part (node_at s a)) = (False, [])"
      using reading_node [OF read_files_ok(2) [OF assms(1)]] a len by (simp add: unlinked_node_def)
    ultimately show ?thesis
      by (auto simp: encoding_of_def is_built_def dataType_at_def split: node_part.splits)
  qed
  then show ?thesis by (simp add: settled_def)
qed

lemma settled_shrinks:
  assumes "settled S s" and "shrinks s t"
  shows "settled S t"
  using assms by (simp add: settled_def shrinks_def is_built_def isEncodable_def encoding_of_def)

lemma checked_types:
  assumes "read_files ord env roots = Inr s" and "linkOpenPointers s = Inr t" and "ns_sanitize t = Inr (u, l)"
  shows "types_ok u" and "settled {} u" and "\<forall>a \<in> set (ns_nodes u). a < length (node_heap u)"
proof -
  note sh = ns_sanitize_shrinks [OF assms(3)]
  show "types_ok u" by (rule types_ok_shrinks [OF linked_types_ok [OF assms(1,2)] sh])
  then show "\<forall>a \<in> set (ns_nodes u). a < length (node_heap u)" by (simp add: types_ok_def)
  show "settled {} u" by (rule settled_shrinks [OF linked_settled [OF assms(1,2)] sh])
qed

lemma rules_built:
  assumes "types_ok u" and "run_ok P (buildEncodingRules ord (ns_nodes u) u)"
  obtains r where "buildEncodingRules ord (ns_nodes u) u = Some r"
    and "\<And>v. r = Inr v \<Longrightarrow> P v \<and> progress {} u v \<and> (\<forall>a \<in> set (ns_nodes u). dataType_at v a \<noteq> None \<longrightarrow> is_built v a)"
proof -
  have u: "\<forall>a \<in> set (ns_nodes u). a < length (node_heap u)" using assms(1) by (simp add: types_ok_def)
  from run_ok_conj [OF assms(2) buildEncodingRules_ok [OF assms(1) u, of ord]] obtain r where
    r: "buildEncodingRules ord (ns_nodes u) u = Some r"
    and P: "\<And>v. r = Inr v \<Longrightarrow> P v \<and> progress {} u v \<and> (\<forall>a \<in> set (ns_nodes u). dataType_at u a \<noteq> None \<longrightarrow> is_built v a)"
    by (auto simp: run_ok_def)
  have "P v \<and> progress {} u v \<and> (\<forall>a \<in> set (ns_nodes u). dataType_at v a \<noteq> None \<longrightarrow> is_built v a)" if "r = Inr v" for v
    using P [OF that] progressD(8) [of "{}" u v] u by simp
  with r that show ?thesis by blast
qed

section \<open>A node set with data types\<close>

text \<open>A builtin type, a structure and a type derived from it.\<close>

definition data_type :: "string \<Rightarrow> string \<Rightarrow> xnode list \<Rightarrow> xnode" where
  "data_type i name = XElem ''UADataType'' [(''NodeId'', i), (''BrowseName'', name)]"

definition field_element :: "string \<Rightarrow> string \<Rightarrow> xnode" where
  "field_element name i = XElem ''Field'' [(''Name'', name), (''DataType'', i)] []"

definition point_fields :: xnode where
  "point_fields = XElem ''Definition'' [] [field_element ''x'' ''i=6'', field_element ''y'' ''i=6'']"

definition typed_set :: xnode where
  "typed_set = XElem ''UANodeSet'' []
     [XElem ''UAReferenceType'' [(''NodeId'', ''i=45''), (''BrowseName'', ''HasSubtype'')] [],
      data_type ''i=6'' ''Int32'' [],
      data_type ''ns=2;i=5'' ''Point'' [point_fields],
      data_type ''ns=2;i=7'' ''Position''
        [XElem ''References'' []
           [XElem ''Reference'' [(''ReferenceType'', ''i=45''), (''IsForward'', ''false'')] [XData ''ns=2;i=5'']]]]"

text \<open>A list of points, whose tail is a list again.\<close>

definition recursive_set :: xnode where
  "recursive_set = XElem ''UANodeSet'' []
     [data_type ''ns=2;i=5'' ''Chain'' [XElem ''Definition'' [] [field_element ''next'' ''ns=2;i=5'']]]"

definition checked_run :: "xnode \<Rightarrow> (opcua_namespace \<Rightarrow> opcua_namespace \<Rightarrow> bool) \<Rightarrow> bool" where
  "checked_run x P =
     (case read_files id demo_env [x] of
        Inl _ \<Rightarrow> False
      | Inr s \<Rightarrow> (case linkOpenPointers s of Inl _ \<Rightarrow> False
      | Inr t \<Rightarrow> (case ns_sanitize t of Inl _ \<Rightarrow> False
      | Inr (u, l) \<Rightarrow> (case buildEncodingRules id (ns_nodes u) u of None \<Rightarrow> False
      | Some r \<Rightarrow> (case r of Inl _ \<Rightarrow> False | Inr v \<Rightarrow> P u v)))))"

lemma checked_runE:
  assumes "checked_run x P"
  obtains s t u l v where "read_files id demo_env [x] = Inr s" and "linkOpenPointers s = Inr t"
    and "ns_sanitize t = Inr (u, l)" and "buildEncodingRules id (ns_nodes u) u = Some (Inr v)" and "P u v"
  using assms by (auto simp: checked_run_def split: sum.split_asm option.split_asm prod.split_asm)
    (metis sum.exhaust)

lemma typed_run:
  "checked_run typed_set (\<lambda>u v. ns_nodes u = [0, 1, 2, 3] \<and> ns_nodes v = [0, 1, 2, 3] \<and> length (node_heap u) = 4 \<and>
     xml_definition u 0 = None \<and> xml_definition u 1 = Some None \<and>
     xml_definition u 2 = Some (Some point_fields) \<and> xml_definition u 3 = Some None \<and>
     n_references (node_at u 1) = [] \<and> map (\<lambda>r. r_target (ref_at u r)) (n_references (node_at u 3)) = [TNode 2] \<and>
     ns_getNodeByIDString u ''i=6'' = Some 1 \<and> isEncodable v 3)"
  by code_simp

lemma field_text:
  "read_field id en st (field_element n i) = Inr f \<Longrightarrow> fdtype f = i" "is_element (field_element n i)"
  by (auto simp: read_field_def field_element_def field_attr_def)

lemma typed_acyclic:
  assumes "length (node_heap u) = 4" and "xml_definition u 0 = None" and "xml_definition u 1 = Some None"
    and "xml_definition u 2 = Some (Some point_fields)" and "xml_definition u 3 = Some None"
    and "n_references (node_at u 1) = []" and "map (\<lambda>r. r_target (ref_at u r)) (n_references (node_at u 3)) = [TNode 2]"
    and "ns_getNodeByIDString u ''i=6'' = Some 1"
  shows "acyclic (type_deps id u)"
proof -
  have "t < a" if "(t, a) \<in> type_deps id u" for t a
  proof -
    have "a < 4" and t: "t \<in> uses id u a" using that assms(1) by (simp_all add: type_deps_def)
    then consider "a = 0" | "a = 1" | "a = 2" | "a = 3" by linarith
    then show ?thesis
    proof cases
      case 3
      then show ?thesis using t assms(4,8) by (auto simp: uses_def point_fields_def field_text(2) dest: field_text(1))
    next
      case 4
      then show ?thesis using t assms(5,7) by (auto simp: uses_def map_eq_Cons_conv)
    qed (use t assms(2,3,6) in \<open>simp_all add: uses_def\<close>)
  qed
  then have "type_deps id u \<subseteq> {(x, y). x < y}" by auto
  then show ?thesis using wf_acyclic [OF wf_less] acyclic_subset by blast
qed

text \<open>What is left of these facts after all types are built.\<close>

lemma encoding_converges:
  assumes "read_files ord env roots = Inr s" and "linkOpenPointers s = Inr t" and "ns_sanitize t = Inr (u, l)"
    and "acyclic (type_deps ord u)" and "buildEncodingRules ord (ns_nodes u) u = Some (Inr v)"
    and "a \<in> set (ns_nodes v)" and "isEncodable v a"
  shows "converges (encoding_of v a)"
proof -
  note c = checked_types [OF assms(1-3)]
  obtain r where "buildEncodingRules ord (ns_nodes u) u = Some r"
    and "\<And>v. r = Inr v \<Longrightarrow> settled {} v \<and> progress {} u v \<and> (\<forall>a \<in> set (ns_nodes u). dataType_at v a \<noteq> None \<longrightarrow> is_built v a)"
    using rules_built [OF c(1) buildEncodingRules_good [OF c(1,3,2) assms(4)]] by metis
  then have v: "settled {} v" "progress {} u v" "\<forall>a \<in> set (ns_nodes u). dataType_at v a \<noteq> None \<longrightarrow> is_built v a"
    using assms(5) by simp_all
  have "dataType_at v a \<noteq> None" using assms(7) by (auto simp: isEncodable_def split: option.splits)
  then show ?thesis
    using assms(6,7) c(3) v progressD(2,3) [OF v(2)] unfolding settled_def by auto
qed

section \<open>Properties\<close>

text \<open>C3: building the encodings of the data types always comes to an end, however the types refer to
  each other: within one call more than there are nodes, which is the fuel given, every call has
  returned or raised.  Afterwards every data type of the namespace was built, and nothing else changed.\<close>

theorem build_terminates:
  assumes "read_files ord env roots = Inr s" and "linkOpenPointers s = Inr t" and "ns_sanitize t = Inr (u, l)"
  shows "\<exists>r. buildEncodingRules ord (ns_nodes u) u = Some r \<and>
    (\<forall>v. r = Inr v \<longrightarrow> (\<forall>a \<in> set (ns_nodes u). dataType_at v a \<noteq> None \<longrightarrow> is_built v a) \<and>
       ns_nodes v = ns_nodes u \<and> ref_heap v = ref_heap u \<and>
       (\<forall>a < length (node_heap u). node_at v a = (node_at u a)\<lparr>n_part := n_part (node_at v a)\<rparr> \<and>
          (dataType_at u a = None \<longrightarrow> node_at v a = node_at u a)))"
proof -
  note c = checked_types [OF assms]
  obtain r where r: "buildEncodingRules ord (ns_nodes u) u = Some r"
    and P: "\<And>v. r = Inr v \<Longrightarrow> progress {} u v \<and> (\<forall>a \<in> set (ns_nodes u). dataType_at v a \<noteq> None \<longrightarrow> is_built v a)"
    using rules_built [OF c(1) buildEncodingRules_ok [OF c(1,3), of ord]] by metis
  have "ns_nodes v = ns_nodes u \<and> ref_heap v = ref_heap u \<and>
       (\<forall>a < length (node_heap u). node_at v a = (node_at u a)\<lparr>n_part := n_part (node_at v a)\<rparr> \<and>
          (dataType_at u a = None \<longrightarrow> node_at v a = node_at u a))" if "r = Inr v" for v
    using P [OF that] progressD(1,2) [of "{}" u v] by (simp add: progress_def progress_at_def)
  then show ?thesis using r P by blast
qed

corollary build_terminates_witness:
  "\<exists>s t u l v. read_files id demo_env [recursive_set] = Inr s \<and> linkOpenPointers s = Inr t \<and> ns_sanitize t = Inr (u, l) \<and>
     buildEncodingRules id (ns_nodes u) u = Some (Inr v) \<and> is_built v 0"
proof -
  have run: "checked_run recursive_set (\<lambda>u v. ns_nodes u = [0] \<and> dataType_at v 0 \<noteq> None)" by code_simp
  obtain s t u l v where v: "read_files id demo_env [recursive_set] = Inr s" "linkOpenPointers s = Inr t"
    "ns_sanitize t = Inr (u, l)" "buildEncodingRules id (ns_nodes u) u = Some (Inr v)"
    "ns_nodes u = [0] \<and> dataType_at v 0 \<noteq> None" by (rule checked_runE [OF run])
  have "is_built v 0" using build_terminates [OF v(1-3)] v(4,5) by auto
  then show ?thesis using v by blast
qed

text \<open>C2: where no data type is made of itself, directly or through others, every data type that is called
  encodable has an encoding that leads to builtin types only.\<close>

theorem encodable_types_converge:
  assumes "read_files ord env roots = Inr s" and "linkOpenPointers s = Inr t" and "ns_sanitize t = Inr (u, l)"
    and "acyclic (type_deps ord u)" and "buildEncodingRules ord (ns_nodes u) u = Some (Inr v)"
    and "a \<in> set (ns_nodes v)" and "isEncodable v a"
  shows "converges (encoding_of v a)"
  using assms by (rule encoding_converges)

corollary encodable_types_converge_witness:
  "\<exists>s t u l v. read_files id demo_env [typed_set] = Inr s \<and> linkOpenPointers s = Inr t \<and> ns_sanitize t = Inr (u, l) \<and>
     buildEncodingRules id (ns_nodes u) u = Some (Inr v) \<and> isEncodable v 3 \<and> converges (encoding_of v 3)"
proof -
  obtain s t u l v where v: "read_files id demo_env [typed_set] = Inr s" "linkOpenPointers s = Inr t"
    "ns_sanitize t = Inr (u, l)" "buildEncodingRules id (ns_nodes u) u = Some (Inr v)"
    and u: "ns_nodes u = [0, 1, 2, 3] \<and> ns_nodes v = [0, 1, 2, 3] \<and> length (node_heap u) = 4 \<and>
     xml_definition u 0 = None \<and> xml_definition u 1 = Some None \<and>
     xml_definition u 2 = Some (Some point_fields) \<and> xml_definition u 3 = Some None \<and>
     n_references (node_at u 1) = [] \<and> map (\<lambda>r. r_target (ref_at u r)) (n_references (node_at u 3)) = [TNode 2] \<and>
     ns_getNodeByIDString u ''i=6'' = Some 1 \<and> isEncodable v 3" by (rule checked_runE [OF typed_run])
  have "acyclic (type_deps id u)" by (rule typed_acyclic) (use u in simp_all)
  from encodable_types_converge [OF v(1-3) this v(4), of 3] u v show ?thesis by auto
qed

text \<open>A structure with a field of its own type is called encodable, and the encoding of that field is
  empty: it leads to no builtin type.\<close>

theorem recursive_type_encodable:
  "checked_run recursive_set (\<lambda>u v. ns_nodes v = [0] \<and> isEncodable v 0 \<and>
     encoding_of v 0 = [EncStr ''next'', EncList [], EncInt 0]) \<and>
   \<not> converges [EncStr ''next'', EncList [], EncInt 0]"
proof -
  have "\<not> converges [EncStr ''next'', EncList [], EncInt 0]"
    by (simp add: one_alias_iff converges_not_empty)
  moreover have "checked_run recursive_set (\<lambda>u v. ns_nodes v = [0] \<and> isEncodable v 0 \<and>
     encoding_of v 0 = [EncStr ''next'', EncList [], EncInt 0])" by code_simp
  ultimately show ?thesis by blast
qed

end
