(* ===== verification/Node_Order_Facts.thy ===== *)
theory Node_Order_Facts
  imports Node_Order Type_Convergence
begin

text \<open>
  The order of the nodes is that of a greedy choice: the first node on which the references of the
  nodes not yet placed put the least weight.
\<close>

section \<open>Targets are nodes of the namespace\<close>

definition targets_in :: "nat set \<Rightarrow> opcua_namespace \<Rightarrow> bool" where
  "targets_in N s \<longleftrightarrow> (\<forall>q \<in> set (ref_heap s). \<forall>b. r_target q = TNode b \<longrightarrow> b \<in> N)"

interpretation targets_kept: growth "\<lambda>s t. targets_in N s \<longrightarrow> targets_in N t" for N
  by unfold_locales auto

lemma targets_in_modify_node [simp]: "targets_in N (modify_node a f s) = targets_in N s"
  by (simp add: targets_in_def heap_simps)

lemma targets_in_addReference [simp]: "targets_in N (addReference a r s) = targets_in N s"
  by (simp add: addReference_def)

lemma invert_reference_targets:
  "a \<in> N \<Longrightarrow> targets_in N s \<longrightarrow> targets_in N (invert_reference a r s)"
  by (auto simp: invert_reference_def new_ref_def targets_in_def addReference_def heap_simps
      ref_referenceType_def referencePointer_init_def split: target.split)

lemma updateInverse_step_targets:
  "a \<in> N \<Longrightarrow> targets_in N s \<longrightarrow> targets_in N (updateInverse_step a r s)"
  by (auto simp: updateInverse_step_def addInverseReferenceTarget_def new_ref_def targets_in_def heap_simps
      referencePointer_init_def split: target.split)

lemma close_graph_targets:
  assumes "targets_in (set (ns_nodes s)) s"
  shows "targets_in (set (ns_nodes s)) (close_graph s)"
proof -
  let ?N = "set (ns_nodes s)"
  have "targets_in ?N s \<longrightarrow> targets_in ?N (fold invert_references (ns_nodes s) s)"
    unfolding invert_references_def
    by (rule targets_kept.fold_le, rule targets_kept.fold_le, rule invert_reference_targets)
  moreover have "ns_nodes (fold invert_references (ns_nodes s) s) = ns_nodes s"
    using extends_fold [of invert_references s "ns_nodes s"] extends_invert_references by (simp add: extends_def)
  moreover have "targets_in ?N u \<longrightarrow> targets_in ?N (fold updateInverseReferences (ns_nodes s) u)" for u
    unfolding updateInverseReferences_def
    by (rule targets_kept.fold_le, rule targets_kept.fold_le, rule updateInverse_step_targets)
  ultimately show ?thesis using assms by (simp add: close_graph_def Let_def)
qed

lemma linked_targets:
  assumes "read_files ord env roots = Inr s" and "linkOpenPointers s = Inr t"
  shows "targets_in (set (ns_nodes t)) t"
proof -
  note ok = read_files_ok [OF assms(1)]
  let ?s1 = "s\<lparr>ref_heap := map (linked_ref s) (ref_heap s)\<rparr>"
  obtain l where t: "t = (close_graph ?s1)\<lparr>linkLater := l\<rparr>"
    using linkOpenPointers_result [OF ok(2)] assms(2) by auto
  have "b \<in> set (ns_nodes s)" if "q \<in> set (ref_heap s)" "r_target (linked_ref s q) = TNode b" for q b
  proof -
    have "unlinked_ref s q" using ok(2) that(1) by (simp add: reading_def)
    then obtain x where "r_target q = TText x" by (auto simp: unlinked_ref_def)
    then show ?thesis
      using that(2) by (auto simp: linked_ref_def target_result_def Let_def ns_getNodeByIDString_def find_Some_iff
          split: if_splits option.splits)
  qed
  then have "targets_in (set (ns_nodes ?s1)) ?s1" by (auto simp: targets_in_def)
  from close_graph_targets [OF this] extends_close_graph [of ?s1] show ?thesis
    by (simp add: t targets_in_def extends_def)
qed

lemma checked_targets:
  assumes "read_files ord env roots = Inr s" and "linkOpenPointers s = Inr t" and "ns_sanitize t = Inr (u, l)"
    and "a \<in> set (ns_nodes u)" and "r \<in> set (refs u a)" and "r_target (ref_at u r) = TNode b"
  shows "b \<in> set (ns_nodes u)"
proof -
  have sh: "shrinks t u" by (rule ns_sanitize_shrinks [OF assms(3)])
  have ok: "types_ok u" by (rule types_ok_shrinks [OF linked_types_ok [OF assms(1,2)] sh])
  then have "r < length (ref_heap u)"
    using graph_ok_ref [of u a r] assms(4,5) by (simp add: types_ok_def)
  then show ?thesis
    using linked_targets [OF assms(1,2)] assms(6) sh by (auto simp: targets_in_def shrinks_def)
qed

lemma checked_distinct:
  assumes "read_files ord env roots = Inr s" and "linkOpenPointers s = Inr t" and "ns_sanitize t = Inr (u, l)"
  shows "distinct (ns_nodes u)"
  using linked_graph(3) [OF assms(1,2)] ns_sanitize_shrinks [OF assms(3)]
  by (simp add: registered_def shrinks_def distinct_map)

section \<open>The greedy order\<close>

text \<open>What a reference of node \<open>a\<close> puts on node \<open>x\<close>: a type reference weighs on the node itself.\<close>

definition reference_weight ::
    "opcua_namespace \<Rightarrow> target list \<Rightarrow> target list \<Rightarrow> nat \<Rightarrow> nat \<Rightarrow> nat \<Rightarrow> int" where
  "reference_weight s tr sr a x r =
     (let q = ref_at s r in
      case r_target q of
        TNode t \<Rightarrow>
          if r_type q \<in> set tr \<and> r_forward q then (if x = a then 200 else 0)
          else if r_type q \<in> set sr \<and> \<not> r_forward q then (if x = a then 100 else 0)
          else if r_forward q \<and> x = t then 1 else 0
      | _ \<Rightarrow> 0)"

definition node_weight :: "opcua_namespace \<Rightarrow> target list \<Rightarrow> target list \<Rightarrow> nat list \<Rightarrow> nat \<Rightarrow> int" where
  "node_weight s tr sr R x = (\<Sum>a\<leftarrow>R. \<Sum>r\<leftarrow>n_references (node_at s a). reference_weight s tr sr a x r)"

definition first_min :: "(nat \<Rightarrow> int) \<Rightarrow> nat list \<Rightarrow> nat" where
  "first_min f xs = hd (filter (\<lambda>a. \<forall>b \<in> set xs. f a \<le> f b) xs)"

lemma first_min_exists:
  assumes "xs \<noteq> []"
  shows "first_min f xs \<in> set xs" and "b \<in> set xs \<Longrightarrow> f (first_min f xs) \<le> f b"
proof -
  let ?ys = "filter (\<lambda>a. \<forall>b \<in> set xs. f a \<le> f b) xs"
  obtain a where "a \<in> set xs" "\<forall>b \<in> set xs. f a \<le> f b"
    using assms arg_min_if_finite [of "set xs" f] by (metis List.finite_set not_le set_empty)
  then have "?ys \<noteq> []" by (auto simp: filter_empty_conv)
  then have "first_min f xs \<in> set ?ys" unfolding first_min_def by (rule hd_in_set)
  then show "first_min f xs \<in> set xs" and "b \<in> set xs \<Longrightarrow> f (first_min f xs) \<le> f b" by auto
qed

function greedy :: "(nat list \<Rightarrow> nat \<Rightarrow> int) \<Rightarrow> nat list \<Rightarrow> nat list" where
  "greedy w xs = (if xs = [] then [] else let a = first_min (w xs) xs in a # greedy w (remove1 a xs))"
  by pat_completeness auto
termination
  by (relation "measure (\<lambda>(w, xs). length xs)") (auto simp: first_min_exists length_remove1)

declare greedy.simps [simp del]

lemma greedy_simps [simp]:
  "greedy w [] = []"
  "xs \<noteq> [] \<Longrightarrow> greedy w xs = first_min (w xs) xs # greedy w (remove1 (first_min (w xs) xs) xs)"
  by (simp_all add: greedy.simps Let_def)

lemma greedy_mset: "mset (greedy w xs) = mset xs"
proof (induction w xs rule: greedy.induct)
  case (1 w xs)
  then show ?case by (cases "xs = []") (simp_all add: first_min_exists)
qed

lemma hd_filter_nth:
  assumes "i < length xs" and "P (xs ! i)" and "\<forall>j < i. \<not> P (xs ! j)"
  shows "hd (filter P xs) = xs ! i"
proof -
  have "filter P (take i xs) = []"
    using assms(1,3) by (auto simp: filter_empty_conv in_set_conv_nth)
  then have "filter P xs = filter P (drop i xs)" by (metis append_Nil append_take_drop_id filter_append)
  then show ?thesis using assms(1,2) by (simp add: Cons_nth_drop_Suc [symmetric])
qed

section \<open>Rows of the matrix\<close>

definition square :: "nat \<Rightarrow> matrix \<Rightarrow> bool" where
  "square n m \<longleftrightarrow> length m = n \<and> (\<forall>i < n. length (snd (m ! i)) = n)"

abbreviation row_sum :: "matrix \<Rightarrow> nat \<Rightarrow> int" where
  "row_sum m i \<equiv> sum_list (snd (m ! i))"

lemma sum_list_update_int:
  "j < length xs \<Longrightarrow> sum_list (xs[j := (x :: int)]) = sum_list xs + x - xs ! j"
  by (induction xs arbitrary: j) (auto split: nat.split)

lemma add_weight_row:
  assumes "square n m" and "i < n" and "j < n"
  shows "square n (add_weight i j d m)" and "map fst (add_weight i j d m) = map fst m"
    and "x < n \<Longrightarrow> row_sum (add_weight i j d m) x = row_sum m x + (if x = i then d else 0)"
  using assms
  by (auto simp: square_def add_weight_def nth_list_update sum_list_update_int map_update intro: list_update_id)
     (metis length_map list_update_id nth_map)

lemma set_node_row:
  assumes "square n m" and "i < n"
  shows "square n (set_node i a m)" and "map fst (set_node i a m) = (map fst m)[i := a]"
    and "x < n \<Longrightarrow> row_sum (set_node i a m) x = row_sum m x"
  using assms by (auto simp: square_def set_node_def nth_list_update map_update)

lemma index_of_nth:
  assumes "distinct N" and "i < length N"
  shows "index_of (N ! i) N = Inr i"
proof -
  have "List.find (\<lambda>j. N ! j = N ! i) [0..<length N] = Some i"
    using assms by (auto simp: find_Some_iff nth_eq_iff_index_eq)
  then show ?thesis by (simp add: index_of_def)
qed

text \<open>What the references of a node do to the rows.\<close>

lemma weigh_reference_row:
  assumes "distinct (ns_nodes s)" and "square n m" and "n = length (ns_nodes s)" and "i < n"
    and "\<forall>b. r_target (ref_at s r) = TNode b \<longrightarrow> b \<in> set (ns_nodes s)"
  shows "\<exists>m'. weigh_reference s tr sr k i r m = Inr m' \<and> square n m' \<and> map fst m' = map fst m \<and>
    (\<forall>x < n. row_sum m' x = row_sum m x + k * reference_weight s tr sr (ns_nodes s ! i) (ns_nodes s ! x) r)"
proof (cases "r_target (ref_at s r)")
  case (TNode t)
  then have "t \<in> set (ns_nodes s)" using assms(5) by simp
  then obtain j where j: "j < n" "t = ns_nodes s ! j" using assms(3) by (auto simp: in_set_conv_nth)
  have idx: "index_of t (ns_nodes s) = Inr j" using index_of_nth assms(1,3) j by simp
  have eq: "ns_nodes s ! x = ns_nodes s ! y \<longleftrightarrow> x = y" if "x < n" "y < n" for x y
    using that assms(1,3) by (simp add: nth_eq_iff_index_eq)
  note rows = add_weight_row [OF assms(2)]
  show ?thesis
    using TNode idx rows [OF assms(4) j(1)] rows [OF j(1) assms(4)] assms(2,4) j eq
    by (auto simp: weigh_reference_def reference_weight_def Let_def)
qed (use assms(2) in \<open>simp_all add: weigh_reference_def reference_weight_def\<close>)

definition links :: "opcua_namespace \<Rightarrow> target list \<Rightarrow> target list \<Rightarrow> nat \<Rightarrow> nat \<Rightarrow> int" where
  "links s tr sr a x = (\<Sum>r\<leftarrow>n_references (node_at s a). reference_weight s tr sr a x r)"

lemma node_weight_links: "node_weight s tr sr R x = (\<Sum>a\<leftarrow>R. links s tr sr a x)"
  by (simp add: node_weight_def links_def)

text \<open>Namespaces whose nodes are distinct and refer to each other only.\<close>

definition closed_space :: "opcua_namespace \<Rightarrow> bool" where
  "closed_space s \<longleftrightarrow> distinct (ns_nodes s) \<and>
     (\<forall>a \<in> set (ns_nodes s). \<forall>r \<in> set (refs s a). \<forall>b. r_target (ref_at s r) = TNode b \<longrightarrow> b \<in> set (ns_nodes s))"

lemma weigh_node_row:
  assumes "closed_space s" and "square n m" and "n = length (ns_nodes s)" and "i < n" and "a = ns_nodes s ! i"
  shows "\<exists>m'. weigh_node s tr sr k i a m = Inr m' \<and> square n m' \<and> map fst m' = map fst m \<and>
    (\<forall>x < n. row_sum m' x = row_sum m x + k * links s tr sr a (ns_nodes s ! x))"
proof -
  have "\<forall>r \<in> set (refs s a). \<forall>b. r_target (ref_at s r) = TNode b \<longrightarrow> b \<in> set (ns_nodes s)"
    using assms(1,3-5) unfolding closed_space_def by (metis nth_mem)
  then have "\<exists>m'. foldM (weigh_reference s tr sr k i) rs m = Inr m' \<and> square n m' \<and> map fst m' = map fst m \<and>
      (\<forall>x < n. row_sum m' x = row_sum m x + k * (\<Sum>r\<leftarrow>rs. reference_weight s tr sr a (ns_nodes s ! x) r))"
    if "set rs \<subseteq> set (refs s a)" for rs
    using that assms(2)
  proof (induction rs arbitrary: m)
    case (Cons r rs)
    have "distinct (ns_nodes s)" using assms(1) by (simp add: closed_space_def)
    moreover have "\<forall>b. r_target (ref_at s r) = TNode b \<longrightarrow> b \<in> set (ns_nodes s)"
      using Cons.prems(1,2) by auto
    ultimately obtain m1 where
      m1: "weigh_reference s tr sr k i r m = Inr m1" "square n m1" "map fst m1 = map fst m"
        "\<forall>x < n. row_sum m1 x = row_sum m x + k * reference_weight s tr sr a (ns_nodes s ! x) r"
      using weigh_reference_row [OF _ Cons.prems(3) assms(3,4), of r tr sr k] assms(5) by auto
    from Cons.IH [OF Cons.prems(1) _ m1(2)] Cons.prems(2) obtain m2 where
      "foldM (weigh_reference s tr sr k i) rs m1 = Inr m2" "square n m2" "map fst m2 = map fst m1"
        "\<forall>x < n. row_sum m2 x = row_sum m1 x + k * (\<Sum>r\<leftarrow>rs. reference_weight s tr sr a (ns_nodes s ! x) r)" by auto
    with m1 show ?case by (simp add: algebra_simps)
  qed simp
  from this [OF subset_refl] show ?thesis by (simp add: weigh_node_def links_def)
qed

section \<open>The matrix at the start\<close>

lemma place_nodes_row:
  assumes "distinct N"
  shows "place_nodes N (empty_matrix N) = Inr (map (\<lambda>a. (Some a, replicate (length N) 0)) N)"
proof -
  let ?n = "length N" and ?z = "replicate (length N) (0 :: int)"
  have "foldM (\<lambda>a m. rbind (index_of a N) (\<lambda>i. Inr (set_node i (Some a) m))) (take i N) (empty_matrix N) =
      Inr (map (\<lambda>a. (Some a, ?z)) (take i N) @ replicate (?n - i) (None, ?z))" if "i \<le> ?n" for i
    using that
  proof (induction i)
    case (Suc i)
    let ?m = "map (\<lambda>a. (Some a, ?z)) (take i N) @ replicate (?n - i) (None, ?z)"
    have r: "replicate (?n - i) (None, ?z) = (None :: nat option, ?z) # replicate (?n - Suc i) (None, ?z)"
      using Suc.prems by (metis Suc_diff_le diff_Suc_Suc replicate_Suc)
    have "set_node i (Some (N ! i)) ?m = map (\<lambda>a. (Some a, ?z)) (take (Suc i) N) @ replicate (?n - Suc i) (None, ?z)"
      using Suc.prems unfolding r by (simp add: set_node_def take_Suc_conv_app_nth list_update_append nth_append)
    then show ?case
      using Suc assms by (simp add: take_Suc_conv_app_nth foldM_append index_of_nth)
  qed (simp add: empty_matrix_def)
  from this [of ?n] show ?thesis by (simp add: place_nodes_def)
qed

lemma connectivity_matrix_row:
  assumes "closed_space s" and "n = length (ns_nodes s)"
  shows "\<exists>m. connectivity_matrix s tr sr = Inr m \<and> square n m \<and> map fst m = map Some (ns_nodes s) \<and>
    (\<forall>x < n. row_sum m x = node_weight s tr sr (ns_nodes s) (ns_nodes s ! x))"
proof -
  let ?N = "ns_nodes s"
  let ?m0 = "map (\<lambda>a. (Some a, replicate n (0 :: int))) ?N"
  let ?f = "\<lambda>a m. rbind (index_of a ?N) (\<lambda>i. weigh_node s tr sr 1 i a m)"
  have dist: "distinct ?N" using assms(1) by (simp add: closed_space_def)
  have "\<exists>m. foldM ?f (take i ?N) ?m0 = Inr m \<and> square n m \<and> map fst m = map Some ?N \<and>
      (\<forall>x < n. row_sum m x = node_weight s tr sr (take i ?N) (?N ! x))" if "i \<le> n" for i
    using that
  proof (induction i)
    case 0
    have "square n ?m0" using assms(2) by (simp add: square_def)
    then show ?case using assms(2) by (simp add: node_weight_def comp_def sum_list_replicate)
  next
    case (Suc i)
    then obtain m where m: "foldM ?f (take i ?N) ?m0 = Inr m" "square n m" "map fst m = map Some ?N"
      "\<forall>x < n. row_sum m x = node_weight s tr sr (take i ?N) (?N ! x)" by auto
    from weigh_node_row [OF assms(1) m(2) assms(2), of i "?N ! i" tr sr 1] Suc.prems obtain m' where
      "weigh_node s tr sr 1 i (?N ! i) m = Inr m'" "square n m'" "map fst m' = map fst m"
      "\<forall>x < n. row_sum m' x = row_sum m x + links s tr sr (?N ! i) (?N ! x)" by auto
    then show ?case
      using m Suc.prems assms(2) dist
      by (simp add: take_Suc_conv_app_nth foldM_append index_of_nth node_weight_links)
  qed
  from this [of n] show ?thesis
    using place_nodes_row [OF dist] assms(2) by (simp add: connectivity_matrix_def)
qed

section \<open>Choosing a node\<close>

text \<open>Among the rows that hold a node: the first with the least sum.\<close>

definition chosen :: "matrix \<Rightarrow> nat \<Rightarrow> bool" where
  "chosen m i \<longleftrightarrow> i < length m \<and> fst (m ! i) \<noteq> None \<and>
     (\<forall>j < i. fst (m ! j) \<noteq> None \<longrightarrow> row_sum m i < row_sum m j) \<and>
     (\<forall>j < length m. fst (m ! j) \<noteq> None \<longrightarrow> row_sum m i \<le> row_sum m j)"

lemma min_step_simps:
  "fst row = None \<Longrightarrow> min_step row (c, i, b, w) = (Suc c, i, b, w)"
  "fst row = Some a \<Longrightarrow> min_step row (c, i, b, w) =
     (if w < 0 \<or> sum_list (snd row) < w then (Suc c, c, Some a, sum_list (snd row)) else (Suc c, i, b, w))"
  by (simp_all add: min_step_def Let_def)

lemma min_steps:
  assumes "\<forall>row \<in> set m. fst row \<noteq> None \<longrightarrow> 0 \<le> sum_list (snd row)"
  shows "(\<exists>i. chosen m i \<and> fold min_step m (0, 0, None, -1) = (length m, i, fst (m ! i), row_sum m i)) \<or>
    ((\<forall>row \<in> set m. fst row = None) \<and> fold min_step m (0, 0, None, -1) = (length m, 0, None, -1))"
  using assms
proof (induction m rule: rev_induct)
  case (snoc row m)
  have snoc_chosen: "chosen (m @ [row]) i \<longleftrightarrow> chosen m i \<and> (fst row \<noteq> None \<longrightarrow> row_sum m i \<le> sum_list (snd row))"
    if "i < length m" for i
    using that by (auto simp: chosen_def nth_append less_Suc_eq)
  from snoc consider i where "chosen m i" "fold min_step m (0, 0, None, -1) = (length m, i, fst (m ! i), row_sum m i)"
    | "\<forall>row \<in> set m. fst row = None" "fold min_step m (0, 0, None, -1) = (length m, 0, None, -1)" by auto
  then show ?case
  proof cases
    case 1
    then have i: "i < length m" "0 \<le> row_sum m i" using snoc.prems by (auto simp: chosen_def)
    show ?thesis
    proof (cases "fst row \<noteq> None \<and> sum_list (snd row) < row_sum m i")
      case True
      have "chosen (m @ [row]) (length m)"
        using True 1(1) by (auto simp: chosen_def nth_append less_Suc_eq)
      with True 1(2) show ?thesis by (auto simp: min_step_simps)
    next
      case False
      then have "chosen (m @ [row]) i" using snoc_chosen [OF i(1)] 1(1) by auto
      moreover have "fold min_step (m @ [row]) (0, 0, None, -1) = (Suc (length m), i, fst (m ! i), row_sum m i)"
        using False 1(2) i(2) by (cases "fst row") (simp_all add: min_step_simps)
      ultimately show ?thesis using i(1) by (auto simp: nth_append)
    qed
  next
    case 2
    show ?thesis
    proof (cases "fst row")
      case None
      with 2 show ?thesis by (simp add: min_step_simps)
    next
      case (Some a)
      have "chosen (m @ [row]) (length m)"
        using Some 2(1) by (auto simp: chosen_def nth_append less_Suc_eq)
      with Some 2(2) show ?thesis by (auto simp: min_step_simps)
    qed
  qed
qed simp

text \<open>The rows after the nodes outside of \<open>R\<close> were placed.\<close>

definition remaining :: "opcua_namespace \<Rightarrow> target list \<Rightarrow> target list \<Rightarrow> nat list \<Rightarrow> matrix \<Rightarrow> bool" where
  "remaining s tr sr R m \<longleftrightarrow> square (length (ns_nodes s)) m \<and> R = filter (\<lambda>a. a \<in> set R) (ns_nodes s) \<and>
     map fst m = map (\<lambda>a. if a \<in> set R then Some a else None) (ns_nodes s) \<and>
     (\<forall>i < length (ns_nodes s). ns_nodes s ! i \<in> set R \<longrightarrow> row_sum m i = node_weight s tr sr R (ns_nodes s ! i))"

lemma sum_list_nonneg_map: "(\<And>x. x \<in> set xs \<Longrightarrow> 0 \<le> f x) \<Longrightarrow> (0 :: int) \<le> (\<Sum>x\<leftarrow>xs. f x)"
  by (induction xs) auto

lemma node_weight_nonneg: "0 \<le> node_weight s tr sr R x"
  unfolding node_weight_def
  by (intro sum_list_nonneg_map) (auto simp: reference_weight_def Let_def split: target.split)

lemma remaining_min:
  assumes "remaining s tr sr R m" and "R \<noteq> []"
  obtains i where "i < length (ns_nodes s)" and "ns_nodes s ! i = first_min (node_weight s tr sr R) R"
    and "getMinWeightNode m = (i, Some (ns_nodes s ! i), row_sum m i)"
proof -
  let ?N = "ns_nodes s" and ?w = "node_weight s tr sr R"
  have m: "length m = length ?N" and R: "R = filter (\<lambda>a. a \<in> set R) ?N"
    and f: "map fst m = map (\<lambda>a. if a \<in> set R then Some a else None) ?N"
    and w: "\<And>i. i < length ?N \<Longrightarrow> ?N ! i \<in> set R \<Longrightarrow> row_sum m i = ?w (?N ! i)"
    using assms(1) by (simp_all add: remaining_def square_def)
  have fst: "fst (m ! i) = (if ?N ! i \<in> set R then Some (?N ! i) else None)" if "i < length ?N" for i
    using arg_cong [OF f, of "\<lambda>xs. xs ! i"] that m by simp
  have nonneg: "\<forall>row \<in> set m. fst row \<noteq> None \<longrightarrow> 0 \<le> sum_list (snd row)"
  proof (intro ballI impI)
    fix row assume "row \<in> set m" and some: "fst row \<noteq> None"
    then obtain i where i: "i < length ?N" "row = m ! i" using m by (metis in_set_conv_nth)
    then have "?N ! i \<in> set R" using fst some by (metis (full_types))
    then show "0 \<le> sum_list (snd row)" using w node_weight_nonneg i by metis
  qed
  obtain a where "a \<in> set R" using assms(2) by (metis list.set_sel(1))
  moreover have sub: "set R \<subseteq> set ?N" by (subst R) auto
  ultimately obtain j where "j < length ?N" "?N ! j \<in> set R" by (metis in_set_conv_nth subsetD)
  then have "\<not> (\<forall>row \<in> set m. fst row = None)" using fst m by (metis nth_mem option.distinct(1))
  then obtain i where i: "chosen m i" and res: "fold min_step m (0, 0, None, -1) = (length m, i, fst (m ! i), row_sum m i)"
    using min_steps [OF nonneg] by blast
  have in_N: "i < length ?N" using i m by (simp add: chosen_def)
  then have in_R: "?N ! i \<in> set R" using i fst by (auto simp: chosen_def split: if_splits)
  have le: "?w (?N ! i) \<le> ?w (?N ! k)" if "k < length ?N" "?N ! k \<in> set R" for k
  proof -
    have "fst (m ! k) \<noteq> None" using fst that by simp
    then have "row_sum m i \<le> row_sum m k" using i that(1) unfolding chosen_def m by blast
    then show ?thesis using w [OF that] w [OF in_N in_R] by simp
  qed
  have less: "?w (?N ! i) < ?w (?N ! k)" if "k < i" "?N ! k \<in> set R" for k
  proof -
    have k: "k < length ?N" using that(1) in_N by simp
    then have "fst (m ! k) \<noteq> None" using fst that(2) by simp
    then have "row_sum m i < row_sum m k" using i that(1) unfolding chosen_def by blast
    then show ?thesis using w [OF k that(2)] w [OF in_N in_R] by simp
  qed
  have "hd (filter (\<lambda>a. (\<forall>b \<in> set R. ?w a \<le> ?w b) \<and> a \<in> set R) ?N) = ?N ! i"
  proof (rule hd_filter_nth [OF in_N])
    have "\<exists>k < length ?N. b = ?N ! k" if "b \<in> set R" for b
      using that sub by (metis in_set_conv_nth subsetD)
    then show "(\<forall>b \<in> set R. ?w (?N ! i) \<le> ?w b) \<and> ?N ! i \<in> set R" using le in_R by metis
    show "\<forall>j < i. \<not> ((\<forall>b \<in> set R. ?w (?N ! j) \<le> ?w b) \<and> ?N ! j \<in> set R)"
      using less in_R by (meson not_le)
  qed
  moreover have "filter (\<lambda>a. \<forall>b \<in> set R. ?w a \<le> ?w b) R = filter (\<lambda>a. (\<forall>b \<in> set R. ?w a \<le> ?w b) \<and> a \<in> set R) ?N"
    by (subst (3) R) (simp add: conj_commute)
  ultimately have "?N ! i = first_min ?w R" by (simp add: first_min_def)
  moreover have "getMinWeightNode m = (i, Some (?N ! i), row_sum m i)"
    using res fst in_N in_R by (simp add: getMinWeightNode_def)
  ultimately show ?thesis using that in_N by blast
qed

section \<open>Placing all nodes\<close>

lemma remaining_next:
  assumes "closed_space s" and "remaining s tr sr R m" and "R \<noteq> []"
  defines "a \<equiv> first_min (node_weight s tr sr R) R"
  shows "\<exists>m'. place_next s tr sr m = Inr (m', a) \<and> remaining s tr sr (remove1 a R) m'"
proof -
  let ?N = "ns_nodes s"
  obtain i where i: "i < length ?N" "?N ! i = a" and get: "getMinWeightNode m = (i, Some a, row_sum m i)"
    using remaining_min [OF assms(2,3)] unfolding a_def by metis
  have sq: "square (length ?N) m" and R: "R = filter (\<lambda>a. a \<in> set R) ?N"
    and f: "map fst m = map (\<lambda>a. if a \<in> set R then Some a else None) ?N"
    and w: "\<And>i. i < length ?N \<Longrightarrow> ?N ! i \<in> set R \<Longrightarrow> row_sum m i = node_weight s tr sr R (?N ! i)"
    using assms(2) by (simp_all add: remaining_def)
  have dist: "distinct ?N" using assms(1) by (simp add: closed_space_def)
  then have dR: "distinct R" by (subst R) simp
  have aR: "a \<in> set R" unfolding a_def by (rule first_min_exists [OF assms(3)])
  have set: "set (remove1 a R) = set R - {a}" using dR by simp
  from weigh_node_row [OF assms(1) sq refl i(1) i(2) [symmetric], of tr sr "-1"] obtain m1 where
    m1: "weigh_node s tr sr (-1) i a m = Inr m1" "square (length ?N) m1" "map fst m1 = map fst m"
      "\<And>x. x < length ?N \<Longrightarrow> row_sum m1 x = row_sum m x - links s tr sr a (?N ! x)" by auto
  note m2 = set_node_row [OF m1(2) i(1), where a = None]
  have "remove1 a R = filter (\<lambda>b. a \<noteq> b) R" using dR by (simp add: distinct_remove1_removeAll removeAll_filter_not_eq)
  also have "\<dots> = filter (\<lambda>b. b \<in> set R - {a}) ?N" by (subst R) (simp add: conj_commute, metis)
  finally have "remove1 a R = filter (\<lambda>b. b \<in> set (remove1 a R)) ?N" unfolding set .
  moreover have "map fst (set_node i None m1) = map (\<lambda>b. if b \<in> set (remove1 a R) then Some b else None) ?N"
    unfolding m2(2) m1(3) f set using i dist
    by (intro nth_equalityI) (auto simp: nth_list_update nth_eq_iff_index_eq)
  moreover have "row_sum (set_node i None m1) x = node_weight s tr sr (remove1 a R) (?N ! x)"
    if "x < length ?N" "?N ! x \<in> set (remove1 a R)" for x
  proof -
    have "node_weight s tr sr R (?N ! x) = links s tr sr a (?N ! x) + node_weight s tr sr (remove1 a R) (?N ! x)"
      unfolding node_weight_links using aR by (rule sum_list_map_remove1)
    then show ?thesis using m2(3) m1(4) w that set by simp
  qed
  ultimately have "remaining s tr sr (remove1 a R) (set_node i None m1)"
    using m2(1) by (simp add: remaining_def)
  then show ?thesis using get m1(1) by (simp add: place_next_def)
qed

lemma reorder_loop_greedy:
  assumes "closed_space s" and "remaining s tr sr R m" and "length out + length R = length (ns_nodes s)"
  shows "reorder_loop s tr sr m out = Inr (out @ greedy (node_weight s tr sr) R)"
  using assms(2,3)
proof (induction "length R" arbitrary: R m out)
  case 0
  then show ?case by (subst reorder_loop.simps) simp
next
  case (Suc k)
  then have R: "R \<noteq> []" by auto
  let ?a = "first_min (node_weight s tr sr R) R"
  obtain m' where m': "place_next s tr sr m = Inr (m', ?a)" "remaining s tr sr (remove1 ?a R) m'"
    using remaining_next [OF assms(1) Suc.prems(1) R] by blast
  have len: "length (remove1 ?a R) = k" using Suc.hyps(2) first_min_exists(1) [OF R] by (simp add: length_remove1)
  then have "reorder_loop s tr sr m' (out @ [?a]) = Inr ((out @ [?a]) @ greedy (node_weight s tr sr) (remove1 ?a R))"
    using Suc.hyps(2) Suc.prems(2) by (intro Suc.hyps(1) m'(2)) simp_all
  then show ?case
    using m'(1) R Suc.hyps(2) Suc.prems(2) by (subst reorder_loop.simps) simp
qed

lemma reorder_greedy:
  assumes "closed_space s" and "reference_types s ''HasTypeDefinition'' = Inr tr"
    and "reference_types s ''HasSubtype'' = Inr sr"
  shows "reorderNodesMinDependencies s = Inr (s\<lparr>ns_nodes := greedy (node_weight s tr sr) (ns_nodes s)\<rparr>)"
proof -
  obtain m where m: "connectivity_matrix s tr sr = Inr m" "square (length (ns_nodes s)) m"
    "map fst m = map Some (ns_nodes s)"
    "\<forall>x < length (ns_nodes s). row_sum m x = node_weight s tr sr (ns_nodes s) (ns_nodes s ! x)"
    using connectivity_matrix_row [OF assms(1) refl] by blast
  then have "remaining s tr sr (ns_nodes s) m" by (simp add: remaining_def)
  from reorder_loop_greedy [OF assms(1) this, of "[]"] m(1) assms(2,3) show ?thesis
    by (simp add: reorderNodesMinDependencies_def)
qed

section \<open>The namespace that is ordered\<close>

definition named :: "opcua_namespace \<Rightarrow> string \<Rightarrow> target list" where
  "named s name = (case getNodeByBrowseName s name of None \<Rightarrow> [] | Some a \<Rightarrow> [TNode a])"

text \<open>
  There is a node \<open>HasSubtype\<close>, without which no subtypes are looked for, and the first node of the
  given name has a reference with the arrow, which is taken for one to a subtype.
\<close>

definition has_subtypes :: "opcua_namespace \<Rightarrow> string \<Rightarrow> bool" where
  "has_subtypes s name \<longleftrightarrow> getNodeByBrowseName s ''HasSubtype'' \<noteq> None \<and>
     (case getNodeByBrowseName s name of None \<Rightarrow> False | Some a \<Rightarrow> \<exists>r \<in> set (refs s a). r_forward (ref_at s r))"

lemma is_subtype_ref_forward: "is_subtype_ref s h r \<longleftrightarrow> r_forward (ref_at s r)"
  by (simp add: is_subtype_ref_def node_id_eq_def toString_result_def split: target.split)

lemma reference_types_result:
  "reference_types s name = (if has_subtypes s name then Inl AttributeError else Inr (named s name))"
  by (auto simp: reference_types_def getSubTypesOf_def has_subtypes_def named_def list_ex_iff is_subtype_ref_forward
      split: option.split)

lemma closed_space_cong:
  assumes "ns_nodes t = ns_nodes s" and "ref_heap t = ref_heap s"
    and "\<And>a. a \<in> set (ns_nodes s) \<Longrightarrow> refs t a = refs s a" and "closed_space s"
  shows "closed_space t"
  using assms by (simp add: closed_space_def)

lemma modify_part_refs: "refs (modify_part a f s) b = refs s b"
  by (simp add: modify_part_def node_at_modify_node)

lemma allocateValue_frame:
  assumes "allocateValue env a s = Inr (t, done)"
  shows "ns_nodes t = ns_nodes s \<and> ref_heap t = ref_heap s \<and> (\<forall>b. refs t b = refs s b) \<and>
    length (node_heap t) = length (node_heap s)"
proof -
  have "t = s \<or> (\<exists>f. t = modify_part a f s)"
    using assms
    by (auto simp: allocateValue_def elim!: rbind_InrE split: node_part.split_asm option.split_asm pyval.split_asm)
  then show ?thesis by (auto simp: modify_part_refs) (simp_all add: modify_part_def heap_simps)
qed

lemma allocateVariables_frame:
  assumes "allocateVariables env s = Inr t"
  shows "ns_nodes t = ns_nodes s \<and> ref_heap t = ref_heap s \<and> (\<forall>b. refs t b = refs s b) \<and>
    length (node_heap t) = length (node_heap s)"
  by (rule foldM_invariant [OF assms [unfolded allocateVariables_def]])
     (auto simp: rbind_Inr_iff split: if_splits dest: allocateValue_frame)

lemma ordered_closed:
  assumes "read_files ord env roots = Inr s" and "linkOpenPointers s = Inr t" and "ns_sanitize t = Inr (u, l)"
    and "buildEncodingRules ord (ns_nodes u) u = Some (Inr v)" and "allocateVariables env v = Inr w"
  shows "closed_space w"
proof -
  note c = checked_types [OF assms(1-3)]
  have "closed_space u"
    using checked_targets [OF assms(1-3)] checked_distinct [OF assms(1-3)] by (auto simp: closed_space_def)
  moreover have p: "progress {} u v"
    using buildEncodingRules_ok [OF c(1,3), of ord] assms(4) by (simp add: run_ok_def)
  ultimately have "closed_space v"
    using progressD(1,2,4) [OF p] c(3) by (intro closed_space_cong [of v u]) auto
  then show ?thesis using allocateVariables_frame [OF assms(5)] by (intro closed_space_cong [of w v]) auto
qed

section \<open>Referring nodes first\<close>

text \<open>The weight a node has of its own, from its type references, and the other references to a node.\<close>

definition own_weight :: "opcua_namespace \<Rightarrow> target list \<Rightarrow> target list \<Rightarrow> nat \<Rightarrow> int" where
  "own_weight s tr sr a = (\<Sum>r\<leftarrow>n_references (node_at s a). let q = ref_at s r in
     if \<not> is_node (r_target q) then 0
     else if r_type q \<in> set tr \<and> r_forward q then 200
     else if r_type q \<in> set sr \<and> \<not> r_forward q then 100 else 0)"

definition refers :: "opcua_namespace \<Rightarrow> target list \<Rightarrow> nat \<Rightarrow> nat \<Rightarrow> bool" where
  "refers s tr a x \<longleftrightarrow>
     (\<exists>r \<in> set (n_references (node_at s a)). r_target (ref_at s r) = TNode x \<and> r_forward (ref_at s r) \<and>
        r_type (ref_at s r) \<notin> set tr)"

lemma links_own:
  "links s tr sr x x = own_weight s tr sr x + (\<Sum>r\<leftarrow>refs s x. if r_target (ref_at s r) = TNode x \<and>
     r_forward (ref_at s r) \<and> r_type (ref_at s r) \<notin> set tr then 1 else 0)"
  "a \<noteq> x \<Longrightarrow> links s tr sr a x = (\<Sum>r\<leftarrow>refs s a. if r_target (ref_at s r) = TNode x \<and>
     r_forward (ref_at s r) \<and> r_type (ref_at s r) \<notin> set tr then 1 else 0)"
  unfolding links_def own_weight_def sum_list_addf [symmetric]
  by (rule arg_cong [of _ _ sum_list], auto simp: reference_weight_def Let_def split: target.split)+

lemma sum_list_pos: "(\<And>x. x \<in> set xs \<Longrightarrow> 0 \<le> f x) \<Longrightarrow> y \<in> set xs \<Longrightarrow> f y \<le> (\<Sum>x\<leftarrow>xs. f x :: int)"
  by (induction xs) (auto intro: sum_list_nonneg_map add_increasing add_increasing2)

lemma sum_list_zero: "(\<And>x. x \<in> set xs \<Longrightarrow> f x = 0) \<Longrightarrow> (\<Sum>x\<leftarrow>xs. f x :: int) = 0"
  by (induction xs) auto

lemma sum_list_absent: "x \<notin> set xs \<Longrightarrow> (\<Sum>a\<leftarrow>xs. if a = x then c else (0 :: int)) = 0"
  by (induction xs) auto

lemma node_weight_own:
  assumes "x \<in> set R" and "distinct R"
  shows "own_weight s tr sr x \<le> node_weight s tr sr R x"
    and "y \<in> set R \<Longrightarrow> refers s tr y x \<Longrightarrow> own_weight s tr sr x < node_weight s tr sr R x"
    and "\<forall>y \<in> set R. \<not> refers s tr y x \<Longrightarrow> node_weight s tr sr R x = own_weight s tr sr x"
proof -
  let ?reg = "\<lambda>a. \<Sum>r\<leftarrow>refs s a. if r_target (ref_at s r) = TNode x \<and> r_forward (ref_at s r) \<and>
      r_type (ref_at s r) \<notin> set tr then 1 else (0 :: int)"
  have "links s tr sr a x = (if a = x then own_weight s tr sr x else 0) + ?reg a" for a
    using links_own by auto
  moreover have "(\<Sum>a\<leftarrow>R. if a = x then own_weight s tr sr x else 0) = own_weight s tr sr x"
    using assms by (induction R) (auto simp: sum_list_absent)
  ultimately have w: "node_weight s tr sr R x = own_weight s tr sr x + (\<Sum>a\<leftarrow>R. ?reg a)"
    by (simp add: node_weight_links sum_list_addf)
  have pos: "0 \<le> ?reg a" for a by (rule sum_list_nonneg_map) simp
  show "own_weight s tr sr x \<le> node_weight s tr sr R x"
    using w sum_list_nonneg_map [of R ?reg] pos by simp
  show "own_weight s tr sr x < node_weight s tr sr R x" if y: "y \<in> set R" "refers s tr y x"
  proof -
    obtain r where r: "r \<in> set (refs s y)" "r_target (ref_at s r) = TNode x \<and> r_forward (ref_at s r) \<and>
      r_type (ref_at s r) \<notin> set tr" using y(2) by (auto simp: refers_def)
    have "1 \<le> ?reg y"
      using sum_list_pos [of "refs s y" "\<lambda>r. if r_target (ref_at s r) = TNode x \<and> r_forward (ref_at s r) \<and>
        r_type (ref_at s r) \<notin> set tr then 1 else 0" r] r by simp
    also have "?reg y \<le> (\<Sum>a\<leftarrow>R. ?reg a)" using pos y(1) by (rule sum_list_pos)
    finally show ?thesis using w by simp
  qed
  show "node_weight s tr sr R x = own_weight s tr sr x" if "\<forall>y \<in> set R. \<not> refers s tr y x"
  proof -
    have "?reg a = 0" if "a \<in> set R" for a
      using that \<open>\<forall>y \<in> set R. \<not> refers s tr y x\<close> by (intro sum_list_zero) (auto simp: refers_def)
    then have "(\<Sum>a\<leftarrow>R. ?reg a) = 0" by (rule sum_list_zero)
    then show ?thesis using w by simp
  qed
qed

definition reference_order :: "opcua_namespace \<Rightarrow> target list \<Rightarrow> (nat \<times> nat) set" where
  "reference_order s tr = {(a, x). a \<in> set (ns_nodes s) \<and> x \<in> set (ns_nodes s) \<and> refers s tr a x}"

lemma first_min_not_referred:
  assumes "acyclic (reference_order s tr)" and "distinct R" and "set R \<subseteq> set (ns_nodes s)"
    and mono: "\<And>a x. a \<in> set (ns_nodes s) \<Longrightarrow> refers s tr a x \<Longrightarrow> own_weight s tr sr a \<le> own_weight s tr sr x"
    and y: "y \<in> set R" and x: "x = first_min (node_weight s tr sr R) R"
  shows "\<not> refers s tr y x"
proof
  assume yx: "refers s tr y x"
  let ?E = "reference_order s tr" and ?own = "own_weight s tr sr"
  have "reference_order s tr \<subseteq> set (ns_nodes s) \<times> set (ns_nodes s)" by (auto simp: reference_order_def)
  then have "finite ?E" by (rule finite_subset) simp
  then have wf: "wf ?E" using assms(1) by (rule finite_acyclic_wf)
  define Z where "Z = {z \<in> set R. ?own z \<le> ?own y}"
  have "y \<in> Z" using y by (simp add: Z_def)
  then obtain z where z: "z \<in> Z" and min: "\<And>a. (a, z) \<in> ?E \<Longrightarrow> a \<notin> Z"
    using wfE_min [OF wf] by metis
  have "\<not> refers s tr a z" if a: "a \<in> set R" for a
  proof
    assume "refers s tr a z"
    then have "a \<in> Z" "(a, z) \<in> ?E" using a z mono [of a z] assms(3) by (auto simp: Z_def reference_order_def)
    then show False using min by blast
  qed
  moreover have zR: "z \<in> set R" using z by (simp add: Z_def)
  ultimately have "node_weight s tr sr R z = ?own z" using node_weight_own(3) [OF _ assms(2)] by blast
  also have "\<dots> \<le> ?own y" using z by (simp add: Z_def)
  also have "\<dots> \<le> ?own x" using mono [OF _ yx] y assms(3) by blast
  also have "\<dots> < node_weight s tr sr R x"
  proof (rule node_weight_own(2) [OF _ assms(2) y yx])
    show "x \<in> set R" unfolding x using y by (intro first_min_exists) auto
  qed
  finally have "node_weight s tr sr R z < node_weight s tr sr R x" .
  moreover have "node_weight s tr sr R x \<le> node_weight s tr sr R z"
    unfolding x using zR by (intro first_min_exists) auto
  ultimately show False by simp
qed

lemma greedy_not_referred:
  assumes "acyclic (reference_order s tr)"
    and mono: "\<And>a x. a \<in> set (ns_nodes s) \<Longrightarrow> refers s tr a x \<Longrightarrow> own_weight s tr sr a \<le> own_weight s tr sr x"
  shows "distinct R \<Longrightarrow> set R \<subseteq> set (ns_nodes s) \<Longrightarrow>
    sorted_wrt (\<lambda>x y. \<not> refers s tr y x) (greedy (node_weight s tr sr) R)"
proof (induction "node_weight s tr sr" R rule: greedy.induct)
  case (1 R)
  show ?case
  proof (cases "R = []")
    case False
    let ?x = "first_min (node_weight s tr sr R) R"
    have "set (greedy (node_weight s tr sr) (remove1 ?x R)) = set (remove1 ?x R)"
      using greedy_mset by (metis mset_eq_setD)
    then have "\<not> refers s tr y ?x" if "y \<in> set (greedy (node_weight s tr sr) (remove1 ?x R))" for y
      using that first_min_not_referred [OF assms(1) 1(2,3) mono _ refl] by (metis notin_set_remove1)
    moreover have "sorted_wrt (\<lambda>x y. \<not> refers s tr y x) (greedy (node_weight s tr sr) (remove1 ?x R))"
      using 1 False by (metis distinct_remove1 set_remove1_subset subset_trans)
    ultimately show ?thesis using False by simp
  qed simp
qed

section \<open>Properties\<close>

text \<open>C4: the order the matrix computes is the greedy one: always the first of the nodes not yet placed on
  which the references of the nodes not yet placed put the least weight.  It raises an exception
  exactly if there is a node \<open>HasSubtype\<close> and it, or the node \<open>HasTypeDefinition\<close>, has a reference with
  the arrow (\<open>has_subtypes\<close>); without a node \<open>HasSubtype\<close> no subtypes are looked for.\<close>

theorem reorder_is_greedy:
  assumes "read_files ord env roots = Inr s" and "linkOpenPointers s = Inr t" and "ns_sanitize t = Inr (u, l)"
    and "buildEncodingRules ord (ns_nodes u) u = Some (Inr v)" and "allocateVariables env v = Inr w"
  shows "reorderNodesMinDependencies w =
    (if has_subtypes w ''HasTypeDefinition'' \<or> has_subtypes w ''HasSubtype'' then Inl AttributeError
     else Inr (w\<lparr>ns_nodes := greedy (node_weight w (named w ''HasTypeDefinition'') (named w ''HasSubtype'')) (ns_nodes w)\<rparr>))"
proof (cases "has_subtypes w ''HasTypeDefinition'' \<or> has_subtypes w ''HasSubtype''")
  case True
  then show ?thesis by (auto simp: reorderNodesMinDependencies_def reference_types_result)
next
  case False
  then show ?thesis
    using reorder_greedy [OF ordered_closed [OF assms]] by (simp add: reference_types_result)
qed

text \<open>C5: a node's own weight is 200 for each reference with the arrow to its type definition and 100 for
  each one against the arrow to its supertype.  Where the other references with the arrow make no circle
  and lead from no node to one of less own weight, every node is placed in the order before the nodes
  it refers to with them.\<close>

theorem reorder_referring_first:
  assumes "read_files ord env roots = Inr s" and "linkOpenPointers s = Inr t" and "ns_sanitize t = Inr (u, l)"
    and "buildEncodingRules ord (ns_nodes u) u = Some (Inr v)" and "allocateVariables env v = Inr w"
    and "reorderNodesMinDependencies w = Inr z"
    and "acyclic (reference_order w (named w ''HasTypeDefinition''))"
    and "\<forall>a \<in> set (ns_nodes w). \<forall>x. refers w (named w ''HasTypeDefinition'') a x \<longrightarrow>
      own_weight w (named w ''HasTypeDefinition'') (named w ''HasSubtype'') a \<le>
      own_weight w (named w ''HasTypeDefinition'') (named w ''HasSubtype'') x"
  shows "sorted_wrt (\<lambda>x y. \<not> refers w (named w ''HasTypeDefinition'') y x) (ns_nodes z) \<and> mset (ns_nodes z) = mset (ns_nodes w)"
proof -
  have closed: "closed_space w" by (rule ordered_closed [OF assms(1-5)])
  have no: "\<not> has_subtypes w ''HasTypeDefinition''" "\<not> has_subtypes w ''HasSubtype''"
    using assms(6) by (auto simp: reorderNodesMinDependencies_def reference_types_result split: if_splits)
  then have "z = w\<lparr>ns_nodes := greedy (node_weight w (named w ''HasTypeDefinition'') (named w ''HasSubtype'')) (ns_nodes w)\<rparr>"
    using reorder_greedy [OF closed] assms(6) by (simp add: reference_types_result)
  then show ?thesis
    using greedy_not_referred [OF assms(7), of "named w ''HasSubtype''" "ns_nodes w"] assms(8) closed
    by (simp add: greedy_mset closed_space_def)
qed

text \<open>A method below an object with a type.\<close>

definition pump_set :: xnode where
  "pump_set = XElem ''UANodeSet'' []
     [XElem ''UAReferenceType'' [(''NodeId'', ''i=40''), (''BrowseName'', ''HasTypeDefinition'')] [],
      XElem ''UAReferenceType'' [(''NodeId'', ''i=47''), (''BrowseName'', ''HasComponent'')] [],
      XElem ''UAObjectType'' [(''NodeId'', ''i=58''), (''BrowseName'', ''BaseObjectType'')] [],
      XElem ''UAObject'' [(''NodeId'', ''ns=2;i=1''), (''BrowseName'', ''2:Pump'')]
        [XElem ''References'' [] [XElem ''Reference'' [(''ReferenceType'', ''i=40'')] [XData ''i=58'']]],
      XElem ''UAMethod'' [(''NodeId'', ''ns=2;i=2''), (''BrowseName'', ''2:Start'')]
        [XElem ''References'' []
          [XElem ''Reference'' [(''ReferenceType'', ''i=47''), (''IsForward'', ''false'')] [XData ''ns=2;i=1'']]]]"

definition pump_ordered :: "opcua_namespace \<Rightarrow> opcua_namespace \<Rightarrow> bool" where
  "pump_ordered u w \<longleftrightarrow> ns_nodes w = [0, 1, 2, 3, 4] \<and> list_all (\<lambda>a. \<not> is_variable (node_at w a)) (ns_nodes w) \<and>
     \<not> has_subtypes w ''HasTypeDefinition'' \<and> \<not> has_subtypes w ''HasSubtype'' \<and>
     (case reorderNodesMinDependencies w of Inl _ \<Rightarrow> False | Inr z \<Rightarrow> ns_nodes z = [0, 1, 2, 4, 3])"

lemma pump_run: "checked_run pump_set pump_ordered"
  by code_simp

lemma no_variables:
  "list_all (\<lambda>a. \<not> is_variable (node_at v a)) (ns_nodes v) \<Longrightarrow> allocateVariables env v = Inr v"
proof -
  have "list_all (\<lambda>a. \<not> is_variable (node_at v a)) xs \<Longrightarrow> foldM (\<lambda>a s. if is_variable (node_at s a)
      then rbind (allocateValue env a s) (\<lambda>(s', done). Inr s') else Inr s) xs v = Inr v" for xs
    by (induction xs) simp_all
  then show "list_all (\<lambda>a. \<not> is_variable (node_at v a)) (ns_nodes v) \<Longrightarrow> allocateVariables env v = Inr v"
    by (simp add: allocateVariables_def)
qed

corollary reorder_is_greedy_witness:
  "\<exists>s t u l v z. read_files id demo_env [pump_set] = Inr s \<and> linkOpenPointers s = Inr t \<and> ns_sanitize t = Inr (u, l) \<and>
     buildEncodingRules id (ns_nodes u) u = Some (Inr v) \<and> allocateVariables demo_env v = Inr v \<and>
     reorderNodesMinDependencies v = Inr z \<and> ns_nodes v = [0, 1, 2, 3, 4] \<and> ns_nodes z = [0, 1, 2, 4, 3] \<and>
     ns_nodes z = greedy (node_weight v (named v ''HasTypeDefinition'') (named v ''HasSubtype'')) (ns_nodes v)"
proof -
  obtain s t u l v where v: "read_files id demo_env [pump_set] = Inr s" "linkOpenPointers s = Inr t"
    "ns_sanitize t = Inr (u, l)" "buildEncodingRules id (ns_nodes u) u = Some (Inr v)"
    and "pump_ordered u v" by (rule checked_runE [OF pump_run])
  note w = this(5) [unfolded pump_ordered_def]
  note n = w [THEN conjunct1] and w' = w [THEN conjunct2]
  have al: "allocateVariables demo_env v = Inr v" by (rule no_variables) (rule w' [THEN conjunct1])
  note no = w' [THEN conjunct2, THEN conjunct1] w' [THEN conjunct2, THEN conjunct2, THEN conjunct1]
    and run = w' [THEN conjunct2, THEN conjunct2, THEN conjunct2]
  obtain z where z: "reorderNodesMinDependencies v = Inr z"
    using run by (cases "reorderNodesMinDependencies v") (simp_all only: sum.case)
  have order: "ns_nodes z = [0, 1, 2, 4, 3]" using run by (simp only: z sum.case)
  have "ns_nodes z = greedy (node_weight v (named v ''HasTypeDefinition'') (named v ''HasSubtype'')) (ns_nodes v)"
    using z unfolding reorder_is_greedy [OF v al] using no by (simp only: if_False simp_thms) auto
  then show ?thesis using v al z n order by (intro exI conjI)
qed

text \<open>References read off their keys.\<close>

lemma refers_key:
  "refers s tr a x \<longleftrightarrow> list_ex (\<lambda>(t, ty, f). t = TNode x \<and> f \<and> ty \<notin> set tr) (map (ref_key s) (refs s a))"
  by (auto simp: refers_def list_ex_iff ref_key_def)

lemma own_weight_key:
  "own_weight s tr sr a = (\<Sum>(t, ty, f)\<leftarrow>map (ref_key s) (refs s a). if \<not> is_node t then 0
     else if ty \<in> set tr \<and> f then 200 else if ty \<in> set sr \<and> \<not> f then 100 else 0)"
  by (simp add: own_weight_def ref_key_def comp_def Let_def)

definition demo_references :: "opcua_namespace \<Rightarrow> opcua_namespace \<Rightarrow> bool" where
  "demo_references u v \<longleftrightarrow> ns_nodes v = [0, 1, 2] \<and> list_all (\<lambda>a. \<not> is_variable (node_at v a)) (ns_nodes v) \<and>
     map (\<lambda>a. map (ref_key v) (refs v a)) [0, 1, 2] = [[], [(TNode 2, TNode 0, True)], [(TNode 1, TNode 0, False)]]"

definition demo_ordered :: "opcua_namespace \<Rightarrow> opcua_namespace \<Rightarrow> bool" where
  "demo_ordered u v \<longleftrightarrow> named v ''HasTypeDefinition'' = [] \<and> named v ''HasSubtype'' = [] \<and>
     \<not> isl (reorderNodesMinDependencies v)"

lemma demo_references: "checked_run demo_set demo_references"
  by code_simp

lemma demo_ordered: "checked_run demo_set demo_ordered"
  by code_simp

lemma checked_run_both: "checked_run x P \<Longrightarrow> checked_run x Q \<Longrightarrow> checked_run x (\<lambda>u v. P u v \<and> Q u v)"
  by (auto simp: checked_run_def split: sum.splits option.splits)

corollary reorder_referring_first_witness:
  "\<exists>s t u l v z. read_files id demo_env [demo_set] = Inr s \<and> linkOpenPointers s = Inr t \<and> ns_sanitize t = Inr (u, l) \<and>
     buildEncodingRules id (ns_nodes u) u = Some (Inr v) \<and> allocateVariables demo_env v = Inr v \<and>
     reorderNodesMinDependencies v = Inr z \<and> refers v [] 1 2 \<and> sorted_wrt (\<lambda>x y. \<not> refers v [] y x) (ns_nodes z) \<and>
     mset (ns_nodes z) = {#0, 1, 2#}"
proof -
  obtain s t u l v where v: "read_files id demo_env [demo_set] = Inr s" "linkOpenPointers s = Inr t"
    "ns_sanitize t = Inr (u, l)" "buildEncodingRules id (ns_nodes u) u = Some (Inr v)"
    and "demo_references u v \<and> demo_ordered u v"
    by (rule checked_runE [OF checked_run_both [OF demo_references demo_ordered]])
  note w = this(5) [unfolded demo_references_def demo_ordered_def]
  have al: "allocateVariables demo_env v = Inr v" using w by (elim conjE) (rule no_variables)
  obtain z where z: "reorderNodesMinDependencies v = Inr z" using w by (cases "reorderNodesMinDependencies v") auto
  have refers: "refers v [] a x \<longleftrightarrow> a = 1 \<and> x = 2" if "a \<in> set (ns_nodes v)" for a x
    using that w by (auto simp: refers_key)
  then have "reference_order v [] \<subseteq> {(a, x). a < x}" by (auto simp: reference_order_def)
  then have "acyclic (reference_order v [])" using wf_acyclic [OF wf_less] acyclic_subset by blast
  moreover have "own_weight v [] [] a \<le> own_weight v [] [] x" if "a \<in> set (ns_nodes v)" "refers v [] a x" for a x
    using that refers w by (auto simp: own_weight_key)
  ultimately show ?thesis using reorder_referring_first [OF v al z] v al z w refers by simp
qed

end
