(* ===== verification/Print_Facts.thy ===== *)
theory Print_Facts
  imports Namespace_Print Node_Order_Facts
begin

text \<open>
  What printing leaves out: no node, and no reference but those of a node to itself and those from or
  to the argument variables of methods.  The lists of what is not printed yet are compared by what a
  reference says (\<open>ref_key\<close>), because that is how the code finds and removes them.
\<close>

section \<open>Nodes own their references\<close>

definition owned :: "opcua_namespace \<Rightarrow> bool" where
  "owned s \<longleftrightarrow> (\<forall>a < length (node_heap s). \<forall>r \<in> set (refs s a).
     r < length (ref_heap s) \<and> r_parent (ref_at s r) = Some a)"

interpretation owning: growth "\<lambda>s t. owned s \<longrightarrow> owned t"
  by unfold_locales auto

lemma owned_new_ref: "owned s \<Longrightarrow> owned (snd (new_ref q s))"
  by (auto simp: owned_def new_ref_def nth_append less_SucI)

lemma owned_modify_node:
  "owned s \<Longrightarrow> (\<And>n. n_references (f n) = n_references n) \<Longrightarrow> owned (modify_node a f s)"
  by (auto simp: owned_def heap_simps node_at_modify_node)

lemma owned_addReference:
  "owned s \<Longrightarrow> r < length (ref_heap s) \<Longrightarrow> r_parent (ref_at s r) = Some a \<Longrightarrow> owned (addReference a r s)"
  by (auto simp: owned_def addReference_def heap_simps node_at_modify_node)

lemma invert_reference_owned: "owned s \<longrightarrow> owned (invert_reference a r s)"
proof
  assume s: "owned s"
  show "owned (invert_reference a r s)"
  proof (cases "r_forward (ref_at s r) \<or> \<not> is_node (r_target (ref_at s r))")
    case False
    then obtain t where t: "r_target (ref_at s r) = TNode t" by (cases "r_target (ref_at s r)") auto
    let ?q = "ref_referenceType (r_type (ref_at s r)) (referencePointer_init (TNode a) False (Some t))"
    have "owned (addReference t (length (ref_heap s)) (snd (new_ref ?q s)))"
      by (rule owned_addReference [OF owned_new_ref [OF s]])
         (simp_all add: new_ref_def ref_referenceType_def referencePointer_init_def)
    with False t show ?thesis by (simp add: invert_reference_def new_ref_def)
  qed (use s in \<open>auto simp: invert_reference_def split: target.split\<close>)
qed

lemma updateInverse_step_owned: "owned s \<longrightarrow> owned (updateInverse_step a r s)"
proof
  assume s: "owned s"
  have "owned (addInverseReferenceTarget t b s)" for t b
  proof (cases "new_ref (referencePointer_init (TNode b) True (Some t)) s")
    case (Pair r s')
    then have "owned s'" using owned_new_ref [OF s] by (metis snd_conv)
    then have "owned (modify_node t (\<lambda>n. n\<lparr>n_referencedBy := n_referencedBy n @ [r]\<rparr>) s')"
      by (rule owned_modify_node) simp
    with Pair s show ?thesis by (simp add: addInverseReferenceTarget_def)
  qed
  with s show "owned (updateInverse_step a r s)" by (simp add: updateInverse_step_def split: target.split)
qed

lemma close_graph_owned: "owned s \<Longrightarrow> owned (close_graph s)"
proof -
  assume "owned s"
  moreover have "owned u \<longrightarrow> owned (fold invert_references xs u)" for xs u
    unfolding invert_references_def by (rule owning.fold_le, rule owning.fold_le, rule invert_reference_owned)
  moreover have "owned u \<longrightarrow> owned (fold updateInverseReferences xs u)" for xs u
    unfolding updateInverseReferences_def by (rule owning.fold_le, rule owning.fold_le, rule updateInverse_step_owned)
  ultimately show ?thesis by (simp add: close_graph_def Let_def)
qed

lemma owned_cong:
  assumes "owned s" and "ref_heap t = ref_heap s" and "length (node_heap t) = length (node_heap s)"
    and "\<And>a. a < length (node_heap s) \<Longrightarrow> set (refs t a) \<subseteq> set (refs s a)"
  shows "owned t"
  using assms unfolding owned_def by (metis subsetD)

lemma ordered_owned:
  assumes "read_files ord env roots = Inr s" and "linkOpenPointers s = Inr t" and "ns_sanitize t = Inr (u, l)"
    and "buildEncodingRules ord (ns_nodes u) u = Some (Inr v)" and "allocateVariables env v = Inr w"
  shows "owned w"
proof -
  note ok = read_files_ok [OF assms(1)]
  let ?s1 = "s\<lparr>ref_heap := map (linked_ref s) (ref_heap s)\<rparr>"
  have "owned s" using ok(2) by (auto simp: owned_def reading_def unlinked_node_def node_refs_def)
  then have "owned ?s1" by (auto simp: owned_def linked_ref_def)
  then have "owned (close_graph ?s1)" by (rule close_graph_owned)
  then have "owned t" using linkOpenPointers_result [OF ok(2)] assms(2) by (simp add: owned_def)
  then have "owned u"
    by (rule owned_cong) (use ns_sanitize_shrinks [OF assms(3)] in \<open>auto simp: shrinks_def\<close>)
  moreover note c = checked_types [OF assms(1-3)]
  moreover have p: "progress {} u v"
    using buildEncodingRules_ok [OF c(1,3), of ord] assms(4) by (simp add: run_ok_def)
  ultimately have v: "owned v" using progressD(1,3,4) [OF p] by (intro owned_cong [of u v]) auto
  then show ?thesis using allocateVariables_frame [OF assms(5)] v by (intro owned_cong [of v w]) auto
qed

lemma ordered_range:
  assumes "read_files ord env roots = Inr s" and "linkOpenPointers s = Inr t" and "ns_sanitize t = Inr (u, l)"
    and "buildEncodingRules ord (ns_nodes u) u = Some (Inr v)" and "allocateVariables env v = Inr w"
  shows "set (ns_nodes w) \<subseteq> {..<length (node_heap w)}"
proof -
  note c = checked_types [OF assms(1-3)]
  have p: "progress {} u v"
    using buildEncodingRules_ok [OF c(1,3), of ord] assms(4) by (simp add: run_ok_def)
  then show ?thesis using c(3) progressD(2,3) [OF p] allocateVariables_frame [OF assms(5)] by auto
qed

section \<open>What creating a node changes\<close>

definition is_argument :: "opcua_namespace \<Rightarrow> nat \<Rightarrow> bool" where
  "is_argument s a \<longleftrightarrow> n_class (node_at s a) = 2 \<and>
     n_browseName (node_at s a) \<in> {''InputArguments'', ''OutputArguments''}"

text \<open>Printing changes values only.\<close>

definition same_graph :: "opcua_namespace \<Rightarrow> opcua_namespace \<Rightarrow> bool" where
  "same_graph s t \<longleftrightarrow> ref_heap t = ref_heap s \<and>
     (\<forall>b. refs t b = refs s b \<and> n_class (node_at t b) = n_class (node_at s b) \<and>
          n_browseName (node_at t b) = n_browseName (node_at s b) \<and> n_id (node_at t b) = n_id (node_at s b) \<and>
          part_name (n_part (node_at t b)) = part_name (n_part (node_at s b)))"

lemma same_graph_refl [simp]: "same_graph s s"
  by (simp add: same_graph_def)

lemma same_graph_trans: "same_graph s t \<Longrightarrow> same_graph t u \<Longrightarrow> same_graph s u"
  by (simp add: same_graph_def)

lemma same_graph_simps:
  assumes "same_graph s t"
  shows "ref_at t = ref_at s" "refs t a = refs s a" "ref_key t = ref_key s" "is_argument t = is_argument s"
    "ref_in t r qs = ref_in s r qs" "remove_ref t r qs = remove_ref s r qs" "list_remove t = list_remove s"
    "parent_unprinted t r nodes = parent_unprinted s r nodes"
proof -
  have h: "ref_heap t = ref_heap s" and "refs t a = refs s a" and "is_argument t = is_argument s"
    using assms by (simp_all add: same_graph_def is_argument_def fun_eq_iff)
  then show "ref_at t = ref_at s" "refs t a = refs s a" "ref_key t = ref_key s" "is_argument t = is_argument s"
    "ref_in t r qs = ref_in s r qs" "parent_unprinted t r nodes = parent_unprinted s r nodes"
    by (simp_all add: ref_key_def fun_eq_iff ref_in_def parent_unprinted_def)
  have rr: "remove_ref t r qs = remove_ref s r qs" for r qs by (induction qs) (simp_all add: h)
  then show "remove_ref t r qs = remove_ref s r qs" "list_remove t = list_remove s"
    by (simp_all add: list_remove_def fun_eq_iff h)
qed

lemma node_SubtypeEarly_graph:
  assumes "node_SubtypeEarly b a s = Inr (code, t)"
  shows "same_graph s t"
proof -
  have "t = s \<or> (\<exists>w w'. n_part (node_at s a) = VariableNode w \<and> t = modify_part a (\<lambda>_. VariableNode w') s)"
    using assms by (auto simp: node_SubtypeEarly_def variable_SubtypeEarly_def rbind_Inr_iff
        split: node_part.split_asm option.split_asm)
  then show ?thesis by (auto simp: same_graph_def modify_part_def node_at_modify_node heap_simps)
qed

text \<open>The nodes not printed yet: only arguments go.\<close>

definition arguments_gone :: "opcua_namespace \<Rightarrow> nat list \<Rightarrow> nat list \<Rightarrow> bool" where
  "arguments_gone s nodes rest \<longleftrightarrow> (\<exists>P. rest = filter P nodes \<and> (\<forall>b. \<not> P b \<longrightarrow> is_argument s b))"

lemma arguments_gone_refl [simp]: "arguments_gone s nodes nodes"
  unfolding arguments_gone_def by (rule exI [of _ "\<lambda>_. True"]) simp

lemma arguments_gone_filter: "arguments_gone s nodes rest \<Longrightarrow> is_argument s t \<Longrightarrow> arguments_gone s nodes (filter (\<lambda>b. b \<noteq> t) rest)"
  by (force simp: arguments_gone_def)

lemma arguments_goneD:
  assumes "arguments_gone s nodes rest"
  shows "set rest \<subseteq> set nodes" and "distinct nodes \<Longrightarrow> distinct rest"
    and "set nodes \<union> {b. is_argument s b} = set rest \<union> {b. is_argument s b}"
    and "b \<in> set nodes \<Longrightarrow> b \<notin> set rest \<Longrightarrow> is_argument s b"
  using assms by (auto simp: arguments_gone_def)

lemma argument_step_gone:
  assumes "argument_step s r (i, out, nodes) = Inr (i', out', nodes')" and "arguments_gone s all nodes"
  shows "arguments_gone s all nodes'"
  using assms
  by (auto simp: argument_step_def rbind_Inr_iff Let_def is_argument_def intro!: arguments_gone_filter
      split: if_splits target.split_asm)

lemma method_arguments_gone:
  assumes "method_arguments s a nodes = Inr (ins, outs, rest)"
  shows "arguments_gone s nodes rest"
proof -
  obtain i out where "foldM (argument_step s) (refs s a) (PList [], PList [], nodes) = Inr (i, out, rest)"
    using assms by (auto simp: method_arguments_def rbind_Inr_iff)
  then have "case (i, out, rest) of (_, _, rest) \<Rightarrow> arguments_gone s nodes rest"
    by (rule foldM_invariant) (auto dest: argument_step_gone)
  then show ?thesis by simp
qed

lemma getCreateNodeNoBootstrap_frame:
  assumes "getCreateNodeNoBootstrap rep a p q s nodes = Inr (code, t, rest)"
  shows "same_graph s t \<and> arguments_gone s nodes rest"
  using assms
  by (auto simp: getCreateNodeNoBootstrap_def rbind_Inr_iff Let_def split: option.split_asm if_splits
      dest: node_SubtypeEarly_graph method_arguments_gone)

section \<open>Lists of references, up to equality\<close>

text \<open>How many references of a list say the same as \<open>k\<close>.\<close>

definition key_count :: "opcua_namespace \<Rightarrow> target \<times> target \<times> bool \<Rightarrow> nat list \<Rightarrow> nat" where
  "key_count s k qs = length (filter (\<lambda>q. ref_key s q = k) qs)"

lemma key_count_simps [simp]:
  "key_count s k [] = 0" "key_count s k (q # qs) = (if ref_key s q = k then 1 else 0) + key_count s k qs"
  "key_count s k (qs @ rs) = key_count s k qs + key_count s k rs"
  by (simp_all add: key_count_def)

lemma key_count_graph: "same_graph s t \<Longrightarrow> key_count t = key_count s"
  by (simp add: key_count_def fun_eq_iff same_graph_simps)

lemma key_count_pos: "0 < key_count s k qs \<longleftrightarrow> (\<exists>q \<in> set qs. ref_key s q = k)"
  by (auto simp: key_count_def filter_empty_conv)

lemma key_count_subset: "mset qs \<subseteq># mset rs \<Longrightarrow> key_count s k qs \<le> key_count s k rs"
  unfolding key_count_def by (metis mset_filter multiset_filter_mono size_mset size_mset_mono)

lemma key_count_filter: "key_count s k (filter P qs) + key_count s k (filter (\<lambda>q. \<not> P q) qs) = key_count s k qs"
  by (induction qs) auto

text \<open>Removing one reference.\<close>

lemma remove_ref_facts:
  assumes "ref_in s r qs"
  shows "key_count s k (remove_ref s r qs) + (if ref_key s r = k then 1 else 0) = key_count s k qs"
    and "mset (remove_ref s r qs) \<subseteq># mset qs"
proof -
  show "key_count s k (remove_ref s r qs) + (if ref_key s r = k then 1 else 0) = key_count s k qs"
    using assms by (induction qs) (auto simp: ref_in_def ref_eq_key)
  show "mset (remove_ref s r qs) \<subseteq># mset qs"
    by (induction qs) (auto intro: mset_subset_eq_add_right)
qed

lemma remove_refs_Cons: "foldM (list_remove s) (r # rs) qs = Inr qs' \<longleftrightarrow>
    ref_in s r qs \<and> foldM (list_remove s) rs (remove_ref s r qs) = Inr qs'"
  by (cases "ref_in s r qs") (simp_all add: list_remove_def ref_in_def)

lemma remove_refs_facts:
  assumes "foldM (list_remove s) rs qs = Inr qs'"
  shows "key_count s k qs' + key_count s k rs = key_count s k qs" and "mset qs' \<subseteq># mset qs"
  using assms
proof (induction rs arbitrary: qs)
  case (Cons r rs)
  case 1
  then have r: "ref_in s r qs" "foldM (list_remove s) rs (remove_ref s r qs) = Inr qs'"
    by (simp_all only: remove_refs_Cons)
  then show ?case using Cons(1) [OF r(2)] remove_ref_facts(1) [OF r(1), of k] by simp
next
  case (Cons r rs)
  case 2
  then have r: "ref_in s r qs" "foldM (list_remove s) rs (remove_ref s r qs) = Inr qs'"
    by (simp_all only: remove_refs_Cons)
  then show ?case using Cons(2) [OF r(2)] remove_ref_facts(2) [OF r(1)] by (meson subset_mset.trans)
qed simp_all

lemma remove_all_subset: "mset (remove_all_refs s r qs) \<subseteq># mset qs"
  by (simp add: remove_all_refs_def multiset_filter_subset)

lemma remove_ref_subset: "mset (if ref_in s r qs then remove_ref s r qs else qs) \<subseteq># mset qs"
  using remove_ref_facts(2) by simp

section \<open>One printed node\<close>

text \<open>What creating a node may do to the printer.\<close>

definition printer_le :: "printer \<Rightarrow> printer \<Rightarrow> bool" where
  "printer_le st t \<longleftrightarrow> same_graph (pr_ns st) (pr_ns t) \<and> arguments_gone (pr_ns st) (pr_nodes st) (pr_nodes t) \<and>
     mset (pr_refs t) \<subseteq># mset (pr_refs st)"

lemma attach_node_le:
  assumes "attach_node rep a p q st = Inr (code, t)"
  shows "printer_le st t"
proof -
  let ?s = "pr_ns st"
  have fold: "mset (fold (\<lambda>r rs. if P r then remove_all_refs ?s r rs else rs) xs qs) \<subseteq># mset qs" for P xs qs
    by (induction xs arbitrary: qs) (auto intro: subset_mset.trans remove_all_subset)
  obtain ty c s' nodes where "getCreateNodeNoBootstrap rep a p q ?s (pr_nodes st) = Inr (c, s', nodes)"
    and t: "t = \<lparr>pr_ns = s', pr_nodes = nodes,
      pr_refs = fold (\<lambda>r rs. if r_target (ref_at ?s r) = TNode p \<and> r_type (ref_at ?s r) = TNode ty \<and>
        \<not> r_forward (ref_at ?s r) then remove_all_refs ?s r rs else rs) (refs ?s a)
        (if ref_in ?s q (pr_refs st) then remove_ref ?s q (pr_refs st) else pr_refs st)\<rparr>"
    using assms by (auto simp: attach_node_def rbind_Inr_iff Let_def split: target.split_asm)
  then show ?thesis
    using getCreateNodeNoBootstrap_frame subset_mset.trans [OF fold remove_ref_subset] by (simp add: printer_le_def)
qed

lemma bootstrap_node_le:
  assumes "bootstrap_node suppressed a st = Inr (code, t)"
  shows "printer_le st t"
proof -
  obtain early s late refs where s: "node_SubtypeEarly True a (pr_ns st) = Inr (early, s)"
    and late: "node_Subtype True a s (pr_refs st) = Inr (late, refs)"
    and t: "t = \<lparr>pr_ns = s, pr_nodes = pr_nodes st, pr_refs = refs\<rparr>"
    using assms by (auto simp: bootstrap_node_def rbind_Inr_iff split: option.split_asm)
  have "refs = pr_refs st"
    using late by (auto simp: node_Subtype_def referenceType_Subtype_def object_Subtype_def variable_Subtype_def
        method_Subtype_def objectType_Subtype_def variableType_Subtype_def dataType_Subtype_def view_Subtype_def
        Let_def split: node_part.split_asm)
  with s t show ?thesis by (simp add: printer_le_def node_SubtypeEarly_graph)
qed

lemma create_node_le: "create_node rep suppressed a st = Inr (code, t) \<Longrightarrow> printer_le st t"
  by (auto simp: create_node_def rbind_Inr_iff split: option.split_asm if_splits
      dest: attach_node_le bootstrap_node_le)

lemma print_references_facts:
  assumes "print_references comment source rs st = Inr (code, t)"
  shows "pr_ns t = pr_ns st" and "pr_nodes t = pr_nodes st" and "mset (pr_refs t) \<subseteq># mset (pr_refs st)"
    and "key_count (pr_ns st) k (pr_refs t) + key_count (pr_ns st) k rs = key_count (pr_ns st) k (pr_refs st)"
  using assms by (auto simp: print_references_def rbind_Inr_iff intro: remove_refs_facts)

section \<open>What is left to do\<close>

text \<open>How often nodes of a set refer with the key \<open>k\<close>.\<close>

definition pending :: "opcua_namespace \<Rightarrow> nat list \<Rightarrow> nat set \<Rightarrow> target \<times> target \<times> bool \<Rightarrow> nat" where
  "pending s nodes S k = (\<Sum>b\<leftarrow>nodes. if b \<in> S then key_count s k (refs s b) else 0)"

lemma pending_mono: "S \<subseteq> S' \<Longrightarrow> pending s nodes S k \<le> pending s nodes S' k"
  unfolding pending_def by (induction nodes) (auto intro: add_le_mono)

lemma pending_remove:
  "distinct nodes \<Longrightarrow> pending s nodes S k \<le> pending s nodes (S - {a}) k + key_count s k (refs s a)"
proof (induction nodes)
  case (Cons b nodes)
  show ?case
  proof (cases "a = b")
    case True
    then have "pending s nodes S k = pending s nodes (S - {a}) k"
      using Cons.prems unfolding pending_def by (intro arg_cong [where f = sum_list] map_cong) auto
    with True show ?thesis by (simp add: pending_def)
  next
    case False
    with Cons show ?thesis by (simp add: pending_def)
  qed
qed (simp add: pending_def)

lemma pending_pos: "0 < pending s nodes S k \<Longrightarrow> \<exists>b \<in> set nodes. b \<in> S \<and> (\<exists>q \<in> set (refs s b). ref_key s q = k)"
  by (induction nodes) (auto simp: pending_def key_count_pos split: if_splits)

lemma pending_all: "key_count s k (concat (map (refs s) nodes)) = pending s nodes (set nodes) k"
proof -
  have "key_count s k (concat (map (refs s) xs)) = pending s xs S k" if "set xs \<subseteq> S" for xs S
    using that by (induction xs) (simp_all add: pending_def)
  then show ?thesis by blast
qed

text \<open>A reference belongs to the node that is its parent.\<close>

lemma pending_parents_all:
  assumes "owned s" and "set nodes \<subseteq> {..<length (node_heap s)}"
  shows "key_count s k (filter (\<lambda>q. parent_unprinted s q S) (concat (map (refs s) nodes))) = pending s nodes (set S) k"
proof -
  have parent: "r_parent (ref_at s q) = Some b" if "b \<in> set nodes" "q \<in> set (refs s b)" for q b
    using assms that by (auto simp: owned_def)
  have "key_count s k (filter (\<lambda>q. parent_unprinted s q S) (concat (map (refs s) xs))) = pending s xs (set S) k"
    if "set xs \<subseteq> set nodes" for xs
    using that
  proof (induction xs)
    case (Cons b xs)
    then have "filter (\<lambda>q. parent_unprinted s q S) (refs s b) = (if b \<in> set S then refs s b else [])"
      using parent [of b] by (auto simp: parent_unprinted_def intro: filter_True)
    with Cons show ?case by (simp add: pending_def)
  qed (simp add: pending_def)
  from this [OF subset_refl] show ?thesis .
qed

lemma pending_parents:
  assumes "owned s" and "set nodes \<subseteq> {..<length (node_heap s)}" and "mset qs \<subseteq># mset (concat (map (refs s) nodes))"
  shows "key_count s k (filter (\<lambda>q. parent_unprinted s q S) qs) \<le> pending s nodes (set S) k"
proof -
  have "mset (filter (\<lambda>q. parent_unprinted s q S) qs) \<subseteq>#
      mset (filter (\<lambda>q. parent_unprinted s q S) (concat (map (refs s) nodes)))"
    using assms(3) by (simp only: mset_filter multiset_filter_mono)
  from key_count_subset [OF this, of s k] show ?thesis unfolding pending_parents_all [OF assms(1,2)] .
qed

section \<open>The invariant of printing\<close>

text \<open>
  \<open>nodes\<close> is the list printing started with.  A key with a printed target is on the list at most as
  often as nodes refer with it that are not printed, are the target itself, or are arguments.
\<close>

definition waits_at_most ::
    "opcua_namespace \<Rightarrow> nat list \<Rightarrow> nat set \<Rightarrow> nat list \<Rightarrow> nat \<Rightarrow> bool" where
  "waits_at_most s nodes S qs t \<longleftrightarrow> (\<forall>ty f. key_count s (TNode t, ty, f) qs \<le>
     pending s nodes (S \<union> {t} \<union> {b. is_argument s b}) (TNode t, ty, f))"

definition printing :: "opcua_namespace \<Rightarrow> nat list \<Rightarrow> printer \<Rightarrow> bool" where
  "printing s nodes st \<longleftrightarrow> same_graph s (pr_ns st) \<and> distinct (pr_nodes st) \<and> set (pr_nodes st) \<subseteq> set nodes \<and>
     mset (pr_refs st) \<subseteq># mset (concat (map (refs s) nodes)) \<and>
     (\<forall>r \<in> set (pr_refs st). is_node (r_target (ref_at s r))) \<and>
     (\<forall>t. t \<notin> set (pr_nodes st) \<longrightarrow> \<not> is_argument s t \<longrightarrow> waits_at_most s nodes (set (pr_nodes st)) (pr_refs st) t)"

lemma waits_fewer:
  "waits_at_most s nodes S qs t \<Longrightarrow> mset qs' \<subseteq># mset qs \<Longrightarrow> S \<union> {b. is_argument s b} \<subseteq> S' \<union> {b. is_argument s b} \<Longrightarrow>
    waits_at_most s nodes S' qs' t"
proof -
  assume w: "waits_at_most s nodes S qs t" and sub: "mset qs' \<subseteq># mset qs"
    and S: "S \<union> {b. is_argument s b} \<subseteq> S' \<union> {b. is_argument s b}"
  have "S \<union> {t} \<union> {b. is_argument s b} \<subseteq> S' \<union> {t} \<union> {b. is_argument s b}" using S by auto
  then have "pending s nodes (S \<union> {t} \<union> {b. is_argument s b}) k \<le> pending s nodes (S' \<union> {t} \<union> {b. is_argument s b}) k" for k
    by (rule pending_mono)
  then show "waits_at_most s nodes S' qs' t"
    using w key_count_subset [OF sub] unfolding waits_at_most_def by (meson order_trans)
qed

lemma printing_created:
  assumes "printing s nodes st" and "printer_le st st1"
  shows "printing s nodes st1"
proof -
  have g: "same_graph s (pr_ns st)" using assms(1) by (simp add: printing_def)
  then have gone: "arguments_gone s (pr_nodes st) (pr_nodes st1)"
    using assms(2) same_graph_simps(4) [OF g] by (simp add: printer_le_def arguments_gone_def)
  note a = arguments_goneD [OF gone]
  have sub: "mset (pr_refs st1) \<subseteq># mset (pr_refs st)" using assms(2) by (simp add: printer_le_def)
  have "waits_at_most s nodes (set (pr_nodes st1)) (pr_refs st1) t"
    if t: "t \<notin> set (pr_nodes st1)" "\<not> is_argument s t" for t
  proof (rule waits_fewer [OF _ sub])
    show "waits_at_most s nodes (set (pr_nodes st)) (pr_refs st) t"
      using assms(1) t a(4) unfolding printing_def by blast
    show "set (pr_nodes st) \<union> {b. is_argument s b} \<subseteq> set (pr_nodes st1) \<union> {b. is_argument s b}"
      using a(3) by simp
  qed
  moreover have "same_graph s (pr_ns st1)"
    using g assms(2) by (auto simp: printer_le_def intro: same_graph_trans)
  moreover have "set (pr_refs st1) \<subseteq> set (pr_refs st)" using set_mset_mono [OF sub] by simp
  ultimately show ?thesis
    using assms(1) a(1,2) subset_mset.trans [OF sub] unfolding printing_def by blast
qed

text \<open>The references of the node itself.\<close>

lemma own_references_waits:
  assumes "printing s nodes st" and "distinct nodes" and "own_references a st = Inr (code, st2)"
    and t: "t \<notin> set (pr_nodes st)" "\<not> is_argument s t"
  shows "waits_at_most s nodes (set (pr_nodes st) - {a}) (pr_refs st2) t"
  unfolding waits_at_most_def
proof (intro allI)
  fix ty :: target and f :: bool
  let ?k = "(TNode t, ty, f)" and ?n = "pr_nodes st" and ?A = "{b. is_argument s b}"
  have g: "same_graph s (pr_ns st)" using assms(1) by (simp add: printing_def)
  note gs = same_graph_simps [OF g] key_count_graph [OF g]
  let ?own = "filter (\<lambda>r. \<not> target_unprinted (r_target (ref_at s r)) ?n \<and> ref_in s r (pr_refs st)) (refs s a)"
  have count: "key_count s ?k (pr_refs st2) + key_count s ?k ?own = key_count s ?k (pr_refs st)"
    using print_references_facts(4) [OF assms(3) [unfolded own_references_def Let_def], of ?k] gs by simp
  show "key_count s ?k (pr_refs st2) \<le> pending s nodes (set ?n - {a} \<union> {t} \<union> ?A) ?k"
  proof (cases "key_count s ?k (pr_refs st) = 0")
    case False
    then have on: "ref_in s r (pr_refs st)" if "ref_key s r = ?k" for r
      using that by (auto simp: ref_in_def list_ex_iff ref_eq_key key_count_pos)
    have "filter (\<lambda>r. ref_key s r = ?k) ?own = filter (\<lambda>r. ref_key s r = ?k) (refs s a)"
      using on t(1) by (auto simp: target_unprinted_def ref_key_def intro!: filter_cong)
    then have own: "key_count s ?k ?own = key_count s ?k (refs s a)" by (simp only: key_count_def)
    have "key_count s ?k (pr_refs st) \<le> pending s nodes (set ?n \<union> {t} \<union> ?A) ?k"
      using assms(1) t by (simp add: printing_def waits_at_most_def)
    also have "\<dots> \<le> pending s nodes (set ?n \<union> {t} \<union> ?A - {a}) ?k + key_count s ?k (refs s a)"
      by (rule pending_remove [OF assms(2)])
    also have "pending s nodes (set ?n \<union> {t} \<union> ?A - {a}) ?k \<le> pending s nodes (set ?n - {a} \<union> {t} \<union> ?A) ?k"
      by (rule pending_mono) auto
    finally show ?thesis using count own by simp
  qed (use count in simp)
qed

text \<open>The references that waited for the node.\<close>

lemma open_references_waits:
  assumes "printing s nodes st" and own: "owned s" "set nodes \<subseteq> {..<length (node_heap s)}"
    and "same_graph s (pr_ns st2)" and "pr_nodes st2 = pr_nodes st" and "mset (pr_refs st2) \<subseteq># mset (pr_refs st)"
    and "open_references a st2 = Inr (code, st3)"
  shows "waits_at_most s nodes (set (pr_nodes st) - {a}) (pr_refs st3) a"
  unfolding waits_at_most_def
proof (intro allI)
  fix ty :: target and f :: bool
  let ?k = "(TNode a, ty, f)" and ?n = "pr_nodes st" and ?A = "{b. is_argument s b}"
  note gs = same_graph_simps [OF assms(4)] key_count_graph [OF assms(4)]
  let ?P = "\<lambda>r. r_target (ref_at s r) = TNode a \<and> \<not> parent_unprinted s r ?n \<and> r_parent (ref_at s r) \<noteq> None"
  have sub: "mset (pr_refs st2) \<subseteq># mset (concat (map (refs s) nodes))"
    using assms(1,6) unfolding printing_def by (meson subset_mset.trans)
  have parent: "r_parent (ref_at s r) \<noteq> None" if "r \<in> set (pr_refs st2)" for r
  proof -
    have "r \<in> set (concat (map (refs s) nodes))" using that mset_subset_eqD [OF sub] by simp
    then show ?thesis using own by (auto simp: owned_def)
  qed
  have "key_count s ?k (pr_refs st3) + key_count s ?k (filter ?P (pr_refs st2)) = key_count s ?k (pr_refs st2)"
    using print_references_facts(4) [OF assms(7) [unfolded open_references_def Let_def], of ?k] gs assms(5) by simp
  then have "key_count s ?k (pr_refs st3) = key_count s ?k (filter (\<lambda>r. \<not> ?P r) (pr_refs st2))"
    using key_count_filter [of s ?k ?P "pr_refs st2"] by simp
  also have "\<dots> = key_count s ?k (filter (\<lambda>r. parent_unprinted s r ?n) (pr_refs st2))"
  proof -
    have "filter (\<lambda>r. ref_key s r = ?k) (filter (\<lambda>r. \<not> ?P r) (pr_refs st2)) =
        filter (\<lambda>r. ref_key s r = ?k) (filter (\<lambda>r. parent_unprinted s r ?n) (pr_refs st2))"
      unfolding filter_filter by (rule filter_cong) (use parent in \<open>auto simp: ref_key_def\<close>)
    then show ?thesis by (simp only: key_count_def)
  qed
  also have "\<dots> \<le> pending s nodes (set ?n) ?k" by (rule pending_parents [OF own sub])
  also have "\<dots> \<le> pending s nodes (set ?n - {a} \<union> {a} \<union> ?A) ?k" by (rule pending_mono) auto
  finally show "key_count s ?k (pr_refs st3) \<le> pending s nodes (set ?n - {a} \<union> {a} \<union> ?A) ?k" .
qed

lemma node_print_printing:
  assumes "printing s nodes st" and "distinct nodes" and own: "owned s" "set nodes \<subseteq> {..<length (node_heap s)}"
    and "node_printOpen62541CCode rep suppressed a st = Inr (code, st')"
  shows "printing s nodes st' \<and> set (pr_nodes st') \<subseteq> set (pr_nodes st) - {a}"
proof (cases "a \<in> set (pr_nodes st)")
  case False
  then show ?thesis using assms(1,5) by (auto simp: node_printOpen62541CCode_def)
next
  case True
  then obtain c1 st1 c2 st2 c3 st3 where st1: "create_node rep suppressed a st = Inr (c1, st1)"
    and st2: "own_references a st1 = Inr (c2, st2)" and st3: "open_references a st2 = Inr (c3, st3)"
    and st': "st' = st3\<lparr>pr_nodes := remove1 a (pr_nodes st3)\<rparr>"
    using assms(5) by (auto simp: node_printOpen62541CCode_def rbind_Inr_iff)
  have le: "printer_le st st1" by (rule create_node_le [OF st1])
  have p1: "printing s nodes st1" by (rule printing_created [OF assms(1) le])
  note f2 = print_references_facts [OF st2 [unfolded own_references_def Let_def]]
  note f3 = print_references_facts [OF st3 [unfolded open_references_def Let_def]]
  have g2: "same_graph s (pr_ns st2)" using p1 f2(1) by (simp add: printing_def)
  have nodes': "set (pr_nodes st') = set (pr_nodes st1) - {a}" "distinct (pr_nodes st')"
    using p1 f2(2) f3(2) st' by (simp_all add: printing_def)
  have sub: "mset (pr_refs st') \<subseteq># mset (pr_refs st2)" "mset (pr_refs st') \<subseteq># mset (pr_refs st1)"
    using f2(3) f3(3) st' by (auto intro: subset_mset.trans)
  have "waits_at_most s nodes (set (pr_nodes st')) (pr_refs st') t"
    if t: "t \<notin> set (pr_nodes st')" "\<not> is_argument s t" for t
  proof (cases "t \<in> set (pr_nodes st1)")
    case True
    with t nodes' have "t = a" by simp
    with open_references_waits [OF p1 own g2 f2(2,3) st3] show ?thesis unfolding nodes'(1) by (simp add: st')
  next
    case False
    from own_references_waits [OF p1 assms(2) st2 this t(2)] show ?thesis
      by (rule waits_fewer [OF _ sub(1)]) (simp add: nodes')
  qed
  moreover have "set (pr_refs st') \<subseteq> set (pr_refs st1)" using set_mset_mono [OF sub(2)] by simp
  ultimately have "printing s nodes st'"
    using p1 nodes' subset_mset.trans [OF sub(2)] g2 f3(1) st' by (auto simp: printing_def)
  moreover have "set (pr_nodes st1) \<subseteq> set (pr_nodes st)"
    using le by (auto simp: printer_le_def dest: arguments_goneD(1))
  ultimately show ?thesis using nodes' by auto
qed

section \<open>All nodes\<close>

lemma print_nodes_printing:
  assumes "printing s nodes st" and "distinct nodes" and own: "owned s" "set nodes \<subseteq> {..<length (node_heap s)}"
    and "print_nodes rep suppressed as (code, st) = Inr (code', st')"
  shows "printing s nodes st' \<and> set (pr_nodes st') \<subseteq> set (pr_nodes st) - set as"
  using assms(1,5)
proof (induction as arbitrary: code st)
  case (Cons a as)
  then obtain c st1 where st1: "node_printOpen62541CCode rep suppressed a st = Inr (c, st1)"
    and rest: "print_nodes rep suppressed as (code @ c, st1) = Inr (code', st')"
    by (auto simp: print_nodes_def rbind_Inr_iff)
  note one = node_print_printing [OF Cons.prems(1) assms(2) own st1]
  with Cons.IH [OF _ rest] show ?case by auto
qed (simp add: print_nodes_def)

lemma list_references_all:
  assumes "foldM (list_reference s) xs qs = Inr qs'"
  shows "mset qs' \<subseteq># mset (qs @ xs) \<and> (\<forall>r \<in> set qs'. r \<in> set qs \<or> is_node (r_target (ref_at s r)))"
  using assms
proof (induction xs arbitrary: qs)
  case (Cons r xs)
  then obtain qs1 where qs1: "list_reference s r qs = Inr qs1" and rest: "foldM (list_reference s) xs qs1 = Inr qs'"
    by (auto simp: rbind_Inr_iff)
  have step: "mset qs1 \<subseteq># mset (qs @ [r]) \<and> (\<forall>q \<in> set qs1. q \<in> set qs \<or> is_node (r_target (ref_at s q)))"
    using qs1 by (auto simp: list_reference_def split: target.split_asm if_splits)
  then have "mset (qs1 @ xs) \<subseteq># mset (qs @ r # xs)" by simp
  with Cons.IH [OF rest] step show ?case by (meson subset_mset.trans)
qed simp

lemma unprinted_references_all:
  assumes "unprinted_references s nodes = Inr qs"
  shows "mset qs \<subseteq># mset (concat (map (refs s) nodes)) \<and> (\<forall>r \<in> set qs. is_node (r_target (ref_at s r)))"
proof -
  have "mset qs \<subseteq># mset (qs0 @ concat (map (refs s) nodes)) \<and> (\<forall>r \<in> set qs. r \<in> set qs0 \<or> is_node (r_target (ref_at s r)))"
    if "foldM (\<lambda>a. foldM (list_reference s) (refs s a)) nodes qs0 = Inr qs" for qs0
    using that
  proof (induction nodes arbitrary: qs0)
    case (Cons a nodes)
    then obtain qs1 where qs1: "foldM (list_reference s) (refs s a) qs0 = Inr qs1"
      and rest: "foldM (\<lambda>a. foldM (list_reference s) (refs s a)) nodes qs1 = Inr qs"
      by (auto simp: rbind_Inr_iff)
    note step = list_references_all [OF qs1]
    then have "mset (qs1 @ concat (map (refs s) nodes)) \<subseteq># mset (qs0 @ concat (map (refs s) (a # nodes)))" by simp
    with Cons.IH [OF rest] step show ?case by (meson subset_mset.trans)
  qed simp
  from this [OF assms [unfolded unprinted_references_def]] show ?thesis by simp
qed

lemma initial_printing:
  assumes "initial_printer externally s = Inr st" and "distinct (ns_nodes s)"
  defines "nodes \<equiv> filter (\<lambda>a. a \<notin> set externally) (ns_nodes s)"
  shows "printing s nodes st" and "distinct nodes" and "set nodes \<subseteq> set (ns_nodes s)"
proof -
  obtain qs where qs: "unprinted_references s nodes = Inr qs" and st: "st = \<lparr>pr_ns = s, pr_nodes = nodes, pr_refs = qs\<rparr>"
    using assms(1) by (auto simp: initial_printer_def nodes_def rbind_Inr_iff Let_def)
  note all = unprinted_references_all [OF qs]
  have "waits_at_most s nodes (set nodes) qs t" for t
    unfolding waits_at_most_def
  proof (intro allI)
    fix ty :: target and f :: bool
    let ?k = "(TNode t, ty, f)"
    have "key_count s ?k qs \<le> pending s nodes (set nodes) ?k"
      using key_count_subset [OF all [THEN conjunct1], of s ?k] by (simp only: pending_all)
    also have "\<dots> \<le> pending s nodes (set nodes \<union> {t} \<union> {b. is_argument s b}) ?k" by (rule pending_mono) auto
    finally show "key_count s ?k qs \<le> pending s nodes (set nodes \<union> {t} \<union> {b. is_argument s b}) ?k" .
  qed
  then show "printing s nodes st" using all assms(2) by (simp add: printing_def st nodes_def)
  show "distinct nodes" "set nodes \<subseteq> set (ns_nodes s)" using assms(2) by (auto simp: nodes_def)
qed

text \<open>After all nodes nothing is left over that the last loop would print.\<close>

lemma print_leftovers_none: "pr_nodes st = [] \<Longrightarrow> print_leftovers st = Inr ([], st)"
  by (simp add: print_leftovers_def leftover_references_def target_unprinted_def Let_def split: target.split)

lemma print_all_printing:
  assumes "print_all rep suppressed s st = Inr (code, st')" and "printing s nodes st" and "distinct nodes"
    and own: "owned s" "set nodes \<subseteq> {..<length (node_heap s)}" and "set nodes \<subseteq> set (ns_nodes s)"
  shows "printing s nodes st' \<and> pr_nodes st' = []"
proof -
  obtain used c1 st1 c2 st2 c3 where st1: "print_nodes rep [] used ([], st) = Inr (c1, st1)"
    and st2: "print_nodes rep suppressed (ns_nodes s) (c1, st1) = Inr (c2, st2)"
    and st3: "print_leftovers st2 = Inr (c3, st')"
    using assms(1) by (auto simp: print_all_def rbind_Inr_iff)
  note p1 = print_nodes_printing [OF assms(2,3) own st1]
  note p2 = print_nodes_printing [OF p1 [THEN conjunct1] assms(3) own st2]
  moreover have "set (pr_nodes st1) \<subseteq> set (ns_nodes s)" using p1 assms(2,6) unfolding printing_def by blast
  ultimately have "set (pr_nodes st2) \<subseteq> {}" by blast
  then have "pr_nodes st2 = []" by simp
  with p2 st3 print_leftovers_none show ?thesis by auto
qed

lemma printed_waiting:
  assumes "printing s nodes st" and "pr_nodes st = []" and "r \<in> set (pr_refs st)"
  shows "\<exists>t. r_target (ref_at s r) = TNode t \<and> (is_argument s t \<or>
    (\<exists>b \<in> set nodes. (b = t \<or> is_argument s b) \<and> (\<exists>q \<in> set (refs s b). ref_eq (ref_at s r) (ref_at s q))))"
proof -
  obtain t where t: "r_target (ref_at s r) = TNode t"
    using assms(1,3) by (cases "r_target (ref_at s r)") (auto simp: printing_def)
  let ?k = "(TNode t, r_type (ref_at s r), r_forward (ref_at s r))"
  have k: "ref_key s r = ?k" using t by (simp add: ref_key_def)
  have "\<exists>b \<in> set nodes. b \<in> {} \<union> {t} \<union> {b. is_argument s b} \<and> (\<exists>q \<in> set (refs s b). ref_key s q = ?k)"
    if "\<not> is_argument s t"
  proof (rule pending_pos)
    have "0 < key_count s ?k (pr_refs st)" using assms(3) k by (auto simp: key_count_pos)
    moreover have "waits_at_most s nodes {} (pr_refs st) t"
      using assms(1,2) that by (simp add: printing_def)
    ultimately show "0 < pending s nodes ({} \<union> {t} \<union> {b. is_argument s b}) ?k"
      unfolding waits_at_most_def by (metis less_le_trans)
  qed
  then show ?thesis using t k by (auto simp: ref_eq_key)
qed

section \<open>What is left at the end\<close>

text \<open>
  No node is left unprinted, and no reference but those to an argument variable of a method and those
  that equal a reference of their own target or of an argument variable.
\<close>

theorem unprinted_left:
  assumes "read_files ord env roots = Inr s" and "linkOpenPointers s = Inr t" and "ns_sanitize t = Inr (u, l)"
    and "buildEncodingRules ord (ns_nodes u) u = Some (Inr v)" and "allocateVariables env v = Inr w"
    and "printOpen62541Header rep walk externally suppressed out w = Inr (header, code, st)"
  shows "pr_nodes st = [] \<and> (\<forall>r \<in> set (pr_refs st). \<exists>t. r_target (ref_at w r) = TNode t \<and> (is_argument w t \<or>
    (\<exists>b \<in> set (ns_nodes w). (b = t \<or> is_argument w b) \<and> (\<exists>q \<in> set (refs w b). ref_eq (ref_at w r) (ref_at w q)))))"
proof -
  have closed: "closed_space w" by (rule ordered_closed [OF assms(1-5)])
  obtain z st0 code' where z: "reorderNodesMinDependencies w = Inr z" and st0: "initial_printer externally z = Inr st0"
    and st: "print_all rep suppressed z st0 = Inr (code', st)"
    using assms(6) by (auto simp: printOpen62541Header_def rbind_Inr_iff)
  obtain order where order: "z = w\<lparr>ns_nodes := order\<rparr>" "mset order = mset (ns_nodes w)"
    using z reorder_greedy [OF closed] greedy_mset
    by (auto simp: reorderNodesMinDependencies_def reference_types_result split: if_splits)
  have nodes: "distinct (ns_nodes z)" "set (ns_nodes z) = set (ns_nodes w)"
    using order closed mset_eq_setD [OF order(2)] mset_eq_imp_distinct_iff [OF order(2)]
    by (simp_all add: closed_space_def)
  have own: "owned z" using ordered_owned [OF assms(1-5)] order(1) by (simp add: owned_def)
  let ?nodes = "filter (\<lambda>a. a \<notin> set externally) (ns_nodes z)"
  note i = initial_printing [OF st0 nodes(1)]
  have range: "set ?nodes \<subseteq> {..<length (node_heap z)}"
    using nodes(2) ordered_range [OF assms(1-5)] order(1) by auto
  note printed = print_all_printing [OF st i(1,2) own range i(3)]
  have same: "ref_heap z = ref_heap w" "node_heap z = node_heap w" "is_argument z = is_argument w"
    using order(1) by (simp_all add: is_argument_def fun_eq_iff)
  have sub: "set ?nodes \<subseteq> set (ns_nodes w)" using nodes(2) i(3) by simp
  show ?thesis
  proof (intro conjI ballI)
    show "pr_nodes st = []" by (rule printed [THEN conjunct2])
    fix r assume "r \<in> set (pr_refs st)"
    note w = printed_waiting [OF printed [THEN conjunct1] printed [THEN conjunct2] this, unfolded same]
    then obtain t where t: "r_target (ref_at w r) = TNode t" by blast
    with w sub show "\<exists>t. r_target (ref_at w r) = TNode t \<and> (is_argument w t \<or>
        (\<exists>b \<in> set (ns_nodes w). (b = t \<or> is_argument w b) \<and> (\<exists>q \<in> set (refs w b). ref_eq (ref_at w r) (ref_at w q))))"
      by (intro exI [of _ t]) auto
  qed
qed

end
