(* ===== verification/Print_Total.thy ===== *)
theory Print_Total
  imports Print_Facts
begin

text \<open>
  Printing returns: for a namespace read from files, linked, checked and encoded, whose variables have
  no values, none of the exceptions the printers may raise is raised.
\<close>

section \<open>Nodes keep their classes\<close>

definition kinds :: "opcua_namespace \<Rightarrow> (int \<times> int) list" where
  "kinds s = map (\<lambda>n. (n_class n, part_class (n_part n))) (node_heap s)"

lemma kinds_nth: "a < length (node_heap s) \<Longrightarrow> kinds s ! a = (n_class (node_at s a), part_class (n_part (node_at s a)))"
  by (simp add: kinds_def)

lemma kinds_length [simp]: "length (kinds s) = length (node_heap s)"
  by (simp add: kinds_def)

lemma kinds_modify_node:
  assumes "n_class (f (node_at s a)) = n_class (node_at s a)"
    and "part_class (n_part (f (node_at s a))) = part_class (n_part (node_at s a))"
  shows "kinds (modify_node a f s) = kinds s"
  by (rule nth_equalityI) (simp_all add: heap_simps kinds_nth node_at_modify_node assms)

interpretation keeping: growth "\<lambda>s t. kinds t = kinds s"
  by unfold_locales auto

lemma kinds_new_ref: "kinds (snd (new_ref q s)) = kinds s"
  by (simp add: kinds_def new_ref_def)

lemma kinds_addReference: "kinds (addReference a r s) = kinds s"
  by (simp add: addReference_def kinds_modify_node)

lemma kinds_invert: "kinds (invert_reference a r s) = kinds s"
  by (auto simp: invert_reference_def kinds_addReference new_ref_def split: target.split)
     (simp_all add: kinds_def)

lemma kinds_updateInverse_step: "kinds (updateInverse_step a r s) = kinds s"
proof -
  have "kinds (addInverseReferenceTarget t b s) = kinds s" for t b
    by (simp add: addInverseReferenceTarget_def new_ref_def kinds_modify_node) (simp add: kinds_def)
  then show ?thesis by (simp add: updateInverse_step_def split: target.split)
qed

lemma kinds_close_graph: "kinds (close_graph s) = kinds s"
proof -
  have "kinds (fold invert_references xs u) = kinds u" for xs u
    unfolding invert_references_def by (rule keeping.fold_le, rule keeping.fold_le, rule kinds_invert)
  moreover have "kinds (fold updateInverseReferences xs u) = kinds u" for xs u
    unfolding updateInverseReferences_def by (rule keeping.fold_le, rule keeping.fold_le, rule kinds_updateInverse_step)
  ultimately show ?thesis by (simp add: close_graph_def Let_def)
qed

lemma kinds_node_sanitize:
  assumes "node_sanitize a s = Inr (t, ok)"
  shows "kinds t = kinds s"
proof -
  let ?s1 = "sanitize_references a s"
  let ?s2 = "modify_node a (\<lambda>n. n\<lparr>n_referencedBy := filter (really_referenced ?s1 a) (n_referencedBy n)\<rparr>) ?s1"
  let ?p = "fst (sanitizeSubType ?s2 (n_part (node_at ?s2 a)))"
  have t: "t = modify_part a (\<lambda>_. ?p) ?s2"
    using assms by (auto simp: node_sanitize_def sanitize_inverse_def Let_def rbind_Inr_iff split: if_splits prod.splits)
  have "part_class (fst (sanitizeSubType u p)) = part_class p" for u p
    by (simp add: sanitizeSubType_def split: node_part.split)
  then have "kinds t = kinds ?s2" unfolding t modify_part_def by (intro kinds_modify_node) simp_all
  then show ?thesis by (simp add: kinds_modify_node sanitize_references_def)
qed

lemma kinds_sanitize:
  assumes "ns_sanitize s = Inr (t, l)"
  shows "kinds t = kinds s"
proof -
  have "kinds (fst (t, l)) = kinds s"
    by (rule foldM_invariant [OF assms [unfolded ns_sanitize_steps], where P = "\<lambda>st. kinds (fst st) = kinds s"])
       (auto simp: sanitize_step_def rbind_Inr_iff kinds_node_sanitize)
  then show ?thesis by simp
qed

lemma kinds_progress:
  assumes "progress {} s t"
  shows "kinds t = kinds s"
proof (rule nth_equalityI)
  note p = progressD [OF assms]
  show "length (kinds t) = length (kinds s)" using p(3) by simp
  fix a assume "a < length (kinds t)"
  then have a: "a < length (node_heap s)" "a < length (node_heap t)" using p(3) by simp_all
  have "progress_at {} s t a" using assms a by (simp add: progress_def)
  then have n: "node_at t a = (node_at s a)\<lparr>n_part := n_part (node_at t a)\<rparr>" and
    same: "dataType_at s a = None \<longrightarrow> node_at t a = node_at s a" by (auto simp: progress_at_def)
  have "part_class (n_part (node_at t a)) = part_class (n_part (node_at s a))"
  proof (cases "dataType_at s a = None")
    case False
    with p(8) [OF a(1)] show ?thesis by (auto simp: dataType_at_def split: node_part.split_asm)
  qed (use same in simp)
  moreover have "n_class (node_at t a) = n_class (node_at s a)" by (subst n) simp
  ultimately show "kinds t ! a = kinds s ! a" using a by (simp add: kinds_nth)
qed

lemma kinds_allocate:
  assumes "allocateVariables env s = Inr t"
  shows "kinds t = kinds s"
proof -
  have one: "kinds t = kinds s" if "allocateValue env a s = Inr (t, ok)" for a s t ok
  proof (cases "n_part (node_at s a)")
    case (VariableNode w)
    then have "t = s \<or> (\<exists>w'. t = modify_part a (\<lambda>_. VariableNode w') s)"
      using that by (auto simp: allocateValue_def elim!: rbind_InrE split: option.split_asm pyval.split_asm)
    moreover have "kinds (modify_part a (\<lambda>_. VariableNode w') s) = kinds s" for w'
      unfolding modify_part_def by (rule kinds_modify_node) (simp_all add: VariableNode)
    ultimately show ?thesis by auto
  qed (use that in \<open>simp_all add: allocateValue_def\<close>)
  show ?thesis
    by (rule foldM_invariant [OF assms [unfolded allocateVariables_def], where P = "\<lambda>t. kinds t = kinds s"])
       (auto simp: rbind_Inr_iff split: if_splits dest!: one)
qed

lemma ordered_kinds:
  assumes "read_files ord env roots = Inr s" and "linkOpenPointers s = Inr t" and "ns_sanitize t = Inr (u, l)"
    and "buildEncodingRules ord (ns_nodes u) u = Some (Inr v)" and "allocateVariables env v = Inr w"
    and "a \<in> set (ns_nodes w)"
  shows "n_class (node_at w a) = part_class (n_part (node_at w a))"
proof -
  note ok = read_files_ok [OF assms(1)]
  let ?s1 = "s\<lparr>ref_heap := map (linked_ref s) (ref_heap s)\<rparr>"
  note c = checked_types [OF assms(1-3)]
  have "kinds w = kinds s"
  proof -
    have "progress {} u v"
      using buildEncodingRules_ok [OF c(1,3), of ord] assms(4) by (simp add: run_ok_def)
    then have "kinds w = kinds t" using kinds_allocate [OF assms(5)] kinds_progress kinds_sanitize [OF assms(3)] by simp
    also have "kinds t = kinds (close_graph ?s1)"
      using linkOpenPointers_result [OF ok(2)] assms(2) by (auto simp: kinds_def)
    also have "\<dots> = kinds s" unfolding kinds_close_graph by (simp add: kinds_def)
    finally show ?thesis .
  qed
  moreover have a: "a < length (node_heap w)" using ordered_range [OF assms(1-5)] assms(6) by auto
  moreover have "n_class (node_at s b) = part_class (n_part (node_at s b))" if "b < length (node_heap s)" for b
    using reading_node [OF ok(2) that] by (simp add: unlinked_node_def)
  ultimately show ?thesis using kinds_length [of w] kinds_length [of s] kinds_nth [OF a] kinds_nth [of a s] by simp
qed

section \<open>What printing needs\<close>

text \<open>Every reference has both ends, and the ones against the arrow an answer.\<close>

definition connected :: "opcua_namespace \<Rightarrow> bool" where
  "connected s \<longleftrightarrow> closed_space s \<and> owned s \<and> set (ns_nodes s) \<subseteq> {..<length (node_heap s)} \<and>
     (\<forall>a \<in> set (ns_nodes s). n_class (node_at s a) = part_class (n_part (node_at s a)) \<and>
        (\<forall>r \<in> set (refs s a). both_linked s r \<and>
           (\<forall>b. r_target (ref_at s r) = TNode b \<longrightarrow> \<not> r_forward (ref_at s r) \<longrightarrow> refs_back s b a \<noteq> None)))"

lemma ordered_connected:
  assumes "read_files ord env roots = Inr s" and "linkOpenPointers s = Inr t" and "ns_sanitize t = Inr (u, l)"
    and "buildEncodingRules ord (ns_nodes u) u = Some (Inr v)" and "allocateVariables env v = Inr w"
  shows "connected w"
proof -
  note ok = linked_graph [OF assms(1,2)]
  note closed = ordered_closed [OF assms] and range = ordered_range [OF assms] and c = checked_types [OF assms(1-3)]
  have "distinct (ns_nodes t)" and "\<forall>a \<in> set (ns_nodes t). a < length (node_heap t)"
    using ok(3) by (auto simp: registered_def distinct_map)
  from sanitize_steps_result [OF inverse_ok_apart [OF ok(2)] this, of "[]"] assms(3)
  have u: "ref_heap u = ref_heap t" "ns_nodes u = ns_nodes t"
    "\<forall>a \<in> set (ns_nodes t). refs u a = filter (both_linked t) (refs t a)"
    by (auto simp: ns_sanitize_steps)
  have p: "progress {} u v"
    using buildEncodingRules_ok [OF c(1,3), of ord] assms(4) by (simp add: run_ok_def)
  have w: "ref_heap w = ref_heap t" "ns_nodes w = ns_nodes t"
    "a \<in> set (ns_nodes w) \<Longrightarrow> refs w a = filter (both_linked t) (refs t a)" for a
    using u progressD(1,2,4) [OF p] allocateVariables_frame [OF assms(5)] c(3) by auto
  have "both_linked w r \<and> (\<forall>b. r_target (ref_at w r) = TNode b \<longrightarrow> \<not> r_forward (ref_at w r) \<longrightarrow> refs_back w b a \<noteq> None)"
    if a: "a \<in> set (ns_nodes w)" and r: "r \<in> set (refs w a)" for a r
  proof (intro conjI allI impI)
    have rt: "both_linked t r" "r \<in> set (refs t a)" using w(3) [OF a] r by simp_all
    then show "both_linked w r" using w(1) by (simp add: both_linked_def)
    fix b assume b: "r_target (ref_at w r) = TNode b" "\<not> r_forward (ref_at w r)"
    then have "mirrored t a r" using ok(6) [of a r] rt(2) a w by simp
    then obtain q where q: "q \<in> set (refs t b)" "r_target (ref_at t q) = TNode a" "r_type (ref_at t q) = r_type (ref_at t r)"
      using b w(1) by (auto simp: mirrored_def list_ex_iff)
    have "b \<in> set (ns_nodes w)" using closed a r b(1) unfolding closed_space_def by blast
    then have "q \<in> set (refs w b)" using w(3) q rt(1) by (simp add: both_linked_def)
    then show "refs_back w b a \<noteq> None" using q(2) w(1) by (auto simp: refs_back_def find_none)
  qed
  then show ?thesis
    using closed range ordered_owned [OF assms] ordered_kinds [OF assms] unfolding connected_def by blast
qed

lemma connectedD:
  assumes "connected s" and "a \<in> set (ns_nodes s)"
  shows "n_class (node_at s a) = part_class (n_part (node_at s a))"
    and "r \<in> set (refs s a) \<Longrightarrow> \<exists>b \<in> set (ns_nodes s). r_target (ref_at s r) = TNode b"
    and "r \<in> set (refs s a) \<Longrightarrow> \<exists>ty. r_type (ref_at s r) = TNode ty"
    and "r \<in> set (refs s a) \<Longrightarrow> r_target (ref_at s r) = TNode b \<Longrightarrow> \<not> r_forward (ref_at s r) \<Longrightarrow> refs_back s b a \<noteq> None"
proof -
  show "n_class (node_at s a) = part_class (n_part (node_at s a))" using assms by (simp add: connected_def)
  show "refs_back s b a \<noteq> None" if "r \<in> set (refs s a)" "r_target (ref_at s r) = TNode b" "\<not> r_forward (ref_at s r)"
    using assms that by (simp add: connected_def)
  assume r: "r \<in> set (refs s a)"
  with assms have "both_linked s r" by (simp add: connected_def)
  then obtain b ty where "r_target (ref_at s r) = TNode b" "r_type (ref_at s r) = TNode ty"
    by (cases "r_target (ref_at s r)"; cases "r_type (ref_at s r)") (simp_all add: both_linked_def)
  moreover from this have "b \<in> set (ns_nodes s)"
    using assms r unfolding connected_def closed_space_def by blast
  ultimately show "\<exists>b \<in> set (ns_nodes s). r_target (ref_at s r) = TNode b" "\<exists>ty. r_type (ref_at s r) = TNode ty"
    by blast+
qed

text \<open>The parent that is found comes with a reference to the node.\<close>

lemma getFirstParentNode_total:
  assumes "connected s" and "a \<in> set (ns_nodes s)"
  shows "getFirstParentNode s a = Inr (None, None) \<or>
    (\<exists>p q ty. getFirstParentNode s a = Inr (Some p, Some q) \<and> r_type (ref_at s q) = TNode ty)"
proof -
  let ?rev = "filter (\<lambda>r. \<not> r_forward (ref_at s r)) (refs s a)"
  let ?l = "filter (\<lambda>r. \<not> r_hidden (ref_at s r)) ?rev @ filter (\<lambda>r. r_hidden (ref_at s r)) ?rev"
  have l: "getFirstParentNode s a = first_parent s a None ?l" by (simp add: getFirstParentNode_def Let_def)
  show ?thesis
  proof (cases ?l)
    case Nil
    then show ?thesis unfolding l by simp
  next
    case (Cons r rs)
    then have "r \<in> set ?l" by simp
    then have r: "r \<in> set (refs s a)" "\<not> r_forward (ref_at s r)" by auto
    then obtain p where p: "r_target (ref_at s r) = TNode p" "p \<in> set (ns_nodes s)" using connectedD(2) [OF assms] by blast
    then obtain q where q: "refs_back s p a = Some q" using connectedD(4) [OF assms r(1) p(1) r(2)] by auto
    then have "q \<in> set (refs s p)" by (auto simp: refs_back_def find_Some_iff)
    then obtain ty where "r_type (ref_at s q) = TNode ty" using connectedD(3) [OF assms(1) p(2)] by blast
    then show ?thesis unfolding l Cons using p(1) q by simp
  qed
qed

section \<open>Creating a node returns\<close>

definition no_values :: "opcua_namespace \<Rightarrow> bool" where
  "no_values s \<longleftrightarrow> (\<forall>a \<in> set (ns_nodes s). \<forall>v. n_part (node_at s a) = VariableNode v \<longrightarrow> va_value v = None)"

lemma part_class_range: "part_class p \<in> {1, 2, 4, 8, 16, 32, 64, 128}"
  by (cases p) simp_all

lemma nodetype_some: "connected s \<Longrightarrow> a \<in> set (ns_nodes s) \<Longrightarrow> \<exists>ty. nodetype (n_class (node_at s a)) = Some ty"
  using part_class_range [of "n_part (node_at s a)"] connectedD(1) [of s a] by (auto simp: nodetype_def)

lemma SubtypeEarly_total:
  assumes "no_values s" and "a \<in> set (ns_nodes s)"
  shows "\<exists>code. node_SubtypeEarly b a s = Inr (code, s)"
  using assms by (auto simp: node_SubtypeEarly_def variable_SubtypeEarly_def no_values_def
      split: node_part.split option.split)

lemma id_macro_node [simp]:
  "getCreateNodeIDMacro s (TNode a) = Inr (id_macro ''UA_NODEID'' (n_id (node_at s a)))"
  "getCreateExpandedNodeIDMacro s (TNode a) = Inr (id_macro ''UA_EXPANDEDNODEID'' (n_id (node_at s a)))"
  by (simp_all add: getCreateNodeIDMacro_def getCreateExpandedNodeIDMacro_def)

lemma argument_step_total:
  assumes "connected s" and "no_values s" and "a \<in> set (ns_nodes s)" and "r \<in> set (refs s a)"
  shows "\<exists>rest. argument_step s r (PList [], PList [], nodes) = Inr (PList [], PList [], rest)"
proof -
  obtain t where t: "t \<in> set (ns_nodes s)" "r_target (ref_at s r) = TNode t" using connectedD(2) [OF assms(1,3,4)] by blast
  have "node_value (node_at s t) = Inr None" if "n_class (node_at s t) = 2"
    using that assms(2) t(1) connectedD(1) [OF assms(1) t(1)]
    by (cases "n_part (node_at s t)") (auto simp: node_value_def no_values_def)
  then show ?thesis using t(2) by (auto simp: argument_step_def Let_def)
qed

lemma method_arguments_total:
  assumes "connected s" and "no_values s" and "a \<in> set (ns_nodes s)"
  shows "\<exists>rest. method_arguments s a nodes = Inr ([], [], rest)"
proof -
  have "\<exists>rest. foldM (argument_step s) rs (PList [], PList [], nodes) = Inr (PList [], PList [], rest)"
    if "set rs \<subseteq> set (refs s a)" for rs nodes
    using that
  proof (induction rs arbitrary: nodes)
    case (Cons r rs)
    moreover obtain rest where "argument_step s r (PList [], PList [], nodes) = Inr (PList [], PList [], rest)"
      using argument_step_total [OF assms, of r nodes] Cons.prems by auto
    ultimately show ?case by simp
  qed simp
  from this [OF subset_refl, of nodes] show ?thesis by (auto simp: method_arguments_def value_items_def)
qed

lemma typeDefinition_total:
  assumes "connected s" and "a \<in> set (ns_nodes s)"
  shows "\<exists>code. typeDefinition_code s a = Inr code"
proof -
  have "\<exists>t'. foldM (type_definition_step s) rs t = Inr t' \<and> (\<forall>x. t' \<noteq> TText x)"
    if "set rs \<subseteq> set (refs s a)" "\<forall>x. t \<noteq> TText x" for rs t
    using that
  proof (induction rs arbitrary: t)
    case (Cons r rs)
    then obtain b ty where "r_target (ref_at s r) = TNode b" "r_type (ref_at s r) = TNode ty"
      using connectedD(2,3) [OF assms, of r] by auto
    then have "\<exists>t1. type_definition_step s r t = Inr t1 \<and> (\<forall>x. t1 \<noteq> TText x)"
      using Cons.prems(2) by (auto simp: type_definition_step_def Let_def)
    with Cons show ?case by auto
  qed simp
  from this [OF subset_refl, of TNone] obtain t where
    t: "foldM (type_definition_step s) (refs s a) TNone = Inr t" "\<forall>x. t \<noteq> TText x" by auto
  then show ?thesis by (cases t) (auto simp: typeDefinition_code_def)
qed

lemma NoBootstrap_total:
  assumes "connected s" and "no_values s" and "a \<in> set (ns_nodes s)" and q: "r_type (ref_at s q) = TNode ty"
  shows "\<exists>code rest. getCreateNodeNoBootstrap rep a p q s nodes = Inr (code, s, rest)"
proof -
  obtain k where k: "nodetype (n_class (node_at s a)) = Some k" using nodetype_some [OF assms(1,3)] by blast
  obtain early where e: "node_SubtypeEarly False a s = Inr (early, s)" using SubtypeEarly_total [OF assms(2,3)] by blast
  obtain td where td: "typeDefinition_code s a = Inr td" using typeDefinition_total [OF assms(1,3)] by blast
  obtain rest where m: "method_arguments s a nodes = Inr ([], [], rest)" using method_arguments_total [OF assms(1-3)] by blast
  show ?thesis
    by (cases "k = ''Method''") (simp_all add: getCreateNodeNoBootstrap_def k e td m q arguments_code_def Let_def)
qed

lemma create_node_total:
  assumes "connected s" and "no_values s" and "a \<in> set (ns_nodes s)" and st: "pr_ns st = s"
  shows "\<exists>code t. create_node rep suppressed a st = Inr (code, t) \<and> pr_ns t = s"
proof -
  obtain early where e: "node_SubtypeEarly True a s = Inr (early, s)" using SubtypeEarly_total [OF assms(2,3)] by blast
  obtain k where k: "nodetype (n_class (node_at s a)) = Some k" using nodetype_some [OF assms(1,3)] by blast
  have "\<exists>code refs. node_Subtype True a s (pr_refs st) = Inr (code, refs)"
    by (simp add: node_Subtype_def referenceType_Subtype_def object_Subtype_def variable_Subtype_def
        method_Subtype_def objectType_Subtype_def variableType_Subtype_def dataType_Subtype_def view_Subtype_def
        Let_def split: node_part.split)
  then obtain late refs where l: "node_Subtype True a s (pr_refs st) = Inr (late, refs)" by blast
  have boot: "\<exists>code t. bootstrap_node suppressed a st = Inr (code, t) \<and> pr_ns t = s"
    by (simp add: bootstrap_node_def st e l getCreateNodeBootstrap_def k Let_def split: option.split)
  consider "getFirstParentNode s a = Inr (None, None)"
    | p q ty where "getFirstParentNode s a = Inr (Some p, Some q)" "r_type (ref_at s q) = TNode ty"
    using getFirstParentNode_total [OF assms(1,3)] by blast
  then show ?thesis
  proof cases
    case 1
    with boot show ?thesis by (simp add: create_node_def st)
  next
    case 2
    obtain code rest where "getCreateNodeNoBootstrap rep a p q s (pr_nodes st) = Inr (code, s, rest)"
      using NoBootstrap_total [OF assms(1-3) 2(2)] by blast
    then have "\<exists>code t. attach_node rep a p q st = Inr (code, t) \<and> pr_ns t = s"
      by (simp add: attach_node_def st 2(2) Let_def)
    with 2 boot show ?thesis by (simp add: create_node_def st)
  qed
qed

section \<open>Printing references returns\<close>

lemma remove_refs_total:
  assumes "\<And>k. key_count s k rs \<le> key_count s k qs"
  shows "\<exists>qs'. foldM (list_remove s) rs qs = Inr qs'"
  using assms
proof (induction rs arbitrary: qs)
  case (Cons r rs)
  have "0 < key_count s (ref_key s r) qs" using Cons.prems [of "ref_key s r"] by simp
  then have r: "ref_in s r qs" by (auto simp: ref_in_def list_ex_iff ref_eq_key key_count_pos)
  have "key_count s k rs \<le> key_count s k (remove_ref s r qs)" for k
    using remove_ref_facts(1) [OF r, of k] Cons.prems [of k] by simp
  from Cons.IH [OF this] r show ?case by (simp only: remove_refs_Cons) simp
qed simp

lemma print_references_total:
  assumes "\<And>r. r \<in> set rs \<Longrightarrow> both_linked (pr_ns st) r"
    and "\<And>k. key_count (pr_ns st) k rs \<le> key_count (pr_ns st) k (pr_refs st)"
  shows "\<exists>code t. print_references comment source rs st = Inr (code, t)"
proof -
  have "\<exists>c. getCreateStandaloneReference (pr_ns st) (source r) r = Inr c" if "r \<in> set rs" for r
    using assms(1) [OF that]
    by (cases "r_target (ref_at (pr_ns st) r)"; cases "r_type (ref_at (pr_ns st) r)")
       (simp_all add: both_linked_def getCreateStandaloneReference_def)
  then obtain codes where "mapM (\<lambda>r. getCreateStandaloneReference (pr_ns st) (source r) r) rs = Inr codes"
    using mapM_total [of rs "\<lambda>r. getCreateStandaloneReference (pr_ns st) (source r) r"] by blast
  moreover obtain qs where "foldM (list_remove (pr_ns st)) rs (pr_refs st) = Inr qs"
    using remove_refs_total [OF assms(2)] by blast
  ultimately show ?thesis by (simp add: print_references_def)
qed

text \<open>No node says the same twice.\<close>

definition distinct_refs :: "opcua_namespace \<Rightarrow> bool" where
  "distinct_refs s \<longleftrightarrow> (\<forall>a \<in> set (ns_nodes s). distinct (map (ref_key s) (refs s a)))"

lemma key_count_distinct: "distinct (map (ref_key s) rs) \<Longrightarrow> key_count s k rs \<le> 1"
proof (induction rs)
  case (Cons r rs)
  show ?case
  proof (cases "ref_key s r = k")
    case True
    with Cons.prems have "\<not> 0 < key_count s k rs" unfolding key_count_pos by (auto simp: image_iff)
    with True show ?thesis by simp
  qed (use Cons in simp)
qed simp

lemma own_references_total:
  assumes "connected s" and "distinct_refs s" and "a \<in> set (ns_nodes s)" and st: "pr_ns st = s"
  shows "\<exists>code t. own_references a st = Inr (code, t)"
  unfolding own_references_def Let_def st
proof (rule print_references_total)
  let ?rs = "filter (\<lambda>r. \<not> target_unprinted (r_target (ref_at s r)) (pr_nodes st) \<and> ref_in s r (pr_refs st)) (refs s a)"
  show "both_linked (pr_ns st) r" if "r \<in> set ?rs" for r
    using assms(1,3) that by (simp add: st connected_def)
  show "key_count (pr_ns st) k ?rs \<le> key_count (pr_ns st) k (pr_refs st)" for k
  proof (cases "0 < key_count s k ?rs")
    case True
    then obtain r where "ref_key s r = k" "ref_in s r (pr_refs st)" unfolding key_count_pos by auto
    then have "0 < key_count s k (pr_refs st)" by (auto simp: key_count_pos ref_in_def list_ex_iff ref_eq_key)
    moreover have "key_count s k ?rs \<le> key_count s k (refs s a)"
      by (rule key_count_subset) (simp add: multiset_filter_subset)
    moreover have "key_count s k (refs s a) \<le> 1"
      using assms(2,3) key_count_distinct by (simp add: distinct_refs_def)
    ultimately show ?thesis unfolding st by linarith
  qed (simp add: st)
qed

lemma open_references_total:
  assumes st: "pr_ns st = s" and linked: "\<And>r. r \<in> set (pr_refs st) \<Longrightarrow> both_linked s r"
  shows "\<exists>code t. open_references a st = Inr (code, t)"
  unfolding open_references_def Let_def st
  by (rule print_references_total) (use linked in \<open>auto simp: st intro!: key_count_subset multiset_filter_subset\<close>)

lemma printing_linked:
  assumes "connected s" and "set nodes \<subseteq> set (ns_nodes s)" and "mset qs \<subseteq># mset (concat (map (refs s) nodes))"
    and "r \<in> set qs"
  shows "both_linked s r"
proof -
  have "r \<in> set (concat (map (refs s) nodes))" using mset_subset_eqD [OF assms(3)] assms(4) by simp
  with assms(1,2) show ?thesis by (auto simp: connected_def)
qed

lemma node_print_total:
  assumes "connected s" and "no_values s" and "distinct_refs s" and "printing s nodes st" and st: "pr_ns st = s"
    and "set nodes \<subseteq> set (ns_nodes s)"
  shows "\<exists>code t. node_printOpen62541CCode rep suppressed a st = Inr (code, t) \<and> pr_ns t = s"
proof (cases "a \<in> set (pr_nodes st)")
  case True
  then have a: "a \<in> set (ns_nodes s)" using assms(4,6) unfolding printing_def by blast
  obtain c1 st1 where st1: "create_node rep suppressed a st = Inr (c1, st1)" "pr_ns st1 = s"
    using create_node_total [OF assms(1,2) a st] by blast
  have sub1: "mset (pr_refs st1) \<subseteq># mset (concat (map (refs s) nodes))"
    using create_node_le [OF st1(1)] assms(4) unfolding printer_le_def printing_def by (meson subset_mset.trans)
  obtain c2 st2 where st2: "own_references a st1 = Inr (c2, st2)"
    using own_references_total [OF assms(1,3) a st1(2)] by blast
  note f2 = print_references_facts [OF st2 [unfolded own_references_def Let_def]]
  have ns2: "pr_ns st2 = s" using f2(1) st1(2) by simp
  have "both_linked s r" if "r \<in> set (pr_refs st2)" for r
    by (rule printing_linked [OF assms(1,6) subset_mset.trans [OF f2(3) sub1] that])
  from open_references_total [OF ns2 this] obtain c3 st3 where st3: "open_references a st2 = Inr (c3, st3)" by blast
  have "pr_ns st3 = s" using print_references_facts(1) [OF st3 [unfolded open_references_def Let_def]] ns2 by simp
  with True st1(1) st2 st3 show ?thesis by (simp add: node_printOpen62541CCode_def)
qed (simp add: node_printOpen62541CCode_def st)

lemma print_nodes_total:
  assumes "connected s" and "no_values s" and "distinct_refs s" and "printing s nodes st" and "pr_ns st = s"
    and "set nodes \<subseteq> set (ns_nodes s)" and "distinct nodes"
  shows "\<exists>code' t. print_nodes rep suppressed as (code, st) = Inr (code', t) \<and> pr_ns t = s"
  using assms(4,5)
proof (induction as arbitrary: code st)
  case (Cons a as)
  obtain c st1 where st1: "node_printOpen62541CCode rep suppressed a st = Inr (c, st1)" "pr_ns st1 = s"
    using node_print_total [OF assms(1-3) Cons.prems assms(6)] by blast
  have own: "owned s" "set nodes \<subseteq> {..<length (node_heap s)}" using assms(1,6) by (auto simp: connected_def)
  have "printing s nodes st1" using node_print_printing [OF Cons.prems(1) assms(7) own st1(1)] by simp
  from Cons.IH [OF this st1(2), of "code @ c"] show ?case using st1(1) by (simp add: print_nodes_def)
qed (simp add: print_nodes_def)

section \<open>The header returns\<close>

lemma foldM_total:
  assumes "\<And>x s. x \<in> set xs \<Longrightarrow> \<exists>t. f x s = Inr t"
  shows "\<exists>t. foldM f xs s = Inr t"
  using assms
proof (induction xs arbitrary: s)
  case (Cons x xs)
  then obtain u where "f x s = Inr u" by fastforce
  with Cons show ?case by auto
qed simp

lemma references_total:
  assumes "connected s" and "set nodes \<subseteq> set (ns_nodes s)"
  shows "\<exists>used. reference_types_used s nodes = Inr used" and "\<exists>rs. unprinted_references s nodes = Inr rs"
proof -
  have "\<exists>t. use_reference_type s r used = Inr t" "\<exists>t. list_reference s r rs = Inr t"
    if a: "a \<in> set nodes" and r: "r \<in> set (refs s a)" for a r used rs
  proof -
    have "a \<in> set (ns_nodes s)" using assms(2) a by blast
    from connectedD(2,3) [OF assms(1) this r] obtain b ty where
      "r_target (ref_at s r) = TNode b" "r_type (ref_at s r) = TNode ty" by blast
    then show "\<exists>t. use_reference_type s r used = Inr t" "\<exists>t. list_reference s r rs = Inr t"
      by (simp_all add: use_reference_type_def list_reference_def)
  qed
  then show "\<exists>used. reference_types_used s nodes = Inr used" and "\<exists>rs. unprinted_references s nodes = Inr rs"
    unfolding reference_types_used_def unprinted_references_def by (auto intro!: foldM_total)
qed

lemma connected_order:
  assumes "connected s" and "mset order = mset (ns_nodes s)"
  shows "connected (s\<lparr>ns_nodes := order\<rparr>)" and "set order = set (ns_nodes s)" and "distinct order"
proof -
  show o: "set order = set (ns_nodes s)" "distinct order"
    using assms mset_eq_setD [OF assms(2)] mset_eq_imp_distinct_iff [OF assms(2)]
    by (simp_all add: connected_def closed_space_def)
  then show "connected (s\<lparr>ns_nodes := order\<rparr>)"
    using assms(1) by (simp add: connected_def closed_space_def owned_def both_linked_def refs_back_def)
qed

lemma print_all_total:
  assumes "connected s" and "no_values s" and "distinct_refs s"
  shows "\<exists>st0 code st. initial_printer externally s = Inr st0 \<and> print_all rep suppressed s st0 = Inr (code, st)"
proof -
  let ?nodes = "filter (\<lambda>a. a \<notin> set externally) (ns_nodes s)"
  have "set ?nodes \<subseteq> set (ns_nodes s)" by auto
  then obtain rs where "unprinted_references s ?nodes = Inr rs" using references_total(2) [OF assms(1)] by blast
  then have st0: "initial_printer externally s = Inr \<lparr>pr_ns = s, pr_nodes = ?nodes, pr_refs = rs\<rparr>" (is "_ = Inr ?st0")
    by (simp add: initial_printer_def Let_def)
  obtain used where used: "reference_types_used s (ns_nodes s) = Inr used"
    using references_total(1) [OF assms(1) subset_refl] by blast
  have "distinct (ns_nodes s)" using assms(1) by (simp add: connected_def closed_space_def)
  note i = initial_printing [OF st0 this]
  obtain c1 st1 where st1: "print_nodes rep [] used ([], ?st0) = Inr (c1, st1)" "pr_ns st1 = s"
    using print_nodes_total [OF assms i(1) _ i(3,2)] by fastforce
  have own: "owned s" "set ?nodes \<subseteq> {..<length (node_heap s)}" using assms(1) by (auto simp: connected_def)
  note p1 = print_nodes_printing [OF i(1,2) own st1(1)]
  obtain c2 st2 where st2: "print_nodes rep suppressed (ns_nodes s) (c1, st1) = Inr (c2, st2)" "pr_ns st2 = s"
    using print_nodes_total [OF assms p1 [THEN conjunct1] st1(2) i(3,2)] by blast
  note p2 = print_nodes_printing [OF p1 [THEN conjunct1] i(2) own st2(1)]
  have "set (pr_nodes st1) \<subseteq> set (ns_nodes s)" using p1 i(3) unfolding printing_def by blast
  then have "set (pr_nodes st2) \<subseteq> {}" using p2 by blast
  then have "print_leftovers st2 = Inr ([], st2)" by (simp add: print_leftovers_none)
  then show ?thesis using st0 used st1(1) st2(1) by (simp add: print_all_def)
qed

text \<open>C7: the header and the code are made, without an exception, for a namespace read from any files
  whose variables have no values, if no node has two equal references and neither
  \<open>HasTypeDefinition\<close> nor \<open>HasSubtype\<close> has a reference with the arrow.\<close>

theorem printing_returns:
  assumes "read_files ord env roots = Inr s" and "linkOpenPointers s = Inr t" and "ns_sanitize t = Inr (u, l)"
    and "buildEncodingRules ord (ns_nodes u) u = Some (Inr v)" and "allocateVariables env v = Inr w"
    and "no_values w" and "distinct_refs w"
    and "\<not> has_subtypes w ''HasTypeDefinition''" and "\<not> has_subtypes w ''HasSubtype''"
  shows "\<exists>header code st. printOpen62541Header rep walk externally suppressed out w = Inr (header, code, st)"
proof -
  have conn: "connected w" by (rule ordered_connected [OF assms(1-5)])
  let ?order = "greedy (node_weight w (named w ''HasTypeDefinition'') (named w ''HasSubtype'')) (ns_nodes w)"
  let ?z = "w\<lparr>ns_nodes := ?order\<rparr>"
  have "reorderNodesMinDependencies w = Inr ?z"
    using reorder_greedy [OF ordered_closed [OF assms(1-5)]] assms(8,9) by (simp add: reference_types_result)
  moreover note z = connected_order [OF conn greedy_mset [of "node_weight w (named w ''HasTypeDefinition'') (named w ''HasSubtype'')"]]
  moreover have "no_values ?z" "distinct_refs ?z"
    using assms(6,7) z(2) by (simp_all add: no_values_def distinct_refs_def ref_key_def [abs_def])
  then obtain st0 code' st where "initial_printer externally ?z = Inr st0" "print_all rep suppressed ?z st0 = Inr (code', st)"
    using print_all_total [OF z(1)] by blast
  ultimately show ?thesis by (simp add: printOpen62541Header_def)
qed

text \<open>A node with a reference to itself; the set has neither values nor equal references.\<close>

definition loop_set :: xnode where
  "loop_set = XElem ''UANodeSet'' []
     [XElem ''UAReferenceType'' [(''NodeId'', ''i=47''), (''BrowseName'', ''HasComponent'')] [],
      XElem ''UAObject'' [(''NodeId'', ''ns=2;i=1''), (''BrowseName'', ''2:Loop'')]
        [XElem ''References'' [] [XElem ''Reference'' [(''ReferenceType'', ''i=47'')] [XData ''ns=2;i=1'']]]]"

definition loop_plain :: "opcua_namespace \<Rightarrow> opcua_namespace \<Rightarrow> bool" where
  "loop_plain u w \<longleftrightarrow> ns_nodes w = [0, 1] \<and> list_all (\<lambda>a. \<not> is_variable (node_at w a)) (ns_nodes w) \<and>
     \<not> has_subtypes w ''HasTypeDefinition'' \<and> \<not> has_subtypes w ''HasSubtype'' \<and>
     map (refs w) [0, 1] = [[], [0]]"

lemma loop_plain: "checked_run loop_set loop_plain"
  by code_simp

corollary printing_returns_witness:
  "\<exists>s t u l v header code st. read_files id demo_env [loop_set] = Inr s \<and> linkOpenPointers s = Inr t \<and>
     ns_sanitize t = Inr (u, l) \<and> buildEncodingRules id (ns_nodes u) u = Some (Inr v) \<and> allocateVariables demo_env v = Inr v \<and>
     printOpen62541Header (\<lambda>_. []) (\<lambda>_. []) [] [''description''] ''model'' v = Inr (header, code, st)"
proof -
  obtain s t u l v where v: "read_files id demo_env [loop_set] = Inr s" "linkOpenPointers s = Inr t"
    "ns_sanitize t = Inr (u, l)" "buildEncodingRules id (ns_nodes u) u = Some (Inr v)"
    and "loop_plain u v" by (rule checked_runE [OF loop_plain])
  then have w: "ns_nodes v = [0, 1]" "list_all (\<lambda>a. \<not> is_variable (node_at v a)) (ns_nodes v)"
    "\<not> has_subtypes v ''HasTypeDefinition''" "\<not> has_subtypes v ''HasSubtype''" "refs v 0 = []" "refs v 1 = [0]"
    unfolding loop_plain_def by auto
  have al: "allocateVariables demo_env v = Inr v" by (rule no_variables) (rule w(2))
  have "no_values v" using w(2) by (auto simp: no_values_def is_variable_def list_all_iff)
  moreover have "distinct_refs v" using w(1,5,6) by (simp add: distinct_refs_def)
  ultimately have "\<exists>header code st. printOpen62541Header (\<lambda>_. []) (\<lambda>_. []) [] [''description''] ''model'' v = Inr (header, code, st)"
    by (rule printing_returns [OF v al _ _ w(3,4)])
  then show ?thesis using v al by blast
qed

end
