(* ===== verification/Print_Text.thy ===== *)
theory Print_Text
  imports Print_Total "HOL-Library.Sublist"
begin

text \<open>
  What the printed lines say.  \<open>created_below\<close>, \<open>stored\<close> and \<open>stated\<close> read them as the C compiler does:
  a call that adds a node below its parent, code that puts a node into the node store, and a call
  that adds a reference.  Every node is created in one of the two ways, and every reference is
  stated by a call or comes with a node that is added below its parent.
\<close>

section \<open>Lines\<close>

definition node_macro :: "opcua_namespace \<Rightarrow> nat \<Rightarrow> string" where
  "node_macro s a = id_macro ''UA_NODEID'' (n_id (node_at s a))"

text \<open>The node \<open>a\<close> is added below \<open>p\<close> with a reference of the type \<open>ty\<close>, in lines that follow each other.\<close>

definition created_below :: "opcua_namespace \<Rightarrow> nat \<Rightarrow> nat \<Rightarrow> nat \<Rightarrow> string list \<Rightarrow> bool" where
  "created_below s a p ty code \<longleftrightarrow> (\<exists>T tdef. nodetype (n_class (node_at s a)) = Some T \<and> length tdef \<le> 1 \<and>
     (\<forall>l \<in> set tdef. prefix ''UA_NodeId typeDefinition = '' l) \<and>
     sublist ([''UA_NodeId nodeId = '' @ node_macro s a @ '';''] @ tdef @
       [''UA_NodeId parentNodeId = '' @ node_macro s p @ '';'',
        ''UA_NodeId parentReferenceNodeId = '' @ node_macro s ty @ '';'',
        ''UA_QualifiedName nodeName = UA_QUALIFIEDNAME('' @ qualified_name (n_browseName (node_at s a)) @ '');'',
        ''UA_Server_add'' @ T @ ''Node(server, nodeId, parentNodeId, parentReferenceNodeId, nodeName'']) code)"

text \<open>
  The node is put into the node store.  It is also declared there, unless its id is neither a number
  nor a text.
\<close>

definition stored :: "opcua_namespace \<Rightarrow> nat \<Rightarrow> string list \<Rightarrow> bool" where
  "stored s a code \<longleftrightarrow>
     (let i = n_id (node_at s a); var = node_getCodePrintableID (node_at s a) in
      ''UA_NodeStore_insert(server->nodestore, (UA_Node*) '' @ var @ '');'' \<in> set code \<and>
      (id_i i \<noteq> None \<or> (id_s i \<noteq> None \<and> id_g i = None \<and> id_b i = None) \<longrightarrow>
        (case nodetype (n_class (node_at s a)) of
           None \<Rightarrow> False
         | Some T \<Rightarrow> ''UA_'' @ T @ ''Node *'' @ var @ '' = UA_NodeStore_new'' @ T @ ''Node();'' \<in> set code)))"

text \<open>A reference from \<open>b\<close> to \<open>t\<close> of the type \<open>ty\<close> is added.\<close>

definition stated :: "opcua_namespace \<Rightarrow> nat \<Rightarrow> nat \<Rightarrow> nat \<Rightarrow> bool \<Rightarrow> string list \<Rightarrow> bool" where
  "stated s b ty t f code \<longleftrightarrow>
     ''UA_Server_addReference(server, '' @ node_macro s b @ '', '' @ node_macro s ty @ '', '' @
       id_macro ''UA_EXPANDEDNODEID'' (n_id (node_at s t)) @ (if f then '', true);'' else '', false);'') \<in> set code"

text \<open>The node exists, by a reference of its parent to it or by the node store.\<close>

definition parent_link :: "opcua_namespace \<Rightarrow> nat \<Rightarrow> nat \<Rightarrow> nat \<Rightarrow> nat \<Rightarrow> bool" where
  "parent_link s a p q ty \<longleftrightarrow> q \<in> set (refs s p) \<and> r_target (ref_at s q) = TNode a \<and> r_type (ref_at s q) = TNode ty"

definition made :: "opcua_namespace \<Rightarrow> nat \<Rightarrow> string list \<Rightarrow> bool" where
  "made s a code \<longleftrightarrow> stored s a code \<or> (\<exists>p q ty. parent_link s a p q ty \<and> created_below s a p ty code)"

text \<open>
  A node is added below its parent by a reference that says \<open>k\<close>, or whose way back says \<open>k\<close>: the
  server adds both.
\<close>

definition attached :: "opcua_namespace \<Rightarrow> target \<times> target \<times> bool \<Rightarrow> string list \<Rightarrow> bool" where
  "attached s k code \<longleftrightarrow> (\<exists>a p q ty. parent_link s a p q ty \<and> created_below s a p ty code \<and>
     (k = ref_key s q \<or> k = (TNode p, TNode ty, False)))"

section \<open>Code is only added\<close>

named_theorems code_grows

lemma created_grows [code_grows]:
  assumes "created_below s a p ty c"
  shows "created_below s a p ty (x @ c @ y)"
proof -
  have "sublist c (x @ c @ y)" by simp
  with assms show ?thesis unfolding created_below_def by (meson sublist_order.order_trans)
qed

lemma stored_grows [code_grows]: "stored s a c \<Longrightarrow> stored s a (x @ c @ y)"
  by (auto simp: stored_def Let_def split: option.splits)

lemma stated_grows [code_grows]: "stated s b ty t f c \<Longrightarrow> stated s b ty t f (x @ c @ y)"
  by (simp add: stated_def)

lemma stated_subset: "stated s b ty t f c \<Longrightarrow> set c \<subseteq> set code \<Longrightarrow> stated s b ty t f code"
  unfolding stated_def by (rule subsetD)

lemma made_grows [code_grows]: "made s a c \<Longrightarrow> made s a (x @ c @ y)"
  unfolding made_def using stored_grows created_grows by blast

lemma attached_grows [code_grows]: "attached s k c \<Longrightarrow> attached s k (x @ c @ y)"
  unfolding attached_def using created_grows by blast

lemmas code_follows = code_grows [where x = "[]", simplified]
lemmas code_precedes = code_grows [where y = "[]", simplified]

lemma same_graph_text:
  assumes "same_graph s t"
  shows "node_macro t = node_macro s" "created_below t = created_below s" "stored t = stored s" "stated t = stated s"
    "parent_link t = parent_link s" "made t = made s" "attached t = attached s"
proof -
  have n: "n_id (node_at t a) = n_id (node_at s a)" "n_class (node_at t a) = n_class (node_at s a)"
    "n_browseName (node_at t a) = n_browseName (node_at s a)"
    "node_getCodePrintableID (node_at t a) = node_getCodePrintableID (node_at s a)" for a
    using assms by (simp_all add: same_graph_def node_getCodePrintableID_def)
  note g = same_graph_simps [OF assms]
  show m: "node_macro t = node_macro s" by (simp add: fun_eq_iff node_macro_def n)
  show c: "created_below t = created_below s" by (simp add: fun_eq_iff created_below_def n m)
  show st: "stored t = stored s" by (simp add: fun_eq_iff stored_def n)
  show "stated t = stated s" by (simp add: fun_eq_iff stated_def n m)
  show p: "parent_link t = parent_link s" by (simp add: fun_eq_iff parent_link_def g)
  show "made t = made s" by (simp add: fun_eq_iff made_def st p c)
  show "attached t = attached s" by (simp add: fun_eq_iff attached_def p c g)
qed

section \<open>Lists of references lose nothing else\<close>

lemma remove_ref_other:
  "ref_key s r \<noteq> k \<Longrightarrow> filter (\<lambda>q. ref_key s q = k) (remove_ref s r qs) = filter (\<lambda>q. ref_key s q = k) qs"
  by (induction qs) (auto simp: ref_eq_key)

lemma remove_all_other:
  "ref_key s r \<noteq> k \<Longrightarrow> filter (\<lambda>q. ref_key s q = k) (remove_all_refs s r qs) = filter (\<lambda>q. ref_key s q = k) qs"
  by (auto simp: remove_all_refs_def ref_eq_key intro!: filter_cong)

lemma remove_refs_other:
  assumes "foldM (list_remove s) rs qs = Inr qs'" and "k \<notin> ref_key s ` set rs"
  shows "filter (\<lambda>q. ref_key s q = k) qs' = filter (\<lambda>q. ref_key s q = k) qs"
  using assms
proof (induction rs arbitrary: qs)
  case (Cons r rs)
  then have "foldM (list_remove s) rs (remove_ref s r qs) = Inr qs'" by (simp only: remove_refs_Cons)
  with Cons.IH [OF this] Cons.prems(2) remove_ref_other [of s r k qs] show ?case by auto
qed simp

lemma print_references_text:
  assumes "print_references comment source rs st = Inr (code, t)" and "same_graph s (pr_ns st)"
  shows "r \<in> set rs \<Longrightarrow> \<exists>ty b. r_type (ref_at s r) = TNode ty \<and> r_target (ref_at s r) = TNode b \<and>
      stated s (source r) ty b (r_forward (ref_at s r)) code"
    and "k \<notin> ref_key s ` set rs \<Longrightarrow>
      filter (\<lambda>q. ref_key s q = k) (pr_refs t) = filter (\<lambda>q. ref_key s q = k) (pr_refs st)"
proof -
  let ?u = "pr_ns st"
  obtain codes qs where codes: "mapM (\<lambda>r. getCreateStandaloneReference ?u (source r) r) rs = Inr codes"
    and qs: "foldM (list_remove ?u) rs (pr_refs st) = Inr qs"
    and t: "t = st\<lparr>pr_refs := qs\<rparr>" "set (concat codes) \<subseteq> set code"
    using assms(1) by (auto simp: print_references_def rbind_Inr_iff)
  note g = same_graph_simps [OF assms(2)] same_graph_text [OF assms(2)]
  show "filter (\<lambda>q. ref_key s q = k) (pr_refs t) = filter (\<lambda>q. ref_key s q = k) (pr_refs st)"
    if "k \<notin> ref_key s ` set rs"
    using remove_refs_other [OF qs, of k] that by (simp add: t g)
  assume "r \<in> set rs"
  then obtain c where c: "getCreateStandaloneReference ?u (source r) r = Inr c" "set c \<subseteq> set (concat codes)"
    using mapM_nth [OF codes] mapM_length [OF codes] by (fastforce simp: in_set_conv_nth [of r])
  then obtain ty b where "r_type (ref_at s r) = TNode ty" "r_target (ref_at s r) = TNode b"
    by (auto simp: getCreateStandaloneReference_def getCreateNodeIDMacro_def getCreateExpandedNodeIDMacro_def g
        elim!: rbind_InrE split: target.split_asm)
  moreover from this c(1) have "stated ?u (source r) ty b (r_forward (ref_at s r)) c"
    by (auto simp: getCreateStandaloneReference_def stated_def node_macro_def same_graph_simps [OF assms(2)])
  ultimately show "\<exists>ty b. r_type (ref_at s r) = TNode ty \<and> r_target (ref_at s r) = TNode b \<and>
      stated s (source r) ty b (r_forward (ref_at s r)) code"
    using stated_subset [of ?u] subset_trans [OF c(2) t(2)] unfolding g by blast
qed

section \<open>The text of a node\<close>

lemma typeDefinition_text:
  assumes "(if typed then typeDefinition_code s a else Inr []) = Inr tdef"
  shows "length tdef \<le> 1 \<and> (\<forall>l \<in> set tdef. prefix ''UA_NodeId typeDefinition = '' l)"
  using assms by (auto simp: typeDefinition_code_def rbind_Inr_iff split: if_splits)

lemma sublist_drop: "sublist ys zs \<Longrightarrow> sublist ys (xs @ zs)"
  by (meson sublist_appendI sublist_append_leftI sublist_order.order_trans)

lemma sublist_start: "sublist (xs @ ys @ zs) (xs @ ys @ zs @ us)"
  by (metis append.assoc prefixI prefix_imp_sublist)

lemma rbind_pairE:
  assumes "rbind m (\<lambda>(x, y). k x y) = Inr r"
  obtains x y where "m = Inr (x, y)" and "k x y = Inr r"
  using assms by (auto simp: rbind_Inr_iff)

lemma rbind_tripleE:
  assumes "rbind m (\<lambda>(x, y, z). k x y z) = Inr r"
  obtains x y z where "m = Inr (x, y, z)" and "k x y z = Inr r"
  using assms by (auto simp: rbind_Inr_iff)

lemma NoBootstrap_text:
  assumes "getCreateNodeNoBootstrap rep a p q s nodes = Inr (code, t, rest)"
    and T: "nodetype (n_class (node_at s a)) = Some T" and ty: "r_type (ref_at s q) = TNode ty"
  shows "created_below s a p ty code"
proof -
  let ?typed = "T \<in> {''Object'', ''Variable'', ''VariableType''}"
  have "\<exists>tdef. (if ?typed then typeDefinition_code s a else Inr []) = Inr tdef \<and>
    sublist ([''UA_NodeId nodeId = '' @ node_macro s a @ '';''] @ tdef @
       [''UA_NodeId parentNodeId = '' @ node_macro s p @ '';'',
        ''UA_NodeId parentReferenceNodeId = '' @ node_macro s ty @ '';'',
        ''UA_QualifiedName nodeName = UA_QUALIFIEDNAME('' @ qualified_name (n_browseName (node_at s a)) @ '');'',
        ''UA_Server_add'' @ T @ ''Node(server, nodeId, parentNodeId, parentReferenceNodeId, nodeName'']) code"
    using assms(1) unfolding getCreateNodeNoBootstrap_def Let_def T ty option.case id_macro_node
    apply (elim rbind_tripleE)
    apply (elim rbind_pairE rbind_InrE)
    apply (simp (no_asm_use) only: sum.inject prod.inject node_macro_def)
    apply (elim conjE)
    apply hypsubst
    apply (rule exI, rule conjI, assumption)
    by (rule sublist_start | rule sublist_drop)+
  then obtain tdef where tdef: "(if ?typed then typeDefinition_code s a else Inr []) = Inr tdef" and
    "sublist ([''UA_NodeId nodeId = '' @ node_macro s a @ '';''] @ tdef @
       [''UA_NodeId parentNodeId = '' @ node_macro s p @ '';'',
        ''UA_NodeId parentReferenceNodeId = '' @ node_macro s ty @ '';'',
        ''UA_QualifiedName nodeName = UA_QUALIFIEDNAME('' @ qualified_name (n_browseName (node_at s a)) @ '');'',
        ''UA_Server_add'' @ T @ ''Node(server, nodeId, parentNodeId, parentReferenceNodeId, nodeName'']) code" by blast
  then show ?thesis unfolding created_below_def
    using typeDefinition_text [OF tdef] T by blast
qed

text \<open>The parent that is found refers to the node.\<close>

lemma first_parent_refers:
  "first_parent s a pr l = Inr (Some p, Some q) \<Longrightarrow> q \<in> set (refs s p) \<and> r_target (ref_at s q) = TNode a"
  by (induction s a pr l rule: first_parent.induct)
     (auto simp: refs_back_def find_Some_iff split: target.split_asm option.split_asm)

text \<open>
  Creating a node.  A key that the node is not attached with keeps its references on the list.
\<close>

definition same_keys :: "opcua_namespace \<Rightarrow> target \<times> target \<times> bool \<Rightarrow> nat list \<Rightarrow> nat list \<Rightarrow> bool" where
  "same_keys s k qs rs \<longleftrightarrow> filter (\<lambda>q. ref_key s q = k) qs = filter (\<lambda>q. ref_key s q = k) rs"

lemma same_keys_refl [simp]: "same_keys s k qs qs"
  by (simp add: same_keys_def)

lemma same_keys_trans: "same_keys s k ps qs \<Longrightarrow> same_keys s k qs rs \<Longrightarrow> same_keys s k ps rs"
  by (simp add: same_keys_def)

lemma same_keys_count: "same_keys s k qs rs \<Longrightarrow> key_count s k qs = key_count s k rs"
  by (simp add: same_keys_def key_count_def)

lemma remove_fold_other:
  assumes "\<And>r. r \<in> set xs \<Longrightarrow> P r \<Longrightarrow> ref_key s r \<noteq> k"
  shows "same_keys s k (fold (\<lambda>r rs. if P r then remove_all_refs s r rs else rs) xs qs) qs"
  using assms
proof (induction xs arbitrary: qs)
  case (Cons x xs)
  have "same_keys s k (fold (\<lambda>r rs. if P r then remove_all_refs s r rs else rs) xs (remove_all_refs s x qs)) (remove_all_refs s x qs)"
    by (rule Cons.IH) (use Cons.prems in simp)
  with Cons show ?case using remove_all_other [of s x k qs] by (auto simp: same_keys_def)
qed simp

lemma attach_node_text:
  assumes "attach_node rep a p q st = Inr (code, t)" and "same_graph s (pr_ns st)"
    and T: "nodetype (n_class (node_at s a)) = Some T" and q: "q \<in> set (refs s p)" "r_target (ref_at s q) = TNode a"
  shows "made s a code" and "attached s k code \<or> same_keys s k (pr_refs t) (pr_refs st)"
proof -
  let ?u = "pr_ns st"
  note g = same_graph_simps [OF assms(2)] same_graph_text [OF assms(2)]
  obtain ty c s' nodes where ty: "r_type (ref_at s q) = TNode ty"
    and c: "getCreateNodeNoBootstrap rep a p q ?u (pr_nodes st) = Inr (c, s', nodes)" "\<exists>l. code = l # c"
    and t: "pr_refs t = fold (\<lambda>r rs. if r_target (ref_at s r) = TNode p \<and> r_type (ref_at s r) = TNode ty \<and>
        \<not> r_forward (ref_at s r) then remove_all_refs ?u r rs else rs) (refs s a)
        (if ref_in s q (pr_refs st) then remove_ref s q (pr_refs st) else pr_refs st)"
    using assms(1) by (auto simp: attach_node_def rbind_Inr_iff Let_def g split: target.split_asm)
  have "nodetype (n_class (node_at ?u a)) = Some T" using T assms(2) by (simp add: same_graph_def)
  from NoBootstrap_text [OF c(1) this, of ty] ty have "created_below s a p ty c" by (simp add: g)
  with c(2) created_grows [where y = "[]"] have below: "created_below s a p ty code"
    by (metis append_Cons append_Nil append_Nil2)
  moreover from ty q have link: "parent_link s a p q ty" by (simp add: parent_link_def)
  ultimately show "made s a code" by (auto simp: made_def)
  show "attached s k code \<or> same_keys s k (pr_refs t) (pr_refs st)"
  proof (cases "k = ref_key s q \<or> k = (TNode p, TNode ty, False)")
    case True
    with below link show ?thesis unfolding attached_def by blast
  next
    case False
    have u: "remove_all_refs ?u = remove_all_refs s" by (simp add: fun_eq_iff remove_all_refs_def g)
    have "same_keys s k (pr_refs t) (if ref_in s q (pr_refs st) then remove_ref s q (pr_refs st) else pr_refs st)"
      unfolding t u by (rule remove_fold_other) (use False in \<open>auto simp: ref_key_def\<close>)
    moreover have "same_keys s k (if ref_in s q (pr_refs st) then remove_ref s q (pr_refs st) else pr_refs st) (pr_refs st)"
      using False remove_ref_other [of s q k] by (auto simp: same_keys_def)
    ultimately show ?thesis using same_keys_trans by blast
  qed
qed

lemma Bootstrap_declares:
  assumes "getCreateNodeBootstrap suppressed n = Some code"
    and "id_i (n_id n) \<noteq> None \<or> (id_s (n_id n) \<noteq> None \<and> id_g (n_id n) = None \<and> id_b (n_id n) = None)"
  shows "\<exists>T. nodetype (n_class n) = Some T \<and>
    ''UA_'' @ T @ ''Node *'' @ node_getCodePrintableID n @ '' = UA_NodeStore_new'' @ T @ ''Node();'' \<in> set code"
proof -
  obtain T where T: "nodetype (n_class n) = Some T" using assms(1) by (cases "nodetype (n_class n)") (simp_all add: getCreateNodeBootstrap_def)
  have "bootstrap_id n \<noteq> None" using assms(2) by (auto simp: bootstrap_id_def Let_def split: option.split)
  then obtain c where c: "bootstrap_id n = Some c" by blast
  have "code \<noteq> [] \<and> code ! 1 = ''UA_'' @ T @ ''Node *'' @ node_getCodePrintableID n @ '' = UA_NodeStore_new'' @ T @ ''Node();'' \<and> 1 < length code"
    using assms(1) unfolding getCreateNodeBootstrap_def T c option.case Let_def
    by (cases "''nodeid'' \<in> set suppressed") auto
  then show ?thesis using T nth_mem [of 1 code] by auto
qed

lemma bootstrap_node_text:
  assumes "bootstrap_node suppressed a st = Inr (code, t)" and "same_graph s (pr_ns st)"
  shows "made s a code" and "pr_refs t = pr_refs st" and "pr_nodes t = pr_nodes st"
proof -
  obtain early u c late rs where early: "node_SubtypeEarly True a (pr_ns st) = Inr (early, u)"
    and c: "getCreateNodeBootstrap suppressed (node_at u a) = Some c"
    and late: "node_Subtype True a u (pr_refs st) = Inr (late, rs)"
    and lines: "code = early @ c @ late @
      [''// Parent node does not exist yet. This node will be bootstrapped and linked later.'', ''UA_RCU_LOCK();'',
       ''UA_NodeStore_insert(server->nodestore, (UA_Node*) '' @ node_getCodePrintableID (node_at u a) @ '');'',
       ''UA_RCU_UNLOCK();'']"
    and t: "t = \<lparr>pr_ns = u, pr_nodes = pr_nodes st, pr_refs = rs\<rparr>"
    using assms(1) by (auto simp: bootstrap_node_def rbind_Inr_iff split: option.split_asm)
  have code: "set c \<subseteq> set code"
    "''UA_NodeStore_insert(server->nodestore, (UA_Node*) '' @ node_getCodePrintableID (node_at u a) @ '');'' \<in> set code"
    unfolding lines by auto
  have "same_graph s u" using assms(2) node_SubtypeEarly_graph [OF early] by (rule same_graph_trans)
  moreover have "stored u a code"
    using Bootstrap_declares [OF c] code unfolding stored_def Let_def by fastforce
  ultimately show "made s a code" by (simp add: made_def same_graph_text)
  have "rs = pr_refs st"
    using late by (auto simp: node_Subtype_def referenceType_Subtype_def object_Subtype_def variable_Subtype_def
        method_Subtype_def objectType_Subtype_def variableType_Subtype_def dataType_Subtype_def view_Subtype_def
        Let_def split: node_part.split_asm)
  then show "pr_refs t = pr_refs st" "pr_nodes t = pr_nodes st" by (simp_all add: t)
qed

lemma create_node_text:
  assumes "create_node rep suppressed a st = Inr (code, t)" and "same_graph s (pr_ns st)"
    and "nodetype (n_class (node_at s a)) = Some T"
  shows "made s a code" and "attached s k code \<or> same_keys s k (pr_refs t) (pr_refs st)"
proof -
  obtain parent q where pq: "getFirstParentNode (pr_ns st) a = Inr (parent, q)"
    using assms(1) by (auto simp: create_node_def rbind_Inr_iff)
  consider "bootstrap_node suppressed a st = Inr (code, t)"
    | p r where "parent = Some p" "q = Some r" "attach_node rep a p r st = Inr (code, t)"
    using assms(1) pq by (auto simp: create_node_def split: option.split_asm if_splits)
  then have "made s a code \<and> (attached s k code \<or> same_keys s k (pr_refs t) (pr_refs st))"
  proof cases
    case 1
    from bootstrap_node_text [OF 1 assms(2)] show ?thesis by simp
  next
    case 2
    then have "r \<in> set (refs s p) \<and> r_target (ref_at s r) = TNode a"
      using pq first_parent_refers by (simp add: getFirstParentNode_def Let_def same_graph_simps [OF assms(2), symmetric])
    with attach_node_text [OF 2(3) assms(2,3)] show ?thesis by simp
  qed
  then show "made s a code" and "attached s k code \<or> same_keys s k (pr_refs t) (pr_refs st)" by simp_all
qed

section \<open>The invariant\<close>

text \<open>
  A key whose target is not printed has all its references on the list.  Once the target is printed,
  the printed nodes have theirs stated, and at least those of the unprinted ones are on the list.
  Otherwise the server has added the reference together with a node.
\<close>

definition handled ::
    "opcua_namespace \<Rightarrow> nat list \<Rightarrow> nat set \<Rightarrow> nat list \<Rightarrow> string list \<Rightarrow> nat \<Rightarrow> nat \<Rightarrow> bool \<Rightarrow> bool" where
  "handled s nodes N qs code t ty f \<longleftrightarrow> attached s (TNode t, TNode ty, f) code \<or>
     (if t \<in> N then same_keys s (TNode t, TNode ty, f) qs (concat (map (refs s) nodes))
      else pending s nodes N (TNode t, TNode ty, f) \<le> key_count s (TNode t, TNode ty, f) qs \<and>
        (\<forall>b \<in> set nodes - N. b \<noteq> t \<longrightarrow> \<not> is_argument s b \<longrightarrow> (TNode t, TNode ty, f) \<in> ref_key s ` set (refs s b) \<longrightarrow>
           stated s b ty t f code))"

definition texts :: "opcua_namespace \<Rightarrow> nat list \<Rightarrow> printer \<Rightarrow> string list \<Rightarrow> bool" where
  "texts s nodes st code \<longleftrightarrow>
     (\<forall>a \<in> set nodes. a \<in> set (pr_nodes st) \<or> is_argument s a \<or> made s a code) \<and>
     (\<forall>t ty f. \<not> is_argument s t \<longrightarrow> handled s nodes (set (pr_nodes st)) (pr_refs st) code t ty f)"

lemma handled_grows [code_grows]: "handled s nodes N qs c t ty f \<Longrightarrow> handled s nodes N qs (x @ c @ y) t ty f"
  by (auto simp: handled_def intro: code_grows)

lemma texts_grows [code_grows]: "texts s nodes st c \<Longrightarrow> texts s nodes st (x @ c @ y)"
  by (simp add: texts_def) (blast intro: code_grows)

lemma pending_without:
  "a \<in> set nodes \<Longrightarrow> a \<in> S \<Longrightarrow> pending s nodes (S - {a}) k + key_count s k (refs s a) \<le> pending s nodes S k"
proof (induction nodes)
  case (Cons b nodes)
  have "pending s nodes (S - {a}) k \<le> pending s nodes S k" by (rule pending_mono) auto
  with Cons show ?case by (cases "a = b") (auto simp: pending_def)
qed simp

text \<open>Creating the node.\<close>

lemma create_node_handled:
  assumes "handled s nodes N qs code t ty f" and "\<not> is_argument s t"
    and N': "N' \<subseteq> N" "\<And>b. b \<in> N \<Longrightarrow> b \<notin> N' \<Longrightarrow> is_argument s b"
    and "attached s (TNode t, TNode ty, f) c \<or> same_keys s (TNode t, TNode ty, f) qs' qs"
  shows "handled s nodes N' qs' (code @ c) t ty f"
proof (cases "attached s (TNode t, TNode ty, f) (code @ c)")
  case False
  let ?k = "(TNode t, TNode ty, f)"
  have "\<not> attached s ?k code" "\<not> attached s ?k c" using False attached_grows [where x = "[]"] attached_grows [where y = "[]"] by auto
  then have h: "if t \<in> N then same_keys s ?k qs (concat (map (refs s) nodes))
      else pending s nodes N ?k \<le> key_count s ?k qs \<and>
        (\<forall>b \<in> set nodes - N. b \<noteq> t \<longrightarrow> \<not> is_argument s b \<longrightarrow> ?k \<in> ref_key s ` set (refs s b) \<longrightarrow> stated s b ty t f code)"
    and k: "same_keys s ?k qs' qs" using assms(1,5) by (simp_all add: handled_def)
  show ?thesis
  proof (cases "t \<in> N")
    case True
    with assms(2) N'(2) have "t \<in> N'" by blast
    with True h k same_keys_trans show ?thesis by (auto simp: handled_def)
  next
    case out: False
    with N'(1) have "t \<notin> N'" by blast
    moreover have "pending s nodes N' ?k \<le> key_count s ?k qs'"
      using pending_mono [OF N'(1), of s nodes ?k] h out same_keys_count [OF k] by simp
    moreover have "stated s b ty t f (code @ c)"
      if "b \<in> set nodes - N'" "b \<noteq> t" "\<not> is_argument s b" "?k \<in> ref_key s ` set (refs s b)" for b
      using that N'(2) h out stated_grows [where x = "[]"] by auto
    ultimately show ?thesis by (simp add: handled_def)
  qed
qed (simp add: handled_def)

text \<open>The references of the node itself: all with a printed target are stated.\<close>

lemma own_references_handled:
  assumes "own_references a st = Inr (c, st')" and g: "same_graph s (pr_ns st)"
    and a: "a \<in> set nodes" "a \<in> set (pr_nodes st)"
    and h: "handled s nodes (set (pr_nodes st)) (pr_refs st) code t ty f"
  shows "if t = a then handled s nodes (set (pr_nodes st)) (pr_refs st') (code @ c) t ty f
    else handled s nodes (set (pr_nodes st) - {a}) (pr_refs st') (code @ c) t ty f"
proof (cases "attached s (TNode t, TNode ty, f) (code @ c)")
  case False
  let ?k = "(TNode t, TNode ty, f)" and ?N = "set (pr_nodes st)"
  have "\<not> attached s ?k code" using False attached_grows [where x = "[]"] by auto
  then have h: "if t \<in> ?N then same_keys s ?k (pr_refs st) (concat (map (refs s) nodes))
      else pending s nodes ?N ?k \<le> key_count s ?k (pr_refs st) \<and>
        (\<forall>b \<in> set nodes - ?N. b \<noteq> t \<longrightarrow> \<not> is_argument s b \<longrightarrow> ?k \<in> ref_key s ` set (refs s b) \<longrightarrow> stated s b ty t f code)"
    using h by (simp add: handled_def)
  note gs = same_graph_simps [OF g] key_count_graph [OF g]
  let ?rs = "filter (\<lambda>r. \<not> target_unprinted (r_target (ref_at s r)) (pr_nodes st) \<and> ref_in s r (pr_refs st)) (refs s a)"
  have own: "print_references ''// This node has the following references that can be created:'' (\<lambda>_. a) ?rs st = Inr (c, st')"
    using assms(1) by (simp add: own_references_def Let_def gs)
  note said = print_references_text [OF own g]
  show ?thesis
  proof (cases "t \<in> ?N")
    case True
    then have "?k \<notin> ref_key s ` set ?rs" by (auto simp: ref_key_def target_unprinted_def split: target.splits)
    with said(2) have "same_keys s ?k (pr_refs st') (pr_refs st)" by (simp add: same_keys_def)
    with True h same_keys_trans show ?thesis by (auto simp: handled_def)
  next
    case out: False
    with a have "t \<noteq> a" by blast
    have count: "key_count s ?k (pr_refs st') + key_count s ?k ?rs = key_count s ?k (pr_refs st)"
      using print_references_facts(4) [OF own, of ?k] gs by simp
    note p = pending_without [OF a, of s ?k]
    have all: "filter (\<lambda>r. ref_key s r = ?k) ?rs = filter (\<lambda>r. ref_key s r = ?k) (refs s a)"
    proof (cases "key_count s ?k (refs s a) = 0")
      case True
      then show ?thesis by (auto simp: key_count_def filter_empty_conv)
    next
      case False
      with p h out have "0 < key_count s ?k (pr_refs st)" by simp
      then have "ref_in s r (pr_refs st)" if "ref_key s r = ?k" for r
        using that by (auto simp: key_count_pos ref_in_def list_ex_iff ref_eq_key)
      then show ?thesis using out by (auto simp: target_unprinted_def ref_key_def intro!: filter_cong)
    qed
    then have "key_count s ?k ?rs = key_count s ?k (refs s a)" by (simp only: key_count_def)
    with count p h out have "pending s nodes (?N - {a}) ?k \<le> key_count s ?k (pr_refs st')" by simp
    moreover have "stated s b ty t f (code @ c)"
      if b: "b \<in> set nodes - (?N - {a})" "b \<noteq> t" "\<not> is_argument s b" "?k \<in> ref_key s ` set (refs s b)" for b
    proof (cases "b = a")
      case True
      with b(4) obtain r where "r \<in> set (filter (\<lambda>r. ref_key s r = ?k) (refs s a))" by auto
      then have r: "r \<in> set ?rs" "ref_key s r = ?k" unfolding all [symmetric] by auto
      from said(1) [OF r(1)] r(2) True have "stated s b ty t f c" by (auto simp: ref_key_def)
      then show ?thesis using stated_grows [where y = "[]"] by simp
    next
      case False
      with b h out have "stated s b ty t f code" by auto
      then show ?thesis using stated_grows [where x = "[]"] by simp
    qed
    ultimately show ?thesis using out \<open>t \<noteq> a\<close> by (simp add: handled_def)
  qed
qed (auto simp: handled_def)

text \<open>The references that waited for the node.\<close>

lemma open_references_handled:
  assumes "open_references a st = Inr (c, st')" and g: "same_graph s (pr_ns st)"
    and own: "owned s" "set nodes \<subseteq> {..<length (node_heap s)}"
    and sub: "mset (pr_refs st) \<subseteq># mset (concat (map (refs s) nodes))" and a: "a \<in> set (pr_nodes st)"
    and h: "if t = a then handled s nodes (set (pr_nodes st)) (pr_refs st) code t ty f
      else handled s nodes (set (pr_nodes st) - {a}) (pr_refs st) code t ty f"
  shows "handled s nodes (set (pr_nodes st) - {a}) (pr_refs st') (code @ c) t ty f"
proof -
  let ?k = "(TNode t, TNode ty, f)" and ?n = "pr_nodes st"
  note gs = same_graph_simps [OF g] key_count_graph [OF g]
  let ?P = "\<lambda>r. r_target (ref_at s r) = TNode a \<and> \<not> parent_unprinted s r ?n \<and> r_parent (ref_at s r) \<noteq> None"
  have oref: "print_references ''//  Creating this node has resolved the following open references:''
      (\<lambda>r. the (r_parent (ref_at s r))) (filter ?P (pr_refs st)) st = Inr (c, st')"
    using assms(1) by (simp add: open_references_def Let_def gs)
  note said = print_references_text [OF oref g]
  show ?thesis
  proof (cases "t = a \<and> \<not> attached s ?k code")
    case False
    show ?thesis
    proof (cases "attached s ?k code")
      case True
      then show ?thesis using attached_grows [where x = "[]"] by (simp add: handled_def)
    next
      case un: False
      with False have "t \<noteq> a" by blast
      then have "?k \<notin> ref_key s ` set (filter ?P (pr_refs st))" by (auto simp: ref_key_def)
      with said(2) have k: "same_keys s ?k (pr_refs st') (pr_refs st)" by (simp add: same_keys_def)
      note code_follows(3) [intro]
      from h \<open>t \<noteq> a\<close> un k same_keys_count [OF k] same_keys_trans [OF k] show ?thesis
        by (auto simp: handled_def split: if_splits)
    qed
  next
    case True
    then have ta: "t = a" and k: "same_keys s ?k (pr_refs st) (concat (map (refs s) nodes))"
      using h a by (auto simp: handled_def)
    have parent: "r_parent (ref_at s r) = Some b" if "b \<in> set nodes" "r \<in> set (refs s b)" for r b
      using own that by (auto simp: owned_def)
    have some: "r_parent (ref_at s r) \<noteq> None" if "r \<in> set (pr_refs st)" for r
      using mset_subset_eqD [OF sub, of r] that parent by auto
    have "filter (\<lambda>r. ref_key s r = ?k) (filter (\<lambda>r. \<not> ?P r) (pr_refs st)) =
        filter (\<lambda>r. parent_unprinted s r ?n) (filter (\<lambda>r. ref_key s r = ?k) (pr_refs st))"
      unfolding filter_filter using ta by (intro filter_cong [OF refl]) (auto simp: ref_key_def dest!: some)
    also have "\<dots> = filter (\<lambda>r. ref_key s r = ?k) (filter (\<lambda>r. parent_unprinted s r ?n) (concat (map (refs s) nodes)))"
      using k by (simp add: same_keys_def conj_commute)
    finally have "key_count s ?k (filter (\<lambda>r. \<not> ?P r) (pr_refs st)) = pending s nodes (set ?n) ?k"
      unfolding pending_parents_all [OF own, symmetric] by (simp only: key_count_def)
    moreover have "key_count s ?k (pr_refs st') + key_count s ?k (filter ?P (pr_refs st)) = key_count s ?k (pr_refs st)"
      using print_references_facts(4) [OF oref, of ?k] gs by simp
    ultimately have "key_count s ?k (pr_refs st') = pending s nodes (set ?n) ?k"
      using key_count_filter [of s ?k ?P "pr_refs st"] by linarith
    moreover have "pending s nodes (set ?n - {a}) ?k \<le> pending s nodes (set ?n) ?k" by (rule pending_mono) auto
    moreover have "stated s b ty t f (code @ c)"
      if b: "b \<in> set nodes - (set ?n - {a})" "b \<noteq> t" "?k \<in> ref_key s ` set (refs s b)" for b
    proof -
      from b(3) obtain r where r: "r \<in> set (refs s b)" "ref_key s r = ?k" by force
      then have "r \<in> set (filter (\<lambda>r. ref_key s r = ?k) (concat (map (refs s) nodes)))" using b(1) by auto
      then have "r \<in> set (filter (\<lambda>r. ref_key s r = ?k) (pr_refs st))" using k by (simp only: same_keys_def)
      then have "r \<in> set (pr_refs st)" by simp
      moreover have "r_parent (ref_at s r) = Some b" using parent b(1) r(1) by simp
      ultimately have "r \<in> set (filter ?P (pr_refs st))"
        using r(2) b ta by (auto simp: ref_key_def parent_unprinted_def)
      from said(1) [OF this] r(2) \<open>r_parent (ref_at s r) = Some b\<close> have "stated s b ty t f c"
        by (auto simp: ref_key_def)
      then show ?thesis using stated_grows [where y = "[]"] by simp
    qed
    ultimately show ?thesis using ta by (auto simp: handled_def)
  qed
qed

text \<open>A method does not take itself off the list.\<close>

lemma create_node_keeps:
  assumes "create_node rep suppressed a st = Inr (code, t)" and "a \<in> set (pr_nodes st)"
  shows "a \<in> set (pr_nodes t)"
proof -
  have keep: "a \<in> set rest" if "getCreateNodeNoBootstrap rep a p q s nodes = Inr (c, u, rest)" "a \<in> set nodes" for p q s nodes c u rest
  proof (cases "is_argument s a")
    case True
    then have "nodetype (n_class (node_at s a)) = Some ''Variable''" by (simp add: is_argument_def nodetype_def)
    with that show ?thesis by (auto simp: getCreateNodeNoBootstrap_def rbind_Inr_iff Let_def)
  next
    case False
    with getCreateNodeNoBootstrap_frame [OF that(1)] that(2) show ?thesis by (auto dest: arguments_goneD(4))
  qed
  obtain parent q where "getFirstParentNode (pr_ns st) a = Inr (parent, q)"
    using assms(1) by (auto simp: create_node_def rbind_Inr_iff)
  then consider "bootstrap_node suppressed a st = Inr (code, t)" | p r where "attach_node rep a p r st = Inr (code, t)"
    using assms(1) by (auto simp: create_node_def split: option.split_asm if_splits)
  then show ?thesis
  proof cases
    case 1
    from bootstrap_node_text(3) [OF 1 same_graph_refl] assms(2) show ?thesis by simp
  next
    case (2 p r)
    then obtain c u rest where "getCreateNodeNoBootstrap rep a p r (pr_ns st) (pr_nodes st) = Inr (c, u, rest)" "pr_nodes t = rest"
      by (auto simp: attach_node_def rbind_Inr_iff Let_def split: target.split_asm)
    with keep assms(2) show ?thesis by blast
  qed
qed

lemma node_print_texts:
  assumes p: "printing s nodes st" and own: "owned s" "set nodes \<subseteq> {..<length (node_heap s)}"
    and T: "\<And>b. b \<in> set nodes \<Longrightarrow> nodetype (n_class (node_at s b)) \<noteq> None"
    and st': "node_printOpen62541CCode rep suppressed a st = Inr (c, st')" and h: "texts s nodes st code"
  shows "texts s nodes st' (code @ c)"
proof (cases "a \<in> set (pr_nodes st)")
  case False
  then show ?thesis using st' h by (simp add: node_printOpen62541CCode_def)
next
  case True
  then obtain c1 st1 c2 st2 c3 st3 where st1: "create_node rep suppressed a st = Inr (c1, st1)"
    and st2: "own_references a st1 = Inr (c2, st2)" and st3: "open_references a st2 = Inr (c3, st3)"
    and last: "st' = st3\<lparr>pr_nodes := remove1 a (pr_nodes st3)\<rparr>" and c: "c = [[], ''do {''] @ c1 @ c2 @ c3 @ [''} while(0);'']"
    using st' by (auto simp: node_printOpen62541CCode_def rbind_Inr_iff)
  have p1: "printing s nodes st1" by (rule printing_created [OF p create_node_le [OF st1]])
  have g: "same_graph s (pr_ns st)" "same_graph s (pr_ns st1)" using p p1 by (simp_all add: printing_def)
  note f2 = print_references_facts [OF st2 [unfolded own_references_def Let_def]]
  note f3 = print_references_facts [OF st3 [unfolded open_references_def Let_def]]
  have g2: "same_graph s (pr_ns st2)" using g f2(1) by simp
  have sub: "mset (pr_refs st2) \<subseteq># mset (concat (map (refs s) nodes))"
    using p1 f2(3) unfolding printing_def by (meson subset_mset.trans)
  have a: "a \<in> set nodes" using p True by (auto simp: printing_def)
  then obtain T where T: "nodetype (n_class (node_at s a)) = Some T" using T by blast
  have a1: "a \<in> set (pr_nodes st1)" by (rule create_node_keeps [OF st1 True])
  have "arguments_gone s (pr_nodes st) (pr_nodes st1)"
    using create_node_le [OF st1] same_graph_simps(4) [OF g(1)] by (simp add: printer_le_def arguments_gone_def)
  note gone = arguments_goneD(1) [OF this] arguments_goneD(4) [OF this]
  have nodes': "set (pr_nodes st') = set (pr_nodes st1) - {a}"
    using p1 f2(2) f3(2) last by (simp add: printing_def)
  show ?thesis unfolding texts_def
  proof (intro conjI ballI allI impI)
    fix b assume "b \<in> set nodes"
    moreover have "made s a (code @ c)"
      using made_grows [OF create_node_text(1) [OF st1 g(1) T], of "code @ [[], ''do {'']" "c2 @ c3 @ [''} while(0);'']"] by (simp add: c)
    moreover have "made s b code \<Longrightarrow> made s b (code @ c)" using made_grows [where x = "[]"] by simp
    ultimately show "b \<in> set (pr_nodes st') \<or> is_argument s b \<or> made s b (code @ c)"
      using h gone nodes' unfolding texts_def by blast
  next
    fix t ty f assume t: "\<not> is_argument s t"
    with h have "handled s nodes (set (pr_nodes st)) (pr_refs st) code t ty f" by (simp add: texts_def)
    from handled_grows [OF this, of "[]" "[[], ''do {'']"]
    have "handled s nodes (set (pr_nodes st)) (pr_refs st) (code @ [[], ''do {'']) t ty f" by simp
    then have "handled s nodes (set (pr_nodes st1)) (pr_refs st1) ((code @ [[], ''do {'']) @ c1) t ty f"
      by (rule create_node_handled [OF _ t gone create_node_text(2) [OF st1 g(1) T]])
    note own_references_handled [OF st2 g(2) a a1 this]
    from open_references_handled [OF st3 g2 own sub, unfolded f2(2), OF a1 this]
    have "handled s nodes (set (pr_nodes st')) (pr_refs st') ((((code @ [[], ''do {'']) @ c1) @ c2) @ c3) t ty f"
      unfolding nodes' by (simp add: last)
    from handled_grows [OF this, of "[]" "[''} while(0);'']"]
    show "handled s nodes (set (pr_nodes st')) (pr_refs st') (code @ c) t ty f" by (simp add: c)
  qed
qed

lemma print_nodes_texts:
  assumes "printing s nodes st" and "distinct nodes" and own: "owned s" "set nodes \<subseteq> {..<length (node_heap s)}"
    and T: "\<And>b. b \<in> set nodes \<Longrightarrow> nodetype (n_class (node_at s b)) \<noteq> None"
    and "print_nodes rep suppressed as (code, st) = Inr (code', st')" and "texts s nodes st code"
  shows "texts s nodes st' code'"
  using assms(1,6,7)
proof (induction as arbitrary: code st)
  case (Cons a as)
  then obtain c st1 where st1: "node_printOpen62541CCode rep suppressed a st = Inr (c, st1)"
    and rest: "print_nodes rep suppressed as (code @ c, st1) = Inr (code', st')"
    by (auto simp: print_nodes_def rbind_Inr_iff)
  from node_print_printing [OF Cons.prems(1) assms(2) own st1]
  show ?case by (intro Cons.IH [OF _ rest] node_print_texts [OF Cons.prems(1) own T st1 Cons.prems(3)]) simp
qed (simp add: print_nodes_def)

text \<open>The start: all nodes and references are on the lists.\<close>

lemma list_references_keys:
  assumes "foldM (list_reference s) xs qs = Inr qs'" and "\<And>r. r \<in> set xs \<Longrightarrow> r_parent (ref_at s r) \<noteq> None"
  shows "same_keys s (TNode t, ty, f) qs' (qs @ xs)"
  using assms
proof (induction xs arbitrary: qs)
  case (Cons r xs)
  then obtain qs1 where qs1: "list_reference s r qs = Inr qs1" and rest: "foldM (list_reference s) xs qs1 = Inr qs'"
    by (auto simp: rbind_Inr_iff)
  have "same_keys s (TNode t, ty, f) qs1 (qs @ [r])"
    using qs1 Cons.prems(2) [of r] by (auto simp: list_reference_def same_keys_def ref_key_def split: target.split_asm)
  with Cons.IH [OF rest Cons.prems(2)] show ?case by (simp add: same_keys_def)
qed simp

lemma initial_texts:
  assumes "initial_printer externally s = Inr st" and own: "owned s" "set (ns_nodes s) \<subseteq> {..<length (node_heap s)}"
  shows "texts s (filter (\<lambda>a. a \<notin> set externally) (ns_nodes s)) st []"
proof -
  let ?nodes = "filter (\<lambda>a. a \<notin> set externally) (ns_nodes s)"
  obtain qs where qs: "unprinted_references s ?nodes = Inr qs" and st: "st = \<lparr>pr_ns = s, pr_nodes = ?nodes, pr_refs = qs\<rparr>"
    using assms(1) by (auto simp: initial_printer_def rbind_Inr_iff Let_def)
  have "same_keys s (TNode t, ty, f) qs' (qs0 @ concat (map (refs s) nodes))"
    if "foldM (\<lambda>a. foldM (list_reference s) (refs s a)) nodes qs0 = Inr qs'" "set nodes \<subseteq> set ?nodes" for t ty f qs0 qs' nodes
    using that
  proof (induction nodes arbitrary: qs0)
    case (Cons a nodes)
    then obtain qs1 where qs1: "foldM (list_reference s) (refs s a) qs0 = Inr qs1"
      and rest: "foldM (\<lambda>a. foldM (list_reference s) (refs s a)) nodes qs1 = Inr qs'"
      by (auto simp: rbind_Inr_iff)
    have "r_parent (ref_at s r) \<noteq> None" if "r \<in> set (refs s a)" for r
      using own Cons.prems(2) that by (auto simp: owned_def)
    note list_references_keys [OF qs1 this, of t ty f]
    with Cons.IH [OF rest] Cons.prems(2) show ?case by (simp add: same_keys_def)
  qed simp
  from this [OF qs [unfolded unprinted_references_def] subset_refl]
  have k: "same_keys s (TNode t, ty, f) qs (concat (map (refs s) ?nodes))" for t ty f by simp
  have "pending s ?nodes (set ?nodes) (TNode t, ty, f) \<le> key_count s (TNode t, ty, f) qs" for t ty f
    unfolding same_keys_count [OF k] pending_all by simp
  with k show ?thesis by (auto simp: texts_def handled_def st)
qed

lemma print_all_texts:
  assumes "print_all rep suppressed s st0 = Inr (code, st)" and "initial_printer externally s = Inr st0" and c: "connected s"
  defines "nodes \<equiv> filter (\<lambda>a. a \<notin> set externally) (ns_nodes s)"
  shows "texts s nodes st code \<and> pr_nodes st = []"
proof -
  obtain used c1 st1 c2 st2 c3 where st1: "print_nodes rep [] used ([], st0) = Inr (c1, st1)"
    and st2: "print_nodes rep suppressed (ns_nodes s) (c1, st1) = Inr (c2, st2)"
    and st3: "print_leftovers st2 = Inr (c3, st)" and code: "code = c2 @ c3"
    using assms(1) by (auto simp: print_all_def rbind_Inr_iff)
  have s: "owned s" "set (ns_nodes s) \<subseteq> {..<length (node_heap s)}" "distinct (ns_nodes s)"
    using c by (simp_all add: connected_def closed_space_def)
  note i = initial_printing [OF assms(2) s(3), folded nodes_def]
  have own: "owned s" "set nodes \<subseteq> {..<length (node_heap s)}" using s i(3) by auto
  have T: "nodetype (n_class (node_at s b)) \<noteq> None" if "b \<in> set nodes" for b
    using nodetype_some [OF c, of b] that i(3) by auto
  note p1 = print_nodes_printing [OF i(1,2) own st1]
  note p2 = print_nodes_printing [OF p1 [THEN conjunct1] i(2) own st2]
  have "texts s nodes st1 c1"
    by (rule print_nodes_texts [OF i(1,2) own T st1 initial_texts [OF assms(2) s(1,2), folded nodes_def]])
  from print_nodes_texts [OF p1 [THEN conjunct1] i(2) own T st2 this] have "texts s nodes st2 c2" .
  moreover have "set (pr_nodes st1) \<subseteq> set (ns_nodes s)" using p1 i(3) unfolding printing_def by blast
  then have "set (pr_nodes st2) \<subseteq> {}" using p2 by blast
  then have "pr_nodes st2 = []" by simp
  ultimately show ?thesis using st3 print_leftovers_none code by auto
qed

section \<open>Properties\<close>

text \<open>C6: when the code is made for a namespace read from any files, it creates every node but the
  ignored ones and the argument variables of methods: it adds the node below its parent or puts it
  into the node store.  And for every reference of such a node to another one that is no argument
  variable there is a call that adds it, unless a reference that says the same comes with a node that
  is added below its parent.\<close>

theorem all_references_printed:
  assumes "read_files ord env roots = Inr s" and "linkOpenPointers s = Inr t" and "ns_sanitize t = Inr (u, l)"
    and "buildEncodingRules ord (ns_nodes u) u = Some (Inr v)" and "allocateVariables env v = Inr w"
    and "printOpen62541Header rep walk externally suppressed out w = Inr (header, code, st)"
  shows "\<forall>b \<in> set (ns_nodes w) - set externally. \<not> is_argument w b \<longrightarrow> made w b code \<and>
    (\<forall>r \<in> set (refs w b). \<exists>t ty. r_target (ref_at w r) = TNode t \<and> r_type (ref_at w r) = TNode ty \<and>
      (t = b \<or> is_argument w t \<or> stated w b ty t (r_forward (ref_at w r)) code \<or> attached w (ref_key w r) code))"
proof -
  have conn: "connected w" by (rule ordered_connected [OF assms(1-5)])
  then have closed: "closed_space w" by (simp add: connected_def)
  obtain z st0 code' where z: "reorderNodesMinDependencies w = Inr z" and st0: "initial_printer externally z = Inr st0"
    and st: "print_all rep suppressed z st0 = Inr (code', st)"
    and lines: "code = (code_start out @ concat (map (addNamespace_code (namespaceIdentifiers z)) (walk (namespaceIdentifiers z)))) @
      code' @ [''return UA_STATUSCODE_GOOD;'', ''}'']"
    using assms(6) by (auto simp: printOpen62541Header_def rbind_Inr_iff)
  from lines obtain x y where code: "code = x @ code' @ y" by blast
  obtain order where order: "z = w\<lparr>ns_nodes := order\<rparr>" "mset order = mset (ns_nodes w)"
    using z reorder_greedy [OF closed] greedy_mset
    by (auto simp: reorderNodesMinDependencies_def reference_types_result split: if_splits)
  note zc = connected_order [OF conn order(2)]
  have "same_graph w z" using order(1) by (simp add: same_graph_def)
  note g = same_graph_simps [OF this] same_graph_text [OF this]
  note all = print_all_texts [OF st st0 zc(1) [folded order(1)]]
  show ?thesis
  proof (intro ballI impI conjI)
    fix b assume b: "b \<in> set (ns_nodes w) - set externally" "\<not> is_argument w b"
    then have node: "b \<in> set (filter (\<lambda>a. a \<notin> set externally) (ns_nodes z))" using zc(2) order(1) by simp
    then have "made w b code'" using all b(2) g unfolding texts_def by auto
    then show "made w b code" unfolding code by (rule made_grows)
    fix r assume r: "r \<in> set (refs w b)"
    then obtain t ty where t: "r_target (ref_at w r) = TNode t" "r_type (ref_at w r) = TNode ty"
      using connectedD(2,3) [OF conn _ r] b(1) by blast
    then have k: "ref_key w r = (TNode t, TNode ty, r_forward (ref_at w r))" by (simp add: ref_key_def)
    have "t = b \<or> is_argument w t \<or> stated w b ty t (r_forward (ref_at w r)) code' \<or> attached w (ref_key w r) code'"
    proof (cases "is_argument w t")
      case False
      have "handled z (filter (\<lambda>a. a \<notin> set externally) (ns_nodes z)) (set (pr_nodes st)) (pr_refs st) code' t ty (r_forward (ref_at w r))"
        using all [THEN conjunct1] False unfolding texts_def g by blast
      then have "handled z (filter (\<lambda>a. a \<notin> set externally) (ns_nodes z)) {} (pr_refs st) code' t ty (r_forward (ref_at w r))"
        using all by simp
      then have "attached w (ref_key w r) code' \<or> (\<forall>b \<in> set (filter (\<lambda>a. a \<notin> set externally) (ns_nodes z)). b \<noteq> t \<longrightarrow>
          \<not> is_argument w b \<longrightarrow> ref_key w r \<in> ref_key w ` set (refs w b) \<longrightarrow> stated w b ty t (r_forward (ref_at w r)) code')"
        unfolding handled_def g k by simp blast
      moreover have "ref_key w r \<in> ref_key w ` set (refs w b)" using r by (rule imageI)
      ultimately show ?thesis using node b(2) by metis
    qed simp
    then have "t = b \<or> is_argument w t \<or> stated w b ty t (r_forward (ref_at w r)) code \<or> attached w (ref_key w r) code"
      unfolding code using stated_grows attached_grows by blast
    with t show "\<exists>t ty. r_target (ref_at w r) = TNode t \<and> r_type (ref_at w r) = TNode ty \<and>
      (t = b \<or> is_argument w t \<or> stated w b ty t (r_forward (ref_at w r)) code \<or> attached w (ref_key w r) code)" by blast
  qed
qed

text \<open>The pump is added below its folder, which is put into the node store.\<close>

definition demo_printed :: "opcua_namespace \<Rightarrow> opcua_namespace \<Rightarrow> bool" where
  "demo_printed u w \<longleftrightarrow> list_all (\<lambda>a. \<not> is_variable (node_at w a)) (ns_nodes w) \<and> ns_nodes w = [0, 1, 2] \<and>
     \<not> is_argument w 1 \<and> \<not> is_argument w 2 \<and> refs w 1 = [1] \<and> ref_key w 1 = (TNode 2, TNode 0, True) \<and>
     (case printOpen62541Header (\<lambda>_. []) (\<lambda>_. []) [] [] ''model'' w of
        Inl _ \<Rightarrow> False
      | Inr (header, code, st) \<Rightarrow> stored w 1 code \<and> ''UA_NodeId parentNodeId = UA_NODEID_NUMERIC(0, 85);'' \<in> set code)"

lemma demo_printed: "checked_run demo_set demo_printed"
  by code_simp

corollary all_references_printed_witness:
  "\<exists>s t u l v header code st. read_files id demo_env [demo_set] = Inr s \<and> linkOpenPointers s = Inr t \<and>
     ns_sanitize t = Inr (u, l) \<and> buildEncodingRules id (ns_nodes u) u = Some (Inr v) \<and> allocateVariables demo_env v = Inr v \<and>
     printOpen62541Header (\<lambda>_. []) (\<lambda>_. []) [] [] ''model'' v = Inr (header, code, st) \<and>
     stored v 1 code \<and> ''UA_NodeId parentNodeId = UA_NODEID_NUMERIC(0, 85);'' \<in> set code \<and>
     made v 1 code \<and> made v 2 code \<and> (stated v 1 0 2 True code \<or> attached v (TNode 2, TNode 0, True) code)"
proof -
  obtain s t u l v where v: "read_files id demo_env [demo_set] = Inr s" "linkOpenPointers s = Inr t"
    "ns_sanitize t = Inr (u, l)" "buildEncodingRules id (ns_nodes u) u = Some (Inr v)"
    and "demo_printed u v" by (rule checked_runE [OF demo_printed])
  note w = this(5) [unfolded demo_printed_def]
  have al: "allocateVariables demo_env v = Inr v" by (rule no_variables) (rule w [THEN conjunct1])
  have n: "ns_nodes v = [0, 1, 2]" "\<not> is_argument v 1" "\<not> is_argument v 2" "refs v 1 = [1]" "ref_key v 1 = (TNode 2, TNode 0, True)"
    using w by blast+
  obtain header code st where p: "printOpen62541Header (\<lambda>_. []) (\<lambda>_. []) [] [] ''model'' v = Inr (header, code, st)"
    using w by (cases "printOpen62541Header (\<lambda>_. []) (\<lambda>_. []) [] [] ''model'' v") auto
  have lines: "stored v 1 code \<and> ''UA_NodeId parentNodeId = UA_NODEID_NUMERIC(0, 85);'' \<in> set code"
    using w unfolding p sum.case prod.case by (elim conjE) (rule conjI)
  note all = all_references_printed [OF v al p]
  have "made v 1 code" "made v 2 code" using all n(1-3) by auto
  moreover have "stated v 1 0 2 True code \<or> attached v (TNode 2, TNode 0, True) code"
    using all n by (auto simp: ref_key_def)
  ultimately show ?thesis using v al p lines by blast
qed

text \<open>
  What is left: the set with the reference to itself.  At the end it is still on the list, and no call
  adds it.
\<close>

definition loop_printed :: "opcua_namespace \<Rightarrow> opcua_namespace \<Rightarrow> bool" where
  "loop_printed u w \<longleftrightarrow>
     (case printOpen62541Header (\<lambda>_. []) (\<lambda>_. []) [] [] ''model'' w of
        Inl _ \<Rightarrow> False
      | Inr (header, code, st) \<Rightarrow> pr_refs st = [0] \<and> r_target (ref_at w 0) = TNode 1 \<and> r_parent (ref_at w 0) = Some 1 \<and>
          \<not> stated w 1 0 1 True code)"

lemma loop_run: "checked_run loop_set loop_printed"
  by code_simp

end
