(* ===== verification/Macro_Facts.thy ===== *)
theory Macro_Facts
  imports Namespace_Print
begin

text \<open>
  The names defined in the header, the attributes that can be suppressed, and the lists of node ids
  given to the script.
\<close>

section \<open>Replacing single characters\<close>

lemma replace_char: "replace_all [c] t s = concat (map (\<lambda>d. if d = c then t else [d]) s)"
  by (induction s) auto

lemma replace_char_one: "replace_all [c] [d] s = map (\<lambda>e. if e = c then d else e) s"
  by (induction s) auto

lemma remove_char: "replace_all [c] [] s = filter (\<lambda>d. d \<noteq> c) s"
  by (induction s) auto

section \<open>Names in the header\<close>

lemma substitutePunctuation_map:
  "substitutePunctuationCharacters t = map (\<lambda>c. if c \<in> set punctuation then CHR ''_'' else c) t"
proof -
  have "fold (\<lambda>c t. if c = CHR ''_'' then t else replace_all [c] ''_'' t) cs t =
      map (\<lambda>c. if c \<in> set cs then CHR ''_'' else c) t" for cs t
    by (induction cs arbitrary: t) (auto simp: replace_char_one)
  then show ?thesis by (simp add: substitutePunctuationCharacters_def)
qed

text \<open>A character the header may not have in a name.\<close>

definition illegal :: "char \<Rightarrow> bool" where
  "illegal c \<longleftrightarrow> c \<in> set punctuation \<and> c \<noteq> CHR ''_''"

lemma legal_substituted: "list_all (\<lambda>c. \<not> illegal c) (substitutePunctuationCharacters t)"
  by (auto simp: substitutePunctuation_map list_all_iff illegal_def)

lemma legal_numbered: "list_all (\<lambda>c. \<not> illegal c) name \<Longrightarrow> list_all (\<lambda>c. \<not> illegal c) (numbered name k)"
proof -
  have digits: "list_all (\<lambda>d. \<not> illegal (digit_char d)) [0..<10]" by code_simp
  have "\<not> illegal c" if c: "c \<in> set (nat_str 10 k)" for c
  proof -
    obtain d where "d < 10" "c = digit_char d" using nat_str_chars [of 10 c k] c by auto
    then show ?thesis using digits by (simp add: list_all_iff)
  qed
  moreover assume "list_all (\<lambda>c. \<not> illegal c) name"
  ultimately show ?thesis by (auto simp: numbered_def list_all_iff illegal_def)
qed

text \<open>The number that is found makes the name new; all smaller ones were taken.\<close>

lemma extended_number_facts:
  assumes "\<forall>j. 1 \<le> j \<longrightarrow> j < k \<longrightarrow> numbered name j \<in> set names" and "1 \<le> k"
  shows "numbered name (extended_number names name k) \<notin> set names \<and> 1 \<le> extended_number names name k \<and>
    (\<forall>j. 1 \<le> j \<longrightarrow> j < extended_number names name k \<longrightarrow> numbered name j \<in> set names)"
  using assms
proof (induction names name k rule: extended_number.induct)
  case (1 names name k)
  show ?case
  proof (cases "numbered name k \<in> set names")
    case True
    then have "extended_number names name k = extended_number names name (Suc k)" by (subst extended_number.simps) simp
    moreover have "\<forall>j. 1 \<le> j \<longrightarrow> j < Suc k \<longrightarrow> numbered name j \<in> set names" using 1 True by (auto simp: less_Suc_eq)
    ultimately show ?thesis using 1 True by simp
  next
    case False
    then have "extended_number names name k = k" by (subst extended_number.simps) simp
    with False 1 show ?thesis by simp
  qed
qed

lemma extended_number_bound:
  assumes "name \<in> set names"
  shows "extended_number names name 1 \<le> length names"
proof -
  let ?k = "extended_number names name 1"
  have taken: "1 \<le> ?k" "\<forall>j. 1 \<le> j \<longrightarrow> j < ?k \<longrightarrow> numbered name j \<in> set names"
    using extended_number_facts [of 1 name names] by auto
  have "inj_on (numbered name) {1..<?k}" by (auto simp: inj_on_def intro: numbered_inj)
  then have "card (numbered name ` {1..<?k}) = ?k - 1" by (simp add: card_image)
  moreover have "name \<notin> numbered name ` {1..<?k}" by (auto simp: numbered_def)
  ultimately have "card (insert name (numbered name ` {1..<?k})) = ?k" using taken(1) by simp
  moreover have "insert name (numbered name ` {1..<?k}) \<subseteq> set names" using taken(2) assms by auto
  ultimately have "?k \<le> card (set names)" by (metis card_mono finite_set)
  then show ?thesis using card_length le_trans by blast
qed

section \<open>Properties\<close>

text \<open>C35: the name defined for the id of a node is new among the names defined before and has no
  punctuation but underscores.  It is the name of the node, or that with a number behind it which is
  at most the number of names defined before.\<close>

theorem defined_name_bounds:
  assumes "distinct names"
  shows "\<exists>name. getNodeIdDefineString n names =
      ([''#define UA_NS'' @ int_str (id_ns (n_id n)) @ ''ID_'' @ str_upper name @ '' '' @ opt_int_str (id_i (n_id n))], names @ [name]) \<and>
    distinct (names @ [name]) \<and> list_all (\<lambda>c. \<not> illegal c) name \<and>
    (let base = substitutePunctuationCharacters (name_of_browseName (n_browseName n)) in
     name = base \<or> (\<exists>k. 1 \<le> k \<and> k \<le> length names \<and> name = base @ ''_'' @ nat_str 10 k))"
proof -
  let ?base = "substitutePunctuationCharacters (name_of_browseName (n_browseName n))"
  let ?name = "symbolic_name names (n_browseName n)"
  have "?name \<notin> set names \<and> list_all (\<lambda>c. \<not> illegal c) ?name \<and>
      (?name = ?base \<or> (\<exists>k. 1 \<le> k \<and> k \<le> length names \<and> ?name = numbered ?base k))"
  proof (cases "?base \<in> set names")
    case True
    then have name: "?name = numbered ?base (extended_number names ?base 1)" by (simp add: symbolic_name_def Let_def)
    have "numbered ?base (extended_number names ?base 1) \<notin> set names" "1 \<le> extended_number names ?base 1"
      using extended_number_facts [of 1 ?base names] by auto
    then show ?thesis
      using extended_number_bound [OF True] legal_numbered [OF legal_substituted] unfolding name by blast
  qed (use legal_substituted in \<open>simp add: symbolic_name_def Let_def\<close>)
  then show ?thesis
    using assms by (intro exI [of _ ?name]) (auto simp: getNodeIdDefineString_def numbered_def Let_def)
qed

text \<open>Three methods with names that become the same.\<close>

corollary defined_name_bounds_witness:
  "distinct [''Set_Point'', ''Stop''] \<and>
   getNodeIdDefineString (node_init (empty_id\<lparr>id_i := Some 7, id_ns := 2\<rparr>) new_method\<lparr>n_browseName := ''2:Set-Point''\<rparr>)
       [''Set_Point'', ''Stop''] = ([''#define UA_NS2ID_SET_POINT_1 7''], [''Set_Point'', ''Stop'', ''Set_Point_1'']) \<and>
   distinct (snd (getNodeIdDefineString (node_init (empty_id\<lparr>id_i := Some 7, id_ns := 2\<rparr>) new_method\<lparr>n_browseName := ''2:Set-Point''\<rparr>)
       [''Set_Point'', ''Stop'']))"
proof -
  let ?n = "node_init (empty_id\<lparr>id_i := Some 7, id_ns := 2\<rparr>) new_method\<lparr>n_browseName := ''2:Set-Point''\<rparr>"
  have d: "distinct [''Set_Point'', ''Stop'']" by simp
  obtain l name where "getNodeIdDefineString ?n [''Set_Point'', ''Stop''] = (l, [''Set_Point'', ''Stop''] @ [name])"
    "distinct ([''Set_Point'', ''Stop''] @ [name])"
    using defined_name_bounds [OF d, of ?n] by blast
  moreover have "getNodeIdDefineString ?n [''Set_Point'', ''Stop''] =
      ([''#define UA_NS2ID_SET_POINT_1 7''], [''Set_Point'', ''Stop'', ''Set_Point_1''])" by code_simp
  ultimately show ?thesis using d by simp
qed

text \<open>
  Two names that differ in case only are both new, and the header defines the same macro twice.
\<close>

lemma defined_twice:
  assumes "symbolic_name names (n_browseName n) = a" and "symbolic_name (names @ [a]) (n_browseName m) = b"
    and "str_upper a = str_upper b" and "id_ns (n_id n) = id_ns (n_id m)"
  shows "\<exists>macro. fst (getNodeIdDefineString n names) = [''#define '' @ macro @ '' '' @ opt_int_str (id_i (n_id n))] \<and>
    fst (getNodeIdDefineString m (snd (getNodeIdDefineString n names))) =
      [''#define '' @ macro @ '' '' @ opt_int_str (id_i (n_id m))]"
  using assms by (intro exI [of _ "''UA_NS'' @ int_str (id_ns (n_id n)) @ ''ID_'' @ str_upper a"])
    (simp add: getNodeIdDefineString_def Let_def)

text \<open>Of the attributes the script lets the user suppress, only the description and the node id
  are: the other names are compared in lower case with names that are not.\<close>

theorem suppressed_attributes:
  assumes "set suppressed \<subseteq> {''description'', ''browseName'', ''displayName'', ''writeMask'', ''userWriteMask'', ''nodeid''}"
  shows "getCreateNodeBootstrap suppressed n =
    getCreateNodeBootstrap (filter (\<lambda>x. x = ''description'' \<or> x = ''nodeid'') suppressed) n"
proof -
  have "''browsename'' \<notin> set suppressed" "''displayname'' \<notin> set suppressed" "''writemask'' \<notin> set suppressed"
    "''userwritemask'' \<notin> set suppressed" using assms by auto
  then show ?thesis
    by (simp add: getCreateNodeBootstrap_def bootstrap_attributes_def Let_def split: option.split)
qed

corollary suppressed_attributes_witness:
  "getCreateNodeBootstrap [''browseName'', ''nodeid''] (node_init empty_id new_object) =
     getCreateNodeBootstrap [''nodeid''] (node_init empty_id new_object) \<and>
   getCreateNodeBootstrap [''nodeid''] (node_init empty_id new_object) \<noteq>
     getCreateNodeBootstrap [] (node_init empty_id new_object)"
proof
  show "getCreateNodeBootstrap [''browseName'', ''nodeid''] (node_init empty_id new_object) =
      getCreateNodeBootstrap [''nodeid''] (node_init empty_id new_object)"
    using suppressed_attributes [of "[''browseName'', ''nodeid'']"] by simp
  show "getCreateNodeBootstrap [''nodeid''] (node_init empty_id new_object) \<noteq>
      getCreateNodeBootstrap [] (node_init empty_id new_object)" by code_simp
qed

text \<open>C36: lines of a blacklist that end as lines do remove no node, as no id has a line break.\<close>

theorem blacklist_removes_nothing:
  assumes "\<forall>line \<in> set lines. \<exists>t. line = t @ newline"
    and "\<forall>a \<in> set (ns_nodes s). char_of (10::nat) \<notin> set (id_str (n_id (node_at s a)))"
  shows "foldM blacklist_line lines s = Inr s"
proof -
  have "blacklist_line (t @ newline) s = Inr s" for t
  proof -
    have "char_of (10::nat) \<noteq> CHR '' ''" by code_simp
    then have "char_of (10::nat) \<in> set (no_spaces (t @ newline))" by (simp add: no_spaces_def newline_def remove_char)
    then have "ns_getNodeByIDString s (no_spaces (t @ newline)) = None"
      using assms(2) by (auto simp: ns_getNodeByIDString_def find_None_iff)
    then show ?thesis by (simp add: blacklist_line_def removeNodeById_def split: option.split)
  qed
  with assms(1) show ?thesis by (induction lines) auto
qed

text \<open>A namespace with one object, and a blacklist of its id.\<close>

definition one_object :: opcua_namespace where
  "one_object = namespace_init\<lparr>node_heap := [node_init (empty_id\<lparr>id_i := Some 85, mystrname := ''i=85''\<rparr>) new_object], ns_nodes := [0]\<rparr>"

corollary blacklist_removes_nothing_witness:
  "foldM blacklist_line [''i=85'' @ newline] one_object = Inr one_object \<and>
   blacklist_line ''i=85'' one_object = Inr (one_object\<lparr>ns_nodes := []\<rparr>)"
proof
  have "list_all (\<lambda>a. char_of (10::nat) \<notin> set (id_str (n_id (node_at one_object a)))) (ns_nodes one_object)" by code_simp
  then show "foldM blacklist_line [''i=85'' @ newline] one_object = Inr one_object"
    by (intro blacklist_removes_nothing) (auto simp: list_all_iff)
  have "ns_getNodeByIDString one_object (no_newline (no_spaces ''i=85'')) = Some 0"
    "ns_getNodeByIDString one_object (no_spaces ''i=85'') = Some 0" by code_simp+
  then show "blacklist_line ''i=85'' one_object = Inr (one_object\<lparr>ns_nodes := []\<rparr>)"
    by (simp add: blacklist_line_def removeNodeById_def) (simp add: one_object_def node_init_def nodeClass_def new_object_def)
qed

end
