(* ===== verification/Form_Panel.thy ===== *)
theory Form_Panel
  imports Map_Parse
begin

text \<open>
  The settings part of the generator's window and its three setting dialogs, of
  tools/mapfileGenerator/ctk\_opcua\_generator\_tools/generatorForm.py.  A window is the record
  of what its handlers read from the widgets; a handler takes the record and the
  configuration it works on.  A widget that is given the value it has emits no signal, so
  that no handler runs.
\<close>

section \<open>The panel\<close>

text \<open>The widgets above the tree, and which of them are enabled.\<close>

record panel =
  w_userName :: string
  w_password :: string
  w_applicationName :: string
  w_rootFolder :: string
  w_applicationDescription :: string
  w_port :: int
  w_logLevel :: string
  w_useBoolAsVoid :: bool
  w_enableLogin :: bool
  w_enableEncryption :: bool
  w_loginFields :: bool
  w_configureEncryption :: bool

text \<open>
  The panel \<open>setupUi\<close> makes.  The combo box shows its first entry; the level is chosen while the
  entries have no texts yet, so that choosing it has no effect.
\<close>

definition initial_panel :: panel where
  "initial_panel = \<lparr>w_userName = [], w_password = [], w_applicationName = [], w_rootFolder = [],
     w_applicationDescription = [], w_port = 16664, w_logLevel = ''TRACE'', w_useBoolAsVoid = False,
     w_enableLogin = False, w_enableEncryption = False, w_loginFields = False,
     w_configureEncryption = False\<rparr>"

text \<open>\<open>setValue\<close> of a spin box with the range \<open>low\<close> to \<open>high\<close>.\<close>

definition spin_value :: "int \<Rightarrow> int \<Rightarrow> int \<Rightarrow> int" where
  "spin_value low high n = max low (min high n)"

definition port_value :: "int \<Rightarrow> int" where
  "port_value = spin_value 0 99999"

text \<open>The new content of a control that had the content \<open>old\<close>.\<close>

definition blockAndSetTextBox :: "string option \<Rightarrow> string \<Rightarrow> string" where
  "blockAndSetTextBox v old = (case v of None \<Rightarrow> old | Some t \<Rightarrow> t)"

definition bockAndSetValue :: "int option \<Rightarrow> int \<Rightarrow> int" where
  "bockAndSetValue v old = (case v of None \<Rightarrow> old | Some n \<Rightarrow> port_value n)"

definition blockAndSetCheckbox :: "bool \<Rightarrow> bool" where
  "blockAndSetCheckbox v = (if v = True then True else False)"

text \<open>
  \<open>_fillConfig\<close>.  It compares the widget of the root folder with \<open>None\<close>, which it never is, so
  that the root folder is always shown in its own widget.
\<close>

definition fillConfig :: "'a config_scheme \<Rightarrow> panel \<Rightarrow> panel" where
  "fillConfig g p = p
     \<lparr>w_enableEncryption := blockAndSetCheckbox (encryptionEnabled g),
      w_enableLogin := blockAndSetCheckbox (enableLogin g), w_configureEncryption := encryptionEnabled g, w_loginFields := enableLogin g,
      w_userName := blockAndSetTextBox (username g) (w_userName p),
      w_password := blockAndSetTextBox (password g) (w_password p),
      w_useBoolAsVoid := blockAndSetCheckbox (useBoolAsVoid g),
      w_applicationName := blockAndSetTextBox (applicationName g) (w_applicationName p),
      w_applicationDescription := applicationDescription g,
      w_port := bockAndSetValue (cfg_port g) (w_port p),
      w_rootFolder := blockAndSetTextBox (rootFolder g) (w_rootFolder p),
      w_logLevel := (if logLevel g \<in> set log_levels then logLevel g else w_logLevel p)\<rparr>"

text \<open>\<open>updateConfig\<close>, the handler of most widgets, takes over the content of all of them.\<close>

definition updateConfig :: "panel \<Rightarrow> 'a config_scheme \<Rightarrow> 'a config_scheme" where
  "updateConfig p g = g
     \<lparr>username := Some (w_userName p), password := Some (w_password p),
      applicationName := Some (w_applicationName p), rootFolder := Some (w_rootFolder p),
      applicationDescription := w_applicationDescription p, cfg_port := Some (w_port p),
      logLevel := w_logLevel p, useBoolAsVoid := w_useBoolAsVoid p\<rparr>"

definition enableLogin_changed :: "bool \<Rightarrow> panel \<times> 'a config_scheme \<Rightarrow> panel \<times> 'a config_scheme" where
  "enableLogin_changed b pg = ((fst pg)\<lparr>w_loginFields := b\<rparr>, (snd pg)\<lparr>enableLogin := b\<rparr>)"

definition encryption_changed :: "panel \<times> 'a config_scheme \<Rightarrow> panel \<times> 'a config_scheme" where
  "encryption_changed pg =
     ((fst pg)\<lparr>w_configureEncryption := w_enableEncryption (fst pg)\<rparr>,
      (snd pg)\<lparr>encryptionEnabled := w_enableEncryption (fst pg)\<rparr>)"

text \<open>What the user can do to the panel.  A level is chosen by its position in the combo box.\<close>

datatype panel_edit =
    UserName string
  | Password string
  | ApplicationName string
  | RootFolder string
  | ApplicationDescription string
  | Port int
  | LogLevel nat
  | UseBoolAsVoid bool
  | EnableLogin bool
  | EnableEncryption bool

fun show_edit :: "panel_edit \<Rightarrow> panel \<Rightarrow> panel" where
  "show_edit (UserName t) p = p\<lparr>w_userName := t\<rparr>"
| "show_edit (Password t) p = p\<lparr>w_password := t\<rparr>"
| "show_edit (ApplicationName t) p = p\<lparr>w_applicationName := t\<rparr>"
| "show_edit (RootFolder t) p = p\<lparr>w_rootFolder := t\<rparr>"
| "show_edit (ApplicationDescription t) p = p\<lparr>w_applicationDescription := t\<rparr>"
| "show_edit (Port n) p = p\<lparr>w_port := port_value n\<rparr>"
| "show_edit (LogLevel k) p = (if k < length log_levels then p\<lparr>w_logLevel := log_levels ! k\<rparr> else p)"
| "show_edit (UseBoolAsVoid b) p = p\<lparr>w_useBoolAsVoid := b\<rparr>"
| "show_edit (EnableLogin b) p = p\<lparr>w_enableLogin := b\<rparr>"
| "show_edit (EnableEncryption b) p = p\<lparr>w_enableEncryption := b\<rparr>"

text \<open>The handler the constructor of the window connects to the widget of the edit.\<close>

fun edit_handler :: "panel_edit \<Rightarrow> panel \<times> 'a config_scheme \<Rightarrow> panel \<times> 'a config_scheme" where
  "edit_handler (EnableLogin b) pg = enableLogin_changed b pg"
| "edit_handler (EnableEncryption b) pg = encryption_changed pg"
| "edit_handler _ pg = (fst pg, updateConfig (fst pg) (snd pg))"

text \<open>The fields of the login can only be written into while login is enabled.\<close>

fun can_edit :: "panel_edit \<Rightarrow> panel \<Rightarrow> bool" where
  "can_edit (UserName t) p = w_loginFields p"
| "can_edit (Password t) p = w_loginFields p"
| "can_edit _ p = True"

definition edit_panel :: "panel_edit \<Rightarrow> panel \<times> 'a config_scheme \<Rightarrow> panel \<times> 'a config_scheme" where
  "edit_panel e pg =
     (let p = show_edit e (fst pg) in if p = fst pg \<or> \<not> can_edit e (fst pg) then pg else edit_handler e (p, snd pg))"

section \<open>The dialog of the encryption settings\<close>

text \<open>What the user chooses in a file dialog is the argument; \<open>None\<close> is a dialog that was cancelled.\<close>

datatype encryption_edit =
    OpenUserCert "string option"
  | OpenPrivateKey "string option"
  | OpenTrustList "string option"
  | OpenBlockList "string option"
  | OpenIssuerList "string option"
  | AddUnsecureEndpoint bool
  | AllowAnyCertificate bool

text \<open>The paths and the check boxes the dialog shows; a path that is not set is an empty text.\<close>

record encryption_window =
  e_userCert :: string
  e_privateKey :: string
  e_trustList :: string
  e_blockList :: string
  e_issuerList :: string
  e_addUnsecureEndpoint :: bool
  e_allowAnyCertificate :: bool

definition shown_path :: "string option \<Rightarrow> string" where
  "shown_path s = (if truthy_str s then the s else [])"

definition EncryptionDialog_init :: "'a encryption_settings_scheme \<Rightarrow> encryption_window" where
  "EncryptionDialog_init c =
     \<lparr>e_userCert = shown_path (certificate c), e_privateKey = shown_path (enc_key c),
      e_trustList = shown_path (trustList c), e_blockList = shown_path (blockList c),
      e_issuerList = shown_path (issuerList c), e_addUnsecureEndpoint = addUnsecureEndpoint c,
      e_allowAnyCertificate = allowAnyCertificate c\<rparr>"

definition updateEncryptionConfiguration ::
    "encryption_window \<Rightarrow> 'a encryption_settings_scheme \<Rightarrow> 'a encryption_settings_scheme" where
  "updateEncryptionConfiguration w c =
     c\<lparr>addUnsecureEndpoint := e_addUnsecureEndpoint w, allowAnyCertificate := e_allowAnyCertificate w\<rparr>"

text \<open>A file that was chosen is taken as it is, a directory only if it is not empty.\<close>

fun edit_encryption :: "encryption_edit \<Rightarrow> encryption_window \<times> 'a encryption_settings_scheme \<Rightarrow>
    encryption_window \<times> 'a encryption_settings_scheme" where
  "edit_encryption (OpenUserCert f) (w, c) =
     (case f of None \<Rightarrow> (w, c) | Some s \<Rightarrow> (w\<lparr>e_userCert := s\<rparr>, c\<lparr>certificate := Some s\<rparr>))"
| "edit_encryption (OpenPrivateKey f) (w, c) =
     (case f of None \<Rightarrow> (w, c) | Some s \<Rightarrow> (w\<lparr>e_privateKey := s\<rparr>, c\<lparr>enc_key := Some s\<rparr>))"
| "edit_encryption (OpenTrustList f) (w, c) =
     (if truthy_str f then (w\<lparr>e_trustList := the f\<rparr>, c\<lparr>trustList := f\<rparr>) else (w, c))"
| "edit_encryption (OpenBlockList f) (w, c) =
     (if truthy_str f then (w\<lparr>e_blockList := the f\<rparr>, c\<lparr>blockList := f\<rparr>) else (w, c))"
| "edit_encryption (OpenIssuerList f) (w, c) =
     (if truthy_str f then (w\<lparr>e_issuerList := the f\<rparr>, c\<lparr>issuerList := f\<rparr>) else (w, c))"
| "edit_encryption (AddUnsecureEndpoint b) (w, c) =
     (if e_addUnsecureEndpoint w = b then (w, c)
      else let w' = w\<lparr>e_addUnsecureEndpoint := b\<rparr> in (w', updateEncryptionConfiguration w' c))"
| "edit_encryption (AllowAnyCertificate b) (w, c) =
     (if e_allowAnyCertificate w = b then (w, c)
      else let w' = w\<lparr>e_allowAnyCertificate := b\<rparr> in (w', updateEncryptionConfiguration w' c))"

text \<open>The dialog from opening to closing; it has no button that takes its changes back.\<close>

definition configureEncryption ::
    "encryption_edit list \<Rightarrow> 'a encryption_settings_scheme \<Rightarrow> 'a encryption_settings_scheme" where
  "configureEncryption es c = snd (fold edit_encryption es (EncryptionDialog_init c, c))"

section \<open>The dialog of the discovery server\<close>

record lds_dialog =
  l_address :: string
  l_registryName :: string
  l_register :: bool
  l_period :: int

text \<open>Spin boxes go from 0 to 99 unless they are told otherwise; a text that is \<open>None\<close> is shown as empty.\<close>

definition LDSSettingsDialog_init :: "'a config_scheme \<Rightarrow> lds_dialog" where
  "LDSSettingsDialog_init c =
     \<lparr>l_address = (case ldsAddress c of None \<Rightarrow> [] | Some s \<Rightarrow> s),
      l_registryName = (case ldsRegistryName c of None \<Rightarrow> [] | Some s \<Rightarrow> s),
      l_register = registerLDS c, l_period = spin_value 0 99 (ldsRegisterPeriod c)\<rparr>"

definition LDS_updateData :: "lds_dialog \<Rightarrow> 'a config_scheme \<Rightarrow> 'a config_scheme" where
  "LDS_updateData w c = c
     \<lparr>ldsAddress := Some (l_address w), ldsRegistryName := Some (l_registryName w),
      registerLDS := l_register w, ldsRegisterPeriod := l_period w\<rparr>"

datatype lds_edit = LdsAddress string | LdsRegistryName string | RegisterLDS bool | LdsPeriod int

fun show_lds_edit :: "lds_edit \<Rightarrow> lds_dialog \<Rightarrow> lds_dialog" where
  "show_lds_edit (LdsAddress t) w = w\<lparr>l_address := t\<rparr>"
| "show_lds_edit (LdsRegistryName t) w = w\<lparr>l_registryName := t\<rparr>"
| "show_lds_edit (RegisterLDS b) w = w\<lparr>l_register := b\<rparr>"
| "show_lds_edit (LdsPeriod n) w = w\<lparr>l_period := spin_value 0 99 n\<rparr>"

definition edit_lds :: "lds_edit \<Rightarrow> lds_dialog \<times> 'a config_scheme \<Rightarrow> lds_dialog \<times> 'a config_scheme" where
  "edit_lds e wc =
     (let w = show_lds_edit e (fst wc) in if w = fst wc then wc else (w, LDS_updateData w (snd wc)))"

text \<open>The dialog from opening to closing, whichever button closes it.\<close>

definition configureLDSSettings :: "lds_edit list \<Rightarrow> 'a config_scheme \<Rightarrow> 'a config_scheme" where
  "configureLDSSettings es c = snd (fold edit_lds es (LDSSettingsDialog_init c, c))"

section \<open>The dialog of a history setting\<close>

record history_dialog =
  h_name :: string
  h_entries :: int
  h_buffer :: int
  h_interval :: int
  h_backend :: string
  h_bufferEnabled :: bool
  h_okEnabled :: bool

definition history_backends :: "string list" where
  "history_backends = [''circular buffer'', ''influxDB'']"

text \<open>\<open>setValue\<close> with \<open>None\<close> raises; an unknown backend leaves the first entry of the combo box.\<close>

definition int_setting :: "int option \<Rightarrow> int res" where
  "int_setting n = (case n of None \<Rightarrow> Inl TypeError | Some i \<Rightarrow> Inr i)"

definition shown_backend :: "string \<Rightarrow> string" where
  "shown_backend b =
     (let t = (if b = [] then ''circular buffer'' else b) in if t \<in> set history_backends then t else ''circular buffer'')"

definition HistorySettingsDialog_init :: "history_setting \<Rightarrow> history_dialog res" where
  "HistorySettingsDialog_init h =
     rbind (int_setting (entriesPerResponse h)) (\<lambda>n.
     rbind (int_setting (bufferLength h)) (\<lambda>b.
     rbind (int_setting (interval h)) (\<lambda>i.
       Inr \<lparr>h_name = hs_name h, h_entries = spin_value 1 100000 n, h_buffer = spin_value 2 1000000000 b,
            h_interval = spin_value 0 600000 i, h_backend = shown_backend (backendType h),
            h_bufferEnabled = (backendType h \<noteq> ''influxDB''), h_okEnabled = True\<rparr>)))"

definition History_updateData :: "history_dialog \<Rightarrow> history_setting \<Rightarrow> history_dialog \<times> history_setting" where
  "History_updateData w h =
     (w\<lparr>h_bufferEnabled := (h_backend w \<noteq> ''influxDB'')\<rparr>,
      h\<lparr>entriesPerResponse := Some (h_entries w), interval := Some (h_interval w),
        bufferLength := Some (h_buffer w), backendType := h_backend w\<rparr>)"

text \<open>
  \<open>checkNameExists\<close>: \<open>edit\<close> tells a dialog that changes a setting from one for a new setting, \<open>cur\<close> is
  the text of the combo box and \<open>names\<close> are the names of the settings of the generator.  The
  result has the new text of the combo box.
\<close>

definition checkNameExists ::
    "bool \<Rightarrow> string list \<Rightarrow> string \<Rightarrow> history_dialog \<times> history_setting \<Rightarrow>
     string \<times> history_dialog \<times> history_setting" where
  "checkNameExists edit names cur wh =
     (let w = fst wh; h = snd wh in
      if \<not> edit \<or> cur \<noteq> h_name w
      then if h_name w \<in> set names then (cur, w\<lparr>h_okEnabled := False\<rparr>, h)
           else (h_name w, w\<lparr>h_okEnabled := True\<rparr>, h\<lparr>hs_name := h_name w\<rparr>)
      else (cur, w, h))"

end
