(* ===== verification/Form_Tree.thy ===== *)
theory Form_Tree
  imports Map_Search
begin

text \<open>
  The tree of the generator's window, generatorForm.py: a row per directory and variable, with a
  check box for excluding it and a combo box for its history.  A row carries a reference to the
  directory or variable it shows.  The handlers of the boxes of a directory set the boxes of the
  rows below, whose handlers run in turn when that changes them; such a cascade is a function from a
  row and the variable tree to both.
\<close>

section \<open>Rows\<close>

datatype item = DirItem dir_ref | VarItem var_ref

text \<open>A combo box: its texts, the position of the one chosen, and whether it can be used.\<close>

record combo =
  c_items :: "string list"
  c_index :: nat
  c_enabled :: bool

definition no_history :: string where
  "no_history = ''No history''"

definition new_combo :: combo where
  "new_combo = \<lparr>c_items = [no_history], c_index = 0, c_enabled = True\<rparr>"

text \<open>
  The six columns of a row with the red ones, the color of an input, and the boxes in the columns
  one and two.
\<close>

record cells =
  ce_text :: "string list"
  ce_red :: "bool list"
  ce_input :: bool
  ce_checked :: bool
  ce_combo :: combo

datatype row = Row (r_item: item) (r_cells: cells) (r_kids: "row list")

section \<open>Filling the tree\<close>

text \<open>A text that is \<open>None\<close>, printed by \<open>format\<close> and shown in a cell.\<close>

definition format_opt :: "string option \<Rightarrow> string" where
  "format_opt s = (case s of None \<Rightarrow> ''None'' | Some t \<Rightarrow> t)"

definition cell_opt :: "string option \<Rightarrow> string" where
  "cell_opt s = (case s of None \<Rightarrow> [] | Some t \<Rightarrow> t)"

definition with_orig :: "string \<Rightarrow> string \<Rightarrow> string" where
  "with_orig t orig = t @ '' (Orig.: '' @ orig @ '')''"

definition with_added :: "string \<Rightarrow> string" where
  "with_added t = t @ '' (Added descr.)''"

definition dir_texts :: "dir_info \<Rightarrow> string list" where
  "dir_texts i =
     [case d_newName i of None \<Rightarrow> d_name i | Some n \<Rightarrow> with_orig n (d_name i), [], [], [],
      case d_newDescription i of None \<Rightarrow> [] | Some t \<Rightarrow> with_added t, cell_opt (d_newDestination i)]"

definition dir_reds :: "dir_info \<Rightarrow> bool list" where
  "dir_reds i = [d_newName i \<noteq> None, False, False, False, d_newDescription i \<noteq> None, d_newDestination i \<noteq> None]"

definition var_texts :: "xml_var \<Rightarrow> string list" where
  "var_texts v =
     [case v_newName v of None \<Rightarrow> v_name v | Some n \<Rightarrow> with_orig n (v_name v), [], [],
      case v_newUnit v of None \<Rightarrow> cell_opt (v_unit v) | Some u \<Rightarrow> with_orig u (format_opt (v_unit v)),
      case v_newDescription v of None \<Rightarrow> cell_opt (v_description v)
        | Some t \<Rightarrow> with_orig t (format_opt (v_description v)),
      cell_opt (v_newDestination v)]"

definition var_reds :: "xml_var \<Rightarrow> bool list" where
  "var_reds v = [v_newName v \<noteq> None, False, False, v_newUnit v \<noteq> None, v_newDescription v \<noteq> None,
     v_newDestination v \<noteq> None]"

definition getCheckBox :: "bool option \<Rightarrow> bool" where
  "getCheckBox ex = (ex = Some True)"

definition setup_row :: "string list \<Rightarrow> bool list \<Rightarrow> bool \<Rightarrow> bool option \<Rightarrow> cells" where
  "setup_row texts reds input ex =
     \<lparr>ce_text = texts, ce_red = reds, ce_input = input, ce_checked = getCheckBox ex, ce_combo = new_combo\<rparr>"

text \<open>Looking for a substring in \<open>None\<close> raises.\<close>

definition is_input :: "xml_var \<Rightarrow> bool res" where
  "is_input v = (case v_direction v of
     None \<Rightarrow> Inl TypeError | Some t \<Rightarrow> Inr (contains ''control_system_to_application'' t))"

definition createVariableNode :: "var_ref \<Rightarrow> xml_var \<Rightarrow> row res" where
  "createVariableNode r v =
     rbind (is_input v) (\<lambda>inp. Inr (Row (VarItem r) (setup_row (var_texts v) (var_reds v) inp (v_exclude v)) []))"

fun createVariableNodes :: "dir_ref \<Rightarrow> nat \<Rightarrow> xml_var list \<Rightarrow> row list res" where
  "createVariableNodes r k [] = Inr []"
| "createVariableNodes r k (v # vs) =
     rbind (createVariableNode (r, k) v) (\<lambda>x.
     rbind (createVariableNodes r (Suc k) vs) (\<lambda>xs. Inr (x # xs)))"

fun createDirectoryNode :: "dir_ref \<Rightarrow> xml_directory \<Rightarrow> row res"
  and createDirectoryNodes :: "dir_ref \<Rightarrow> nat \<Rightarrow> xml_directory list \<Rightarrow> row list res" where
  "createDirectoryNode r (XMLDirectory i ds vs) =
     rbind (createDirectoryNodes r 0 ds) (\<lambda>xs.
     rbind (createVariableNodes r 0 vs) (\<lambda>ys.
       Inr (Row (DirItem r) (setup_row (dir_texts i) (dir_reds i) False (d_exclude i)) (xs @ ys))))"
| "createDirectoryNodes r k [] = Inr []"
| "createDirectoryNodes r k (d # ds) =
     rbind (createDirectoryNode (r @ [k]) d) (\<lambda>x.
     rbind (createDirectoryNodes r (Suc k) ds) (\<lambda>xs. Inr (x # xs)))"

definition fillTree :: "xml_directory \<Rightarrow> row res" where
  "fillTree d = createDirectoryNode [] d"

section \<open>Editing a cell\<close>

text \<open>
  \<open>_updateItem\<close>: the new data of the item, and the text and color of the cell.  Columns without a
  branch keep what the user wrote.
\<close>

definition update_dir_cell :: "nat \<Rightarrow> string \<Rightarrow> bool \<Rightarrow> dir_info \<Rightarrow> dir_info \<times> string \<times> bool" where
  "update_dir_cell index t red i =
     (if index = 0 then
        if t = d_name i then (i\<lparr>d_newName := None\<rparr>, t, False)
        else (i\<lparr>d_newName := Some t\<rparr>, with_orig t (d_name i), True)
      else if index = 3 then (i, [], red)
      else if index = 4 then
        if t = [] then (i\<lparr>d_newDescription := None\<rparr>, t, False)
        else (i\<lparr>d_newDescription := Some t\<rparr>, with_added t, True)
      else if index = 5 then
        if t = [] then (i\<lparr>d_newDestination := None\<rparr>, t, False)
        else (i\<lparr>d_newDestination := Some t\<rparr>, t, True)
      else (i, t, red))"

definition update_var_cell :: "nat \<Rightarrow> string \<Rightarrow> bool \<Rightarrow> xml_var \<Rightarrow> xml_var \<times> string \<times> bool" where
  "update_var_cell index t red v =
     (if index = 0 then
        if t = v_name v then (v\<lparr>v_newName := None\<rparr>, t, False)
        else (v\<lparr>v_newName := Some t\<rparr>, with_orig t (v_name v), True)
      else if index = 3 then
        if Some t = v_unit v then (v\<lparr>v_newUnit := None\<rparr>, t, False)
        else (v\<lparr>v_newUnit := Some t\<rparr>, with_orig t (cell_opt (v_unit v)), True)
      else if index = 4 then
        if t = [] then (v\<lparr>v_newDescription := None\<rparr>, t, False)
        else (v\<lparr>v_newDescription := Some t\<rparr>, with_added t, True)
      else if index = 5 then
        if t = [] then (v\<lparr>v_newDestination := None\<rparr>, t, False)
        else (v\<lparr>v_newDestination := Some t\<rparr>, t, True)
      else (v, t, red))"

definition set_cell :: "nat \<Rightarrow> string \<Rightarrow> bool \<Rightarrow> cells \<Rightarrow> cells" where
  "set_cell index t red c = c\<lparr>ce_text := (ce_text c)[index := t], ce_red := (ce_red c)[index := red]\<rparr>"

text \<open>The cell already has the text the user wrote.\<close>

definition updateItem :: "nat \<Rightarrow> row \<Rightarrow> xml_directory \<Rightarrow> row \<times> xml_directory" where
  "updateItem index r d =
     (let c = r_cells r; t = ce_text c ! index; red = ce_red c ! index in
      case r_item r of
        DirItem q \<Rightarrow>
          (case dir_info_at d q of
             None \<Rightarrow> (r, d)
           | Some i \<Rightarrow>
               (case update_dir_cell index t red i of (j, t', red') \<Rightarrow>
                  (Row (r_item r) (set_cell index t' red' c) (r_kids r), modify_dir q (\<lambda>_. j) d)))
      | VarItem q \<Rightarrow>
          (case var_at d q of
             None \<Rightarrow> (r, d)
           | Some v \<Rightarrow>
               (case update_var_cell index t red v of (w, t', red') \<Rightarrow>
                  (Row (r_item r) (set_cell index t' red' c) (r_kids r), modify_var q (\<lambda>_. w) d))))"

text \<open>The user writes \<open>t\<close> into a cell; writing what it has changes nothing.\<close>

definition edit_cell :: "nat \<Rightarrow> string \<Rightarrow> row \<Rightarrow> xml_directory \<Rightarrow> row \<times> xml_directory" where
  "edit_cell index t r d =
     (if index < length (ce_text (r_cells r)) \<and> ce_text (r_cells r) ! index \<noteq> t
      then updateItem index
        (Row (r_item r) ((r_cells r)\<lparr>ce_text := (ce_text (r_cells r))[index := t]\<rparr>) (r_kids r)) d
      else (r, d))"

section \<open>Excluding\<close>

definition setState_dir :: "bool \<Rightarrow> dir_info \<Rightarrow> dir_info" where
  "setState_dir b i = i\<lparr>d_exclude := Some b\<rparr>"

definition setState_var :: "bool \<Rightarrow> xml_var \<Rightarrow> xml_var" where
  "setState_var b v = v\<lparr>v_exclude := Some b\<rparr>"

text \<open>
  \<open>setCheckState\<close> on the box of a row, with the handler \<open>_mapItem\<close> or \<open>_mapDirectory\<close>.  The loop of the
  latter sets the state of its own directory after each child.
\<close>

fun set_check :: "bool \<Rightarrow> row \<Rightarrow> xml_directory \<Rightarrow> row \<times> xml_directory"
  and mapDirectory :: "bool \<Rightarrow> dir_ref \<Rightarrow> row list \<Rightarrow> xml_directory \<Rightarrow> row list \<times> xml_directory" where
  "set_check b (Row it c ks) d =
     (if ce_checked c = b then (Row it c ks, d)
      else case it of
             VarItem q \<Rightarrow> (Row it (c\<lparr>ce_checked := b\<rparr>) ks, modify_var q (setState_var b) d)
           | DirItem q \<Rightarrow>
               (case mapDirectory b q ks d of (ks', d') \<Rightarrow> (Row it (c\<lparr>ce_checked := b\<rparr>) ks', d')))"
| "mapDirectory b q [] d = ([], d)"
| "mapDirectory b q (k # ks) d =
     (case set_check b k d of (k', d1) \<Rightarrow>
      case mapDirectory b q ks (modify_dir q (setState_dir b) d1) of (ks', d2) \<Rightarrow> (k' # ks', d2))"

section \<open>History\<close>

text \<open>\<open>findText\<close>: the first entry with that text.\<close>

fun findText :: "string \<Rightarrow> string list \<Rightarrow> nat option" where
  "findText t [] = None"
| "findText t (x # xs) = (if x = t then Some 0 else map_option Suc (findText t xs))"

definition history_of :: "string \<Rightarrow> string option" where
  "history_of t = (if t \<noteq> no_history then Some t else None)"

definition enable_combo :: "bool \<Rightarrow> row \<Rightarrow> row" where
  "enable_combo b r =
     Row (r_item r) ((r_cells r)\<lparr>ce_combo := (ce_combo (r_cells r))\<lparr>c_enabled := b\<rparr>\<rparr>) (r_kids r)"

text \<open>
  \<open>setCurrentText\<close> on the combo box of a row, which chooses the first entry with the text, if there is
  one, and the handler \<open>_setHistoryItem\<close> when that changes the choice.
\<close>

fun set_history :: "string \<Rightarrow> row \<Rightarrow> xml_directory \<Rightarrow> row \<times> xml_directory"
  and set_histories :: "string \<Rightarrow> row list \<Rightarrow> xml_directory \<Rightarrow> row list \<times> xml_directory" where
  "set_history t (Row it c ks) d =
     (case findText t (c_items (ce_combo c)) of
        None \<Rightarrow> (Row it c ks, d)
      | Some i \<Rightarrow>
          if i = c_index (ce_combo c) then (Row it c ks, d)
          else let c' = c\<lparr>ce_combo := (ce_combo c)\<lparr>c_index := i\<rparr>\<rparr> in
            case it of
              VarItem q \<Rightarrow> (Row it c' ks, modify_var q (\<lambda>v. v\<lparr>v_historizing := history_of t\<rparr>) d)
            | DirItem q \<Rightarrow>
                (case set_histories t ks (modify_dir q (\<lambda>i. i\<lparr>d_historizing := history_of t\<rparr>) d) of
                   (ks', d') \<Rightarrow> (Row it c' ks', d')))"
| "set_histories t [] d = ([], d)"
| "set_histories t (k # ks) d =
     (case set_history t k d of (k', d1) \<Rightarrow>
      case set_histories t ks d1 of (ks', d2) \<Rightarrow>
        (enable_combo (\<not> truthy_str (history_of t)) k' # ks', d2))"

text \<open>The user chooses the entry \<open>i\<close>.\<close>

definition choose_history :: "nat \<Rightarrow> row \<Rightarrow> xml_directory \<Rightarrow> row \<times> xml_directory" where
  "choose_history i r d =
     (let cb = ce_combo (r_cells r) in
      if \<not> c_enabled cb \<or> length (c_items cb) \<le> i \<or> i = c_index cb then (r, d)
      else let t = c_items cb ! i; c' = (r_cells r)\<lparr>ce_combo := cb\<lparr>c_index := i\<rparr>\<rparr> in
        case r_item r of
          VarItem q \<Rightarrow> (Row (r_item r) c' (r_kids r), modify_var q (\<lambda>v. v\<lparr>v_historizing := history_of t\<rparr>) d)
        | DirItem q \<Rightarrow>
            (case set_histories t (r_kids r) (modify_dir q (\<lambda>i. i\<lparr>d_historizing := history_of t\<rparr>) d) of
               (ks', d') \<Rightarrow> (Row (r_item r) c' ks', d')))"

text \<open>A new entry for the combo boxes of a row and all rows below.\<close>

fun addComboEntry :: "string \<Rightarrow> row \<Rightarrow> row" where
  "addComboEntry name (Row it c ks) =
     Row it (c\<lparr>ce_combo := (ce_combo c)\<lparr>c_items := c_items (ce_combo c) @ [name]\<rparr>\<rparr>) (map (addComboEntry name) ks)"

text \<open>After a map file was read: the choices follow the data of the items.\<close>

fun updateHistories :: "row \<Rightarrow> xml_directory \<Rightarrow> row \<times> xml_directory"
  and updateHistories_below :: "row list \<Rightarrow> xml_directory \<Rightarrow> row list \<times> xml_directory" where
  "updateHistories (Row it c ks) d =
     (case it of
        VarItem q \<Rightarrow>
          (case Option.bind (var_at d q) v_historizing of
             None \<Rightarrow> (Row it c ks, d) | Some h \<Rightarrow> set_history h (Row it c ks) d)
      | DirItem q \<Rightarrow>
          (case Option.bind (dir_info_at d q) d_historizing of
             None \<Rightarrow> (case updateHistories_below ks d of (ks', d') \<Rightarrow> (Row it c ks', d'))
           | Some h \<Rightarrow> set_history h (Row it c ks) d))"
| "updateHistories_below [] d = ([], d)"
| "updateHistories_below (k # ks) d =
     (case updateHistories k d of (k', d1) \<Rightarrow>
      case updateHistories_below ks d1 of (ks', d2) \<Rightarrow> (k' # ks', d2))"

text \<open>The chosen setting, or none, for every input; \<open>cur\<close> is the text of the combo box of settings.\<close>

fun addHistoryForInputs :: "bool \<Rightarrow> string \<Rightarrow> row \<Rightarrow> xml_directory \<Rightarrow> (row \<times> xml_directory) res"
  and addHistoryForInputs_below ::
    "bool \<Rightarrow> string \<Rightarrow> row list \<Rightarrow> xml_directory \<Rightarrow> (row list \<times> xml_directory) res" where
  "addHistoryForInputs b cur (Row it c ks) d =
     rbind (case it of
              VarItem q \<Rightarrow> (case var_at d q of None \<Rightarrow> Inr False | Some v \<Rightarrow> is_input v)
            | DirItem q \<Rightarrow> Inr False) (\<lambda>inp.
       if inp then Inr (set_history (if b then cur else no_history) (Row it c ks) d)
       else rbind (addHistoryForInputs_below b cur ks d) (\<lambda>(ks', d'). Inr (Row it c ks', d')))"
| "addHistoryForInputs_below b cur [] d = Inr ([], d)"
| "addHistoryForInputs_below b cur (k # ks) d =
     rbind (addHistoryForInputs b cur k d) (\<lambda>(k', d1).
     rbind (addHistoryForInputs_below b cur ks d1) (\<lambda>(ks', d2). Inr (k' # ks', d2)))"

section \<open>Rows by their position\<close>

type_synonym row_pos = "nat list"

fun row_at :: "row_pos \<Rightarrow> row \<Rightarrow> row option" where
  "row_at [] r = Some r"
| "row_at (k # p) (Row it c ks) = (if k < length ks then row_at p (ks ! k) else None)"

fun modify_row :: "row_pos \<Rightarrow> (row \<Rightarrow> row) \<Rightarrow> row \<Rightarrow> row" where
  "modify_row [] f r = f r"
| "modify_row (k # p) f (Row it c ks) =
     (if k < length ks then Row it c (ks[k := modify_row p f (ks ! k)]) else Row it c ks)"

text \<open>Running a handler on the row at a position.\<close>

fun on_row :: "row_pos \<Rightarrow> (row \<Rightarrow> xml_directory \<Rightarrow> row \<times> xml_directory) \<Rightarrow> row \<Rightarrow> xml_directory \<Rightarrow>
    row \<times> xml_directory" where
  "on_row [] f r d = f r d"
| "on_row (k # p) f (Row it c ks) d =
     (if k < length ks
      then (case on_row p f (ks ! k) d of (k', d') \<Rightarrow> (Row it c (ks[k := k']), d'))
      else (Row it c ks, d))"

section \<open>Moving by drag and drop\<close>

text \<open>
  \<open>dropEvent\<close>, for the row \<open>cur\<close> dropped on an item.  The text and the color are set while the signals
  are on, so that \<open>_updateItem\<close> runs for the column.
\<close>

definition drop_on :: "dir_ref \<Rightarrow> row \<Rightarrow> xml_directory \<Rightarrow> row \<times> xml_directory" where
  "drop_on q cur d =
     (case dir_info_at d q of
        None \<Rightarrow> (cur, d)
      | Some i \<Rightarrow>
          updateItem 5 (Row (r_item cur) (set_cell 5 (d_path i) True (r_cells cur)) (r_kids cur))
            (case r_item cur of
               DirItem p \<Rightarrow> modify_dir p (\<lambda>j. j\<lparr>d_newDestination := Some (d_path i)\<rparr>) d
             | VarItem p \<Rightarrow> modify_var p (\<lambda>v. v\<lparr>v_newDestination := Some (d_path i)\<rparr>) d))"

end
