(* ===== verification/Map_Form.thy ===== *)
theory Map_Form
  imports Form_Panel Form_Tree
begin

text \<open>
  \<open>MapGeneratorForm\<close> of generatorForm.py: the window with its generator, panel and tree, and what
  its handlers do.  The history settings are objects shared by the generator, the combo box of the
  settings and its dialog: they live in a store, and all three hold positions of it.  An exception
  no handler catches is the result \<open>Inl\<close>; PyQt ends the program then.
\<close>

record form =
  fm_gen :: "map_generator option"
  fm_panel :: panel
  fm_tree :: "row option"
  fm_store :: "history_setting list"
  fm_settings :: "nat list"
  fm_histories :: "(string \<times> nat) list"
  fm_chosen :: "nat option"
  fm_historyButtons :: bool
  fm_canSave :: bool

text \<open>The generator with its settings as values.\<close>

definition settings_of :: "form \<Rightarrow> history_setting list" where
  "settings_of f = map ((!) (fm_store f)) (fm_settings f)"

definition generator_of :: "form \<Rightarrow> map_generator res" where
  "generator_of f =
     (case fm_gen f of None \<Rightarrow> Inl AttributeError | Some g \<Rightarrow> Inr (g\<lparr>historySettings := settings_of f\<rparr>))"

text \<open>A handler that changes the settings of the generator.\<close>

definition on_config :: "(map_generator \<Rightarrow> map_generator) \<Rightarrow> form \<Rightarrow> form res" where
  "on_config h f = (case fm_gen f of None \<Rightarrow> Inl AttributeError | Some g \<Rightarrow> Inr (f\<lparr>fm_gen := Some (h g)\<rparr>))"

definition on_panel :: "panel_edit \<Rightarrow> form \<Rightarrow> form res" where
  "on_panel e f =
     (case fm_gen f of
        None \<Rightarrow> (if show_edit e (fm_panel f) = fm_panel f \<or> \<not> can_edit e (fm_panel f) then Inr f else Inl AttributeError)
      | Some g \<Rightarrow> (case edit_panel e (fm_panel f, g) of (p, g') \<Rightarrow> Inr (f\<lparr>fm_panel := p, fm_gen := Some g'\<rparr>)))"

text \<open>
  A handler of the tree, on the row at a position.  The items of the tree belong to the directory
  tree of the generator.
\<close>

definition on_tree :: "(row \<Rightarrow> xml_directory \<Rightarrow> row \<times> xml_directory) \<Rightarrow> form \<Rightarrow> form" where
  "on_tree h f =
     (case (fm_tree f, Option.bind (fm_gen f) mg_dir) of
        (Some r, Some d) \<Rightarrow>
          (case h r d of (r', d') \<Rightarrow>
             f\<lparr>fm_tree := Some r', fm_gen := map_option (\<lambda>g. g\<lparr>mg_dir := Some d'\<rparr>) (fm_gen f)\<rparr>)
      | _ \<Rightarrow> f)"

section \<open>Opening an application\<close>

text \<open>All exceptions are caught; the tree is cleared and there is no generator then.\<close>

definition createMapGenerator :: "resolver \<Rightarrow> (string \<Rightarrow> elem res) \<Rightarrow> string option \<Rightarrow> form \<Rightarrow> form" where
  "createMapGenerator rs openF name f =
     (case rbind (MapGenerator_init rs openF name) (\<lambda>g.
             if truthy_str name
             then (case mg_dir g of None \<Rightarrow> Inl AttributeError | Some d \<Rightarrow> rbind (fillTree d) (\<lambda>r. Inr (g, Some r)))
             else Inr (g, fm_tree f)) of
        Inl e \<Rightarrow> f\<lparr>fm_gen := None, fm_tree := None\<rparr>
      | Inr (g, t) \<Rightarrow> f\<lparr>fm_gen := Some g, fm_tree := t, fm_settings := []\<rparr>)"

definition initial_form :: form where
  "initial_form = \<lparr>fm_gen = None, fm_panel = initial_panel, fm_tree = None, fm_store = [], fm_settings = [],
     fm_histories = [], fm_chosen = None, fm_historyButtons = False, fm_canSave = False\<rparr>"

text \<open>
  \<open>openFile\<close>: from the menu, or with the question whether there is a file, answered with \<open>yes\<close>.
  The file is empty when choosing one was cancelled.
\<close>

definition openFile :: "resolver \<Rightarrow> (string \<Rightarrow> elem res) \<Rightarrow> bool \<Rightarrow> bool \<Rightarrow> string \<Rightarrow> form \<Rightarrow> form" where
  "openFile rs openF fromMenu yes file f =
     (if (\<not> fromMenu \<and> yes) \<or> fromMenu
      then (if file \<noteq> [] then createMapGenerator rs openF (Some file) f else f)
      else createMapGenerator rs openF None f)"

text \<open>The constructor: with a file, without one if the user asked for that, or with the question.\<close>

definition MapGeneratorForm_init ::
    "resolver \<Rightarrow> (string \<Rightarrow> elem res) \<Rightarrow> string option \<Rightarrow> bool \<Rightarrow> bool \<times> string \<Rightarrow> form res" where
  "MapGeneratorForm_init rs openF inp noinput answer =
     (if truthy_str inp then Inr (createMapGenerator rs openF inp initial_form)
      else if noinput
      then rbind (MapGenerator_init rs openF None) (\<lambda>g. Inr (initial_form\<lparr>fm_gen := Some g\<rparr>))
      else Inr (openFile rs openF False (fst answer) (snd answer) initial_form))"

section \<open>History settings\<close>

definition add_history_item :: "string \<Rightarrow> nat \<Rightarrow> form \<Rightarrow> form" where
  "add_history_item name s f =
     f\<lparr>fm_histories := fm_histories f @ [(name, s)],
       fm_chosen := (case fm_chosen f of None \<Rightarrow> Some 0 | Some k \<Rightarrow> Some k)\<rparr>"

definition history_texts :: "form \<Rightarrow> string list" where
  "history_texts f = map fst (fm_histories f)"

definition choose_setting :: "string \<Rightarrow> form \<Rightarrow> form" where
  "choose_setting name f =
     (case findText name (history_texts f) of None \<Rightarrow> f | Some k \<Rightarrow> f\<lparr>fm_chosen := Some k\<rparr>)"

definition chosen_text :: "form \<Rightarrow> string" where
  "chosen_text f = (case fm_chosen f of None \<Rightarrow> [] | Some k \<Rightarrow> fst (fm_histories f ! k))"

lemma free_name_descent:
  "2 * card {k. Suc i \<le> k \<and> numbered n k \<in> set names} + (if numbered n i \<in> set names then 1 else 0)
     \<le> 2 * card {k. i \<le> k \<and> numbered n k \<in> set names}"
proof (cases "numbered n i \<in> set names")
  case True
  then have "{k. i \<le> k \<and> numbered n k \<in> set names} = insert i {k. Suc i \<le> k \<and> numbered n k \<in> set names}"
    by (auto simp: Suc_le_eq order_le_less)
  then show ?thesis using True by (simp add: card_insert_if finite_numbered)
next
  case False
  then have "{k. i \<le> k \<and> numbered n k \<in> set names} = {k. Suc i \<le> k \<and> numbered n k \<in> set names}"
    by (auto simp: Suc_le_eq order_le_less)
  then show ?thesis using False by simp
qed

text \<open>The name of a new setting: the loop tests the first number twice.\<close>

function free_name :: "string list \<Rightarrow> string \<Rightarrow> nat \<Rightarrow> string" where
  "free_name names histName i =
     (if histName \<in> set names then free_name names (numbered ''historySetting'' i) (Suc i) else histName)"
  by pat_completeness auto
termination
  by (relation "measure (\<lambda>(names, h, i). 2 * card {k. i \<le> k \<and> numbered ''historySetting'' k \<in> set names} +
        (if h \<in> set names then 1 else 0))")
     (use free_name_descent [of _ "''historySetting''"] in \<open>auto simp: less_Suc_eq_le\<close>)

declare free_name.simps [simp del]

definition new_setting_name :: "string list \<Rightarrow> string" where
  "new_setting_name names =
     (if ''historySetting'' \<in> set names then free_name names (numbered ''historySetting'' 0) 0 else ''historySetting'')"

text \<open>
  \<open>addHistorySetting\<close>.  \<open>seen\<close> is the position of the row at the top left of the view, which the code
  takes for the root.
\<close>

definition row_seen :: "row_pos option \<Rightarrow> form \<Rightarrow> row option" where
  "row_seen seen f = (case (seen, fm_tree f) of (Some p, Some r) \<Rightarrow> row_at p r | _ \<Rightarrow> None)"

definition addHistorySetting :: "row_pos option \<Rightarrow> nat \<Rightarrow> bool \<Rightarrow> form \<Rightarrow> form res" where
  "addHistorySetting seen s updateMapGenerator f =
     (let f1 = (if updateMapGenerator then f\<lparr>fm_settings := fm_settings f @ [s]\<rparr> else f) in
      if row_seen seen f1 = None then Inl AttributeError
      else Inr (f1\<lparr>fm_tree := map_option (modify_row (the seen) (addComboEntry (hs_name (fm_store f ! s)))) (fm_tree f1),
                   fm_historyButtons := True\<rparr>))"

text \<open>What the user does in the dialog of a setting, and its handlers.\<close>

datatype history_edit =
    HistoryName string
  | EntriesPerResponse int
  | SamplingInterval int
  | BufferLength int
  | Backend nat

fun show_history_edit :: "history_edit \<Rightarrow> history_dialog \<Rightarrow> history_dialog" where
  "show_history_edit (HistoryName t) w = w\<lparr>h_name := t\<rparr>"
| "show_history_edit (EntriesPerResponse n) w = w\<lparr>h_entries := spin_value 1 100000 n\<rparr>"
| "show_history_edit (SamplingInterval n) w = w\<lparr>h_interval := spin_value 0 600000 n\<rparr>"
| "show_history_edit (BufferLength n) w = (if h_bufferEnabled w then w\<lparr>h_buffer := spin_value 2 1000000000 n\<rparr> else w)"
| "show_history_edit (Backend k) w =
     (if k < length history_backends then w\<lparr>h_backend := history_backends ! k\<rparr> else w)"

definition set_chosen_text :: "string \<Rightarrow> form \<Rightarrow> form" where
  "set_chosen_text t f =
     (case fm_chosen f of
        None \<Rightarrow> f
      | Some k \<Rightarrow> f\<lparr>fm_histories := (fm_histories f)[k := (t, snd (fm_histories f ! k))]\<rparr>)"

definition edit_history :: "bool \<Rightarrow> nat \<Rightarrow> history_edit \<Rightarrow> history_dialog \<times> form \<Rightarrow> history_dialog \<times> form" where
  "edit_history edit s e dlg =
     (let w = show_history_edit e (fst dlg); f = snd dlg; h = fm_store f ! s in
      case e of
        HistoryName t \<Rightarrow>
          (case checkNameExists edit (map hs_name (settings_of f)) (chosen_text f) (w, h) of
             (cur, w', h') \<Rightarrow> (w', set_chosen_text cur (f\<lparr>fm_store := (fm_store f)[s := h']\<rparr>)))
      | _ \<Rightarrow>
          if w = fst dlg then dlg
          else (case History_updateData w h of (w', h') \<Rightarrow> (w', f\<lparr>fm_store := (fm_store f)[s := h']\<rparr>)))"

text \<open>The dialog for the chosen setting, from opening to closing, whichever button closes it.\<close>

definition historyDialog :: "bool \<Rightarrow> history_edit list \<Rightarrow> form \<Rightarrow> form res" where
  "historyDialog edit es f =
     (case (fm_gen f, fm_chosen f) of
        (Some g, Some k) \<Rightarrow>
          (let s = snd (fm_histories f ! k) in
           rbind (HistorySettingsDialog_init (fm_store f ! s)) (\<lambda>w.
             Inr (snd (fold (edit_history edit s) es (w, f)))))
      | _ \<Rightarrow> Inl AttributeError)"

definition prepareNewHistorySetting :: "row_pos option \<Rightarrow> history_edit list \<Rightarrow> form \<Rightarrow> form res" where
  "prepareNewHistorySetting seen es f =
     (let name = new_setting_name (history_texts f); s = length (fm_store f);
          f1 = f\<lparr>fm_store := fm_store f @ [HistorySetting_init name]\<rparr> in
      rbind (historyDialog False es (choose_setting name (add_history_item name s f1)))
        (addHistorySetting seen s True))"

definition editHistorySetting :: "history_edit list \<Rightarrow> form \<Rightarrow> form res" where
  "editHistorySetting es f = (if fm_historyButtons f then historyDialog True es f else Inr f)"

definition historyForInputs :: "row_pos option \<Rightarrow> bool \<Rightarrow> form \<Rightarrow> form res" where
  "historyForInputs seen isChecked f =
     (if \<not> fm_historyButtons f then Inr f
      else case (seen, row_seen seen f, Option.bind (fm_gen f) mg_dir) of
             (Some p, Some r, Some d) \<Rightarrow>
               rbind (addHistoryForInputs isChecked (chosen_text f) r d) (\<lambda>(r', d').
                 Inr (f\<lparr>fm_tree := map_option (modify_row p (\<lambda>_. r')) (fm_tree f),
                        fm_gen := map_option (\<lambda>g. g\<lparr>mg_dir := Some d'\<rparr>) (fm_gen f)\<rparr>))
           | _ \<Rightarrow> Inl AttributeError)"

section \<open>Loading a map file\<close>

text \<open>The settings \<open>parseMapFile\<close> appends to the list are new objects.\<close>

definition take_over :: "map_generator \<Rightarrow> form \<Rightarrow> form" where
  "take_over g f =
     (let n = length (fm_settings f); new = drop n (historySettings g) in
      f\<lparr>fm_gen := Some g, fm_store := fm_store f @ new,
        fm_settings := fm_settings f @ [length (fm_store f)..<length (fm_store f) + length new]\<rparr>)"

definition load_setting :: "row_pos option \<Rightarrow> nat \<Rightarrow> form \<Rightarrow> form res" where
  "load_setting seen s f =
     (let name = hs_name (fm_store f ! s) in
      if name \<in> set (history_texts f) then Inr f
      else addHistorySetting seen s False (add_history_item name s f))"

definition updateTree :: "row_pos option \<Rightarrow> form \<Rightarrow> form res" where
  "updateTree seen f =
     (if row_seen seen f = None then Inl AttributeError
      else Inr (on_tree (on_row (the seen) updateHistories) f))"

text \<open>
  The directories of the generator are reset before the file is read, and stay so when it is no
  map file.
\<close>

definition loadMapFile :: "resolver \<Rightarrow> row_pos option \<Rightarrow> elem \<Rightarrow> form \<Rightarrow> form res" where
  "loadMapFile rs seen data f =
     (case generator_of f of
        Inl e \<Rightarrow> Inr f
      | Inr g \<Rightarrow>
          (case parseMapFile rs data g of
             Inl (RuntimeError m) \<Rightarrow>
               Inr (f\<lparr>fm_gen := Some (g\<lparr>mg_dir := map_option XMLDirectory_reset (mg_dir g)\<rparr>)\<rparr>)
           | Inl e \<Rightarrow> Inl e
           | Inr (missed, g') \<Rightarrow>
               (let f1 = (take_over g' f)\<lparr>fm_panel := fillConfig g' (fm_panel f)\<rparr> in
                case mg_dir g' of
                  None \<Rightarrow> Inr f1
                | Some d \<Rightarrow>
                    rbind (fillTree d) (\<lambda>r.
                    rbind (foldM (load_setting seen) (fm_settings f1) (f1\<lparr>fm_tree := Some r\<rparr>))
                      (updateTree seen)))))"

section \<open>Drag and drop\<close>

definition dropEvent :: "row_pos option \<Rightarrow> row_pos option \<Rightarrow> form \<Rightarrow> form res" where
  "dropEvent target current f =
     (case row_seen target f of
        None \<Rightarrow> Inl AttributeError
      | Some t \<Rightarrow>
          (case r_item t of
             VarItem q \<Rightarrow> Inr f
           | DirItem q \<Rightarrow>
               (case row_seen current f of
                  None \<Rightarrow> Inl AttributeError
                | Some c \<Rightarrow> Inr (on_tree (on_row (the current) (drop_on q)) f))))"

section \<open>Saving\<close>

text \<open>
  The file written, if any; an error in the settings is reported and nothing is written.
  \<open>answer\<close> is the file the user chooses when asked.
\<close>

type_synonym saved = "(string \<times> elem) option"

definition save_to :: "string \<Rightarrow> form \<Rightarrow> (form \<times> saved) res" where
  "save_to name f =
     rbind (generator_of f) (\<lambda>g.
       case save_document g of
         Inl (RuntimeError m) \<Rightarrow> Inr (f, None)
       | Inl e \<Rightarrow> Inl e
       | Inr doc \<Rightarrow> Inr (f, Some (name, doc)))"

definition saveFileAs :: "string option \<Rightarrow> form \<Rightarrow> (form \<times> saved) res" where
  "saveFileAs answer f =
     (case fm_gen f of
        None \<Rightarrow> Inl AttributeError
      | Some g \<Rightarrow>
          if applicationName g = None then Inl TypeError
          else rbind (case answer of
                        None \<Rightarrow> Inr (f, None)
                      | Some name \<Rightarrow> save_to name (f\<lparr>fm_gen := Some (g\<lparr>outputFile := Some name\<rparr>)\<rparr>))
                 (\<lambda>(f', doc). Inr (f'\<lparr>fm_canSave := True\<rparr>, doc)))"

definition saveFile :: "string option \<Rightarrow> form \<Rightarrow> (form \<times> saved) res" where
  "saveFile answer f =
     (if \<not> fm_canSave f then Inr (f, None)
      else case fm_gen f of
             None \<Rightarrow> Inl AttributeError
           | Some g \<Rightarrow> (case outputFile g of None \<Rightarrow> saveFileAs answer f | Some name \<Rightarrow> save_to name f))"

section \<open>Events\<close>

text \<open>
  What the user can do.  Choosing a file is part of the event: an application to open, the document
  of a map file, the name to save under.  Events of the tree carry the position of the row.
\<close>

datatype event =
    OpenFile string
  | LoadMapFile elem
  | EditPanel panel_edit
  | ConfigureEncryption "encryption_edit list"
  | ConfigureLDS "lds_edit list"
  | NewHistory "history_edit list"
  | EditHistory "history_edit list"
  | ChooseSetting nat
  | HistoryForInputs bool
  | EditCell row_pos nat string
  | Exclude row_pos bool
  | ChooseHistory row_pos nat
  | Drop "row_pos option" "row_pos option"
  | Save "string option"
  | SaveAs "string option"

fun form_step :: "resolver \<Rightarrow> (string \<Rightarrow> elem res) \<Rightarrow> row_pos option \<Rightarrow> event \<Rightarrow> form \<Rightarrow> form res" where
  "form_step rs openF seen (OpenFile name) f =
     Inr (openFile rs openF True False name f)"
| "form_step rs openF seen (LoadMapFile data) f = loadMapFile rs seen data f"
| "form_step rs openF seen (EditPanel e) f = on_panel e f"
| "form_step rs openF seen (ConfigureEncryption es) f =
     (if w_configureEncryption (fm_panel f) then on_config (configureEncryption es) f else Inr f)"
| "form_step rs openF seen (ConfigureLDS es) f = on_config (configureLDSSettings es) f"
| "form_step rs openF seen (NewHistory es) f = prepareNewHistorySetting seen es f"
| "form_step rs openF seen (EditHistory es) f = editHistorySetting es f"
| "form_step rs openF seen (ChooseSetting k) f =
     Inr (if k < length (fm_histories f) then f\<lparr>fm_chosen := Some k\<rparr> else f)"
| "form_step rs openF seen (HistoryForInputs b) f = historyForInputs seen b f"
| "form_step rs openF seen (EditCell p k t) f = Inr (on_tree (on_row p (edit_cell k t)) f)"
| "form_step rs openF seen (Exclude p b) f = Inr (on_tree (on_row p (set_check b)) f)"
| "form_step rs openF seen (ChooseHistory p i) f = Inr (on_tree (on_row p (choose_history i)) f)"
| "form_step rs openF seen (Drop target current) f = dropEvent target current f"
| "form_step rs openF seen (Save answer) f = rbind (saveFile answer f) (\<lambda>x. Inr (fst x))"
| "form_step rs openF seen (SaveAs answer) f = rbind (saveFileAs answer f) (\<lambda>x. Inr (fst x))"

text \<open>The states of a window: from the constructor on, by events that end without an exception.\<close>

inductive form_reachable :: "resolver \<Rightarrow> (string \<Rightarrow> elem res) \<Rightarrow> form \<Rightarrow> bool" for rs openF where
  form_start: "MapGeneratorForm_init rs openF inp noinput answer = Inr f \<Longrightarrow> form_reachable rs openF f"
| form_next: "form_reachable rs openF f \<Longrightarrow> form_step rs openF seen e f = Inr f' \<Longrightarrow> form_reachable rs openF f'"

end
