(* ===== verification/Form_Boxes.thy ===== *)
theory Form_Boxes
  imports Map_Form
begin

text \<open>
  The check boxes of the tree and the data they stand for.  Every handler of the tree works within the
  rows below the one it is called for: that is the interface \<open>row_handler\<close>, and what it carries
  from a row to the tree is proved once.
\<close>

section \<open>What the boxes show\<close>

fun item_in :: "xml_directory \<Rightarrow> item \<Rightarrow> bool" where
  "item_in d (DirItem q) \<longleftrightarrow> dir_info_at d q \<noteq> None"
| "item_in d (VarItem q) \<longleftrightarrow> var_at d q \<noteq> None"

fun item_excluded :: "xml_directory \<Rightarrow> item \<Rightarrow> bool" where
  "item_excluded d (DirItem q) \<longleftrightarrow> Option.bind (dir_info_at d q) d_exclude = Some True"
| "item_excluded d (VarItem q) \<longleftrightarrow> Option.bind (var_at d q) v_exclude = Some True"

fun is_dir_item :: "item \<Rightarrow> bool" where
  "is_dir_item (DirItem q) = True"
| "is_dir_item (VarItem q) = False"

text \<open>The box of a row: its item, its state, and whether it has no rows below.\<close>

type_synonym box = "item \<times> bool \<times> bool"

fun boxes :: "row \<Rightarrow> box list" where
  "boxes (Row it c ks) = (it, ce_checked c, ks = []) # concat (map boxes ks)"

definition boxes_below :: "row list \<Rightarrow> box list" where
  "boxes_below ks = concat (map boxes ks)"

lemma boxes_below_simps [simp]:
  "boxes_below [] = []" "boxes_below (k # ks) = boxes k @ boxes_below ks"
  "boxes_below (xs @ ys) = boxes_below xs @ boxes_below ys"
  by (simp_all add: boxes_below_def)

lemma boxes_Row: "boxes (Row it c ks) = (it, ce_checked c, ks = []) # boxes_below ks"
  by (simp add: boxes_below_def)

declare boxes.simps [simp del]

text \<open>
  A box agrees with the data, except that the box of a directory with nothing in it does not change
  the data.  Variables have no rows below.
\<close>

definition agrees :: "xml_directory \<Rightarrow> box \<Rightarrow> bool" where
  "agrees d x \<longleftrightarrow> (is_dir_item (fst x) \<or> snd (snd x)) \<and>
     (snd (snd x) \<and> is_dir_item (fst x) \<or> fst (snd x) = item_excluded d (fst x))"

definition boxes_ok :: "box list \<Rightarrow> xml_directory \<Rightarrow> bool" where
  "boxes_ok bs d \<longleftrightarrow> distinct (map fst bs) \<and> (\<forall>x \<in> set bs. item_in d (fst x) \<and> agrees d x)"

text \<open>A change of the data that leaves what is excluded outside a set of items.\<close>

definition changed_within :: "item set \<Rightarrow> xml_directory \<Rightarrow> xml_directory \<Rightarrow> bool" where
  "changed_within A d d' \<longleftrightarrow>
     (\<forall>it. item_in d' it = item_in d it \<and> (it \<notin> A \<longrightarrow> item_excluded d' it = item_excluded d it))"

lemma changed_within_refl [simp]: "changed_within A d d"
  by (simp add: changed_within_def)

lemma changed_within_trans:
  "changed_within A d d' \<Longrightarrow> changed_within B d' d'' \<Longrightarrow> A \<subseteq> C \<Longrightarrow> B \<subseteq> C \<Longrightarrow> changed_within C d d''"
  by (auto simp: changed_within_def)

lemma changed_within_mono: "changed_within A d d' \<Longrightarrow> A \<subseteq> B \<Longrightarrow> changed_within B d d'"
  by (auto simp: changed_within_def)

lemma changed_within_in: "changed_within A d d' \<Longrightarrow> item_in d' it = item_in d it"
  by (simp add: changed_within_def)

lemma changed_within_excluded:
  "changed_within A d d' \<Longrightarrow> it \<notin> A \<Longrightarrow> item_excluded d' it = item_excluded d it"
  by (simp add: changed_within_def)

lemma boxes_ok_append:
  "boxes_ok (xs @ ys) d \<longleftrightarrow> boxes_ok xs d \<and> boxes_ok ys d \<and> fst ` set xs \<inter> fst ` set ys = {}"
  by (auto simp: boxes_ok_def)

lemma boxes_ok_Cons:
  "boxes_ok (x # ys) d \<longleftrightarrow> item_in d (fst x) \<and> agrees d x \<and> fst x \<notin> fst ` set ys \<and> boxes_ok ys d"
  by (auto simp: boxes_ok_def)

text \<open>Boxes outside the change still agree.\<close>

lemma boxes_ok_changed:
  assumes "boxes_ok bs d" and "changed_within A d d'" and "fst ` set bs \<inter> A = {}"
  shows "boxes_ok bs d'"
proof -
  have "item_excluded d' (fst x) = item_excluded d (fst x)" if "x \<in> set bs" for x
    using that assms(3) by (intro changed_within_excluded [OF assms(2)]) auto
  with assms(1) show ?thesis by (auto simp: boxes_ok_def agrees_def changed_within_in [OF assms(2)])
qed

lemma boxes_ok_replace:
  assumes "boxes_ok (xs @ ys @ zs) d" and "boxes_ok ys' d'" and "map fst ys' = map fst ys"
    and "changed_within (fst ` set ys) d d'"
  shows "boxes_ok (xs @ ys' @ zs) d'"
proof -
  have items: "fst ` set ys' = fst ` set ys" using assms(3) by (metis list.set_map)
  have "boxes_ok xs d'" "boxes_ok zs d'"
    using assms(1) by (auto intro!: boxes_ok_changed [OF _ assms(4)] simp: boxes_ok_append)
  with assms(1,2) show ?thesis by (simp add: boxes_ok_append items image_Un)
qed

section \<open>Assignments\<close>

lemma dir_info_at_modify_vars [simp]: "dir_info_at (modify_vars r f d) q = dir_info_at d q"
proof (induction r f d arbitrary: q rule: modify_vars.induct)
  case (1 f i ds vs)
  then show ?case by (cases q) auto
next
  case (2 k r f i ds vs)
  then show ?case by (cases q) (auto simp: nth_list_update)
qed

lemma dir_info_at_modify_var [simp]: "dir_info_at (modify_var r f d) q = dir_info_at d q"
  by (simp add: modify_var_def)

lemma dvars_at_modify_dir: "map_option dvars (dir_at (modify_dir r f d) q) = map_option dvars (dir_at d q)"
proof (induction r f d arbitrary: q rule: modify_dir.induct)
  case (1 f i ds vs)
  then show ?case by (cases q) auto
next
  case (2 k r f i ds vs)
  then show ?case by (cases q) (auto simp: nth_list_update)
qed

lemma var_at_modify_dir [simp]: "var_at (modify_dir r f d) q = var_at d q"
  by (simp add: var_at_alt dvars_at_modify_dir)

lemma item_in_modify [simp]:
  "item_in (modify_dir q f d) it = item_in d it" "item_in (modify_var v g d) it = item_in d it"
  by (cases it; auto simp: dir.at_modify var.at_modify)+

lemma exclude_dir:
  "item_excluded (modify_dir q (setState_dir b) d) it =
     (if it = DirItem q \<and> item_in d it then b else item_excluded d it)"
  by (cases it) (auto simp: dir.at_modify setState_dir_def)

lemma exclude_var:
  "item_excluded (modify_var q (setState_var b) d) it =
     (if it = VarItem q \<and> item_in d it then b else item_excluded d it)"
  by (cases it) (auto simp: var.at_modify setState_var_def)

lemma exclude_changed_within:
  "changed_within {DirItem q} d (modify_dir q (setState_dir b) d)"
  "changed_within {VarItem v} d (modify_var v (setState_var b) d)"
  by (auto simp: changed_within_def exclude_dir exclude_var)

text \<open>Assignments to other fields.\<close>

lemma keep_changed_within:
  assumes "\<And>i. d_exclude (f i) = d_exclude i"
  shows "changed_within {} d (modify_dir q f d)"
proof -
  have "item_excluded (modify_dir q f d) it = item_excluded d it" for it
    by (cases it; cases "dir_info_at d q") (auto simp: dir.at_modify assms)
  then show ?thesis by (simp add: changed_within_def)
qed

lemma keep_var_changed_within:
  assumes "\<And>v. v_exclude (f v) = v_exclude v"
  shows "changed_within {} d (modify_var q f d)"
proof -
  have "item_excluded (modify_var q f d) it = item_excluded d it" for it
    by (cases it; cases "var_at d q") (auto simp: var.at_modify assms)
  then show ?thesis by (simp add: changed_within_def)
qed

section \<open>The contract of the handlers\<close>

locale row_handler =
  fixes h :: "row \<Rightarrow> xml_directory \<Rightarrow> row \<times> xml_directory"
  assumes items: "map fst (boxes (fst (h r d))) = map fst (boxes r)"
    and ok: "boxes_ok (boxes r) d \<Longrightarrow> boxes_ok (boxes (fst (h r d))) (snd (h r d))"
    and within: "boxes_ok (boxes r) d \<Longrightarrow> changed_within (fst ` set (boxes r)) d (snd (h r d))"
begin

lemma on_row_handler:
  "map fst (boxes (fst (on_row p h r d))) = map fst (boxes r) \<and>
   (boxes_ok (boxes r) d \<longrightarrow> boxes_ok (boxes (fst (on_row p h r d))) (snd (on_row p h r d)) \<and>
      changed_within (fst ` set (boxes r)) d (snd (on_row p h r d)))"
proof (induction p arbitrary: r d)
  case Nil
  then show ?case by (simp add: items ok within)
next
  case (Cons k p)
  obtain it c ks where r: "r = Row it c ks" by (cases r)
  show ?case
  proof (cases "k < length ks")
    case False
    then show ?thesis by (simp add: r)
  next
    case True
    obtain k' d' where run: "on_row p h (ks ! k) d = (k', d')" by (cases "on_row p h (ks ! k) d")
    let ?before = "boxes_below (take k ks)" and ?after = "boxes_below (drop (Suc k) ks)"
    have "boxes_below ks = boxes_below (take k ks @ ks ! k # drop (Suc k) ks)"
      using True by (simp add: id_take_nth_drop [symmetric])
    then have old: "boxes r = [(it, ce_checked c, ks = [])] @ ?before @ boxes (ks ! k) @ ?after"
      by (simp add: r boxes_Row)
    have new: "boxes (fst (on_row (k # p) h r d)) = [(it, ce_checked c, ks = [])] @ ?before @ boxes k' @ ?after"
      using True by (auto simp: r run boxes_Row upd_conv_take_nth_drop)
    have data: "snd (on_row (k # p) h r d) = d'" using True by (simp add: r run)
    have same: "map fst (boxes k') = map fst (boxes (ks ! k))" using Cons [of "ks ! k" d] by (simp add: run)
    have "boxes_ok (boxes k') d'" "changed_within (fst ` set (boxes (ks ! k))) d d'" if "boxes_ok (boxes r) d"
      using that Cons [of "ks ! k" d] by (simp_all add: run old boxes_ok_append boxes_ok_Cons)
    then have "boxes_ok (boxes (fst (on_row (k # p) h r d))) d' \<and> changed_within (fst ` set (boxes r)) d d'"
      if "boxes_ok (boxes r) d"
      using that boxes_ok_replace [of "[(it, ce_checked c, ks = [])] @ ?before" "boxes (ks ! k)" ?after d "boxes k'" d']
        same changed_within_mono [of "fst ` set (boxes (ks ! k))" d d' "fst ` set (boxes r)"]
      by (auto simp: old new)
    then show ?thesis using same by (auto simp: data old new)
  qed
qed

lemma on_row_ok: "boxes_ok (boxes r) d \<Longrightarrow> on_row p h r d = (r', d') \<Longrightarrow> boxes_ok (boxes r') d'"
  using on_row_handler [of p r d] by simp

end

text \<open>A handler that leaves the boxes and what they stand for alone.\<close>

locale frame_handler =
  fixes h :: "row \<Rightarrow> xml_directory \<Rightarrow> row \<times> xml_directory"
  assumes same_boxes: "boxes (fst (h r d)) = boxes r"
    and same_data: "changed_within {} d (snd (h r d))"

sublocale frame_handler \<subseteq> row_handler h
proof
  show "boxes_ok (boxes (fst (h r d))) (snd (h r d))" if "boxes_ok (boxes r) d" for r d
    using that same_data by (auto simp: same_boxes intro: boxes_ok_changed)
  show "changed_within (fst ` set (boxes r)) d (snd (h r d))" for r d
    using same_data by (rule changed_within_mono) simp
qed (simp add: same_boxes)

section \<open>Excluding\<close>

lemma set_check_items:
  "map fst (boxes (fst (set_check b r d))) = map fst (boxes r)"
  "map fst (boxes_below (fst (mapDirectory b q ks d))) = map fst (boxes_below ks)"
  by (induction b r d and b q ks d rule: set_check_mapDirectory.induct)
    (auto simp: boxes_Row split: item.splits prod.splits)

lemma mapDirectory_Nil [simp]: "fst (mapDirectory b q ks d) = [] \<longleftrightarrow> ks = []"
  by (cases ks) (auto split: prod.splits)

lemma items_eq: "map fst xs = map fst ys \<Longrightarrow> fst ` set xs = fst ` set ys"
  by (metis list.set_map)

text \<open>The box of a variable, and that of a directory after its children were set.\<close>

lemma check_var_ok:
  assumes "boxes_ok (boxes (Row (VarItem q) c ks)) d"
  shows "boxes_ok (boxes (Row (VarItem q) (c\<lparr>ce_checked := b\<rparr>) ks)) (modify_var q (setState_var b) d) \<and>
    changed_within (fst ` set (boxes (Row (VarItem q) c ks))) d (modify_var q (setState_var b) d)"
proof -
  let ?d = "modify_var q (setState_var b) d"
  have new: "item_in d (VarItem q)" "VarItem q \<notin> fst ` set (boxes_below ks)" "boxes_ok (boxes_below ks) d" "ks = []"
    using assms by (auto simp: boxes_Row boxes_ok_Cons agrees_def)
  have ch: "changed_within {VarItem q} d ?d" by (rule exclude_changed_within(2))
  have "boxes_ok (boxes_below ks) ?d" using new(3) ch by (rule boxes_ok_changed) (use new in simp)
  moreover have "agrees ?d (VarItem q, b, ks = [])"
    using new(1,4) by (simp add: agrees_def exclude_var del: item_excluded.simps item_in.simps)
  moreover have "changed_within (fst ` set (boxes (Row (VarItem q) c ks))) d ?d"
    using ch by (rule changed_within_mono) (simp add: boxes_Row)
  ultimately show ?thesis using new by (simp add: boxes_Row boxes_ok_Cons del: item_in.simps item_excluded.simps)
qed

lemma check_dir_ok:
  assumes "boxes_ok (boxes (Row (DirItem q) c ks)) d" and "map fst (boxes_below ks') = map fst (boxes_below ks)"
    and "ks' = [] \<longleftrightarrow> ks = []" and "boxes_ok (boxes_below ks') d'"
    and "changed_within (insert (DirItem q) (fst ` set (boxes_below ks))) d d'"
    and "ks \<noteq> [] \<longrightarrow> item_excluded d' (DirItem q) = b"
  shows "boxes_ok (boxes (Row (DirItem q) (c\<lparr>ce_checked := b\<rparr>) ks')) d' \<and>
    changed_within (fst ` set (boxes (Row (DirItem q) c ks))) d d'"
  using assms(1,3,4,5,6) items_eq [OF assms(2)] changed_within_in [OF assms(5), of "DirItem q"]
  by (auto simp: boxes_Row boxes_ok_Cons agrees_def)

lemma set_check_ok:
  "boxes_ok (boxes r) d \<Longrightarrow> boxes_ok (boxes (fst (set_check b r d))) (snd (set_check b r d)) \<and>
     changed_within (fst ` set (boxes r)) d (snd (set_check b r d))"
  "boxes_ok (boxes_below ks) d \<Longrightarrow> item_in d (DirItem q) \<Longrightarrow> DirItem q \<notin> fst ` set (boxes_below ks) \<Longrightarrow>
     boxes_ok (boxes_below (fst (mapDirectory b q ks d))) (snd (mapDirectory b q ks d)) \<and>
     changed_within (insert (DirItem q) (fst ` set (boxes_below ks))) d (snd (mapDirectory b q ks d)) \<and>
     (ks \<noteq> [] \<longrightarrow> item_excluded (snd (mapDirectory b q ks d)) (DirItem q) = b)"
proof (induction b r d and b q ks d rule: set_check_mapDirectory.induct)
  case (1 b it c ks d)
  show ?case
  proof (cases "ce_checked c = b")
    case False
    show ?thesis
    proof (cases it)
      case (VarItem q)
      then show ?thesis using False check_var_ok [of q c ks d b] 1(2) by simp
    next
      case (DirItem q)
      obtain ks' d' where run: "mapDirectory b q ks d = (ks', d')" by (cases "mapDirectory b q ks d")
      have "boxes_ok (boxes_below ks') d' \<and> changed_within (insert (DirItem q) (fst ` set (boxes_below ks))) d d' \<and>
          (ks \<noteq> [] \<longrightarrow> item_excluded d' (DirItem q) = b)"
        using 1(1) [OF False DirItem] 1(2) DirItem by (simp add: run boxes_Row boxes_ok_Cons)
      then show ?thesis
        using check_dir_ok [of q c ks d ks' d' b] 1(2) False DirItem set_check_items(2) [of b q ks d]
          mapDirectory_Nil [of b q ks d] by (simp add: run)
    qed
  qed (use 1 in simp)
next
  case (2 b q d)
  then show ?case by simp
next
  case (3 b q k ks d)
  obtain k' d1 where k: "set_check b k d = (k', d1)" by (cases "set_check b k d")
  let ?d = "modify_dir q (setState_dir b) d1"
  obtain ks' d2 where ks: "mapDirectory b q ks ?d = (ks', d2)" by (cases "mapDirectory b q ks ?d")
  have ok_k: "boxes_ok (boxes k) d" and ok_ks: "boxes_ok (boxes_below ks) d"
    and apart: "fst ` set (boxes k) \<inter> fst ` set (boxes_below ks) = {}" "DirItem q \<notin> fst ` set (boxes k)"
      "DirItem q \<notin> fst ` set (boxes_below ks)"
    using 3(3,5) by (auto simp: boxes_ok_append)
  have k': "boxes_ok (boxes k') d1" and ch1: "changed_within (fst ` set (boxes k)) d d1"
    using 3(1) [OF ok_k] by (simp_all add: k)
  have ch2: "changed_within (insert (DirItem q) (fst ` set (boxes k))) d ?d"
    by (rule changed_within_trans [OF ch1 exclude_changed_within(1)]) auto
  have "boxes_ok (boxes_below ks) ?d" using ok_ks ch2 by (rule boxes_ok_changed) (use apart in auto)
  moreover have "item_in ?d (DirItem q)" using 3(4) changed_within_in [OF ch2] by blast
  ultimately have ks': "boxes_ok (boxes_below ks') d2"
    and ch3: "changed_within (insert (DirItem q) (fst ` set (boxes_below ks))) ?d d2"
    and last: "ks \<noteq> [] \<longrightarrow> item_excluded d2 (DirItem q) = b"
    using 3(2) [OF k [symmetric]] apart by (simp_all add: ks)
  have items: "fst ` set (boxes k') = fst ` set (boxes k)" "fst ` set (boxes_below ks') = fst ` set (boxes_below ks)"
    using set_check_items(1) [of b k d] set_check_items(2) [of b q ks ?d]
    by (auto simp: k ks intro!: items_eq)
  have "boxes_ok (boxes k') ?d" using k' exclude_changed_within(1) by (rule boxes_ok_changed) (use items apart in auto)
  then have "boxes_ok (boxes k') d2" using ch3 by (rule boxes_ok_changed) (use items apart in auto)
  moreover have "ks = [] \<Longrightarrow> item_excluded d2 (DirItem q) = b"
  proof -
    assume "ks = []"
    then have "d2 = ?d" using ks by simp
    moreover have "item_in d1 (DirItem q)" using 3(4) changed_within_in [OF ch1] by blast
    ultimately show ?thesis by (simp add: exclude_dir del: item_excluded.simps item_in.simps)
  qed
  moreover have "changed_within (insert (DirItem q) (fst ` set (boxes_below (k # ks)))) d d2"
    by (rule changed_within_trans [OF ch2 ch3]) auto
  moreover have "mapDirectory b q (k # ks) d = (k' # ks', d2)" by (simp add: k ks)
  ultimately show ?case using ks' items apart last
    by (cases "ks = []") (auto simp: boxes_ok_append simp del: item_excluded.simps set_check.simps mapDirectory.simps)
qed

interpretation check: row_handler "set_check b" for b
  by unfold_locales (simp_all add: set_check_items set_check_ok)

section \<open>Handlers that leave the boxes alone\<close>

lemma set_dir_changed_within:
  "dir_info_at d q = Some i \<Longrightarrow> d_exclude j = d_exclude i \<Longrightarrow> changed_within {} d (modify_dir q (\<lambda>_. j) d)"
proof -
  assume "dir_info_at d q = Some i" "d_exclude j = d_exclude i"
  then have "item_excluded (modify_dir q (\<lambda>_. j) d) it = item_excluded d it" for it
    by (cases it) (auto simp: dir.at_modify)
  then show ?thesis by (simp add: changed_within_def)
qed

lemma set_var_changed_within:
  "var_at d q = Some v \<Longrightarrow> v_exclude w = v_exclude v \<Longrightarrow> changed_within {} d (modify_var q (\<lambda>_. w) d)"
proof -
  assume "var_at d q = Some v" "v_exclude w = v_exclude v"
  then have "item_excluded (modify_var q (\<lambda>_. w) d) it = item_excluded d it" for it
    by (cases it) (auto simp: var.at_modify)
  then show ?thesis by (simp add: changed_within_def)
qed

lemma boxes_sel: "boxes r = (r_item r, ce_checked (r_cells r), r_kids r = []) # boxes_below (r_kids r)"
  by (cases r) (simp add: boxes_Row)

lemma boxes_enable_combo [simp]: "boxes (enable_combo b r) = boxes r"
  by (cases r) (simp add: enable_combo_def boxes_Row)

lemma set_histories_Nil [simp]: "fst (set_histories t ks d) = [] \<longleftrightarrow> ks = []"
  by (cases ks) (auto split: prod.splits)

lemma changed_nothing_trans: "changed_within {} d d' \<Longrightarrow> changed_within {} d' d'' \<Longrightarrow> changed_within {} d d''"
  by (rule changed_within_trans [of "{}" d d' "{}"]) simp_all

lemma set_history_frame:
  "boxes (fst (set_history t r d)) = boxes r \<and> changed_within {} d (snd (set_history t r d))"
  "boxes_below (fst (set_histories t ks d)) = boxes_below ks \<and> changed_within {} d (snd (set_histories t ks d))"
proof (induction t r d and t ks d rule: set_history_set_histories.induct)
  case (1 t it c ks d)
  show ?case
  proof (cases "findText t (c_items (ce_combo c))")
    case (Some i)
    note found = this
    show ?thesis
    proof (cases "i = c_index (ce_combo c)")
      case False
      show ?thesis
      proof (cases it)
        case (VarItem q)
        then show ?thesis using Some False by (auto simp: Let_def boxes_Row intro: keep_var_changed_within)
      next
        case (DirItem q)
        let ?d = "modify_dir q (\<lambda>i. i\<lparr>d_historizing := history_of t\<rparr>) d"
        obtain ks' d' where run: "set_histories t ks ?d = (ks', d')" by (cases "set_histories t ks ?d")
        have "boxes_below ks' = boxes_below ks" "changed_within {} ?d d'"
          using 1 [OF found False refl DirItem] by (simp_all add: run)
        moreover have "changed_within {} d ?d" by (rule keep_changed_within) simp
        moreover have "ks' = [] \<longleftrightarrow> ks = []" using set_histories_Nil [of t ks ?d] by (simp add: run)
        ultimately show ?thesis
          using Some False by (auto simp: DirItem run Let_def boxes_Row intro: changed_nothing_trans)
      qed
    qed (simp add: Some)
  qed simp
next
  case (3 t k ks d)
  then show ?case by (auto split: prod.splits intro: changed_nothing_trans)
qed simp

lemma choose_history_frame:
  "boxes (fst (choose_history i r d)) = boxes r \<and> changed_within {} d (snd (choose_history i r d))"
proof (cases "\<not> c_enabled (ce_combo (r_cells r)) \<or> length (c_items (ce_combo (r_cells r))) \<le> i \<or> i = c_index (ce_combo (r_cells r))")
  case False
  let ?t = "c_items (ce_combo (r_cells r)) ! i"
  show ?thesis
  proof (cases "r_item r")
    case (VarItem q)
    then show ?thesis using False
      by (auto simp: choose_history_def Let_def boxes_sel [of r] boxes_Row intro: keep_var_changed_within)
  next
    case (DirItem q)
    let ?d = "modify_dir q (\<lambda>i. i\<lparr>d_historizing := history_of ?t\<rparr>) d"
    obtain ks' d' where run: "set_histories ?t (r_kids r) ?d = (ks', d')" by (cases "set_histories ?t (r_kids r) ?d")
    have "ks' = [] \<longleftrightarrow> r_kids r = []" using set_histories_Nil [of ?t "r_kids r" ?d] by (simp add: run)
    moreover have "boxes_below ks' = boxes_below (r_kids r)" "changed_within {} ?d d'"
      using set_history_frame(2) [of ?t "r_kids r" ?d] by (simp_all add: run)
    moreover have "changed_within {} d ?d" by (rule keep_changed_within) simp
    ultimately show ?thesis using False
      by (auto simp: choose_history_def Let_def DirItem run boxes_sel [of r] boxes_Row intro: changed_nothing_trans)
  qed
qed (auto simp: choose_history_def Let_def)

lemma updateHistories_frame:
  "boxes (fst (updateHistories r d)) = boxes r \<and> changed_within {} d (snd (updateHistories r d))"
  "boxes_below (fst (updateHistories_below ks d)) = boxes_below ks \<and>
     (fst (updateHistories_below ks d) = [] \<longleftrightarrow> ks = []) \<and> changed_within {} d (snd (updateHistories_below ks d))"
proof (induction r d and ks d rule: updateHistories_updateHistories_below.induct)
  case (1 it c ks d)
  note found = set_history_frame(1) [where r = "Row it c ks" and d = d, THEN conjunct1]
    set_history_frame(1) [where r = "Row it c ks" and d = d, THEN conjunct2]
  show ?case
  proof (cases it)
    case (VarItem q)
    then show ?thesis using found
      by (cases "Option.bind (var_at d q) v_historizing") (simp_all del: set_history.simps)
  next
    case (DirItem q)
    show ?thesis
    proof (cases "Option.bind (dir_info_at d q) d_historizing")
      case None
      then show ?thesis using 1 [OF DirItem None]
        by (cases "updateHistories_below ks d") (simp add: DirItem boxes_Row)
    next
      case (Some h)
      then show ?thesis using found by (simp add: DirItem del: set_history.simps)
    qed
  qed
qed (auto split: prod.splits intro: changed_nothing_trans)

lemma addHistoryForInputs_frame:
  "addHistoryForInputs b cur r d = Inr (r', d') \<Longrightarrow> boxes r' = boxes r \<and> changed_within {} d d'"
  "addHistoryForInputs_below b cur ks d = Inr (ks', d') \<Longrightarrow>
     boxes_below ks' = boxes_below ks \<and> (ks' = [] \<longleftrightarrow> ks = []) \<and> changed_within {} d d'"
proof (induction b cur r d and b cur ks d arbitrary: r' d' and ks' d' rule: addHistoryForInputs_addHistoryForInputs_below.induct)
  case (1 b cur it c ks d)
  then show ?case
    using set_history_frame(1) [where r = "Row it c ks" and d = d]
    by (fastforce simp: boxes_Row rbind_Inr_iff split: item.splits option.splits if_splits prod.splits)
next
  case (3 b cur k ks d)
  then show ?case by (fastforce simp: rbind_Inr_iff intro: changed_nothing_trans)
qed simp

lemma boxes_addComboEntry [simp]: "boxes (addComboEntry name r) = boxes r"
proof (induction name r rule: addComboEntry.induct)
  case (1 name it c ks)
  then have "map (boxes \<circ> addComboEntry name) ks = map boxes ks" by simp
  then show ?case by (simp only: addComboEntry.simps boxes_Row boxes_below_def map_map) simp
qed

lemma update_cell_exclude [simp]:
  "d_exclude (fst (update_dir_cell k t red i)) = d_exclude i"
  "v_exclude (fst (update_var_cell k t red v)) = v_exclude v"
  by (simp_all add: update_dir_cell_def update_var_cell_def)

lemma set_cell_checked [simp]: "ce_checked (set_cell k t red c) = ce_checked c"
  by (simp add: set_cell_def)

lemma updateItem_frame:
  "boxes (fst (updateItem k r d)) = boxes r \<and> changed_within {} d (snd (updateItem k r d))"
proof (cases "r_item r")
  case (DirItem q)
  show ?thesis
  proof (cases "dir_info_at d q")
    case (Some i)
    let ?u = "update_dir_cell k (ce_text (r_cells r) ! k) (ce_red (r_cells r) ! k) i"
    obtain j t red where u: "?u = (j, t, red)" by (cases ?u)
    have "changed_within {} d (modify_dir q (\<lambda>_. j) d)"
      using Some update_cell_exclude(1) [of k "ce_text (r_cells r) ! k" "ce_red (r_cells r) ! k" i]
      by (intro set_dir_changed_within) (auto simp: u)
    then show ?thesis by (simp add: updateItem_def Let_def DirItem Some u boxes_sel [of r] boxes_Row)
  qed (simp add: updateItem_def Let_def DirItem)
next
  case (VarItem q)
  show ?thesis
  proof (cases "var_at d q")
    case (Some v)
    let ?u = "update_var_cell k (ce_text (r_cells r) ! k) (ce_red (r_cells r) ! k) v"
    obtain w t red where u: "?u = (w, t, red)" by (cases ?u)
    have "changed_within {} d (modify_var q (\<lambda>_. w) d)"
      using Some update_cell_exclude(2) [of k "ce_text (r_cells r) ! k" "ce_red (r_cells r) ! k" v]
      by (intro set_var_changed_within) (auto simp: u)
    then show ?thesis by (simp add: updateItem_def Let_def VarItem Some u boxes_sel [of r] boxes_Row)
  qed (simp add: updateItem_def Let_def VarItem)
qed

lemma edit_cell_frame:
  "boxes (fst (edit_cell k t r d)) = boxes r \<and> changed_within {} d (snd (edit_cell k t r d))"
  using updateItem_frame [of k "Row (r_item r) ((r_cells r)\<lparr>ce_text := (ce_text (r_cells r))[k := t]\<rparr>) (r_kids r)" d]
  by (auto simp: edit_cell_def boxes_sel [of r] boxes_Row)

lemma drop_on_frame:
  "boxes (fst (drop_on q cur d)) = boxes cur \<and> changed_within {} d (snd (drop_on q cur d))"
proof (cases "dir_info_at d q")
  case (Some i)
  let ?r = "Row (r_item cur) (set_cell 5 (d_path i) True (r_cells cur)) (r_kids cur)"
  let ?d = "case r_item cur of DirItem p \<Rightarrow> modify_dir p (\<lambda>j. j\<lparr>d_newDestination := Some (d_path i)\<rparr>) d
             | VarItem p \<Rightarrow> modify_var p (\<lambda>v. v\<lparr>v_newDestination := Some (d_path i)\<rparr>) d"
  have "changed_within {} d ?d" by (auto split: item.split intro: keep_changed_within keep_var_changed_within)
  moreover have "boxes ?r = boxes cur" by (simp add: boxes_sel [of cur] boxes_Row)
  ultimately show ?thesis
    using updateItem_frame [of 5 ?r ?d] by (auto simp: drop_on_def Some intro: changed_nothing_trans)
qed (simp add: drop_on_def)

interpretation choose: frame_handler "choose_history i" for i
  by unfold_locales (simp_all add: choose_history_frame)

interpretation update: frame_handler updateHistories
  by unfold_locales (simp_all add: updateHistories_frame)

interpretation edit: frame_handler "edit_cell k t" for k t
  by unfold_locales (simp_all add: edit_cell_frame)

interpretation drop_item: frame_handler "drop_on q" for q
  by unfold_locales (simp_all add: drop_on_frame)

end
