(* ===== verification/Form_Facts.thy ===== *)
theory Form_Facts
  imports Form_Boxes Map_Load
begin

text \<open>
  Properties of the window: the check boxes of the tree follow the data through every sequence of
  events, what excluding a directory reaches, which edits show what refilling the tree would
  show, and what becomes of settings on the way between the panel and the generator.
\<close>

section \<open>A tree that was just filled\<close>

lemma dir_at_append: "dir_at d (q @ p) = Option.bind (dir_at d q) (\<lambda>e. dir_at e p)"
  by (induction q arbitrary: d) auto

fun item_pos :: "item \<Rightarrow> dir_ref" where
  "item_pos (DirItem q) = q"
| "item_pos (VarItem v) = fst v"

lemma createVariableNodes_ok:
  assumes "createVariableNodes q k vs = Inr rs" and "dir_at d q = Some e" and "vs = drop k (dvars e)"
  shows "boxes_ok (boxes_below rs) d \<and> (\<forall>x \<in> set (boxes_below rs). \<exists>j \<ge> k. fst x = VarItem (q, j))"
  using assms
proof (induction q k vs arbitrary: rs rule: createVariableNodes.induct)
  case (1 r k)
  then show ?case by (simp add: boxes_ok_def)
next
  case (2 r k v vs)
  from "2.prems"(3) have k: "k < length (dvars e)" by (metis drop_all list.distinct(1) not_le)
  with "2.prems"(3) have v: "v = dvars e ! k" and vs: "vs = drop (Suc k) (dvars e)"
    by (simp_all add: Cons_nth_drop_Suc [symmetric])
  from "2.prems"(1) obtain x xs where x: "createVariableNode (r, k) v = Inr x"
    and xs: "createVariableNodes r (Suc k) vs = Inr xs" and rs: "rs = x # xs" by (auto simp: rbind_Inr_iff)
  from x obtain c where "x = Row (VarItem (r, k)) c []" "ce_checked c = (v_exclude v = Some True)"
    by (auto simp: createVariableNode_def rbind_Inr_iff setup_row_def getCheckBox_def)
  moreover have "var_at d (r, k) = Some v" using k v "2.prems"(2) by (simp add: var_at_def)
  moreover have "boxes_ok (boxes_below xs) d \<and> (\<forall>x \<in> set (boxes_below xs). \<exists>j \<ge> Suc k. fst x = VarItem (r, j))"
    using "2.IH" xs "2.prems"(2) vs x by blast
  ultimately show ?case by (fastforce simp: rs boxes_Row boxes_ok_Cons agrees_def dest: Suc_leD)
qed

lemma createDirectoryNode_ok:
  "createDirectoryNode q e = Inr r \<Longrightarrow> dir_at d q = Some e \<Longrightarrow>
     boxes_ok (boxes r) d \<and> (\<forall>x \<in> set (boxes r). prefix q (item_pos (fst x)))"
  "createDirectoryNodes q k ds = Inr rs \<Longrightarrow> dir_at d q = Some e' \<Longrightarrow> ds = drop k (ddirs e') \<Longrightarrow>
     boxes_ok (boxes_below rs) d \<and> (\<forall>x \<in> set (boxes_below rs). \<exists>j \<ge> k. prefix (q @ [j]) (item_pos (fst x)))"
proof (induction q e and q k ds arbitrary: r and rs e' rule: createDirectoryNode_createDirectoryNodes.induct)
  case (1 q i ds vs)
  from "1.prems"(1) obtain xs ys where xs: "createDirectoryNodes q 0 ds = Inr xs"
    and ys: "createVariableNodes q 0 vs = Inr ys"
    and r: "r = Row (DirItem q) (setup_row (dir_texts i) (dir_reds i) False (d_exclude i)) (xs @ ys)"
    by (auto simp: rbind_Inr_iff)
  have d: "dir_at d q = Some (XMLDirectory i ds vs)" by (rule "1.prems"(2))
  have kids: "boxes_ok (boxes_below xs) d" "\<forall>x \<in> set (boxes_below xs). \<exists>j. prefix (q @ [j]) (item_pos (fst x))"
    using "1.IH" [OF xs d] by auto
  have leaves: "boxes_ok (boxes_below ys) d" "\<forall>x \<in> set (boxes_below ys). \<exists>j. fst x = VarItem (q, j)"
    using createVariableNodes_ok [OF ys d] by auto
  have "fst x \<noteq> fst y" if "x \<in> set (boxes_below xs)" "y \<in> set (boxes_below ys)" for x y
    using that kids(2) leaves(2) by (fastforce simp: prefix_def)
  then have "fst ` set (boxes_below xs) \<inter> fst ` set (boxes_below ys) = {}" by auto
  moreover have "DirItem q \<noteq> fst x" if "x \<in> set (boxes_below xs) \<union> set (boxes_below ys)" for x
    using that kids(2) leaves(2) by (cases "fst x") (auto simp: prefix_def)
  then have "DirItem q \<notin> fst ` (set (boxes_below xs) \<union> set (boxes_below ys))" by auto
  moreover have "dir_info_at d q = Some i" by (simp add: dir_info_at_def d)
  moreover have "prefix q (item_pos (fst x))" if "x \<in> set (boxes_below xs) \<union> set (boxes_below ys)" for x
    using that kids(2) leaves(2) by (auto dest!: bspec intro: append_prefixD)
  ultimately show ?case using kids(1) leaves(1)
    by (simp add: r boxes_Row boxes_ok_Cons boxes_ok_append agrees_def setup_row_def getCheckBox_def image_Un)
next
  case (2 q k)
  then show ?case by (simp add: boxes_ok_def)
next
  case (3 q k e ds)
  from "3.prems"(3) have k: "k < length (ddirs e')" by (metis drop_all list.distinct(1) not_le)
  with "3.prems"(3) have e: "e = ddirs e' ! k" and ds: "ds = drop (Suc k) (ddirs e')"
    by (simp_all add: Cons_nth_drop_Suc [symmetric])
  from "3.prems"(1) obtain x xs where x: "createDirectoryNode (q @ [k]) e = Inr x"
    and xs: "createDirectoryNodes q (Suc k) ds = Inr xs" and rs: "rs = x # xs" by (auto simp: rbind_Inr_iff)
  have "dir_at d (q @ [k]) = Some e" using "3.prems"(2) k e by (simp add: dir_at_append)
  then have first: "boxes_ok (boxes x) d" "\<forall>y \<in> set (boxes x). prefix (q @ [k]) (item_pos (fst y))"
    using "3.IH"(1) [OF x] by auto
  have rest: "boxes_ok (boxes_below xs) d"
      "\<forall>y \<in> set (boxes_below xs). \<exists>j \<ge> Suc k. prefix (q @ [j]) (item_pos (fst y))"
    using "3.IH"(2) [OF x xs "3.prems"(2) ds] by auto
  have "fst y \<noteq> fst z" if "y \<in> set (boxes x)" "z \<in> set (boxes_below xs)" for y z
    using that first(2) rest(2) by (fastforce simp: prefix_def)
  with first(1) rest(1) have "boxes_ok (boxes_below rs) d" by (auto simp: rs boxes_ok_append)
  moreover have "\<forall>y \<in> set (boxes_below rs). \<exists>j \<ge> k. prefix (q @ [j]) (item_pos (fst y))"
    using first(2) rest(2) by (fastforce simp: rs dest: Suc_leD)
  ultimately show ?case by blast
qed

lemma fillTree_ok: "fillTree d = Inr r \<Longrightarrow> boxes_ok (boxes r) d"
  unfolding fillTree_def using createDirectoryNode_ok(1) [of "[]" d r d] by simp

section \<open>Boxes follow the data\<close>

definition form_dir :: "form \<Rightarrow> xml_directory option" where
  "form_dir f = Option.bind (fm_gen f) mg_dir"

definition form_ok :: "form \<Rightarrow> bool" where
  "form_ok f \<longleftrightarrow> (\<forall>r. fm_tree f = Some r \<longrightarrow> (\<exists>d. form_dir f = Some d \<and> boxes_ok (boxes r) d))"

lemma form_ok_same:
  "fm_tree f' = fm_tree f \<Longrightarrow> form_dir f' = form_dir f \<Longrightarrow> form_ok f \<Longrightarrow> form_ok f'"
  by (simp add: form_ok_def)

lemma boxes_ok_frame: "boxes_ok bs d \<Longrightarrow> changed_within {} d d' \<Longrightarrow> boxes_ok bs d'"
  by (rule boxes_ok_changed [OF _ _ Int_empty_right])

lemma on_tree_ok:
  assumes "form_ok f"
    and "\<And>r d r' d'. boxes_ok (boxes r) d \<Longrightarrow> h r d = (r', d') \<Longrightarrow> boxes_ok (boxes r') d'"
  shows "form_ok (on_tree h f)"
proof (cases "fm_tree f")
  case None
  then show ?thesis using assms(1) by (simp add: on_tree_def form_ok_def)
next
  case (Some r)
  then obtain d where d: "form_dir f = Some d" "boxes_ok (boxes r) d" using assms(1) by (auto simp: form_ok_def)
  obtain r' d' where h: "h r d = (r', d')" by (cases "h r d")
  have "boxes_ok (boxes r') d'" using d(2) h by (rule assms(2))
  then show ?thesis using d(1) Some h by (auto simp: on_tree_def form_ok_def form_dir_def bind_eq_Some_conv)
qed

lemma boxes_modify_row:
  "\<forall>x. row_at p r = Some x \<longrightarrow> boxes (g x) = boxes x \<Longrightarrow> boxes (modify_row p g r) = boxes r"
proof (induction p arbitrary: r)
  case (Cons k p)
  obtain it c ks where r: "r = Row it c ks" by (cases r)
  show ?case
  proof (cases "k < length ks")
    case True
    then have "boxes (modify_row p g (ks ! k)) = boxes (ks ! k)" using Cons by (simp add: r)
    then have "map boxes (ks[k := modify_row p g (ks ! k)]) = map boxes ks"
      using True by (simp add: map_update list_update_same_conv)
    then show ?thesis using True by (auto simp: r boxes_Row boxes_below_def)
  qed (simp add: r)
qed simp

lemma dir_info_at_reset:
  "dir_info_at (XMLDirectory_reset d) q =
     map_option (\<lambda>i. i\<lparr>d_newName := None, d_newDescription := None, d_newDestination := None\<rparr>) (dir_info_at d q)"
proof (induction q arbitrary: d)
  case Nil
  then show ?case by (cases d) simp
next
  case (Cons k q)
  then show ?case by (cases d) simp
qed

lemma dir_at_reset: "dir_at (XMLDirectory_reset d) q = map_option XMLDirectory_reset (dir_at d q)"
proof (induction q arbitrary: d)
  case (Cons k q)
  then show ?case by (cases d) simp
qed simp

lemma dvars_reset [simp]: "dvars (XMLDirectory_reset d) = map XMLVar_reset (dvars d)"
  by (cases d) simp

lemma var_at_reset: "var_at (XMLDirectory_reset d) q = map_option XMLVar_reset (var_at d q)"
  by (simp add: var_at_def dir_at_reset split: option.split)

lemma reset_changed_within: "changed_within {} d (XMLDirectory_reset d)"
proof -
  have "item_in (XMLDirectory_reset d) it = item_in d it"
    "item_excluded (XMLDirectory_reset d) it = item_excluded d it" for it
    by (cases it; auto simp: dir_info_at_reset var_at_reset XMLVar_reset_def bind_map_option o_def
        split: option.split)+
  then show ?thesis by (simp add: changed_within_def)
qed

text \<open>The settings dialogs leave the tree of the generator alone.\<close>

lemma edit_encryption_mg_dir: "mg_dir (snd (edit_encryption e wc)) = mg_dir (snd wc)"
  by (cases wc; cases e) (auto simp: updateEncryptionConfiguration_def Let_def split: option.split)

lemma configureEncryption_mg_dir [simp]: "mg_dir (configureEncryption es g) = mg_dir (g :: map_generator)"
proof -
  have "mg_dir (snd (fold edit_encryption es wc)) = mg_dir (snd wc)" for wc :: "encryption_window \<times> map_generator"
    by (induction es arbitrary: wc) (simp_all add: edit_encryption_mg_dir)
  then show ?thesis by (simp add: configureEncryption_def)
qed

lemma edit_lds_mg_dir: "mg_dir (snd (edit_lds e wc)) = mg_dir (snd wc)"
  by (simp add: edit_lds_def LDS_updateData_def Let_def)

lemma configureLDSSettings_mg_dir [simp]: "mg_dir (configureLDSSettings es g) = mg_dir (g :: map_generator)"
proof -
  have "mg_dir (snd (fold edit_lds es wc)) = mg_dir (snd wc)" for wc :: "lds_dialog \<times> map_generator"
    by (induction es arbitrary: wc) (simp_all add: edit_lds_mg_dir)
  then show ?thesis by (simp add: configureLDSSettings_def)
qed

lemma edit_panel_mg_dir: "mg_dir (snd (edit_panel e pg)) = mg_dir (snd pg)"
  by (cases e) (auto simp: edit_panel_def Let_def updateConfig_def enableLogin_changed_def encryption_changed_def)

subsection \<open>Every event\<close>

text \<open>The objects of the settings exist, and the boxes are right.\<close>

definition settings_ok :: "form \<Rightarrow> bool" where
  "settings_ok f \<longleftrightarrow> (\<forall>s \<in> set (fm_settings f). s < length (fm_store f))"

definition form_inv :: "form \<Rightarrow> bool" where
  "form_inv f \<longleftrightarrow> form_ok f \<and> settings_ok f"

lemma form_inv_same:
  assumes "form_inv f" and "fm_tree f' = fm_tree f" and "form_dir f' = form_dir f"
    and "fm_settings f' = fm_settings f" and "length (fm_store f) \<le> length (fm_store f')"
  shows "form_inv f'"
  using assms form_ok_same [of f' f] by (fastforce simp: form_inv_def settings_ok_def)

lemma on_tree_inv:
  assumes "form_inv f" and "\<And>r d r' d'. boxes_ok (boxes r) d \<Longrightarrow> h r d = (r', d') \<Longrightarrow> boxes_ok (boxes r') d'"
  shows "form_inv (on_tree h f)"
proof -
  have "settings_ok (on_tree h f)" using assms(1)
    by (auto simp: on_tree_def form_inv_def settings_ok_def split: option.split prod.split)
  moreover have "form_ok (on_tree h f)" using assms by (intro on_tree_ok) (simp_all add: form_inv_def)
  ultimately show ?thesis by (simp add: form_inv_def)
qed

lemma createMapGenerator_inv:
  assumes "form_inv f" and "truthy_str name \<or> fm_tree f = None"
  shows "form_inv (createMapGenerator rs openF name f)"
proof (cases "rbind (MapGenerator_init rs openF name) (\<lambda>g.
    if truthy_str name
    then (case mg_dir g of None \<Rightarrow> Inl AttributeError | Some d \<Rightarrow> rbind (fillTree d) (\<lambda>r. Inr (g, Some r)))
    else Inr (g, fm_tree f))")
  case (Inl e)
  with assms show ?thesis
    by (simp add: createMapGenerator_def form_inv_def settings_ok_def form_ok_def)
next
  case (Inr gt)
  then have "snd gt = Some r \<Longrightarrow> \<exists>d. mg_dir (fst gt) = Some d \<and> fillTree d = Inr r" for r
    using assms(2) by (auto simp: rbind_Inr_iff split: if_splits option.splits)
  with Inr show ?thesis
    by (cases gt) (fastforce simp: createMapGenerator_def form_inv_def settings_ok_def form_ok_def form_dir_def
        intro: fillTree_ok)
qed

lemma initial_form_inv: "form_inv initial_form"
  by (simp add: initial_form_def form_inv_def form_ok_def settings_ok_def)

lemma MapGeneratorForm_init_inv:
  assumes "MapGeneratorForm_init rs openF inp noinput answer = Inr f"
  shows "form_inv f"
proof -
  have "fm_tree initial_form = None" by (simp add: initial_form_def)
  then show ?thesis
    using assms createMapGenerator_inv [OF initial_form_inv] initial_form_inv
    by (auto simp: MapGeneratorForm_init_def openFile_def rbind_Inr_iff form_inv_def form_ok_def settings_ok_def initial_form_def
        split: if_splits)
qed

lemma edit_history_frame:
  "fm_tree (snd (edit_history edit s e x)) = fm_tree (snd x) \<and> fm_gen (snd (edit_history edit s e x)) = fm_gen (snd x) \<and>
   fm_settings (snd (edit_history edit s e x)) = fm_settings (snd x) \<and>
   length (fm_store (snd (edit_history edit s e x))) = length (fm_store (snd x))"
  by (auto simp: edit_history_def Let_def checkNameExists_def History_updateData_def set_chosen_text_def
      split: history_edit.split option.split)

lemma historyDialog_inv: "historyDialog edit es f = Inr f' \<Longrightarrow> form_inv f \<Longrightarrow> form_inv f'"
proof -
  assume "historyDialog edit es f = Inr f'" and inv: "form_inv f"
  then obtain s w where f': "f' = snd (fold (edit_history edit s) es (w, f))"
    by (auto simp: historyDialog_def Let_def rbind_Inr_iff split: option.splits)
  have "form_inv (snd (fold (edit_history edit s) es x))" if "form_inv (snd x)" for x
    using that
  proof (induction es arbitrary: x)
    case (Cons e es)
    have "form_inv (snd (edit_history edit s e x))"
      using Cons.prems edit_history_frame [of edit s e x] by (intro form_inv_same [OF Cons.prems]) (simp_all add: form_dir_def)
    then show ?case using Cons.IH by simp
  qed simp
  with inv show ?thesis by (simp add: f')
qed

lemma addHistorySetting_inv:
  assumes "addHistorySetting seen s upd f = Inr f'" and "form_inv f" and "upd \<longrightarrow> s < length (fm_store f)"
  shows "form_inv f'"
proof -
  have "boxes (modify_row p (addComboEntry name) r) = boxes r" for p name r by (rule boxes_modify_row) simp
  then show ?thesis
    using assms by (auto simp: addHistorySetting_def Let_def form_inv_def form_ok_def settings_ok_def form_dir_def
        split: if_splits)
qed

lemma historyForInputs_inv:
  assumes "historyForInputs seen b f = Inr f'" and "form_inv f"
  shows "form_inv f'"
proof (cases "fm_historyButtons f")
  case False
  then show ?thesis using assms by (simp add: historyForInputs_def)
next
  case True
  then obtain p r x d x' d' where p: "seen = Some p" "fm_tree f = Some r" "row_at p r = Some x" "form_dir f = Some d"
    and run: "addHistoryForInputs b (chosen_text f) x d = Inr (x', d')"
    and f': "f' = f\<lparr>fm_tree := Some (modify_row p (\<lambda>_. x') r),
      fm_gen := map_option (\<lambda>g. g\<lparr>mg_dir := Some d'\<rparr>) (fm_gen f)\<rparr>"
    using assms(1) by (auto simp: historyForInputs_def row_seen_def form_dir_def rbind_Inr_iff split: option.splits)
  have frame: "boxes x' = boxes x" "changed_within {} d d'" using addHistoryForInputs_frame(1) [OF run] by simp_all
  have "boxes (modify_row p (\<lambda>_. x') r) = boxes r" by (rule boxes_modify_row) (use p frame in auto)
  then show ?thesis using assms(2) p frame(2)
    by (auto simp: f' form_inv_def form_ok_def settings_ok_def form_dir_def bind_eq_Some_conv intro: boxes_ok_frame)
qed

lemma load_setting_inv: "load_setting seen s f = Inr f' \<Longrightarrow> form_inv f \<Longrightarrow> form_inv f'"
  by (auto simp: load_setting_def Let_def add_history_item_def split: if_splits elim!: addHistorySetting_inv
      intro: form_inv_same simp: form_dir_def)

lemma updateTree_inv: "updateTree seen f = Inr f' \<Longrightarrow> form_inv f \<Longrightarrow> form_inv f'"
  by (auto simp: updateTree_def split: if_splits intro!: on_tree_inv elim: update.on_row_ok)

lemma take_over_settings: "settings_ok f \<Longrightarrow> settings_ok (take_over g f)"
  by (auto simp: settings_ok_def take_over_def Let_def)

lemma parseMapFile_no_dir:
  assumes "parseMapFile rs data g = Inr (n, g')"
  shows "mg_dir g' = None \<longleftrightarrow> mg_dir g = None"
proof -
  from assms obtain g1 where g1: "readConfig rs data (g\<lparr>mg_dir := map_option XMLDirectory_reset (mg_dir g)\<rparr>) = Inr g1"
    and g': "(case mg_dir g1 of None \<Rightarrow> Inr ((0, 0, 0), g1)
      | Some d \<Rightarrow> rbind (parse_entries rs data d) (\<lambda>s. Inr (snd s, g1\<lparr>mg_dir := Some (fst s)\<rparr>))) = Inr (n, g')"
    by (auto simp: parseMapFile_def Let_def rbind_Inr_iff split: if_splits)
  have "mg_dir g1 = map_option XMLDirectory_reset (mg_dir g)" using readConfig_mg_dir [OF g1] by simp
  with g' show ?thesis by (auto simp: rbind_Inr_iff split: option.splits)
qed

lemma loadMapFile_inv:
  assumes "loadMapFile rs seen data f = Inr f'" and "form_inv f"
  shows "form_inv f'"
proof (cases "fm_gen f")
  case None
  then show ?thesis using assms by (simp add: loadMapFile_def generator_of_def)
next
  case (Some g0)
  let ?g = "g0\<lparr>historySettings := settings_of f\<rparr>"
  show ?thesis
  proof (cases "parseMapFile rs data ?g")
    case (Inl e)
    then obtain m where "f' = f\<lparr>fm_gen := Some (?g\<lparr>mg_dir := map_option XMLDirectory_reset (mg_dir ?g)\<rparr>)\<rparr>"
      using assms(1) by (auto simp: loadMapFile_def generator_of_def Some split: py_error.splits)
    moreover have "boxes_ok (boxes t) (XMLDirectory_reset d)" if "boxes_ok (boxes t) d" for t d
      using that reset_changed_within by (rule boxes_ok_frame)
    ultimately show ?thesis using assms(2)
      by (auto simp: Some form_inv_def form_ok_def settings_ok_def form_dir_def)
  next
    case (Inr r)
    then obtain n g' where r: "parseMapFile rs data ?g = Inr (n, g')" by (cases r) auto
    let ?f = "(take_over g' f)\<lparr>fm_panel := fillConfig g' (fm_panel f)\<rparr>"
    have set: "settings_ok ?f" using assms(2) take_over_settings [of f g'] by (simp add: form_inv_def settings_ok_def)
    show ?thesis
    proof (cases "mg_dir g'")
      case None
      then have "f' = ?f" using assms(1) by (simp add: loadMapFile_def generator_of_def Some r Let_def)
      moreover have "form_dir f = None" using parseMapFile_no_dir [OF r] None by (simp add: form_dir_def Some)
      then have "fm_tree f = None" using assms(2) by (cases "fm_tree f") (simp_all add: form_inv_def form_ok_def)
      ultimately show ?thesis using set by (simp add: form_inv_def form_ok_def take_over_def Let_def)
    next
      case (Some d)
      then obtain t f2 where t: "fillTree d = Inr t"
        and f2: "foldM (load_setting seen) (fm_settings ?f) (?f\<lparr>fm_tree := Some t\<rparr>) = Inr f2"
        and last: "updateTree seen f2 = Inr f'"
        using assms(1) \<open>fm_gen f = Some g0\<close>
        by (auto simp: loadMapFile_def generator_of_def r Let_def rbind_Inr_iff)
      have "form_inv (?f\<lparr>fm_tree := Some t\<rparr>)"
        using set fillTree_ok [OF t] Some
        by (simp add: form_inv_def form_ok_def settings_ok_def form_dir_def take_over_def Let_def)
      then have "form_inv f2" by (rule foldM_invariant [OF f2, where P = form_inv]) (rule load_setting_inv)
      with last show ?thesis by (rule updateTree_inv)
    qed
  qed
qed

lemma on_panel_inv: "on_panel e f = Inr f' \<Longrightarrow> form_inv f \<Longrightarrow> form_inv f'"
proof (cases "fm_gen f")
  case (Some g)
  assume "on_panel e f = Inr f'" and inv: "form_inv f"
  then have "f' = f\<lparr>fm_panel := fst (edit_panel e (fm_panel f, g)), fm_gen := Some (snd (edit_panel e (fm_panel f, g)))\<rparr>"
    using Some by (auto simp: on_panel_def split: prod.splits)
  then show ?thesis using inv edit_panel_mg_dir [of e "(fm_panel f, g)"]
    by (auto intro!: form_inv_same [OF inv] simp: form_dir_def Some)
qed (simp add: on_panel_def split: if_splits)

lemma on_config_inv:
  "on_config h f = Inr f' \<Longrightarrow> (\<And>g. mg_dir (h g) = mg_dir g) \<Longrightarrow> form_inv f \<Longrightarrow> form_inv f'"
  by (auto simp: on_config_def form_dir_def split: option.splits intro: form_inv_same)

lemma save_to_same: "save_to name f = Inr (f', doc) \<Longrightarrow> f' = f"
  unfolding save_to_def by (elim rbind_InrE) (auto split: sum.split_asm py_error.split_asm)

lemma saveFileAs_inv:
  assumes saved: "saveFileAs answer f = Inr (f', doc)" and inv: "form_inv f"
  shows "form_inv f'"
proof -
  obtain g where g: "fm_gen f = Some g" using saved by (cases "fm_gen f") (simp_all add: saveFileAs_def)
  let ?run = "case answer of None \<Rightarrow> Inr (f, None)
      | Some name \<Rightarrow> save_to name (f\<lparr>fm_gen := Some (g\<lparr>outputFile := Some name\<rparr>)\<rparr>)"
  from saved g obtain x where x: "?run = Inr x" and f': "f' = (fst x)\<lparr>fm_canSave := True\<rparr>"
    by (cases ?run) (simp_all add: saveFileAs_def split: if_splits prod.splits)
  have "form_inv (f\<lparr>fm_gen := Some (g\<lparr>outputFile := Some name\<rparr>)\<rparr>)" for name
    by (rule form_inv_same [OF inv]) (simp_all add: form_dir_def g)
  then have "form_inv (fst x)" using x inv by (cases x) (auto split: option.splits dest: save_to_same)
  then show "form_inv f'" by (rule form_inv_same) (simp_all add: f' form_dir_def)
qed

lemma prepareNewHistorySetting_inv:
  assumes "prepareNewHistorySetting seen es f = Inr f'" and "form_inv f"
  shows "form_inv f'"
proof -
  let ?s = "length (fm_store f)" and ?name = "new_setting_name (history_texts f)"
  let ?f = "choose_setting ?name (add_history_item ?name ?s (f\<lparr>fm_store := fm_store f @ [HistorySetting_init ?name]\<rparr>))"
  from assms(1) obtain f1 where f1: "historyDialog False es ?f = Inr f1" and f': "addHistorySetting seen ?s True f1 = Inr f'"
    by (auto simp: prepareNewHistorySetting_def Let_def rbind_Inr_iff)
  have f: "fm_tree ?f = fm_tree f" "fm_gen ?f = fm_gen f" "fm_settings ?f = fm_settings f"
    "length (fm_store ?f) = Suc ?s"
    by (simp_all add: choose_setting_def add_history_item_def split: option.split)
  then have "form_inv ?f" by (intro form_inv_same [OF assms(2)]) (simp_all add: form_dir_def)
  with f1 have inv: "form_inv f1" by (rule historyDialog_inv)
  from f1 obtain s w where fold: "f1 = snd (fold (edit_history False s) es (w, ?f))"
    by (auto simp: historyDialog_def Let_def rbind_Inr_iff split: option.splits)
  have "length (fm_store (snd (fold (edit_history False s) es x))) = length (fm_store (snd x))" for x
    by (induction es arbitrary: x) (simp_all add: edit_history_frame)
  then have "?s < length (fm_store f1)" using f(4) by (simp add: fold)
  with f' inv show ?thesis by (auto elim: addHistorySetting_inv)
qed

lemma form_step_inv:
  assumes "form_step rs openF seen e f = Inr f'" and inv: "form_inv f"
  shows "form_inv f'"
proof (cases e)
  case (OpenFile name)
  then show ?thesis using assms createMapGenerator_inv [OF inv, of "Some name" rs openF]
    by (auto simp: openFile_def split: if_splits)
next
  case (ConfigureEncryption es)
  then show ?thesis using assms by (auto split: if_splits elim: on_config_inv)
next
  case (ConfigureLDS es)
  then show ?thesis using assms by (auto elim: on_config_inv)
next
  case (EditHistory es)
  then show ?thesis using assms by (auto simp: editHistorySetting_def split: if_splits intro: historyDialog_inv)
next
  case (ChooseSetting k)
  then show ?thesis using assms by (auto simp: form_dir_def intro!: form_inv_same [OF inv])
next
  case (EditCell p k t)
  then show ?thesis using assms by (auto intro!: on_tree_inv elim: edit.on_row_ok)
next
  case (Exclude p b)
  then show ?thesis using assms by (auto intro!: on_tree_inv elim: check.on_row_ok)
next
  case (ChooseHistory p i)
  then show ?thesis using assms by (auto intro!: on_tree_inv elim: choose.on_row_ok)
next
  case (Drop target current)
  then show ?thesis using assms
    by (auto simp: dropEvent_def split: option.splits item.splits intro!: on_tree_inv elim: drop_item.on_row_ok)
next
  case (Save answer)
  then obtain doc where "saveFile answer f = Inr (f', doc)" using assms(1) by (auto simp: rbind_Inr_iff)
  then show ?thesis using inv saveFileAs_inv save_to_same
    by (fastforce simp: saveFile_def split: if_splits option.splits)
next
  case (SaveAs answer)
  then obtain doc where "saveFileAs answer f = Inr (f', doc)" using assms(1) by (auto simp: rbind_Inr_iff)
  then show ?thesis using inv by (rule saveFileAs_inv)
qed (use assms in \<open>auto intro: loadMapFile_inv on_panel_inv prepareNewHistorySetting_inv historyForInputs_inv\<close>)

lemma form_reachable_inv: "form_reachable rs openF f \<Longrightarrow> form_inv f"
  by (induction rule: form_reachable.induct) (auto intro: MapGeneratorForm_init_inv form_step_inv)

section \<open>The properties of the check boxes\<close>

lemma boxes_row_at: "row_at p r = Some x \<Longrightarrow> set (boxes x) \<subseteq> set (boxes r)"
proof (induction p r rule: row_at.induct)
  case (2 k p it c ks)
  then have "set (boxes x) \<subseteq> set (boxes (ks ! k))" "k < length ks" by (auto split: if_splits)
  moreover have "set (boxes (ks ! k)) \<subseteq> set (boxes_below ks)" if "k < length ks"
    using that by (force simp: boxes_below_def)
  ultimately show ?case by (auto simp: boxes_Row)
qed simp

text \<open>C14: whatever the user does, the check box of every variable and of every directory with something
  in it shows whether the generator has it excluded.  (The handler of an empty directory runs its
  loop over the children no time and sets nothing: its box can be checked without effect.)\<close>

theorem boxes_follow_data:
  assumes "form_reachable rs openF f" and "fm_tree f = Some r" and "row_at p r = Some x"
    and "r_kids x \<noteq> [] \<or> \<not> is_dir_item (r_item x)"
  shows "\<exists>d. form_dir f = Some d \<and> item_in d (r_item x) \<and>
    (ce_checked (r_cells x) \<longleftrightarrow> item_excluded d (r_item x))"
proof -
  obtain d where d: "form_dir f = Some d" "boxes_ok (boxes r) d"
    using form_reachable_inv [OF assms(1)] assms(2) by (auto simp: form_inv_def form_ok_def)
  have "(r_item x, ce_checked (r_cells x), r_kids x = []) \<in> set (boxes r)"
    using boxes_row_at [OF assms(3)] by (simp add: boxes_sel [of x])
  with d(2) have "item_in d (r_item x)" "agrees d (r_item x, ce_checked (r_cells x), r_kids x = [])"
    by (force simp: boxes_ok_def)+
  with d(1) assms(4) show ?thesis by (auto simp: agrees_def)
qed

definition test_form :: form where
  "test_form = (case MapGeneratorForm_init default_ns_resolver (\<lambda>_. Inr test_application) (Some ''x'') False (False, []) of
     Inl e \<Rightarrow> initial_form | Inr f \<Rightarrow> f)"

definition excluded_form :: form where
  "excluded_form = on_tree (on_row [] (set_check True)) test_form"

lemma test_form_reachable: "form_reachable default_ns_resolver (\<lambda>_. Inr test_application) test_form"
  by (rule form_start [where inp = "Some ''x''" and noinput = False and answer = "(False, [])"])
     (simp add: test_form_def MapGeneratorForm_init_def)

lemma excluded_form_step:
  "form_step default_ns_resolver (\<lambda>_. Inr test_application) None (Exclude [] True) test_form = Inr excluded_form"
  by (simp add: excluded_form_def)

lemma test_form_dir: "form_dir test_form = Some test_tree"
  by code_simp

lemma test_form_rows:
  "(case fm_tree test_form of None \<Rightarrow> False | Some r \<Rightarrow>
      boxes r = [(DirItem [], False, False), (DirItem [0], False, False), (VarItem ([0], 0), False, True)])"
  by code_simp

lemma excluded_form_row:
  "(case fm_tree excluded_form of None \<Rightarrow> False | Some r \<Rightarrow>
      (case row_at [0, 0] r of None \<Rightarrow> False | Some x \<Rightarrow> r_item x = VarItem ([0], 0) \<and> ce_checked (r_cells x)))"
  by code_simp

corollary boxes_follow_data_witness:
  "\<exists>d. form_dir excluded_form = Some d \<and> item_excluded d (VarItem ([0], 0))"
proof -
  obtain r x where r: "fm_tree excluded_form = Some r" "row_at [0, 0] r = Some x"
    and x: "r_item x = VarItem ([0], 0)" "ce_checked (r_cells x)"
    using excluded_form_row by (auto split: option.splits)
  have "form_reachable default_ns_resolver (\<lambda>_. Inr test_application) excluded_form"
    by (rule form_next [OF test_form_reachable excluded_form_step])
  from boxes_follow_data [OF this r] x show ?thesis by auto
qed

subsection \<open>Excluding a directory\<close>

lemma on_row_at:
  "row_at p r = Some x \<Longrightarrow> row_at p (fst (on_row p h r d)) = Some (fst (h x d)) \<and> snd (on_row p h r d) = snd (h x d)"
proof (induction p r rule: row_at.induct)
  case (2 k p it c ks)
  then show ?case by (cases "on_row p h (ks ! k) d") (auto split: if_splits)
qed simp

lemma boxes_ok_row_at: "row_at p r = Some x \<Longrightarrow> boxes_ok (boxes r) d \<Longrightarrow> boxes_ok (boxes x) d"
proof (induction p r rule: row_at.induct)
  case (2 k p it c ks)
  then have k: "k < length ks" and x: "row_at p (ks ! k) = Some x" by (auto split: if_splits)
  have "boxes_below ks = boxes_below (take k ks @ ks ! k # drop (Suc k) ks)"
    using k by (simp add: id_take_nth_drop [symmetric])
  then have "boxes_ok (boxes (ks ! k)) d" using 2(3) by (simp add: boxes_Row boxes_ok_Cons boxes_ok_append)
  with 2(1) k x show ?case by simp
qed simp

lemma set_check_all:
  "\<forall>y \<in> set (boxes r). fst (snd y) \<noteq> b \<and> agrees e y \<Longrightarrow> \<forall>y \<in> set (boxes (fst (set_check b r d))). fst (snd y) = b"
  "\<forall>y \<in> set (boxes_below ks). fst (snd y) \<noteq> b \<and> agrees e y \<Longrightarrow>
     \<forall>y \<in> set (boxes_below (fst (mapDirectory b q ks d))). fst (snd y) = b"
proof (induction b r d and b q ks d rule: set_check_mapDirectory.induct)
  case (1 b it c ks d)
  show ?case
  proof (cases it)
    case (DirItem q)
    then show ?thesis using 1 by (cases "mapDirectory b q ks d") (auto simp: boxes_Row)
  next
    case (VarItem q)
    with 1(2) have "ks = []" by (simp add: boxes_Row agrees_def)
    then show ?thesis using VarItem by (simp add: boxes_Row)
  qed
next
  case (3 b q k ks d)
  obtain k' d1 where k: "set_check b k d = (k', d1)" by (cases "set_check b k d")
  have "\<forall>y \<in> set (boxes k'). fst (snd y) = b" using 3(1,3) by (simp add: k)
  moreover have "\<forall>y \<in> set (boxes_below (fst (mapDirectory b q ks (modify_dir q (setState_dir b) d1)))). fst (snd y) = b"
    by (rule 3(2) [OF k [symmetric]]) (use 3(3) in simp)
  ultimately show ?case
    by (cases "mapDirectory b q ks (modify_dir q (setState_dir b) d1)") (simp only: mapDirectory.simps k prod.case
        fst_conv boxes_below_simps set_append ball_Un simp_thms)
qed simp

lemma set_check_leaves:
  "map (\<lambda>y. (fst y, snd (snd y))) (boxes (fst (set_check b r d))) = map (\<lambda>y. (fst y, snd (snd y))) (boxes r)"
  "map (\<lambda>y. (fst y, snd (snd y))) (boxes_below (fst (mapDirectory b q ks d))) =
     map (\<lambda>y. (fst y, snd (snd y))) (boxes_below ks)"
proof (induction b r d and b q ks d rule: set_check_mapDirectory.induct)
  case (1 b it c ks d)
  show ?case
  proof (cases it)
    case (DirItem q)
    then show ?thesis using 1 mapDirectory_Nil [of b q ks d]
      by (cases "mapDirectory b q ks d") (cases "ce_checked c = b"; simp add: boxes_Row)
  qed (simp add: boxes_Row)
qed (auto split: prod.splits)

text \<open>C15: checking or unchecking the box of a directory none of whose boxes below has that state yet
  excludes or includes everything below it, except empty directories, and nothing else.\<close>

theorem exclude_reaches_all:
  assumes "form_reachable rs openF f" and "fm_tree f = Some r" and "row_at p r = Some x"
    and "\<forall>y \<in> set (boxes x). fst (snd y) \<noteq> b" and "form_step rs openF seen (Exclude p b) f = Inr f'"
  shows "\<exists>d d'. form_dir f = Some d \<and> form_dir f' = Some d' \<and>
    (\<forall>(it, c, leaf) \<in> set (boxes x). is_dir_item it \<and> leaf \<or> item_excluded d' it = b) \<and>
    (\<forall>it. it \<notin> fst ` set (boxes x) \<longrightarrow> item_excluded d' it = item_excluded d it)"
proof -
  obtain d where d: "form_dir f = Some d" "boxes_ok (boxes r) d"
    using form_reachable_inv [OF assms(1)] assms(2) by (auto simp: form_inv_def form_ok_def)
  have x: "boxes_ok (boxes x) d" using assms(3) d(2) by (rule boxes_ok_row_at)
  obtain x' d' where run: "set_check b x d = (x', d')" by (cases "set_check b x d")
  have new: "boxes_ok (boxes x') d'" "changed_within (fst ` set (boxes x)) d d'"
    using set_check_ok(1) [OF x, of b] by (simp_all add: run)
  have all: "\<forall>y \<in> set (boxes x'). fst (snd y) = b"
    using set_check_all(1) [of x b d d] x assms(4) by (auto simp: run boxes_ok_def)
  have "is_dir_item it \<and> leaf \<or> item_excluded d' it = b" if y: "(it, c, leaf) \<in> set (boxes x)" for it c leaf
  proof -
    have "(it, leaf) \<in> set (map (\<lambda>y. (fst y, snd (snd y))) (boxes x'))"
      using y set_check_leaves(1) [of b x d] by (force simp: run)
    then obtain c' where "(it, c', leaf) \<in> set (boxes x')" by auto
    then show ?thesis using all new(1) by (force simp: boxes_ok_def agrees_def)
  qed
  moreover have "form_dir f' = Some d'"
    using assms(2,5) d(1) on_row_at [OF assms(3), of "set_check b" d]
    by (cases "on_row p (set_check b) r d") (auto simp: on_tree_def form_dir_def run bind_eq_Some_conv)
  ultimately show ?thesis using d(1) new(2) by (auto simp: changed_within_def)
qed

corollary exclude_reaches_all_witness:
  "\<exists>d'. form_dir excluded_form = Some d' \<and> item_excluded d' (VarItem ([0], 0)) \<and> item_excluded d' (DirItem [0])"
proof -
  obtain r where r: "fm_tree test_form = Some r"
    "boxes r = [(DirItem [], False, False), (DirItem [0], False, False), (VarItem ([0], 0), False, True)]"
    using test_form_rows by (auto split: option.splits)
  have "row_at [] r = Some r" "\<forall>y \<in> set (boxes r). fst (snd y) \<noteq> True" by (simp_all add: r(2))
  from exclude_reaches_all [OF test_form_reachable r(1) this excluded_form_step] show ?thesis
    by (auto simp: r(2))
qed

end
