(* ===== verification/Form_View.thy ===== *)
theory Form_View
  imports Form_Facts
begin

text \<open>
  What the window shows of the generator's data: edited cells against refilled ones, the panel
  against the configuration, the names of new settings, and the combo boxes after a second map file.
\<close>

section \<open>Cells\<close>

definition shows_item :: "xml_directory \<Rightarrow> row \<Rightarrow> bool" where
  "shows_item d x =
     (case r_item x of
        DirItem q \<Rightarrow> (case dir_info_at d q of
           None \<Rightarrow> False | Some i \<Rightarrow> ce_text (r_cells x) = dir_texts i \<and> ce_red (r_cells x) = dir_reds i)
      | VarItem q \<Rightarrow> (case var_at d q of
           None \<Rightarrow> False | Some v \<Rightarrow> ce_text (r_cells x) = var_texts v \<and> ce_red (r_cells x) = var_reds v))"

lemma update_dir_cell_shows:
  assumes "update_dir_cell k t (dir_reds i ! k) i = (j, t', red')" and "k \<in> {0, 3, 4, 5}"
  shows "(dir_texts i)[k := t'] = dir_texts j \<and> (dir_reds i)[k := red'] = dir_reds j"
  using assms
  by (auto simp: update_dir_cell_def dir_texts_def dir_reds_def cell_opt_def numeral_eq_Suc
      split: if_splits cong: option.case_cong)

lemma update_var_cell_shows:
  assumes "update_var_cell k t (var_reds v ! k) v = (w, t', red')" and "k \<in> {0, 3, 5}"
    and "k = 3 \<longrightarrow> v_unit v \<noteq> None"
  shows "(var_texts v)[k := t'] = var_texts w \<and> (var_reds v)[k := red'] = var_reds w"
  using assms
  by (auto simp: update_var_cell_def var_texts_def var_reds_def cell_opt_def format_opt_def numeral_eq_Suc
      split: if_splits cong: option.case_cong)

text \<open>C17: where a row has the texts and colors that filling the tree from the generator's data gives, it
  has them again after the user edits the name, the unit or the destination in it, or the description
  if it is the row of a directory.  The unit of a variable is only covered if the application's file
  gives the variable one: otherwise the two texts differ.\<close>

theorem edited_cell_as_refilled:
  assumes "shows_item d x" and "k \<in> {0, 3, 5} \<or> k = 4 \<and> is_dir_item (r_item x)"
    and "\<forall>q v. k = 3 \<and> r_item x = VarItem q \<and> var_at d q = Some v \<longrightarrow> v_unit v \<noteq> None"
    and "edit_cell k t x d = (x', d')"
  shows "shows_item d' x'"
proof (cases "k < length (ce_text (r_cells x)) \<and> ce_text (r_cells x) ! k \<noteq> t")
  case False
  then show ?thesis using assms(1,4) by (auto simp: edit_cell_def)
next
  case True
  show ?thesis
  proof (cases "r_item x")
    case (DirItem q)
    then obtain i where i: "dir_info_at d q = Some i" "ce_text (r_cells x) = dir_texts i" "ce_red (r_cells x) = dir_reds i"
      using assms(1) by (auto simp: shows_item_def split: option.splits)
    obtain j t' red' where u: "update_dir_cell k t (dir_reds i ! k) i = (j, t', red')" by (rule prod_cases3)
    have "(dir_texts i)[k := t'] = dir_texts j \<and> (dir_reds i)[k := red'] = dir_reds j"
      by (rule update_dir_cell_shows [OF u]) (use assms(2) in auto)
    with True assms(4) DirItem i u show ?thesis
      by (auto simp: edit_cell_def updateItem_def Let_def shows_item_def set_cell_def dir.at_modify)
  next
    case (VarItem q)
    then obtain v where v: "var_at d q = Some v" "ce_text (r_cells x) = var_texts v" "ce_red (r_cells x) = var_reds v"
      using assms(1) by (auto simp: shows_item_def split: option.splits)
    obtain w t' red' where u: "update_var_cell k t (var_reds v ! k) v = (w, t', red')" by (rule prod_cases3)
    have "(var_texts v)[k := t'] = var_texts w \<and> (var_reds v)[k := red'] = var_reds w"
      by (rule update_var_cell_shows [OF u]) (use assms(2) VarItem in simp, use assms(3) VarItem v(1) in blast)
    with True assms(4) VarItem v u show ?thesis
      by (auto simp: edit_cell_def updateItem_def Let_def shows_item_def set_cell_def var.at_modify)
  qed
qed

text \<open>The description of a variable, against that: the cell names no original text.\<close>

lemma description_edit_differs:
  assumes "shows_item d x" and "r_item x = VarItem q" and "t \<noteq> []" and "ce_text (r_cells x) ! 4 \<noteq> t"
    and "edit_cell 4 t x d = (x', d')"
  shows "\<not> shows_item d' x'"
proof -
  obtain v where v: "var_at d q = Some v" "ce_text (r_cells x) = var_texts v" "ce_red (r_cells x) = var_reds v"
    using assms(1,2) by (auto simp: shows_item_def split: option.splits)
  have new: "x' = Row (VarItem q) (set_cell 4 (with_added t) True ((r_cells x)\<lparr>ce_text := (ce_text (r_cells x))[4 := t]\<rparr>)) (r_kids x)"
    "d' = modify_var q (\<lambda>_. v\<lparr>v_newDescription := Some t\<rparr>) d"
    using assms v by (auto simp: edit_cell_def updateItem_def update_var_cell_def Let_def var_texts_def)
  have "ce_text (r_cells x') ! 4 = with_added t" by (simp add: new set_cell_def v var_texts_def)
  moreover have "var_texts (v\<lparr>v_newDescription := Some t\<rparr>) ! 4 = with_orig t (format_opt (v_description v))"
    by (simp add: var_texts_def numeral_eq_Suc)
  moreover have "with_added t \<noteq> with_orig t s" for s by (simp add: with_added_def with_orig_def)
  ultimately have "ce_text (r_cells x') \<noteq> var_texts (v\<lparr>v_newDescription := Some t\<rparr>)" by metis
  then show ?thesis by (simp add: shows_item_def new var.at_modify v)
qed

section \<open>Names of new settings\<close>

lemma free_name_spec:
  "free_name names h i \<notin> set names \<and>
   (free_name names h i = h \<or>
    (\<exists>k \<ge> i. free_name names h i = numbered ''historySetting'' k \<and>
       (\<forall>j. i \<le> j \<longrightarrow> j < k \<longrightarrow> numbered ''historySetting'' j \<in> set names)))"
proof (induction names h i rule: free_name.induct)
  case (1 names h i)
  let ?n = "numbered ''historySetting''"
  show ?case
  proof (cases "h \<in> set names")
    case False
    then show ?thesis by (simp add: free_name.simps [of names h])
  next
    case True
    then have step: "free_name names h i = free_name names (?n i) (Suc i)" by (simp add: free_name.simps [of names h])
    have IH: "free_name names (?n i) (Suc i) \<notin> set names"
      "free_name names (?n i) (Suc i) = ?n i \<or>
       (\<exists>k \<ge> Suc i. free_name names (?n i) (Suc i) = ?n k \<and> (\<forall>j. Suc i \<le> j \<longrightarrow> j < k \<longrightarrow> ?n j \<in> set names))"
      using 1 [OF True] by blast+
    show ?thesis
    proof (cases "?n i \<in> set names")
      case False
      then have "free_name names (?n i) (Suc i) = ?n i" by (simp add: free_name.simps [of names "?n i"])
      then show ?thesis using IH(1) by (auto simp: step)
    next
      case taken: True
      then obtain k where "Suc i \<le> k" "free_name names (?n i) (Suc i) = ?n k"
        "\<forall>j. Suc i \<le> j \<longrightarrow> j < k \<longrightarrow> ?n j \<in> set names"
        using IH by metis
      moreover have "\<forall>j. i \<le> j \<longrightarrow> j < k \<longrightarrow> ?n j \<in> set names"
        using calculation(3) taken by (metis Suc_leI le_neq_implies_less)
      ultimately show ?thesis using IH(1) unfolding step by (intro conjI disjI2 exI [of _ k]) simp_all
    qed
  qed
qed

text \<open>The name proposed for a new history setting is none of the existing ones: it is
  historySetting, or that with a number below the number of settings.\<close>

theorem new_setting_name_bounds:
  "new_setting_name names \<notin> set names \<and>
   (new_setting_name names = ''historySetting'' \<or>
    (\<exists>k < length names. new_setting_name names = numbered ''historySetting'' k))"
proof (cases "''historySetting'' \<in> set names")
  case False
  then show ?thesis by (simp add: new_setting_name_def)
next
  case True
  let ?n = "numbered ''historySetting''"
  have name: "new_setting_name names = free_name names (?n 0) 0" using True by (simp add: new_setting_name_def)
  obtain k where k: "new_setting_name names = ?n k" "\<forall>j < k. ?n j \<in> set names"
    using free_name_spec [of names "?n 0" 0] unfolding name by (metis le0 less_nat_zero_code)
  have "inj_on ?n {..<k}" by (auto simp: inj_on_def intro: numbered_inj)
  moreover have "''historySetting'' \<notin> ?n ` {..<k}" by (auto simp: numbered_def)
  ultimately have "card (insert ''historySetting'' (?n ` {..<k})) = Suc k" by (simp add: card_image)
  moreover have "insert ''historySetting'' (?n ` {..<k}) \<subseteq> set names" using True k(2) by auto
  ultimately have "Suc k \<le> card (set names)" by (metis List.finite_set card_mono)
  also have "\<dots> \<le> length names" by (rule card_length)
  finally have "k < length names" by simp
  moreover have "new_setting_name names \<notin> set names" unfolding name using free_name_spec by blast
  ultimately show ?thesis using k(1) by blast
qed

section \<open>The panel\<close>

text \<open>What the panel promises: an edit changes the one option of the configuration it is for.\<close>

fun edit_config :: "panel_edit \<Rightarrow> 'a config_scheme \<Rightarrow> 'a config_scheme" where
  "edit_config (UserName t) g = (if enableLogin g then g\<lparr>username := Some t\<rparr> else g)"
| "edit_config (Password t) g = (if enableLogin g then g\<lparr>password := Some t\<rparr> else g)"
| "edit_config (ApplicationName t) g = g\<lparr>applicationName := Some t\<rparr>"
| "edit_config (RootFolder t) g = g\<lparr>rootFolder := Some t\<rparr>"
| "edit_config (ApplicationDescription t) g = g\<lparr>applicationDescription := t\<rparr>"
| "edit_config (Port n) g = g\<lparr>cfg_port := Some (port_value n)\<rparr>"
| "edit_config (LogLevel k) g = (if k < length log_levels then g\<lparr>logLevel := log_levels ! k\<rparr> else g)"
| "edit_config (UseBoolAsVoid b) g = g\<lparr>useBoolAsVoid := b\<rparr>"
| "edit_config (EnableLogin b) g = g\<lparr>enableLogin := b\<rparr>"
| "edit_config (EnableEncryption b) g = g\<lparr>encryptionEnabled := b\<rparr>"

definition panel_shows :: "'a config_scheme \<Rightarrow> panel \<Rightarrow> bool" where
  "panel_shows g p \<longleftrightarrow> username g = Some (w_userName p) \<and> password g = Some (w_password p) \<and>
     applicationName g = Some (w_applicationName p) \<and> rootFolder g = Some (w_rootFolder p) \<and>
     applicationDescription g = w_applicationDescription p \<and> cfg_port g = Some (w_port p) \<and>
     logLevel g = w_logLevel p \<and> useBoolAsVoid g = w_useBoolAsVoid p \<and> enableLogin g = w_enableLogin p \<and>
     encryptionEnabled g = w_enableEncryption p \<and> w_loginFields p = enableLogin g"

definition config_set :: "'a config_scheme \<Rightarrow> bool" where
  "config_set g \<longleftrightarrow> username g \<noteq> None \<and> password g \<noteq> None \<and> applicationName g \<noteq> None \<and> rootFolder g \<noteq> None \<and>
     (\<exists>n. cfg_port g = Some n \<and> 0 \<le> n \<and> n \<le> 99999) \<and> logLevel g \<in> set log_levels"

lemma fillConfig_shows: "config_set g \<Longrightarrow> panel_shows g (fillConfig g p)"
  by (auto simp: config_set_def panel_shows_def fillConfig_def blockAndSetCheckbox_def blockAndSetTextBox_def bockAndSetValue_def
      port_value_def spin_value_def)

lemma updateConfig_shown:
  "panel_shows g p \<Longrightarrow> updateConfig p g = g"
  by (cases g) (simp add: panel_shows_def updateConfig_def)

lemma edit_handler_shows:
  assumes "panel_shows g p" and "can_edit e p"
  shows "snd (edit_handler e (show_edit e p, g)) = edit_config e g \<and>
    panel_shows (edit_config e g) (fst (edit_handler e (show_edit e p, g)))"
  using assms
  by (cases g; cases e) (simp_all add: panel_shows_def updateConfig_def enableLogin_changed_def encryption_changed_def)

lemma show_edit_same:
  assumes "panel_shows g p" and "can_edit e p" and "show_edit e p = p"
  shows "edit_config e g = g"
proof -
  have "snd (edit_handler e (p, g)) = g"
  proof (cases e)
    case (EnableLogin b)
    then have "w_enableLogin p = b" using assms(3) by (metis panel.select_convs(9) panel.surjective panel.update_convs(9) show_edit.simps(9))
    then show ?thesis using assms(1) EnableLogin by (cases g) (simp add: enableLogin_changed_def panel_shows_def)
  next
    case (EnableEncryption b)
    then show ?thesis using assms(1) by (cases g) (simp add: encryption_changed_def panel_shows_def)
  qed (simp_all add: updateConfig_shown [OF assms(1)])
  then show ?thesis using edit_handler_shows [OF assms(1,2)] by (simp add: assms(3))
qed

lemma edit_refused:
  "panel_shows g p \<Longrightarrow> \<not> can_edit e p \<Longrightarrow> edit_config e g = g"
  by (cases e) (simp_all add: panel_shows_def)

lemma edit_panel_shows:
  assumes "panel_shows g p"
  shows "snd (edit_panel e (p, g)) = edit_config e g \<and> panel_shows (edit_config e g) (fst (edit_panel e (p, g)))"
proof (cases "show_edit e p = p \<or> \<not> can_edit e p")
  case True
  then have "edit_config e g = g" using assms show_edit_same edit_refused by blast
  with True assms show ?thesis by (auto simp: edit_panel_def Let_def)
next
  case False
  then show ?thesis using edit_handler_shows [OF assms] by (simp add: edit_panel_def Let_def)
qed

text \<open>C16: once the panel is filled from a configuration with all its options, any series of edits
  changes the configuration as the options of the edits say, each its own option and no other,
  although the handler writes all of them every time.\<close>

theorem panel_refines_config:
  assumes "config_set g"
  shows "snd (fold edit_panel es (fillConfig g p, g)) = fold edit_config es g"
proof -
  have "snd (fold edit_panel es (q, c)) = fold edit_config es c" if "panel_shows c q" for q :: panel and c :: "'a config_scheme"
    using that
  proof (induction es arbitrary: q c)
    case (Cons e es)
    then show ?case using edit_panel_shows [OF Cons.prems, of e]
      by (cases "edit_panel e (q, c)") simp
  qed simp
  then show ?thesis using fillConfig_shows [OF assms] by blast
qed

corollary panel_refines_config_witness:
  "snd (fold edit_panel [Port 4840, EnableLogin False, UserName ''u''] (fillConfig
     (Config_init\<lparr>username := Some ''a'', password := Some ''b'', applicationName := Some ''c'', rootFolder := Some ''d'',
        cfg_port := Some 16664, enableLogin := True\<rparr>) initial_panel,
     Config_init\<lparr>username := Some ''a'', password := Some ''b'', applicationName := Some ''c'', rootFolder := Some ''d'',
        cfg_port := Some 16664, enableLogin := True\<rparr>)) =
   Config_init\<lparr>username := Some ''a'', password := Some ''b'', applicationName := Some ''c'', rootFolder := Some ''d'',
     cfg_port := Some 4840\<rparr>"
  by (subst panel_refines_config)
    (simp_all add: config_set_def Config_init_def log_levels_def port_value_def spin_value_def)

text \<open>Before the panel is filled it shows nothing of the application, and the first edit takes that over.\<close>

fun all_fields_edit :: "panel_edit \<Rightarrow> bool" where
  "all_fields_edit (ApplicationName t) = False"
| "all_fields_edit (EnableLogin b) = False"
| "all_fields_edit (EnableEncryption b) = False"
| "all_fields_edit _ = True"

text \<open>C19: after an application was opened, the first edit of an option other than the application's
  name and the two switches clears the application's name, as the panel was not filled with it;
  the map file then has no application name.\<close>

theorem application_name_lost:
  assumes "f = createMapGenerator rs openF (Some name) initial_form" and "fm_gen f = Some g"
    and "all_fields_edit e" and "on_panel e f = Inr f'" and "fm_panel f' \<noteq> fm_panel f"
  shows "\<exists>g'. fm_gen f' = Some g' \<and> applicationName g' = Some [] \<and>
    el_get (server_element g' ns) ''applicationName'' = None"
proof -
  have p: "fm_panel f = initial_panel"
    by (auto simp: assms(1) createMapGenerator_def initial_form_def split: sum.split prod.split)
  let ?p = "show_edit e initial_panel"
  have "?p \<noteq> initial_panel \<and> can_edit e initial_panel"
    using assms(2,4,5) by (auto simp: on_panel_def p edit_panel_def Let_def split: prod.splits if_splits)
  then have "edit_panel e (initial_panel, g) = (?p, updateConfig ?p g)"
    using assms(3) by (cases e) (simp_all add: edit_panel_def Let_def)
  then have f': "fm_gen f' = Some (updateConfig ?p g)" using assms(2,4) by (auto simp: on_panel_def p)
  have "w_applicationName ?p = []" using assms(3) by (cases e) (simp_all add: initial_panel_def)
  then show ?thesis by (simp add: f' updateConfig_def server_element_def)
qed

corollary application_name_lost_witness:
  "Option.bind (fm_gen test_form) applicationName = Some ''LLRFServer'' \<and>
   (\<exists>f' g'. on_panel (Port 4840) test_form = Inr f' \<and> fm_gen f' = Some g' \<and> applicationName g' = Some [])"
proof
  show "Option.bind (fm_gen test_form) applicationName = Some ''LLRFServer''" by code_simp
  have f: "test_form = createMapGenerator default_ns_resolver (\<lambda>_. Inr test_application) (Some ''x'') initial_form"
    by (simp add: test_form_def MapGeneratorForm_init_def)
  have p: "fm_panel test_form = initial_panel" by code_simp
  obtain g where g: "fm_gen test_form = Some g"
    using test_form_dir by (cases "fm_gen test_form") (simp_all add: form_dir_def)
  obtain f' where f': "on_panel (Port 4840) test_form = Inr f'"
    by (cases "edit_panel (Port 4840) (initial_panel, g)") (simp add: on_panel_def g p)
  then have "w_port (fm_panel f') = 4840"
    by (auto simp: on_panel_def g p edit_panel_def initial_panel_def port_value_def spin_value_def Let_def)
  then have "fm_panel f' \<noteq> fm_panel test_form" by (auto simp: p initial_panel_def)
  from application_name_lost [OF f g _ f' this] f'
  show "\<exists>f' g'. on_panel (Port 4840) test_form = Inr f' \<and> fm_gen f' = Some g' \<and> applicationName g' = Some []"
    by auto
qed

corollary edited_cell_as_refilled_witness:
  "(case fm_tree test_form of None \<Rightarrow> False | Some r \<Rightarrow>
     shows_item test_tree r \<and>
     shows_item (snd (edit_cell 0 ''main'' r test_tree)) (fst (edit_cell 0 ''main'' r test_tree)) \<and>
     ce_text (r_cells (fst (edit_cell 0 ''main'' r test_tree))) ! 0 = ''main (Orig.: root)'')"
proof -
  have start: "(case fm_tree test_form of None \<Rightarrow> False | Some r \<Rightarrow> shows_item test_tree r \<and> is_dir_item (r_item r) \<and>
      ce_text (r_cells (fst (edit_cell 0 ''main'' r test_tree))) ! 0 = ''main (Orig.: root)'')" by code_simp
  then obtain r where r: "fm_tree test_form = Some r" "shows_item test_tree r" "is_dir_item (r_item r)"
    by (auto split: option.splits)
  have "shows_item (snd (edit_cell 0 ''main'' r test_tree)) (fst (edit_cell 0 ''main'' r test_tree))"
    by (rule edited_cell_as_refilled [OF r(2), where k = 0 and t = "''main''"]) simp_all
  then show ?thesis using start r by simp
qed

text \<open>A window without an application cannot ask for a file name: the application has no name yet.\<close>

lemma save_without_application:
  assumes "MapGeneratorForm_init rs openF None True answer = Inr f"
  shows "saveFileAs name f = Inl TypeError"
  using assms by (auto simp: MapGeneratorForm_init_def MapGenerator_init_def saveFileAs_def Config_init_def
      config.extend_def initial_form_def rbind_Inr_iff)

section \<open>A second map file\<close>

lemma append_setting: "\<exists>new. historySettings (c\<lparr>historySettings := historySettings c @ [h]\<rparr>) = historySettings c @ new"
  by simp

lemma read_setup_appends: "read_setup e c = Inr c' \<Longrightarrow> \<exists>new. historySettings c' = historySettings c @ new"
  unfolding read_setup_def
  by (elim rbind_InrE) (auto simp only: sum.inject append_Nil2 intro: append_setting exI [of _ "[]"] split: option.split_asm)

lemma foldM_read_setup:
  assumes "foldM read_setup es c = Inr c'"
  shows "\<exists>new. historySettings c' = historySettings c @ new"
proof (rule foldM_invariant [OF assms, where P = "\<lambda>x. \<exists>new. historySettings x = historySettings c @ new"])
  fix e x x' assume "\<exists>new. historySettings x = historySettings c @ new" and "read_setup e x = Inr x'"
  then show "\<exists>new. historySettings x' = historySettings c @ new" by (metis read_setup_appends append_assoc)
qed (rule exI [of _ "[]"], simp)

lemma read_history_frame:
  "historySettings (read_lds e c) = historySettings c" "historySettings (read_voidHandling e c) = historySettings c"
  "historySettings (read_login e c) = historySettings c" "historySettings (read_security e c) = historySettings c"
  by (simp_all add: read_security_def read_login_def read_voidHandling_def read_lds_def EncryptionSettings_init_def
      readEncryption_def split: option.split)

lemma readConfig_appends:
  assumes "readConfig rs data c = Inr c'"
  shows "\<exists>new. historySettings c' = historySettings c @ new"
proof (cases "find_ns rs (el_nsmap data) ''config'' data")
  case None
  then show ?thesis using assms by (simp add: readConfig_def)
next
  case (Some e)
  then obtain c1 c2 where c1: "read_root_folder e c = Inr c1" and c2: "read_server e c1 = Inr c2"
    and c': "read_historizing rs (el_nsmap data) e (read_security e (read_login e (read_voidHandling e (read_lds e c2)))) = Inr c'"
    using assms by (auto simp: readConfig_def rbind_Inr_iff)
  have "historySettings c1 = historySettings c" using c1 by (auto simp: read_root_folder_def split: option.splits)
  moreover have "historySettings c2 = historySettings c1"
    using c2 by (cases "find_plain ''server'' e") (auto simp: read_server_def rbind_Inr_iff)
  moreover have "historySettings (read_security e (read_login e (read_voidHandling e (read_lds e c2)))) = historySettings c2"
    by (simp only: read_history_frame)
  ultimately show ?thesis
    using c' foldM_read_setup by (fastforce simp: read_historizing_def split: option.splits)
qed

lemma parseMapFile_appends:
  assumes "parseMapFile rs data g = Inr (n, g')"
  shows "\<exists>new. historySettings g' = historySettings g @ new"
proof -
  from assms obtain g1 where g1: "readConfig rs data (g\<lparr>mg_dir := map_option XMLDirectory_reset (mg_dir g)\<rparr>) = Inr g1"
    and g': "(case mg_dir g1 of None \<Rightarrow> Inr ((0, 0, 0), g1)
      | Some d \<Rightarrow> rbind (parse_entries rs data d) (\<lambda>s. Inr (snd s, g1\<lparr>mg_dir := Some (fst s)\<rparr>))) = Inr (n, g')"
    by (auto simp: parseMapFile_def Let_def rbind_Inr_iff split: if_splits)
  from g' have "historySettings g' = historySettings g1" by (auto simp: rbind_Inr_iff split: option.splits)
  then show ?thesis using readConfig_appends [OF g1] by simp
qed

lemma settings_of_take_over:
  assumes "settings_ok f" and "historySettings g = settings_of f @ new"
  shows "settings_of (take_over g f) = historySettings g"
proof -
  have "length (fm_settings f) = length (settings_of f)" by (simp add: settings_of_def)
  then have "drop (length (fm_settings f)) (historySettings g) = new" using assms(2) by simp
  moreover have "map ((!) (fm_store f @ new)) (fm_settings f) = settings_of f"
    using assms(1) by (auto simp: settings_of_def settings_ok_def nth_append)
  moreover have "map ((!) (fm_store f @ new)) [length (fm_store f)..<length (fm_store f) + length new] = new"
    by (rule nth_equalityI) (simp_all add: nth_append)
  ultimately show ?thesis using assms(2) by (simp add: settings_of_def take_over_def Let_def)
qed

lemma load_settings_known:
  assumes "\<forall>s \<in> set ss. hs_name (fm_store f ! s) \<in> set (history_texts f)"
  shows "foldM (load_setting seen) ss f = Inr f"
  using assms by (induction ss) (simp_all add: load_setting_def Let_def)

text \<open>Rows whose combo boxes only offer no history.\<close>

fun no_choices :: "row \<Rightarrow> bool" where
  "no_choices (Row it c ks) \<longleftrightarrow> ce_combo c = new_combo \<and> (\<forall>k \<in> set ks. no_choices k)"

lemma createVariableNodes_no_choices: "createVariableNodes q k vs = Inr rs \<Longrightarrow> \<forall>r \<in> set rs. no_choices r"
  by (induction q k vs arbitrary: rs rule: createVariableNodes.induct)
    (fastforce simp: rbind_Inr_iff createVariableNode_def setup_row_def)+

lemma createDirectoryNode_no_choices:
  "createDirectoryNode q e = Inr r \<Longrightarrow> no_choices r"
  "createDirectoryNodes q k ds = Inr rs \<Longrightarrow> \<forall>r \<in> set rs. no_choices r"
proof (induction q e and q k ds arbitrary: r and rs rule: createDirectoryNode_createDirectoryNodes.induct)
  case (1 q i ds vs)
  from "1.prems" obtain xs ys where xs: "createDirectoryNodes q 0 ds = Inr xs" and ys: "createVariableNodes q 0 vs = Inr ys"
    and r: "r = Row (DirItem q) (setup_row (dir_texts i) (dir_reds i) False (d_exclude i)) (xs @ ys)"
    by (auto simp: rbind_Inr_iff)
  have "\<forall>k \<in> set (xs @ ys). no_choices k" using "1.IH" [OF xs] createVariableNodes_no_choices [OF ys] by auto
  then show ?case by (simp add: r setup_row_def)
next
  case (3 q k d ds)
  then show ?case by (fastforce simp: rbind_Inr_iff)
qed simp

lemma set_history_no_choices: "no_choices r \<Longrightarrow> set_history t r d = (r, d)"
  by (cases r) (simp add: new_combo_def)

lemma updateHistories_no_choices:
  "no_choices r \<Longrightarrow> updateHistories r d = (r, d)"
  "\<forall>k \<in> set ks. no_choices k \<Longrightarrow> updateHistories_below ks d = (ks, d)"
proof (induction r d and ks d rule: updateHistories_updateHistories_below.induct)
  case (1 it c ks d)
  then show ?case using set_history_no_choices [OF 1(2)]
    by (auto simp del: set_history.simps split: item.splits option.splits)
qed simp_all

lemma no_choices_row_at: "row_at p r = Some x \<Longrightarrow> no_choices r \<Longrightarrow> no_choices x"
  by (induction p r rule: row_at.induct) (auto split: if_splits)

lemma choose_history_no_choices: "no_choices x \<Longrightarrow> choose_history i x d = (x, d)"
  by (cases x; cases i) (simp_all add: choose_history_def new_combo_def Let_def)

lemma on_row_no_choices: "no_choices r \<Longrightarrow> on_row p updateHistories r d = (r, d)"
proof (induction p arbitrary: r)
  case Nil
  then show ?case by (simp add: updateHistories_no_choices)
next
  case (Cons k p)
  then show ?case by (cases r) simp
qed

text \<open>C18: after a map file was loaded all of whose history settings the window knows already, as when
  it is loaded a second time, no history can be chosen for any item of the tree: the rows are new,
  and their combo boxes are only given entries for settings that are not known.\<close>

theorem second_load_no_choices:
  assumes "form_reachable rs openF f" and "generator_of f = Inr g" and "parseMapFile rs data g = Inr (n, g')"
    and "mg_dir g' \<noteq> None" and "\<forall>h \<in> set (historySettings g'). hs_name h \<in> set (history_texts f)"
    and "loadMapFile rs seen data f = Inr f'"
  shows "\<exists>r. fm_tree f' = Some r \<and> (\<forall>p x i d. row_at p r = Some x \<longrightarrow> choose_history i x d = (x, d))"
proof -
  obtain d where d: "mg_dir g' = Some d" using assms(4) by blast
  obtain new where new: "historySettings g' = historySettings g @ new" using parseMapFile_appends [OF assms(3)] by blast
  have g: "historySettings g = settings_of f" using assms(2) by (auto simp: generator_of_def split: option.splits)
  have ok: "settings_ok f" using form_reachable_inv [OF assms(1)] by (simp add: form_inv_def)
  let ?f = "(take_over g' f)\<lparr>fm_panel := fillConfig g' (fm_panel f)\<rparr>"
  obtain r f2 where r: "fillTree d = Inr r"
    and f2: "foldM (load_setting seen) (fm_settings ?f) (?f\<lparr>fm_tree := Some r\<rparr>) = Inr f2"
    and f': "updateTree seen f2 = Inr f'"
    using assms(6) by (auto simp: loadMapFile_def assms(2,3) Let_def d rbind_Inr_iff)
  have "settings_of (take_over g' f) = historySettings g'" using ok new unfolding g by (rule settings_of_take_over)
  then have "hs_name (fm_store (take_over g' f) ! s) \<in> set (history_texts f)" if "s \<in> set (fm_settings (take_over g' f))" for s
    using that assms(5) by (metis (no_types, lifting) image_eqI list.set_map settings_of_def)
  then have "f2 = ?f\<lparr>fm_tree := Some r\<rparr>"
    using f2 load_settings_known [of "fm_settings ?f" "?f\<lparr>fm_tree := Some r\<rparr>" seen]
    by (simp add: history_texts_def take_over_def Let_def)
  moreover have plain: "no_choices r" using r createDirectoryNode_no_choices(1) by (simp add: fillTree_def)
  ultimately have "fm_tree f' = Some r"
    using f' on_row_no_choices [OF plain]
    by (auto simp: updateTree_def on_tree_def split: if_splits option.splits prod.splits)
  then show ?thesis using plain no_choices_row_at choose_history_no_choices by blast
qed

text \<open>A map file with a history setting, loaded twice.\<close>

definition history_mapping :: elem where
  "history_mapping = append_all
     [append_all [append_all [writeSetting (HistorySetting_init ''h'') (el_new [] ''setup'')] (el_new [] ''historizing'')]
        (el_new [] ''config''),
      el_set ''history'' ''h'' (el_set ''sourceName'' ''Configuration/test'' (el_new [] ''process_variable''))]
     (el_new [] ''uamapping'')"

definition loaded_once :: form where
  "loaded_once = (case loadMapFile default_ns_resolver (Some []) history_mapping test_form of
     Inl e \<Rightarrow> initial_form | Inr f \<Rightarrow> f)"

definition loaded_twice :: form where
  "loaded_twice = (case loadMapFile default_ns_resolver (Some []) history_mapping loaded_once of
     Inl e \<Rightarrow> initial_form | Inr f \<Rightarrow> f)"

definition second_run :: "form \<Rightarrow> bool" where
  "second_run f =
     (case generator_of f of Inl e \<Rightarrow> False | Inr g \<Rightarrow>
        (case parseMapFile default_ns_resolver history_mapping g of Inl e \<Rightarrow> False | Inr (n, g') \<Rightarrow>
           mg_dir g' \<noteq> None \<and> list_all (\<lambda>h. hs_name h \<in> set (history_texts f)) (historySettings g')))"

definition shows_history :: "form \<Rightarrow> bool" where
  "shows_history f =
     (case fm_tree f of None \<Rightarrow> False | Some r \<Rightarrow>
        (case row_at [0, 0] r of None \<Rightarrow> False | Some x \<Rightarrow> ce_combo (r_cells x) = \<lparr>c_items = [no_history, ''h''], c_index = 1, c_enabled = True\<rparr>))"

lemma loads_run:
  "loadMapFile default_ns_resolver (Some []) history_mapping test_form = Inr loaded_once"
  "loadMapFile default_ns_resolver (Some []) history_mapping loaded_once = Inr loaded_twice"
  "second_run loaded_once" "shows_history loaded_once"
proof -
  have "case loadMapFile default_ns_resolver (Some []) history_mapping test_form of Inl e \<Rightarrow> False | Inr f \<Rightarrow> True"
    by code_simp
  then show "loadMapFile default_ns_resolver (Some []) history_mapping test_form = Inr loaded_once"
    by (simp add: loaded_once_def split: sum.splits)
  have "case loadMapFile default_ns_resolver (Some []) history_mapping loaded_once of Inl e \<Rightarrow> False | Inr f \<Rightarrow> True"
    by code_simp
  then show "loadMapFile default_ns_resolver (Some []) history_mapping loaded_once = Inr loaded_twice"
    by (simp add: loaded_twice_def split: sum.splits)
  show "second_run loaded_once" "shows_history loaded_once" by code_simp+
qed

lemma loaded_twice_history:
  "Option.bind (form_dir loaded_twice) (\<lambda>d. Option.bind (var_at d ([0], 0)) v_historizing) = Some ''h''"
  by code_simp

corollary second_load_no_choices_witness:
  "shows_history loaded_once \<and> \<not> shows_history loaded_twice \<and>
   (\<exists>r. fm_tree loaded_twice = Some r \<and> (\<forall>p x i d. row_at p r = Some x \<longrightarrow> choose_history i x d = (x, d)))"
proof -
  have "form_reachable default_ns_resolver (\<lambda>_. Inr test_application) loaded_once"
    by (rule form_next [OF test_form_reachable, where e = "LoadMapFile history_mapping" and seen = "Some []"])
       (simp add: loads_run)
  moreover obtain g n g' where "generator_of loaded_once = Inr g"
    "parseMapFile default_ns_resolver history_mapping g = Inr (n, g')" "mg_dir g' \<noteq> None"
    "\<forall>h \<in> set (historySettings g'). hs_name h \<in> set (history_texts loaded_once)"
    using loads_run(3) by (auto simp: second_run_def list_all_iff split: sum.splits)
  ultimately have "\<exists>r. fm_tree loaded_twice = Some r \<and> (\<forall>p x i d. row_at p r = Some x \<longrightarrow> choose_history i x d = (x, d))"
    using loads_run(2) by (rule second_load_no_choices)
  moreover have "\<not> shows_history loaded_twice" by code_simp
  ultimately show ?thesis using loads_run(4) by simp
qed

end
