(* ===== verification/Graph_Dot.thy ===== *)
theory Graph_Dot
  imports Print_Total
begin

text \<open>
  The descriptions of the graph for graphviz: \<open>printDot\<close> of a node and of the namespace, and
  \<open>printDotGraphWalk\<close>, which writes the nodes around a node.  The result is the content of the file;
  an exception leaves it unfinished.
\<close>

section \<open>Writing\<close>

definition dot_name :: "opcua_node \<Rightarrow> string" where
  "dot_name n = ''node_'' @ filter (\<lambda>c. c \<noteq> CHR '';'' \<and> c \<noteq> CHR ''='') (id_str (n_id n))"

text \<open>The label of an edge; only a reference type has an inverse name.\<close>

definition dot_label :: "opcua_namespace \<Rightarrow> opcua_referencePointer \<Rightarrow> string res" where
  "dot_label s r =
     (case r_type r of
        TNode ty \<Rightarrow>
          (if r_forward r then Inr (n_browseName (node_at s ty))
           else case n_part (node_at s ty) of
                  ReferenceTypeNode w \<Rightarrow> Inr (rt_inverseName w)
                | _ \<Rightarrow> Inl AttributeError)
      | _ \<Rightarrow> Inl AttributeError)"

definition dot_edge :: "opcua_namespace \<Rightarrow> opcua_node \<Rightarrow> nat \<Rightarrow> string res" where
  "dot_edge s n r =
     (case r_target (ref_at s r) of
        TNode t \<Rightarrow> rbind (dot_label s (ref_at s r)) (\<lambda>l.
          Inr (newline @ dot_name n @ '' -> '' @ dot_name (node_at s t) @ '' [label=\"'' @ l @ ''\"]'' @ newline))
      | _ \<Rightarrow> Inr [])"

definition node_printDot :: "opcua_namespace \<Rightarrow> nat \<Rightarrow> string res" where
  "node_printDot s a =
     (let n = node_at s a in
      rbind (mapM (dot_edge s n) (n_references n)) (\<lambda>es.
        Inr (dot_name n @ '' [label = \"{'' @ id_str (n_id n) @ ''|'' @ n_browseName n @ ''}\", shape=\"record\"]'' @
          concat es)))"

definition graph_text :: "string \<Rightarrow> string" where
  "graph_text x = ''digraph ns {'' @ newline @ x @ ''}'' @ newline"

definition ns_printDot :: "opcua_namespace \<Rightarrow> string res" where
  "ns_printDot s = rbind (mapM (node_printDot s) (ns_nodes s)) (\<lambda>ds. Inr (graph_text (concat ds)))"

section \<open>The walk\<close>

text \<open>What the loops keep: the text so far, \<open>processed\<close> and \<open>tmp\<close>.\<close>

record dot_walk =
  wk_text :: string
  wk_processed :: "nat list"
  wk_tmp :: "nat list"

definition walk_ref ::
    "opcua_namespace \<Rightarrow> bool \<Rightarrow> string list \<Rightarrow> nat \<Rightarrow> dot_walk \<Rightarrow> dot_walk res" where
  "walk_ref s followInverse excludeNodeIds r w =
     (case r_target (ref_at s r) of
        TNode t \<Rightarrow>
          (if id_str (n_id (node_at s t)) \<in> set excludeNodeIds then Inr w
           else if t \<in> set (wk_processed w) then Inr w
           else rbind (node_printDot s t) (\<lambda>d.
             let w' = w\<lparr>wk_text := wk_text w @ d, wk_processed := wk_processed w @ [t]\<rparr>;
                 fwd = r_forward (ref_at s r)
             in Inr (if \<not> fwd \<and> followInverse then w'\<lparr>wk_tmp := wk_tmp w' @ n_references (node_at s t)\<rparr>
                     else if fwd then w'\<lparr>wk_tmp := wk_tmp w' @ n_references (node_at s t)\<rparr>
                     else w')))
      | _ \<Rightarrow> Inr w)"

fun walk_rounds ::
    "opcua_namespace \<Rightarrow> bool \<Rightarrow> string list \<Rightarrow> nat \<Rightarrow> nat list \<Rightarrow> dot_walk \<Rightarrow> dot_walk res" where
  "walk_rounds s follow excl 0 rs w = Inr w"
| "walk_rounds s follow excl (Suc k) rs w =
     rbind (foldM (walk_ref s follow excl) rs (w\<lparr>wk_tmp := []\<rparr>)) (\<lambda>w'.
       walk_rounds s follow excl k (wk_tmp w') w')"

definition walk_root :: "opcua_namespace \<Rightarrow> nat option \<Rightarrow> nat option" where
  "walk_root s rootNode =
     (case rootNode of None \<Rightarrow> getRoot s | Some a \<Rightarrow> if a \<in> set (ns_nodes s) then Some a else getRoot s)"

text \<open>Without a root the file stays empty.\<close>

definition printDotGraphWalk ::
    "opcua_namespace \<Rightarrow> int \<Rightarrow> nat option \<Rightarrow> bool \<Rightarrow> string list \<Rightarrow> string res" where
  "printDotGraphWalk s depth rootNode followInverse excludeNodeIds =
     (case walk_root s rootNode of
        None \<Rightarrow> Inr []
      | Some root \<Rightarrow>
          rbind (node_printDot s root) (\<lambda>d.
            let rs = n_references (node_at s root);
                rs' = if followInverse then rs else filter (\<lambda>r. r_forward (ref_at s r)) rs
            in rbind (walk_rounds s followInverse excludeNodeIds (nat depth) rs'
                 \<lparr>wk_text = d, wk_processed = [], wk_tmp = []\<rparr>) (\<lambda>w. Inr (graph_text (wk_text w)))))"

section \<open>Writing a node raises no exception\<close>

text \<open>The references against the arrow have reference types.\<close>

definition has_inverse_name :: "opcua_namespace \<Rightarrow> target \<Rightarrow> bool" where
  "has_inverse_name s t =
     (case t of TNode ty \<Rightarrow> (case n_part (node_at s ty) of ReferenceTypeNode w \<Rightarrow> True | _ \<Rightarrow> False) | _ \<Rightarrow> False)"

definition inverse_types :: "opcua_namespace \<Rightarrow> bool" where
  "inverse_types s \<longleftrightarrow> list_all (\<lambda>a. list_all (\<lambda>r. r_forward (ref_at s r) \<or> has_inverse_name s (r_type (ref_at s r)))
     (refs s a)) (ns_nodes s)"

lemma node_printDot_total:
  assumes "connected s" and "inverse_types s" and a: "a \<in> set (ns_nodes s)"
  shows "\<exists>d. node_printDot s a = Inr d"
proof -
  have "\<exists>e. dot_edge s (node_at s a) r = Inr e" if r: "r \<in> set (refs s a)" for r
  proof -
    obtain t ty where "r_target (ref_at s r) = TNode t" "r_type (ref_at s r) = TNode ty"
      using connectedD(2,3) [OF assms(1) a r] by blast
    moreover have "r_forward (ref_at s r) \<or> has_inverse_name s (r_type (ref_at s r))"
      using assms(2) a r by (simp add: inverse_types_def list_all_iff)
    ultimately show ?thesis
      by (auto simp: dot_edge_def dot_label_def has_inverse_name_def split: node_part.splits)
  qed
  then obtain es where "mapM (dot_edge s (node_at s a)) (refs s a) = Inr es" using mapM_total by blast
  then show ?thesis by (simp add: node_printDot_def Let_def)
qed

section \<open>What the walk reaches\<close>

text \<open>The edges the walk follows: to nodes that are not excluded.\<close>

definition walk_edges :: "opcua_namespace \<Rightarrow> string list \<Rightarrow> (nat \<times> nat) set" where
  "walk_edges s excl = {(a, b). \<exists>r \<in> set (refs s a). r_target (ref_at s r) = TNode b \<and>
     id_str (n_id (node_at s b)) \<notin> set excl}"

definition within :: "opcua_namespace \<Rightarrow> string list \<Rightarrow> nat \<Rightarrow> nat \<Rightarrow> nat set" where
  "within s excl a k = {b. \<exists>n. 1 \<le> n \<and> n \<le> k \<and> (a, b) \<in> walk_edges s excl ^^ n}"

lemma within_0 [simp]: "within s excl a 0 = {}"
  by (auto simp: within_def)

lemma within_Suc: "within s excl a (Suc k) = walk_edges s excl `` insert a (within s excl a k)"
proof -
  have one: "(\<exists>n \<le> k. (a, c) \<in> walk_edges s excl ^^ n) \<longleftrightarrow> c \<in> insert a (within s excl a k)" for c
  proof
    assume "\<exists>n \<le> k. (a, c) \<in> walk_edges s excl ^^ n"
    then obtain n where n: "n \<le> k" "(a, c) \<in> walk_edges s excl ^^ n" by blast
    then show "c \<in> insert a (within s excl a k)" by (cases "n = 0") (auto simp: within_def Suc_le_eq)
  next
    assume "c \<in> insert a (within s excl a k)"
    then show "\<exists>n \<le> k. (a, c) \<in> walk_edges s excl ^^ n"
      unfolding within_def by (auto intro: exI [of _ 0])
  qed
  have shift: "b \<in> within s excl a (Suc k) \<longleftrightarrow> (\<exists>n \<le> k. (a, b) \<in> walk_edges s excl ^^ Suc n)" for b
    unfolding within_def mem_Collect_eq by (metis One_nat_def Suc_le_D Suc_le_mono le0)
  have "(\<exists>n \<le> k. (a, b) \<in> walk_edges s excl ^^ Suc n) \<longleftrightarrow>
      (\<exists>c. (\<exists>n \<le> k. (a, c) \<in> walk_edges s excl ^^ n) \<and> (c, b) \<in> walk_edges s excl)" for b
    by (auto simp: relcomp_unfold)
  with shift have "b \<in> within s excl a (Suc k) \<longleftrightarrow> b \<in> walk_edges s excl `` insert a (within s excl a k)" for b
    unfolding one by blast
  then show ?thesis by blast
qed

text \<open>The targets of a list of references that are new, in the order in which they are met.\<close>

fun fresh :: "opcua_namespace \<Rightarrow> string list \<Rightarrow> nat list \<Rightarrow> nat list \<Rightarrow> nat list" where
  "fresh s excl [] ps = []"
| "fresh s excl (r # rs) ps =
     (case r_target (ref_at s r) of
        TNode t \<Rightarrow> if id_str (n_id (node_at s t)) \<in> set excl \<or> t \<in> set ps then fresh s excl rs ps
                   else t # fresh s excl rs (ps @ [t])
      | _ \<Rightarrow> fresh s excl rs ps)"

definition goals :: "opcua_namespace \<Rightarrow> string list \<Rightarrow> nat list \<Rightarrow> nat set" where
  "goals s excl rs = {b. \<exists>r \<in> set rs. r_target (ref_at s r) = TNode b \<and> id_str (n_id (node_at s b)) \<notin> set excl}"

lemma goals_refs: "goals s excl (concat (map (refs s) as)) = walk_edges s excl `` set as"
  by (auto simp: goals_def walk_edges_def)

lemma fresh_set: "set (fresh s excl rs ps) = goals s excl rs - set ps"
  by (induction rs arbitrary: ps) (auto simp: goals_def split: target.split)

lemma fresh_distinct: "distinct (fresh s excl rs ps)"
  by (induction rs arbitrary: ps) (auto simp: fresh_set split: target.split)

lemma walk_round:
  assumes "\<forall>b \<in> goals s excl rs. node_printDot s b = Inr (dot b)"
  shows "foldM (walk_ref s True excl) rs w =
    Inr (w\<lparr>wk_text := wk_text w @ concat (map dot (fresh s excl rs (wk_processed w))),
           wk_processed := wk_processed w @ fresh s excl rs (wk_processed w),
           wk_tmp := wk_tmp w @ concat (map (refs s) (fresh s excl rs (wk_processed w)))\<rparr>)"
  using assms
proof (induction rs arbitrary: w)
  case (Cons r rs)
  then have "\<forall>b \<in> goals s excl rs. node_printDot s b = Inr (dot b)" by (auto simp: goals_def)
  note IH = Cons.IH [OF this]
  have ok: "node_printDot s t = Inr (dot t)"
    if "r_target (ref_at s r) = TNode t" "id_str (n_id (node_at s t)) \<notin> set excl" for t
    using Cons.prems that by (auto simp: goals_def)
  have "walk_ref s True excl r w = Inr (case r_target (ref_at s r) of
      TNode t \<Rightarrow> if id_str (n_id (node_at s t)) \<in> set excl \<or> t \<in> set (wk_processed w) then w
        else w\<lparr>wk_text := wk_text w @ dot t, wk_processed := wk_processed w @ [t], wk_tmp := wk_tmp w @ refs s t\<rparr>
    | _ \<Rightarrow> w)"
    using ok by (simp add: walk_ref_def Let_def split: target.split)
  then show ?case by (simp add: IH split: target.split)
qed simp

lemma walk_rounds_reach:
  assumes dot: "\<forall>b \<in> ns. node_printDot s b = Inr (dot b)" and ns: "walk_edges s excl `` insert a ns \<subseteq> ns"
    and "distinct (wk_processed w)" "set (wk_processed w) = within s excl a k"
    and "within s excl a k \<subseteq> ns" "within s excl a k \<union> goals s excl rs = within s excl a (Suc k)"
  shows "\<exists>bs w'. walk_rounds s True excl d rs w = Inr w' \<and> wk_text w' = wk_text w @ concat (map dot bs) \<and>
    distinct (wk_processed w @ bs) \<and> set (wk_processed w @ bs) = within s excl a (k + d)"
  using assms(3-)
proof (induction d arbitrary: rs w k)
  case 0
  then show ?case by (intro exI [of _ "[]"]) simp
next
  case (Suc d)
  let ?new = "fresh s excl rs (wk_processed w)" and ?D = "within s excl a"
  let ?w = "w\<lparr>wk_text := wk_text w @ concat (map dot ?new), wk_processed := wk_processed w @ ?new,
    wk_tmp := concat (map (refs s) ?new)\<rparr>"
  have next_ns: "?D (Suc k) \<subseteq> ns" using Suc.prems(3) ns unfolding within_Suc by blast
  then have "\<forall>b \<in> goals s excl rs. node_printDot s b = Inr (dot b)" using dot Suc.prems(4) by blast
  from walk_round [OF this, of "w\<lparr>wk_tmp := []\<rparr>"]
  have round: "foldM (walk_ref s True excl) rs (w\<lparr>wk_tmp := []\<rparr>) = Inr ?w" by simp
  have new: "set ?new = ?D (Suc k) - ?D k" using Suc.prems(2,4) by (auto simp: fresh_set)
  have w: "distinct (wk_processed ?w)" "set (wk_processed ?w) = ?D (Suc k)"
    using Suc.prems(1,2,4) new by (auto simp: fresh_distinct)
  have all: "?D (Suc k) = ?D k \<union> set ?new" using new Suc.prems(4) by blast
  have "?D (Suc (Suc k)) = walk_edges s excl `` insert a (?D k) \<union> walk_edges s excl `` set ?new"
    unfolding within_Suc [of s excl a "Suc k"] all by blast
  then have "?D (Suc k) \<union> goals s excl (wk_tmp ?w) = ?D (Suc (Suc k))"
    by (simp add: goals_refs within_Suc [of s excl a k])
  from Suc.IH [OF w next_ns this] obtain bs w' where
    "walk_rounds s True excl d (wk_tmp ?w) ?w = Inr w'" "wk_text w' = wk_text ?w @ concat (map dot bs)"
    "distinct (wk_processed ?w @ bs)" "set (wk_processed ?w @ bs) = ?D (Suc k + d)" by blast
  then show ?case using round by (intro exI [of _ "?new @ bs"] exI [of _ w']) simp
qed

text \<open>The description of the whole namespace.\<close>

lemma ns_printDot_total:
  assumes "connected s" and "inverse_types s"
  shows "\<exists>x. ns_printDot s = Inr (graph_text x)"
proof -
  obtain ds where "mapM (node_printDot s) (ns_nodes s) = Inr ds"
    using mapM_total node_printDot_total [OF assms] by metis
  then show ?thesis by (auto simp: ns_printDot_def)
qed

section \<open>Properties\<close>

text \<open>C12: in a namespace read from any files, linked, checked, encoded and allocated, whose references
  against the arrow have types that are nodes of the class reference type, the walk that follows
  inverse references, from a root that is a node of the namespace, raises no exception and writes the root
  and then, each once, exactly the nodes that are reached from the root over one to \<open>depth\<close> references
  without entering an excluded node (the root among them, if a circle leads back to it).\<close>

theorem graph_walk_within_depth:
  assumes "read_files ord env roots = Inr s" and "linkOpenPointers s = Inr t" and "ns_sanitize t = Inr (u, l)"
    and "buildEncodingRules ord (ns_nodes u) u = Some (Inr v)" and "allocateVariables env v = Inr w"
    and "inverse_types w" and root: "root \<in> set (ns_nodes w)"
  shows "\<exists>bs ds. distinct bs \<and> set bs = within w excl root (nat depth) \<and>
    mapM (node_printDot w) (root # bs) = Inr ds \<and>
    printDotGraphWalk w depth (Some root) True excl = Inr (graph_text (concat ds))"
proof -
  have conn: "connected w" by (rule ordered_connected [OF assms(1-5)])
  obtain dot where dot: "\<forall>a \<in> set (ns_nodes w). node_printDot w a = Inr (dot a)"
    using node_printDot_total [OF conn assms(6)] by metis
  have closed: "walk_edges w excl `` insert root (set (ns_nodes w)) \<subseteq> set (ns_nodes w)"
    using connectedD(2) [OF conn] root by (fastforce simp: walk_edges_def)
  have "goals w excl (refs w root) = within w excl root (Suc 0)"
    using goals_refs [of w excl "[root]"] by (simp add: within_Suc)
  then obtain bs w' where b: "distinct bs" "set bs = within w excl root (nat depth)"
    "walk_rounds w True excl (nat depth) (refs w root) \<lparr>wk_text = dot root, wk_processed = [], wk_tmp = []\<rparr> = Inr w'"
    "wk_text w' = dot root @ concat (map dot bs)"
    using walk_rounds_reach [OF dot closed, of "\<lparr>wk_text = dot root, wk_processed = [], wk_tmp = []\<rparr>" 0 "refs w root" "nat depth"]
    by auto
  have "within w excl root k \<subseteq> set (ns_nodes w)" for k
    by (induction k) (use closed in \<open>auto simp: within_Suc\<close>)
  then have "set (root # bs) \<subseteq> set (ns_nodes w)" using b(2) root by auto
  then have "mapM (node_printDot w) (root # bs) = Inr (map dot (root # bs))"
    by (intro mapM_eq_map) (use dot in blast)
  moreover have "printDotGraphWalk w depth (Some root) True excl = Inr (graph_text (concat (map dot (root # bs))))"
    using root dot b(3,4) by (simp add: printDotGraphWalk_def walk_root_def Let_def)
  ultimately show ?thesis using b(1,2) by blast
qed

text \<open>Two steps around the folder of the objects, whose neighbour refers back to it: the folder is
  written twice, and so it is if inverse references are not to be followed.\<close>

definition demo_walk :: "opcua_namespace \<Rightarrow> opcua_namespace \<Rightarrow> bool" where
  "demo_walk u v \<longleftrightarrow> ns_nodes v = [0, 1, 2] \<and> list_all (\<lambda>a. \<not> is_variable (node_at v a)) (ns_nodes v) \<and> inverse_types v \<and>
     (case mapM (node_printDot v) [1, 2, 1] of
        Inl _ \<Rightarrow> False
      | Inr ds \<Rightarrow> printDotGraphWalk v 2 (Some 1) False [] = Inr (graph_text (concat ds)) \<and>
                  printDotGraphWalk v 2 (Some 1) True [] = Inr (graph_text (concat ds)))"

lemma demo_walk: "checked_run demo_set demo_walk"
  by code_simp

corollary graph_walk_within_depth_witness:
  "\<exists>s t u l v bs ds. read_files id demo_env [demo_set] = Inr s \<and> linkOpenPointers s = Inr t \<and>
     ns_sanitize t = Inr (u, l) \<and> buildEncodingRules id (ns_nodes u) u = Some (Inr v) \<and> allocateVariables demo_env v = Inr v \<and>
     distinct bs \<and> set bs = within v [] 1 2 \<and> mapM (node_printDot v) (1 # bs) = Inr ds \<and>
     printDotGraphWalk v 2 (Some 1) True [] = Inr (graph_text (concat ds))"
proof -
  obtain s t u l v where v: "read_files id demo_env [demo_set] = Inr s" "linkOpenPointers s = Inr t"
    "ns_sanitize t = Inr (u, l)" "buildEncodingRules id (ns_nodes u) u = Some (Inr v)"
    and "demo_walk u v" by (rule checked_runE [OF demo_walk])
  then have w: "ns_nodes v = [0, 1, 2]" "list_all (\<lambda>a. \<not> is_variable (node_at v a)) (ns_nodes v)" "inverse_types v"
    unfolding demo_walk_def by blast+
  have al: "allocateVariables demo_env v = Inr v" by (rule no_variables) (rule w(2))
  have "1 \<in> set (ns_nodes v)" using w(1) by simp
  from graph_walk_within_depth [OF v al w(3) this, of "[]" 2] show ?thesis using v al by auto
qed

end
