(* ===== verification/Binary_Repr.thy ===== *)
theory Binary_Repr
  imports Type_Convergence
begin

text \<open>
  What the code has of a binary representation of the namespace: the table of the nodes that get one
  of the first slots, and \<open>encodedTypeId\<close>, the number of the builtin type the values of a data type are
  represented by.
\<close>

section \<open>Slots\<close>

text \<open>\<open>list.index\<close> of an element of the list.\<close>

definition slot :: "nat list \<Rightarrow> nat \<Rightarrow> nat" where
  "slot ps a = length (takeWhile (\<lambda>b. b \<noteq> a) ps)"

definition registerBinaryIndirectPointer :: "nat \<Rightarrow> nat list \<Rightarrow> nat list \<times> nat" where
  "registerBinaryIndirectPointer a ps = (let ps' = if a \<in> set ps then ps else ps @ [a] in (ps', slot ps' a))"

definition getBinaryIndirectPointerIndex :: "nat list \<Rightarrow> nat \<Rightarrow> int" where
  "getBinaryIndirectPointerIndex ps a = (if a \<notin> set ps then -1 else int (slot ps a))"

text \<open>A node keeps its slot, and no two nodes share one.\<close>

lemma slot_append: "a \<in> set ps \<Longrightarrow> slot (ps @ qs) a = slot ps a"
  by (auto simp: slot_def takeWhile_append1)

lemma slot_nth: "a \<in> set ps \<Longrightarrow> slot ps a < length ps \<and> ps ! slot ps a = a"
  by (induction ps) (auto simp: slot_def)

lemma registered_slot:
  assumes "registerBinaryIndirectPointer a ps = (ps', k)"
  shows "getBinaryIndirectPointerIndex ps' a = int k" and "distinct ps \<Longrightarrow> distinct ps'"
    and "b \<in> set ps \<Longrightarrow> getBinaryIndirectPointerIndex ps' b = getBinaryIndirectPointerIndex ps b"
    and "getBinaryIndirectPointerIndex ps' b = int k \<Longrightarrow> b = a"
proof -
  have reg: "ps' = (if a \<in> set ps then ps else ps @ [a])" "k = slot ps' a" "a \<in> set ps'"
    using assms by (auto simp: registerBinaryIndirectPointer_def Let_def)
  then show "getBinaryIndirectPointerIndex ps' a = int k" by (simp add: getBinaryIndirectPointerIndex_def)
  show "distinct ps \<Longrightarrow> distinct ps'" using reg(1) by auto
  show "b \<in> set ps \<Longrightarrow> getBinaryIndirectPointerIndex ps' b = getBinaryIndirectPointerIndex ps b"
    using reg(1) by (auto simp: getBinaryIndirectPointerIndex_def slot_append)
  assume "getBinaryIndirectPointerIndex ps' b = int k"
  then have "b \<in> set ps'" "slot ps' b = slot ps' a"
    using reg(2) by (auto simp: getBinaryIndirectPointerIndex_def split: if_splits)
  then show "b = a" using slot_nth [of b ps'] slot_nth [OF reg(3)] by metis
qed

section \<open>The number of a data type\<close>

text \<open>
  Names of aliases are skipped: an encoding of several entries that starts with a text goes on with its
  second entry.  The items of a text are texts of one character.
\<close>

function skip_aliases :: "enc \<Rightarrow> enc res" where
  "skip_aliases e =
     rbind (enc_items e) (\<lambda>es.
       case es of
         EncStr n # e' # rest \<Rightarrow> skip_aliases e'
       | _ \<Rightarrow> Inr e)"
  by auto

termination
proof (relation "measure enc_measure", goal_cases)
  case (2 e es x xs n y ys)
  then have "encs_measure es < enc_measure e" by (intro enc_items_measure) auto
  then show ?case using 2 by simp
qed simp

text \<open>\<open>getTypeByString\<close> is called without the encoding rule, which is no optional argument.\<close>

definition typeId_by_name :: "enc \<Rightarrow> int res" where
  "typeId_by_name e = rbind (enc_at e 0) (\<lambda>n. Inl TypeError)"

definition encodedTypeId :: "opcua_namespace \<Rightarrow> nat \<Rightarrow> int res" where
  "encodedTypeId s a =
     (case dataType_at s a of
        None \<Rightarrow> Inl AttributeError
      | Some w \<Rightarrow>
          (if dy_encodable w \<noteq> Some True \<or> dy_baseTypeEncoding w = [] then Inr 0
           else
             let enc = dy_baseTypeEncoding w; number = binTypeId extensionObject_class in
             if length enc > 1 \<and> (case hd enc of EncList _ \<Rightarrow> True | _ \<Rightarrow> False) then Inr number
             else if length enc = 1 \<and> (case hd enc of EncStr _ \<Rightarrow> True | _ \<Rightarrow> False) then typeId_by_name (EncList enc)
             else rbind (skip_aliases (EncList enc)) (\<lambda>e.
               rbind (enc_len e) (\<lambda>k. if k > 1 then Inr number else typeId_by_name e))))"

section \<open>Numbers of encodable types\<close>

text \<open>Whether the aliases lead to a list of fields.\<close>

fun is_structure :: "enc list \<Rightarrow> bool" where
  "is_structure (EncStr n # EncList es # rest) = is_structure es"
| "is_structure es = (2 \<le> length es)"

definition skipped :: "enc list \<Rightarrow> bool" where
  "skipped es \<longleftrightarrow> (\<exists>t. skip_aliases (EncList es) = Inr (EncList t) \<and> t \<noteq> [] \<and> (is_structure es \<longleftrightarrow> 2 \<le> length t))"

lemma skipped_alias: "skipped sub \<Longrightarrow> skipped (EncStr n # EncList sub # rest)"
  by (simp add: skipped_def skip_aliases.simps [of "EncList (EncStr n # EncList sub # rest)"])

lemma fields_skipped:
  assumes "2 \<le> length es" and "\<forall>e \<in> set es. field_enc e"
  shows "skipped es" and "is_structure es" and "\<exists>fs. hd es = EncList fs"
proof -
  obtain fs e rest where es: "es = EncList fs # e # rest"
    using assms by (auto simp: field_enc_def Suc_le_length_iff numeral_2_eq_2)
  then show "skipped es" "is_structure es" "\<exists>fs. hd es = EncList fs"
    by (auto simp: skipped_def skip_aliases.simps [of "EncList es"])
qed

lemma converges_skipped:
  "converges es \<Longrightarrow> skipped es"
  "aliased es \<Longrightarrow> \<exists>n sub rest. es = EncStr n # EncList sub # rest \<and> skipped sub"
proof (induction rule: converges_aliased.inducts)
  case (builtin_name b)
  then show ?case by (simp add: skipped_def skip_aliases.simps [of "EncList [EncStr b]"])
next
  case (aliases es)
  then show ?case using skipped_alias by blast
next
  case (fields es)
  then have "\<forall>e \<in> set es. field_enc e" by (auto simp: field_enc_def)
  with fields(1) show ?case by (rule fields_skipped(1))
qed auto

lemma encodedTypeId_converging:
  assumes "isEncodable s a" and "converges (encoding_of s a)"
  shows "encodedTypeId s a = (if is_structure (encoding_of s a) then Inr 1 else Inl TypeError)"
proof -
  obtain w where w: "dataType_at s a = Some w" "dy_encodable w = Some True" "dy_baseTypeEncoding w = encoding_of s a"
    using assms(1) by (auto simp: isEncodable_def encoding_of_def split: option.splits)
  have id: "encodedTypeId s a =
     (let enc = encoding_of s a in
      if enc = [] then Inr 0
      else if length enc > 1 \<and> (case hd enc of EncList _ \<Rightarrow> True | _ \<Rightarrow> False) then Inr 1
      else if length enc = 1 \<and> (case hd enc of EncStr _ \<Rightarrow> True | _ \<Rightarrow> False) then typeId_by_name (EncList enc)
      else rbind (skip_aliases (EncList enc)) (\<lambda>e. rbind (enc_len e) (\<lambda>k. if k > 1 then Inr 1 else typeId_by_name e)))"
    using w by (simp add: encodedTypeId_def Let_def extensionObject_class_def)
  have skip: "skipped (encoding_of s a)" by (rule converges_skipped(1) [OF assms(2)])
  from assms(2) show ?thesis
  proof cases
    case (builtin_name b)
    then show ?thesis using id by (simp add: typeId_by_name_def enc_at_def)
  next
    case aliases
    then obtain n sub rest where es: "encoding_of s a = EncStr n # EncList sub # rest" using converges_skipped(2) by blast
    obtain t where "skip_aliases (EncList (encoding_of s a)) = Inr (EncList t)" "t \<noteq> []"
      "is_structure (encoding_of s a) \<longleftrightarrow> 2 \<le> length t" using skip unfolding skipped_def by blast
    then show ?thesis using id es by (auto simp: enc_len_def typeId_by_name_def enc_at_def)
  next
    case fields
    then have "\<forall>e \<in> set (encoding_of s a). field_enc e" by (auto simp: field_enc_def)
    note f = fields_skipped [OF fields(1) this]
    then show ?thesis using id fields(1) by (auto simp: Let_def)
  qed
qed

section \<open>Properties\<close>

text \<open>C13: where no data type is made of itself, the number of a data type is 0 if it is not encodable and
  that of the extension object if its encoding leads, over aliases, to several fields; for a type that
  leads to a builtin type asking for the number raises \<open>TypeError\<close>.\<close>

theorem encoded_type_number:
  assumes "read_files ord env roots = Inr s" and "linkOpenPointers s = Inr t" and "ns_sanitize t = Inr (u, l)"
    and "acyclic (type_deps ord u)" and "buildEncodingRules ord (ns_nodes u) u = Some (Inr v)"
    and "a \<in> set (ns_nodes v)" and "dataType_at v a \<noteq> None"
  shows "encodedTypeId v a = (if \<not> isEncodable v a then Inr 0
    else if is_structure (encoding_of v a) then Inr 1 else Inl TypeError)"
proof (cases "isEncodable v a")
  case True
  have "converges (encoding_of v a)" by (rule encoding_converges [OF assms(1-6) True])
  from encodedTypeId_converging [OF True this] show ?thesis using True by simp
next
  case False
  then show ?thesis using assms(7) by (auto simp: encodedTypeId_def isEncodable_def)
qed

definition typed_numbers :: "opcua_namespace \<Rightarrow> opcua_namespace \<Rightarrow> bool" where
  "typed_numbers u v \<longleftrightarrow> ns_nodes u = [0, 1, 2, 3] \<and> ns_nodes v = [0, 1, 2, 3] \<and> length (node_heap u) = 4 \<and>
     xml_definition u 0 = None \<and> xml_definition u 1 = Some None \<and>
     xml_definition u 2 = Some (Some point_fields) \<and> xml_definition u 3 = Some None \<and>
     n_references (node_at u 1) = [] \<and> map (\<lambda>r. r_target (ref_at u r)) (n_references (node_at u 3)) = [TNode 2] \<and>
     ns_getNodeByIDString u ''i=6'' = Some 1 \<and> isEncodable v 1 \<and> isEncodable v 3 \<and>
     dataType_at v 1 \<noteq> None \<and> dataType_at v 3 \<noteq> None \<and>
     \<not> is_structure (encoding_of v 1) \<and> is_structure (encoding_of v 3)"

lemma typed_numbers: "checked_run typed_set typed_numbers"
  by code_simp

corollary encoded_type_number_witness:
  "\<exists>s t u l v. read_files id demo_env [typed_set] = Inr s \<and> linkOpenPointers s = Inr t \<and> ns_sanitize t = Inr (u, l) \<and>
     buildEncodingRules id (ns_nodes u) u = Some (Inr v) \<and> encodedTypeId v 1 = Inl TypeError \<and> encodedTypeId v 3 = Inr 1"
proof -
  obtain s t u l v where v: "read_files id demo_env [typed_set] = Inr s" "linkOpenPointers s = Inr t"
    "ns_sanitize t = Inr (u, l)" "buildEncodingRules id (ns_nodes u) u = Some (Inr v)"
    and "typed_numbers u v" by (rule checked_runE [OF typed_numbers])
  note u = this(5) [unfolded typed_numbers_def]
  have "acyclic (type_deps id u)" by (rule typed_acyclic) (use u in simp_all)
  from encoded_type_number [OF v(1-3) this v(4), of 1] encoded_type_number [OF v(1-3) this v(4), of 3] u v
  show ?thesis by auto
qed

end
