(* ===== verification/Py_Path.thy ===== *)
theory Py_Path
  imports Py_Prelude
begin

text \<open>The functions of \<open>os.path\<close> that the scripts use, for POSIX systems.\<close>

section \<open>Functions\<close>

definition isabs :: "string \<Rightarrow> bool" where
  "isabs p \<longleftrightarrow> prefix ''/'' p"

definition path_join :: "string \<Rightarrow> string \<Rightarrow> string" where
  "path_join p q =
     (if isabs q then q else if p = [] \<or> last p = CHR ''/'' then p @ q else p @ ''/'' @ q)"

text \<open>Two slashes at the beginning, but not three, are kept.\<close>

definition initial_slashes :: "string \<Rightarrow> nat" where
  "initial_slashes p =
     (if \<not> isabs p then 0 else if prefix ''//'' p \<and> \<not> prefix ''///'' p then 2 else 1)"

definition norm_comp :: "nat \<Rightarrow> string \<Rightarrow> string list \<Rightarrow> string list" where
  "norm_comp n part acc =
     (if part = [] \<or> part = ''.'' then acc
      else if part \<noteq> ''..'' \<or> n = 0 \<and> acc = [] \<or> acc \<noteq> [] \<and> last acc = ''..'' then acc @ [part]
      else if acc \<noteq> [] then butlast acc
      else acc)"

definition norm_comps :: "string \<Rightarrow> string list" where
  "norm_comps p = fold (norm_comp (initial_slashes p)) (split_on (CHR ''/'') p) []"

definition normpath :: "string \<Rightarrow> string" where
  "normpath p =
     (let q = replicate (initial_slashes p) (CHR ''/'') @ join ''/'' (norm_comps p)
      in if p = [] \<or> q = [] then ''.'' else q)"

definition abspath :: "string \<Rightarrow> string \<Rightarrow> string" where
  "abspath cwd p = normpath (if isabs p then p else path_join cwd p)"

definition dirname :: "string \<Rightarrow> string" where
  "dirname p =
     (let head = rev (dropWhile (\<lambda>c. c \<noteq> CHR ''/'') (rev p))
      in if list_all (\<lambda>c. c = CHR ''/'') head then head else rev (dropWhile (\<lambda>c. c = CHR ''/'') (rev head)))"

fun common_length :: "string list \<Rightarrow> string list \<Rightarrow> nat" where
  "common_length (x # xs) (y # ys) = (if x = y then Suc (common_length xs ys) else 0)"
| "common_length _ _ = 0"

definition relpath :: "string \<Rightarrow> string \<Rightarrow> string \<Rightarrow> string res" where
  "relpath cwd p start =
     (if p = [] then Inl ValueError
      else
        let parts = (\<lambda>q. filter (\<lambda>c. c \<noteq> []) (split_on (CHR ''/'') (abspath cwd q)));
            origin = parts start; dest = parts p; k = common_length origin dest;
            rel = replicate (length origin - k) ''..'' @ drop k dest
        in Inr (if rel = [] then ''.'' else join ''/'' rel))"

section \<open>Normal paths\<close>

text \<open>
  The parts of a normal path: none is empty or a single dot, and two dots only stand at the beginning
  of a relative path.
\<close>

definition normal_parts :: "nat \<Rightarrow> string list \<Rightarrow> bool" where
  "normal_parts n cs \<longleftrightarrow> [] \<notin> set cs \<and> ''.'' \<notin> set cs \<and>
     (\<exists>k ds. cs = replicate k ''..'' @ ds \<and> ''..'' \<notin> set ds \<and> (n \<noteq> 0 \<longrightarrow> k = 0))"

lemma normal_partsI:
  assumes "cs = replicate k ''..'' @ ds" and "''..'' \<notin> set ds" and "n \<noteq> 0 \<longrightarrow> k = 0" and "[] \<notin> set ds" and "''.'' \<notin> set ds"
  shows "normal_parts n cs"
proof -
  have "[] \<notin> set cs" "''.'' \<notin> set cs" using assms(1,4,5) by auto
  then show ?thesis using assms(1-3) unfolding normal_parts_def by blast
qed

lemma norm_comp_normal: "normal_parts n acc \<Longrightarrow> normal_parts n (norm_comp n part acc)"
proof -
  assume a: "normal_parts n acc"
  then obtain k ds where k: "acc = replicate k ''..'' @ ds" "''..'' \<notin> set ds" "n \<noteq> 0 \<longrightarrow> k = 0"
    and e: "[] \<notin> set acc" "''.'' \<notin> set acc" unfolding normal_parts_def by blast
  have last: "acc \<noteq> [] \<Longrightarrow> last acc = ''..'' \<longleftrightarrow> ds = []"
    using k by (cases "ds = []") (auto simp: last_append dest: last_in_set)
  show ?thesis
  proof (cases "part = [] \<or> part = ''.''")
    case True
    then show ?thesis using a by (auto simp: norm_comp_def)
  next
    case name: False
    show ?thesis
    proof (cases "part = ''..''")
      case False
      then have "norm_comp n part acc = replicate k ''..'' @ (ds @ [part])" "''..'' \<notin> set (ds @ [part])"
        using name k by (simp_all add: norm_comp_def)
      then show ?thesis by (rule normal_partsI) (use name k(1,3) e in auto)
    next
      case up: True
      show ?thesis
      proof (cases "ds = []")
        case True
        then have "norm_comp n part acc = (if n = 0 then replicate (Suc k) ''..'' else acc)"
          using up k last by (auto simp: norm_comp_def replicate_append_same)
        moreover have "normal_parts 0 (replicate (Suc k) ''..'')" by (rule normal_partsI [of _ "Suc k" "[]"]) simp_all
        ultimately show ?thesis using a by simp
      next
        case False
        then have "norm_comp n part acc = replicate k ''..'' @ butlast ds"
          using up k last by (simp add: norm_comp_def butlast_append)
        moreover have "''..'' \<notin> set (butlast ds)" using k(2) by (auto dest: in_set_butlastD)
        ultimately show ?thesis by (rule normal_partsI) (use k(1,3) e in \<open>auto dest: in_set_butlastD\<close>)
      qed
    qed
  qed
qed

lemma norm_comps_normal: "normal_parts (initial_slashes p) (norm_comps p)"
proof -
  have "normal_parts n acc \<Longrightarrow> normal_parts n (fold (norm_comp n) cs acc)" for n cs acc
    by (induction cs arbitrary: acc) (simp_all add: norm_comp_normal)
  moreover have "normal_parts n []" for n by (simp add: normal_parts_def)
  ultimately show ?thesis by (simp add: norm_comps_def)
qed

end
