(* ===== verification/Self_Signed.thy ===== *)
theory Self_Signed
  imports Py_Path
begin

text \<open>
  The script create_self-signed.py: it sets the variables of the environment that the configuration
  of openssl refers to, and calls openssl three times.  The interfaces of the machine, its name, its
  files and what a command does to the files of the output directory are parameters.
\<close>

section \<open>The machine\<close>

text \<open>
  An interface with its addresses of the family \<open>AF_INET\<close>, \<open>None\<close> if it has no entry for that family.
  A command sees the environment and the files of the current directory.
\<close>

type_synonym interface = "string \<times> string list option"
type_synonym environ = "string \<rightharpoonup> string"

record host =
  path_exists :: "string \<Rightarrow> bool"
  is_directory :: "string \<Rightarrow> bool"
  interfaces :: "interface list"
  gethostname :: string
  system :: "string \<Rightarrow> environ \<Rightarrow> string set \<Rightarrow> string set"

record cert_args =
  outdir :: string
  uri :: string
  keysize :: "int option"
  certificatename :: string

datatype script_error = SystemExit string | NotADirectory | FileNotFound string | Raised py_error

type_synonym 'a outcome = "script_error + 'a"

section \<open>The addresses\<close>

definition is_interface_up :: "interface \<Rightarrow> bool" where
  "is_interface_up i \<longleftrightarrow> snd i \<noteq> None"

definition set_address :: "string \<Rightarrow> interface \<Rightarrow> environ \<Rightarrow> environ res" where
  "set_address var i env =
     (case snd i of
        None \<Rightarrow> Inl (KeyError ''2'')
      | Some [] \<Rightarrow> Inl IndexError
      | Some (a # as) \<Rightarrow> Inr (env(var \<mapsto> a)))"

text \<open>The loop over the interfaces, with \<open>iteratorValue\<close>; it ends after the second address.\<close>

fun address_loop :: "interface list \<Rightarrow> nat \<Rightarrow> environ \<Rightarrow> (nat \<times> environ) res" where
  "address_loop [] it env = Inr (it, env)"
| "address_loop (i # is) it env =
     (if is_interface_up i \<and> fst i \<noteq> ''lo'' then
        rbind (if it = 0 then set_address ''IPADDRESS1'' i env else Inr env) (\<lambda>env1.
        rbind (if it = 1 then set_address ''IPADDRESS2'' i env1 else Inr env1) (\<lambda>env2.
          if it + 1 = 2 then Inr (it + 1, env2) else address_loop is (it + 1) env2))
      else address_loop is it env)"

definition set_addresses :: "interface list \<Rightarrow> environ \<Rightarrow> environ res" where
  "set_addresses is env =
     rbind (address_loop is 0 env) (\<lambda>(it, env').
       Inr (if it < 2 then env'(''IPADDRESS2'' \<mapsto> ''127.0.0.1'') else env'))"

section \<open>The commands\<close>

definition chosen_keysize :: "cert_args \<Rightarrow> int" where
  "chosen_keysize a = (if truthy_int (keysize a) then the (keysize a) else 2048)"

definition chosen_uri :: "cert_args \<Rightarrow> string" where
  "chosen_uri a = (if uri a = [] then ''urn:open62541.server.application'' else uri a)"

definition chosen_name :: "cert_args \<Rightarrow> string" where
  "chosen_name a = (if certificatename a = [] then ''server'' else certificatename a)"

definition req_command :: "string \<Rightarrow> int \<Rightarrow> string" where
  "req_command conf k =
     ''openssl req      -config '' @ conf @ ''      -new      -nodes      -x509 -sha256       -newkey rsa:'' @ int_str k @
     ''      -keyout localhost.key -days 365      -subj \"/C=DE/O=open62541/CN=open62541Server@localhost\"     -out localhost.crt''"

definition cert_command :: "string \<Rightarrow> string" where
  "cert_command name = ''openssl x509 -in localhost.crt -outform der -out '' @ name @ ''_cert.der''"

definition key_command :: "string \<Rightarrow> string" where
  "key_command name = ''openssl rsa -inform PEM -in localhost.key -outform DER -out '' @ name @ ''_key.der''"

definition remove_file :: "string \<Rightarrow> string set \<Rightarrow> string set outcome" where
  "remove_file f fs = (if f \<in> fs then Inr (fs - {f}) else Inl (FileNotFound f))"

text \<open>
  The script: \<open>certsdir\<close> is its own directory and \<open>fs\<close> are the files of the output directory before.
  The result are the environment and the files at the end; the results of the commands are not
  looked at.
\<close>

definition script_environ :: "host \<Rightarrow> cert_args \<Rightarrow> environ \<Rightarrow> environ res" where
  "script_environ h a env =
     rbind (set_addresses (interfaces h) (env(''URI1'' \<mapsto> chosen_uri a))) (\<lambda>env'.
       Inr (env'(''HOSTNAME'' \<mapsto> gethostname h)))"

definition create_self_signed ::
    "host \<Rightarrow> string \<Rightarrow> cert_args \<Rightarrow> environ \<Rightarrow> string set \<Rightarrow> (environ \<times> string set) outcome" where
  "create_self_signed h certsdir a env fs =
     (if \<not> path_exists h (outdir a) then Inl (SystemExit (''ERROR: Directory '' @ outdir a @ '' was not found!''))
      else case script_environ h a env of
        Inl e \<Rightarrow> Inl (Raised e)
      | Inr env' \<Rightarrow>
          (if \<not> is_directory h (outdir a) then Inl NotADirectory
           else
             let name = chosen_name a;
                 fs1 = system h (req_command (path_join certsdir ''localhost.cnf'') (chosen_keysize a)) env' fs;
                 fs2 = system h (cert_command name) env' fs1;
                 fs3 = system h (key_command name) env' fs2
             in case remove_file ''localhost.key'' fs3 of
                  Inl e \<Rightarrow> Inl e
                | Inr fs4 \<Rightarrow>
                    (case remove_file ''localhost.crt'' fs4 of Inl e \<Rightarrow> Inl e | Inr fs5 \<Rightarrow> Inr (env', fs5))))"

section \<open>Which addresses are taken\<close>

text \<open>The first addresses of the interfaces that are up, without the loopback interface.\<close>

definition outer_addresses :: "interface list \<Rightarrow> string list" where
  "outer_addresses is = map (\<lambda>i. hd (the (snd i))) (filter (\<lambda>i. is_interface_up i \<and> fst i \<noteq> ''lo'') is)"

definition addressed :: "interface list \<Rightarrow> bool" where
  "addressed is \<longleftrightarrow> (\<forall>i \<in> set is. snd i \<noteq> Some [])"

lemma set_address_up:
  "is_interface_up i \<Longrightarrow> snd i \<noteq> Some [] \<Longrightarrow> set_address var i env = Inr (env(var \<mapsto> hd (the (snd i))))"
  by (auto simp: set_address_def is_interface_up_def split: list.split)

lemma outer_addresses_simps [simp]:
  "outer_addresses [] = []"
  "outer_addresses (i # is) =
     (if is_interface_up i \<and> fst i \<noteq> ''lo'' then hd (the (snd i)) # outer_addresses is else outer_addresses is)"
  by (simp_all add: outer_addresses_def)

lemma address_loop_second:
  "addressed is \<Longrightarrow> address_loop is 1 env =
     Inr (case outer_addresses is of [] \<Rightarrow> (1, env) | b # bs \<Rightarrow> (2, env(''IPADDRESS2'' \<mapsto> b)))"
  by (induction "is") (auto simp: addressed_def set_address_up)

lemma address_loop_first:
  "addressed is \<Longrightarrow> address_loop is 0 env =
     Inr (case outer_addresses is of
            [] \<Rightarrow> (0, env)
          | [a] \<Rightarrow> (1, env(''IPADDRESS1'' \<mapsto> a))
          | a # b # bs \<Rightarrow> (2, env(''IPADDRESS1'' \<mapsto> a, ''IPADDRESS2'' \<mapsto> b)))"
proof (induction "is")
  case (Cons i "is")
  then have "addressed is" "snd i \<noteq> Some []" by (simp_all add: addressed_def)
  then show ?case
    using Cons.IH address_loop_second [of "is" "env(''IPADDRESS1'' \<mapsto> hd (the (snd i)))"]
    by (auto simp: set_address_up split: list.split)
qed simp

section \<open>How the script ends\<close>

text \<open>The output directory is left without the two files that are converted, and without them the
  script fails, whatever the reason that openssl did not write them.\<close>

lemma create_self_signed_ends:
  assumes "path_exists h (outdir a)" and "is_directory h (outdir a)" and "script_environ h a env = Inr e"
    and made: "\<And>k c n. ''localhost.key'' \<in> system h (key_command n) e (system h (cert_command n) e (system h (req_command c k) e fs)) \<longleftrightarrow> ok"
      "\<And>k c n. ''localhost.crt'' \<in> system h (key_command n) e (system h (cert_command n) e (system h (req_command c k) e fs)) \<longleftrightarrow> ok"
  shows "(\<exists>fs'. create_self_signed h certsdir a env fs = Inr (e, fs') \<and> {''localhost.key'', ''localhost.crt''} \<inter> fs' = {}) \<longleftrightarrow> ok"
    and "\<not> ok \<Longrightarrow> create_self_signed h certsdir a env fs = Inl (FileNotFound ''localhost.key'')"
  using assms by (simp_all add: create_self_signed_def remove_file_def Let_def)

section \<open>Properties\<close>

text \<open>C39: the script leaves for openssl the first address of the first interface that is up and not the
  loopback one, if there is one, and that of the second or the loopback address; the host name and the
  given or the default URI; and otherwise the environment it was called in.\<close>

theorem certificate_environment:
  assumes "addressed (interfaces h)"
  shows "\<exists>e. script_environ h a env = Inr e \<and>
    e ''IPADDRESS1'' = (case outer_addresses (interfaces h) of [] \<Rightarrow> env ''IPADDRESS1'' | x # xs \<Rightarrow> Some x) \<and>
    e ''IPADDRESS2'' = Some (case outer_addresses (interfaces h) of x # y # ys \<Rightarrow> y | _ \<Rightarrow> ''127.0.0.1'') \<and>
    e ''URI1'' = Some (chosen_uri a) \<and> e ''HOSTNAME'' = Some (gethostname h) \<and>
    (\<forall>x. x \<notin> {''IPADDRESS1'', ''IPADDRESS2'', ''URI1'', ''HOSTNAME''} \<longrightarrow> e x = env x)"
  by (auto simp: script_environ_def set_addresses_def address_loop_first [OF assms] split: list.split)

text \<open>A machine with the loopback interface, one that is down, and one with an address.\<close>

definition one_address :: host where
  "one_address = \<lparr>path_exists = (\<lambda>_. True), is_directory = (\<lambda>_. True),
     interfaces = [(''lo'', Some [''127.0.0.1'']), (''eth0'', None), (''wlan0'', Some [''192.168.0.7'', ''192.168.0.8''])],
     gethostname = ''bench'', system = (\<lambda>c e fs. fs \<union> {''localhost.key'', ''localhost.crt''})\<rparr>"

corollary certificate_environment_witness:
  "\<exists>e. script_environ one_address \<lparr>outdir = ''.'', uri = [], keysize = None, certificatename = []\<rparr> Map.empty = Inr e \<and>
     e ''IPADDRESS1'' = Some ''192.168.0.7'' \<and> e ''IPADDRESS2'' = Some ''127.0.0.1'' \<and>
     e ''URI1'' = Some ''urn:open62541.server.application'' \<and> e ''HOSTNAME'' = Some ''bench''"
proof -
  have "addressed (interfaces one_address)" by (simp add: addressed_def one_address_def)
  from certificate_environment [OF this, of "\<lparr>outdir = ''.'', uri = [], keysize = None, certificatename = []\<rparr>" Map.empty]
  show ?thesis by (auto simp: one_address_def is_interface_up_def chosen_uri_def)
qed

end
