(* ===== verification/Fix_Linter.thy ===== *)
theory Fix_Linter
  imports Py_Path
begin

text \<open>
  The script fix-linter-for-all.py: it runs clang-tidy on every file of a compilation database,
  applies the fixes and commits them.  The machine is a parameter: what a command returns depends on
  the commands that ran before.
\<close>

section \<open>The machine\<close>

type_synonym command = "string list"

text \<open>The compilation database: the objects of the file, if there is one that can be read.\<close>

datatype database = NotFound | NoJson | Entries "(string \<rightharpoonup> string) list"

record lint_args =
  compile_db :: string
  tidy_tool :: string
  apply_tool :: string
  git_tool :: string
  source_dir :: string

text \<open>
  \<open>run\<close> is \<open>None\<close> where the program of the command does not exist; \<open>set_order\<close> is the order in which a
  set is walked, \<open>excluded\<close> whether the expression of the option finds something in a name.
\<close>

record lint_host =
  tool_version :: "string option"
  db :: database
  set_order :: "string list \<Rightarrow> string list"
  excluded :: "string \<Rightarrow> bool"
  lint_cwd :: string
  mkdtemp :: string
  mkstemp :: "command list \<Rightarrow> string"
  run :: "command list \<Rightarrow> command \<Rightarrow> int option"

datatype lint_end = SysExit int | NoTool string | LintRaised py_error

section \<open>The version of the tool\<close>

definition version_digit :: "char \<Rightarrow> bool" where
  "version_digit c \<longleftrightarrow> c \<in> set ''0123456789''"

text \<open>The regular expression at the beginning of a text, with its first group.\<close>

definition version_at :: "string \<Rightarrow> nat option" where
  "version_at s =
     (if \<not> prefix ''ersion'' s then None
      else
        let t = dropWhile is_space (drop 6 s); major = takeWhile version_digit t; t1 = dropWhile version_digit t;
            minor = takeWhile version_digit (tl t1); t2 = dropWhile version_digit (tl t1)
        in if major \<noteq> [] \<and> prefix ''.'' t1 \<and> minor \<noteq> [] \<and> prefix ''.'' t2 \<and> takeWhile version_digit (tl t2) \<noteq> []
           then read_digits 10 0 major else None)"

fun find_version :: "string \<Rightarrow> nat option" where
  "find_version [] = None"
| "find_version (c # cs) = (case version_at (c # cs) of Some n \<Rightarrow> Some n | None \<Rightarrow> find_version cs)"

definition has_ignore_insert_conflict :: "string \<Rightarrow> bool res" where
  "has_ignore_insert_conflict out =
     (case find_version (strip_chars is_space out) of None \<Rightarrow> Inl AttributeError | Some n \<Rightarrow> Inr (n > 14))"

section \<open>The files\<close>

definition make_absolute :: "string \<Rightarrow> string \<Rightarrow> string" where
  "make_absolute file path = (if isabs file then file else normpath (path_join path file))"

definition entry_file :: "(string \<rightharpoonup> string) \<Rightarrow> string res" where
  "entry_file e =
     (case e ''file'' of
        None \<Rightarrow> Inl (KeyError ''file'')
      | Some f \<Rightarrow> (case e ''directory'' of None \<Rightarrow> Inl (KeyError ''directory'') | Some d \<Rightarrow> Inr (make_absolute f d)))"

definition database_files :: "lint_host \<Rightarrow> string list res" where
  "database_files h =
     (case db h of
        Entries es \<Rightarrow> rbind (mapM entry_file es) (\<lambda>fs. Inr (set_order h (remdups fs)))
      | _ \<Rightarrow> Inr [])"

section \<open>The loop\<close>

definition tidy_command :: "lint_args \<Rightarrow> string \<Rightarrow> string \<Rightarrow> command" where
  "tidy_command a name f =
     [tidy_tool a, ''-header-filter=.*'', ''-export-fixes'', name, ''-p='' @ dirname (normpath (compile_db a)), f]"

definition fixer_command :: "lint_args \<Rightarrow> bool \<Rightarrow> string \<Rightarrow> command" where
  "fixer_command a ign tmpdir =
     [apply_tool a, ''--format'', ''--style=file'', ''--remove-change-desc-files''] @
     (if ign then [''--ignore-insert-conflict''] else []) @ [tmpdir]"

definition add_command :: "lint_args \<Rightarrow> command" where
  "add_command a = [git_tool a, ''add'', ''-u'']"

definition commit_command :: "lint_args \<Rightarrow> string \<Rightarrow> command" where
  "commit_command a rel = [git_tool a, ''commit'', ''-m'', ''clang-tidy: '' @ rel]"

text \<open>One round, on the commands that ran so far; it may end the script.\<close>

definition lint_file ::
    "lint_host \<Rightarrow> lint_args \<Rightarrow> bool \<Rightarrow> string \<Rightarrow> command list \<Rightarrow> command list \<times> lint_end option" where
  "lint_file h a ign f cs =
     (if excluded h f then (cs, None)
      else
        let tidy = tidy_command a (mkstemp h cs) f; fixer = fixer_command a ign (mkdtemp h);
            cs1 = cs @ [tidy]; cs2 = cs1 @ [fixer]; cs3 = cs2 @ [add_command a]
        in case run h cs tidy of
             None \<Rightarrow> (cs, Some (NoTool (tidy_tool a)))
           | Some k \<Rightarrow>
               (if k \<noteq> 0 then (cs1, Some (SysExit 1))
                else case run h cs1 fixer of
                       None \<Rightarrow> (cs1, Some (NoTool (apply_tool a)))
                     | Some k \<Rightarrow>
                         (if k \<noteq> 0 then (cs2, None)
                          else case run h cs2 (add_command a) of
                                 None \<Rightarrow> (cs2, Some (NoTool (git_tool a)))
                               | Some _ \<Rightarrow>
                                   (case relpath (lint_cwd h) f (abspath (lint_cwd h) (source_dir a)) of
                                      Inl e \<Rightarrow> (cs3, Some (LintRaised e))
                                    | Inr rel \<Rightarrow>
                                        (case run h cs3 (commit_command a rel) of
                                           None \<Rightarrow> (cs3, Some (NoTool (git_tool a)))
                                         | Some _ \<Rightarrow> (cs3 @ [commit_command a rel], None))))))"

fun lint_files ::
    "lint_host \<Rightarrow> lint_args \<Rightarrow> bool \<Rightarrow> string list \<Rightarrow> command list \<Rightarrow> command list \<times> lint_end option" where
  "lint_files h a ign [] cs = (cs, None)"
| "lint_files h a ign (f # fs) cs =
     (case lint_file h a ign f cs of
        (cs', None) \<Rightarrow> lint_files h a ign fs cs'
      | (cs', Some e) \<Rightarrow> (cs', Some e))"

text \<open>The script; the question for the version is no command of the loop.\<close>

definition fix_linter :: "lint_host \<Rightarrow> lint_args \<Rightarrow> command list \<times> lint_end option" where
  "fix_linter h a =
     (case tool_version h of
        None \<Rightarrow> ([], Some (NoTool (apply_tool a)))
      | Some out \<Rightarrow>
          (case has_ignore_insert_conflict out of
             Inl e \<Rightarrow> ([], Some (LintRaised e))
           | Inr ign \<Rightarrow>
               (case database_files h of
                  Inl e \<Rightarrow> ([], Some (LintRaised e))
                | Inr fs \<Rightarrow> if fs = [] then ([], Some (SysExit 1)) else lint_files h a ign fs [])))"

section \<open>What is committed\<close>

text \<open>The commands of a file that was fixed and committed, after the commands \<open>cs\<close>.\<close>

definition fixed_block :: "lint_host \<Rightarrow> lint_args \<Rightarrow> bool \<Rightarrow> string \<Rightarrow> command list \<Rightarrow> command list \<Rightarrow> bool" where
  "fixed_block h a ign f cs b \<longleftrightarrow>
     (\<exists>rel. b = [tidy_command a (mkstemp h cs) f, fixer_command a ign (mkdtemp h), add_command a, commit_command a rel] \<and>
        relpath (lint_cwd h) f (abspath (lint_cwd h) (source_dir a)) = Inr rel \<and> \<not> excluded h f \<and>
        run h cs (b ! 0) = Some 0 \<and> run h (cs @ take 1 b) (b ! 1) = Some 0)"

definition is_commit :: "lint_args \<Rightarrow> command \<Rightarrow> bool" where
  "is_commit a c \<longleftrightarrow> take 2 c = [git_tool a, ''commit'']"

text \<open>One list of commands per file, of which each commits nothing or is that of a fixed file.\<close>

definition lint_blocks :: "lint_host \<Rightarrow> lint_args \<Rightarrow> bool \<Rightarrow> string list \<Rightarrow> command list \<Rightarrow> command list list \<Rightarrow> bool" where
  "lint_blocks h a ign fs cs bs \<longleftrightarrow> length bs \<le> length fs \<and>
     (\<forall>k < length bs. fixed_block h a ign (fs ! k) (cs @ concat (take k bs)) (bs ! k) \<or>
        (\<forall>c \<in> set (bs ! k). \<not> is_commit a c))"

lemma lint_blocks_Nil: "lint_blocks h a ign fs cs []"
  by (simp add: lint_blocks_def)

lemma lint_blocks_Cons:
  assumes "fixed_block h a ign f cs b \<or> (\<forall>c \<in> set b. \<not> is_commit a c)" and "lint_blocks h a ign fs (cs @ b) bs"
  shows "lint_blocks h a ign (f # fs) cs (b # bs)"
  using assms by (auto simp: lint_blocks_def nth_Cons split: nat.split)

lemma not_commit [simp]:
  "\<not> is_commit a (tidy_command a n f)" "\<not> is_commit a (fixer_command a ign t)" "\<not> is_commit a (add_command a)"
  by (simp_all add: is_commit_def tidy_command_def fixer_command_def add_command_def numeral_2_eq_2)

lemma lint_file_block:
  obtains b where "fst (lint_file h a ign f cs) = cs @ b"
    and "fixed_block h a ign f cs b \<or> (\<forall>c \<in> set b. \<not> is_commit a c)"
proof -
  let ?t = "tidy_command a (mkstemp h cs) f" and ?x = "fixer_command a ign (mkdtemp h)"
  let ?ok = "\<lambda>b. fst (lint_file h a ign f cs) = cs @ b \<and> (fixed_block h a ign f cs b \<or> (\<forall>c \<in> set b. \<not> is_commit a c))"
  have "?ok [] \<or> ?ok [?t] \<or> ?ok [?t, ?x] \<or> ?ok [?t, ?x, add_command a] \<or>
    (\<exists>rel. ?ok [?t, ?x, add_command a, commit_command a rel])"
    unfolding lint_file_def fixed_block_def Let_def by (auto split: option.splits sum.splits)
  then show thesis using that by metis
qed

lemma lint_files_blocks:
  "\<exists>bs. fst (lint_files h a ign fs cs) = cs @ concat bs \<and> lint_blocks h a ign fs cs bs"
proof (induction fs arbitrary: cs)
  case Nil
  show ?case by (intro exI [of _ "[]"]) (simp add: lint_blocks_Nil)
next
  case (Cons f fs)
  obtain b where b: "fst (lint_file h a ign f cs) = cs @ b"
    and ok: "fixed_block h a ign f cs b \<or> (\<forall>c \<in> set b. \<not> is_commit a c)" by (rule lint_file_block)
  show ?case
  proof (cases "snd (lint_file h a ign f cs)")
    case None
    obtain bs where "fst (lint_files h a ign fs (cs @ b)) = (cs @ b) @ concat bs" "lint_blocks h a ign fs (cs @ b) bs"
      using Cons.IH by blast
    with None b show ?thesis
      by (intro exI [of _ "b # bs"]) (auto simp: lint_blocks_Cons [OF ok] split: prod.split option.split)
  next
    case (Some e)
    with b show ?thesis
      by (intro exI [of _ "[b]"]) (auto simp: lint_blocks_Cons [OF ok lint_blocks_Nil] split: prod.split option.split)
  qed
qed

section \<open>Properties\<close>

text \<open>C40: what the script runs falls into one part per file, in the order of the files; a part that
  commits is the whole sequence for a file that is not excluded: clang-tidy and the tool that applies
  the fixes, both with success, then adding what changed and committing it under the name of the file.\<close>

theorem commits_follow_fixes:
  assumes "fix_linter h a = (cs, r)" and "cs \<noteq> []"
  shows "\<exists>fs ign bs. database_files h = Inr fs \<and> cs = concat bs \<and> lint_blocks h a ign fs [] bs"
proof -
  obtain fs ign where "database_files h = Inr fs" and "lint_files h a ign fs [] = (cs, r)"
    using assms by (auto simp: fix_linter_def split: option.splits sum.splits if_splits)
  then show ?thesis using lint_files_blocks [of h a ign fs "[]"] by auto
qed

text \<open>Two files, the second of which is excluded.\<close>

definition quiet_host :: lint_host where
  "quiet_host = \<lparr>tool_version = Some ''clang version 16.0.6'',
     db = Entries [[''file'' \<mapsto> ''../src/a.cc'', ''directory'' \<mapsto> ''/w/build''], [''file'' \<mapsto> ''/w/b.cc'', ''directory'' \<mapsto> ''/w'']],
     set_order = (\<lambda>fs. fs), excluded = (\<lambda>f. f = ''/w/b.cc''), lint_cwd = ''/w'', mkdtemp = ''/tmp/t'',
     mkstemp = (\<lambda>_. ''/tmp/t/f.yaml''), run = (\<lambda>_ _. Some 0)\<rparr>"

definition plain_args :: lint_args where
  "plain_args = \<lparr>compile_db = ''build/compile_commands.json'', tidy_tool = ''clang-tidy'',
     apply_tool = ''clang-apply-replacements'', git_tool = ''git'', source_dir = ''.''\<rparr>"

lemma quiet_run: "fix_linter quiet_host plain_args =
   ([[''clang-tidy'', ''-header-filter=.*'', ''-export-fixes'', ''/tmp/t/f.yaml'', ''-p=build'', ''/w/src/a.cc''],
     [''clang-apply-replacements'', ''--format'', ''--style=file'', ''--remove-change-desc-files'',
      ''--ignore-insert-conflict'', ''/tmp/t''],
     [''git'', ''add'', ''-u''], [''git'', ''commit'', ''-m'', ''clang-tidy: src/a.cc'']], None)"
  by code_simp

corollary commits_follow_fixes_witness:
  "\<exists>fs ign bs cs. fix_linter quiet_host plain_args = (cs, None) \<and> cs \<noteq> [] \<and>
     database_files quiet_host = Inr fs \<and> cs = concat bs \<and> lint_blocks quiet_host plain_args ign fs [] bs"
  using commits_follow_fixes [OF quiet_run] quiet_run by blast

end
