(* ===== verification/Spec2Isabelle.thy ===== *)
theory Spec2Isabelle
  imports Map_Roundtrip Ua_Value_Facts Xml_Preprocessor_Facts Print_Text Macro_Facts Form_View Graph_Dot Binary_Repr
    Self_Signed Fix_Linter
begin

text \<open>
  The Python tools of the ChimeraTK OPC UA control system adapter.

  \<^bold>\<open>The program.\<close>  The adapter is a C++ library that publishes the variables of a ChimeraTK
  application on an OPC UA server; the Python code of the repository is its tools, in two
  families, and two scripts.

  The map file generator (src/tools/mapfileGenerator, Python 3.10) loads the variable tree an
  application writes as XML, loads an existing map file into it, lets the user rename, move,
  describe and exclude directories and variables, and saves the changes as a map file, which the
  server reads.  Its core is generatorClass.py; generatorForm.py is the Qt dialog on top of it.

  The namespace compiler (src/tools/pyUANamespace, Python 2) turns OPC UA node set files into C code
  for open62541: open62541_XMLPreprocessor.py gives every file a namespace index of its own,
  ua_namespace.py and ua_node_types.py build the graph of nodes, ua_builtin_types.py reads and prints
  the values of variables, open62541_MacroHelper.py prints the calls that create the nodes.

  The script create_self-signed.py (src/tools/certs) has openssl make a certificate for the addresses of
  the machine; fix-linter-for-all.py (src/cmake) has clang-tidy correct the C++ files and commits.

  \<^bold>\<open>Theories.\<close>

  \<^item> Py_Prelude: Python exceptions as values (\<open>py_error\<close>, \<open>res\<close>), loops that may raise (\<open>mapM\<close>, \<open>foldM\<close>),
    and the string and integer functions of Python the code uses.
  \<^item> Element_Tree: the lxml elements the generator builds and searches.  How lxml resolves a name
    with the \<open>namespaces\<close> argument is the parameter \<open>resolver\<close>.  The attributes are an instance of the
    interface \<open>attribute_store\<close>.
  \<^item> Map_Settings: \<open>HistorySetting\<close> and \<open>EncryptionSettings\<close>.  Map_Config: \<open>Config\<close>, written by
    \<open>createConfig\<close> and read by \<open>readConfig\<close>; the two are inverse on complete settings.
  \<^item> Map_Tree: \<open>XMLVar\<close> and \<open>XMLDirectory\<close>, their search functions and map file entries.  A Python
    reference to an object of the tree is its position (\<open>dir_ref\<close>, \<open>var_ref\<close>); assigning to the object is
    \<open>modify_dir\<close> or \<open>modify_var\<close>.  Map_Search: those are instances of the interface \<open>object_refs\<close>, and the
    search functions find exactly the object of a path.
  \<^item> Map_Parse: \<open>MapGenerator\<close>, with loading of an application and of a map file and the document
    \<open>save\<close> writes.  Map_Load: loading never touches the application's own data.  Map_Save: the
    skipped counters are exact.  Map_Roundtrip: which changes survive saving and loading.
  \<^item> Form_Panel: the settings in the window and the dialogs, each as the record of its widgets and
    what their handlers do to \<open>Config\<close>.  Form_Tree: the rows of the tree with their boxes, whose
    handlers run each other from a directory downwards.  Map_Form: \<open>MapGeneratorForm\<close>, one event per
    action of the user, and the states they lead to (\<open>form_reachable\<close>).  Form_Boxes: the interface
    \<open>row_handler\<close> of the handlers of a row, with \<open>frame_handler\<close> for those that exclude nothing.
    Form_Facts: the boxes follow the data.  Form_View: what the cells, the panel and the combo boxes
    show of the data.
  \<^item> Node_Id: \<open>opcua_node_id_t\<close>.  Xml_Dom: the minidom nodes.  Ua_Builtin: the builtin types, one
    record of constants, one reader and one printer per class.  Ua_Builtin_Facts: their values are
    well typed.  Ua_Value: values along an encoding, extension objects and the C code of a
    variable's value.  Ua_Value_Facts: their shape, and what the code declares and assigns.
  \<^item> Xml_Preprocessor: the documents of the preprocessor and its two stages.
    Xml_Preprocessor_Facts: indices are unique, and how references follow them.
  \<^item> Node_Graph: references and nodes of ua_node_types.py.  They point at each other, so both live in
    stores of the namespace record, and a Python reference is a position there.  Node_Parse: the
    readers of the node classes.  Namespace: \<open>opcua_namespace\<close>, from reading node sets over linking to
    the check of the graph.  Namespace_Read: reading keeps pointers and ids registered.
    Namespace_Link: what linking computes.  Namespace_Closure: the linked graph can be walked in
    both directions.  Namespace_Facts: the properties, for whatever the files give.
  \<^item> Type_Encoding: \<open>buildEncoding\<close> of the data types and the allocation of values.
    Type_Encoding_Facts: building ends.  Type_Convergence: encodable types lead to builtin types.
  \<^item> Node_Order: the order in which the nodes are printed.  Node_Order_Facts: the matrix of weights
    refines the greedy order, which puts a node before the nodes it refers to.
  \<^item> Macro_Helper: \<open>open62541_MacroHelper\<close>, the C statements that create ids, references and nodes.
    Class_Print: the statements of each node class.  Node_Print: \<open>printOpen62541CCode\<close>, with the
    references a node still has to print.  Namespace_Print: \<open>printOpen62541Header\<close>, and the script that
    reads the node sets and the lists of suppressed and ignored nodes.
  \<^item> Macro_Facts: the symbolic names, and the options that suppress output.  Print_Facts: what stays on
    the lists of nodes and references.  Print_Total: printing raises no exception where variables have
    no values, no node has two equal references and the two type references lead to no subtypes.
    Print_Text: what the printed lines say of the nodes and references.
  \<^item> Graph_Dot: the descriptions for graphviz, of the namespace and of the nodes around a node, and
    that this walk reaches exactly the nodes within its depth.  Binary_Repr: the table of slots and
    the number of a data type.
  \<^item> Self_Signed: the environment and the commands of create_self-signed.py.  Fix_Linter: the commands
    of fix-linter-for-all.py.  Py_Path: the functions on paths both use.

  \<^bold>\<open>Correspondence.\<close>  Definitions carry the names of the code.  A class is a record (or a datatype
  where objects contain objects), a method takes the object and returns it updated, \<open>None\<close> is \<open>None\<close>,
  an exception is \<open>Inl\<close>.  Python integers are \<open>int\<close>.  Strings are taken to be ASCII.  Log messages
  are left out, except where building one raises an exception.  The recursions over trees are
  structural or have a termination proof by size; the descent into an encoding ends by
  \<open>enc_measure\<close>.  Only \<open>buildEncoding\<close>, which walks the graph of the data types, is given fuel, one
  more than there are nodes, and \<open>build_terminates\<close> shows that this is always enough: every call marks
  a type that was not marked before.

  \<^bold>\<open>Parameters.\<close>  lxml's name resolution (\<open>resolver\<close>, with the hypothesis \<open>plain_names\<close> and the instance
  \<open>default_ns_resolver\<close>), opening a file, parsing an XML fragment, \<open>float()\<close> and the current time
  (\<open>py_env\<close>), and the order in which Python 2 walks a dictionary (\<open>key_order\<close>, with the hypothesis
  \<open>walks_keys\<close>) and the attributes of an XML element (\<open>attr_order\<close>, any function).  The printers add how \<open>str()\<close>
  writes lists, times and objects (\<open>py_str\<close>, any function) and the order in which Python 2
  walks the dictionary of namespaces, whose keys are numbers (\<open>walk_order\<close>, any function).  The
  machine the certificate script runs on is a record (\<open>host\<close>): its interfaces and their addresses, its
  name, its files, and what a command does to them.  For the linter script it is \<open>lint_host\<close>, where
  the result of a command may depend on the commands before it.

  \<^bold>\<open>What the theorems show.\<close>  Search is exact (findDir, findVar).  Configuration round trip and its
  refusals.  Loading a map file keeps the application's data and counts what it skips, among it every folder
  whose source name starts with a slash, against what the unit test expects.  Variable
  entries are stable under saving, loading and saving; moved folders come back; renamed folders
  and variables of the root directory do not, which is how the code behaves and is not meant.
  Node ids print texts that read back, except bytestring ids.  Values are well shaped; integers are
  printed as read; the texts of all builtin values and the code of flat structures are known exactly.  Namespace indices are
  unique; renumbered ids keep their texts in step; references, with their texts, are linked to the
  right document unless an index is at once new and still in use.  Reading registers every pointer and id; linking
  resolves exactly the pointers whose text names a node, and closes the graph under following
  references back; checking never fails on a linked namespace; encodings are built in finitely many
  steps and lead to builtin types, unless a type contains itself, which the code does not notice.
  The order of printing is the greedy one.  Printing returns under the conditions named above; where it
  returns, it creates every node but ignored ones and argument variables and states every reference of
  these nodes, but for those that come with a node added below its parent, those of a node to itself
  and those of the argument variables of methods; the names defined for ids are bounded
  and unique up to case; the list of nodes to remove removes nothing, since its lines keep their
  line break; of the attributes a user may suppress only the description has an effect, as the
  other names are compared in lower case.  The walk for graphviz writes each node near the root once, but
  the root possibly again.  A data type has the number 0 or that of the extension object; asking for
  the number of a builtin type raises an exception.  The certificate script leaves openssl the first two
  outer addresses of the machine; the linter script commits only what was fixed with success.

  In the window, boxes follow the data through every sequence of events, except those of empty
  directories; edits of a panel that was filled change one option each; and the theorems on errors
  show what is lost when the panel was not filled and when a map file is loaded twice.

  \<^bold>\<open>Qt.\<close>  A widget is the value it holds and whether it can be used.  The documented behaviour the
  handlers rest on is written into the model: a signal is emitted when a value changes and not
  otherwise, spin boxes keep to their range, \<open>setCurrentText\<close> and \<open>findText\<close> take the first entry with
  the text.  What the user does in a file chooser is part of the event.  Which row is at the top of
  the view, where \<open>itemAt\<close> looks, is an argument (\<open>seen\<close>) of the events that ask for it.

  \<^bold>\<open>Not modelled.\<close>  The C++ adapter, the layout in the generated UI classes, message boxes, file and
  XML printing, the two test classes of ua_namespace.py, the texts of objects for debugging, and the
  command line of the scripts, whose values are arguments here.
\<close>

end
